(* ===== verification/Pmxcfs_Prelude.thy ===== *)
theory Pmxcfs_Prelude
  imports Main "HOL-Library.Word" "HOL-Library.AList"
begin

text \<open>
  Shared vocabulary of the development: machine integers and bytes, the result type of
  fallible Rust code, little-endian encodings, slices, the string functions of Rust's standard
  library that the sources call, UTF-8 validation and the hash map.

  \<^item> \<open>u8\<close> to \<open>u64\<close> are words; \<open>usize\<close> is \<open>nat\<close>, with the 64-bit overflow checks of the
    sources written out where they occur.
  \<^item> \<open>('e, 'a) res\<close> is \<open>Result<T, E>\<close> with a third outcome, a panic.
  \<^item> A Rust \<open>String\<close> is a \<open>string\<close> whose characters are the bytes of its UTF-8 form, so
    \<open>length\<close> is Rust's \<open>len()\<close>; \<open>from_utf8\<close> refuses what Rust refuses.
  \<^item> A \<open>HashMap\<close> is an association list with distinct keys. The list order is one iteration
    order of the map; statements quantify over every such list, hence over every order.
\<close>

named_theorems codec_simps \<open>length and decoding equations of the wire formats\<close>
named_theorems hmap_simps \<open>lookup equations of the hash map operations\<close>

section \<open>Integers, results\<close>

type_synonym byte = "8 word"
type_synonym u8 = "8 word"
type_synonym u16 = "16 word"
type_synonym u32 = "32 word"
type_synonym u64 = "64 word"

datatype ('e, 'a) res = Ok 'a | Err 'e | Panic

fun is_ok :: "('e, 'a) res \<Rightarrow> bool" where
  "is_ok (Ok _) = True"
| "is_ok (Err _) = False"
| "is_ok Panic = False"

lemma is_ok_iff: "is_ok r \<longleftrightarrow> (\<exists>x. r = Ok x)"
  by (cases r) auto

lemma unat_bound: "unat (w :: 'a :: len word) < 2 ^ LENGTH('a)"
  by (rule unsigned_less)

lemma unat_bounds:
  "unat (x :: u8) < 256" "unat (a :: u16) < 65536" "unat (b :: u32) < 4294967296"
  "unat (c :: u64) < 18446744073709551616"
  using unat_bound [of x] unat_bound [of a] unat_bound [of b] unat_bound [of c]
  by simp_all

text \<open>\<open>usize::checked_add\<close> on a 64-bit target, and \<open>u64::saturating_sub\<close>.\<close>

definition usize_checked_add :: "nat \<Rightarrow> nat \<Rightarrow> nat option" where
  "usize_checked_add a b = (if a + b < 2 ^ 64 then Some (a + b) else None)"

definition u32_checked_add :: "u32 \<Rightarrow> u32 \<Rightarrow> u32 option" where
  "u32_checked_add a b = (if unat a + unat b < 2 ^ 32 then Some (a + b) else None)"

definition u64_saturating_sub :: "u64 \<Rightarrow> u64 \<Rightarrow> u64" where
  "u64_saturating_sub a b = (if a < b then 0 else a - b)"

lemma unat_u64_saturating_sub: "unat (u64_saturating_sub a b) = unat a - unat b"
  by (auto simp: u64_saturating_sub_def word_less_nat_alt unat_sub word_le_nat_alt)

lemma unat_u32_checked_add:
  "u32_checked_add a b = Some c \<Longrightarrow> unat c = unat a + unat b"
  by (auto simp: u32_checked_add_def unat_word_ariths split: if_splits)

section \<open>Slices\<close>

definition slice :: "nat \<Rightarrow> nat \<Rightarrow> 'a list \<Rightarrow> 'a list" where
  "slice a b xs = take (b - a) (drop a xs)"

lemma length_slice [simp]: "length (slice a b xs) = min (b - a) (length xs - a)"
  by (simp add: slice_def min.commute)

lemma slice_0 [simp]: "slice 0 b xs = take b xs"
  by (simp add: slice_def)

lemma slice_append_left:
  "b \<le> length xs \<Longrightarrow> slice a b (xs @ ys) = slice a b xs"
  by (simp add: slice_def)

lemma slice_append_right:
  "length xs \<le> a \<Longrightarrow> slice a b (xs @ ys) = slice (a - length xs) (b - length xs) ys"
  by (simp add: slice_def)

lemma slice_append_exact:
  "a = length xs \<Longrightarrow> b = length xs + length ys \<Longrightarrow> slice a b (xs @ ys @ zs) = ys"
  by (simp add: slice_def)

lemma slice_nonempty: "slice a b xs \<noteq> [] \<Longrightarrow> a < b"
  by (auto simp: slice_def)

lemma slice_all [simp]: "slice 0 (length xs) xs = xs"
  by simp

section \<open>Little-endian integers\<close>

fun nat_to_le :: "nat \<Rightarrow> nat \<Rightarrow> byte list" where
  "nat_to_le 0 x = []"
| "nat_to_le (Suc n) x = of_nat (x mod 256) # nat_to_le n (x div 256)"

fun nat_of_le :: "byte list \<Rightarrow> nat" where
  "nat_of_le [] = 0"
| "nat_of_le (b # bs) = unat b + 256 * nat_of_le bs"

lemma length_nat_to_le [simp, codec_simps]: "length (nat_to_le n x) = n"
  by (induction n arbitrary: x) auto

lemma unat_of_nat_byte: "unat (of_nat x :: byte) = x mod 256"
  by (simp add: unat_of_nat)

lemma nat_of_le_nat_to_le: "nat_of_le (nat_to_le n x) = x mod 256 ^ n"
proof (induction n arbitrary: x)
  case 0
  then show ?case by simp
next
  case (Suc n)
  have "x mod 256 ^ Suc n = x mod 256 + 256 * (x div 256 mod 256 ^ n)"
    using mod_mult2_eq [of x 256 "256 ^ n"] by simp
  then show ?case by (simp add: Suc.IH unat_of_nat_byte)
qed

lemma nat_of_le_bound: "nat_of_le bs < 256 ^ length bs"
proof (induction bs)
  case Nil
  then show ?case by simp
next
  case (Cons b bs)
  have "unat b < 256" by (rule unat_bounds)
  moreover have "nat_of_le bs + 1 \<le> 256 ^ length bs" using Cons.IH by simp
  ultimately show ?case by (simp add: algebra_simps)
qed

lemma nat_to_le_nat_of_le: "nat_to_le (length bs) (nat_of_le bs) = bs"
proof (induction bs)
  case Nil
  then show ?case by simp
next
  case (Cons b bs)
  have b: "unat b < 256" by (rule unat_bounds)
  then have "(unat b + 256 * nat_of_le bs) div 256 = nat_of_le bs"
    by (simp add: div_add1_eq)
  moreover have "of_nat (unat b mod 256) = b" using b by simp
  ultimately show ?case using Cons.IH by simp
qed

definition u16_to_le :: "u16 \<Rightarrow> byte list" where "u16_to_le w = nat_to_le 2 (unat w)"
definition u32_to_le :: "u32 \<Rightarrow> byte list" where "u32_to_le w = nat_to_le 4 (unat w)"
definition u64_to_le :: "u64 \<Rightarrow> byte list" where "u64_to_le w = nat_to_le 8 (unat w)"

definition u16_of_le :: "byte list \<Rightarrow> u16" where "u16_of_le bs = of_nat (nat_of_le bs)"
definition u32_of_le :: "byte list \<Rightarrow> u32" where "u32_of_le bs = of_nat (nat_of_le bs)"
definition u64_of_le :: "byte list \<Rightarrow> u64" where "u64_of_le bs = of_nat (nat_of_le bs)"

lemma length_to_le [simp, codec_simps]:
  "length (u16_to_le a) = 2" "length (u32_to_le b) = 4" "length (u64_to_le c) = 8"
  by (simp_all add: u16_to_le_def u32_to_le_def u64_to_le_def)

lemma of_le_to_le [simp, codec_simps]:
  "u16_of_le (u16_to_le a) = a" "u32_of_le (u32_to_le b) = b" "u64_of_le (u64_to_le c) = c"
  using unat_bounds(2) [of a] unat_bounds(3) [of b] unat_bounds(4) [of c]
  by (simp_all add: u16_of_le_def u16_to_le_def u32_of_le_def u32_to_le_def u64_of_le_def
      u64_to_le_def nat_of_le_nat_to_le)

lemma to_le_of_le:
  "length bs = 2 \<Longrightarrow> u16_to_le (u16_of_le bs) = bs"
  "length bs = 4 \<Longrightarrow> u32_to_le (u32_of_le bs) = bs"
  "length bs = 8 \<Longrightarrow> u64_to_le (u64_of_le bs) = bs"
  using nat_of_le_bound [of bs] nat_to_le_nat_of_le [of bs]
  by (simp_all add: u16_of_le_def u16_to_le_def u32_of_le_def u32_to_le_def u64_of_le_def
      u64_to_le_def unat_of_nat)

lemma u64_to_le_inject: "u64_to_le a = u64_to_le b \<Longrightarrow> a = b"
  using of_le_to_le(3) by metis

section \<open>Strings and UTF-8\<close>

definition byte_of_char :: "char \<Rightarrow> byte" where
  "byte_of_char c = of_nat (of_char c)"

definition char_of_byte :: "byte \<Rightarrow> char" where
  "char_of_byte b = char_of (unat b)"

lemma of_char_bound: "(of_char c :: nat) < 256"
  by (rule nat_of_char_less_256)

lemma char_of_byte_of_char [simp]: "char_of_byte (byte_of_char c) = c"
  using of_char_bound [of c] by (simp add: char_of_byte_def byte_of_char_def unat_of_nat)

lemma byte_of_char_of_byte [simp]: "byte_of_char (char_of_byte b) = b"
  using unat_bounds(1) [of b]
  by (simp add: char_of_byte_def byte_of_char_def)

definition as_bytes :: "string \<Rightarrow> byte list" where
  "as_bytes s = map byte_of_char s"

lemma length_as_bytes [simp, codec_simps]: "length (as_bytes s) = length s"
  by (simp add: as_bytes_def)

lemma as_bytes_Nil_iff [simp]: "as_bytes s = [] \<longleftrightarrow> s = []"
  by (simp add: as_bytes_def)

lemma as_bytes_inject: "as_bytes s = as_bytes t \<Longrightarrow> s = t"
proof -
  assume "as_bytes s = as_bytes t"
  then have "map char_of_byte (as_bytes s) = map char_of_byte (as_bytes t)" by simp
  then show "s = t" by (simp add: as_bytes_def comp_def)
qed

text \<open>Well-formed byte sequences of the Unicode standard, as \<open>std::str::from_utf8\<close> checks them.\<close>

definition utf8_cont :: "byte \<Rightarrow> bool" where
  "utf8_cont b \<longleftrightarrow> 0x80 \<le> b \<and> b \<le> 0xBF"

fun utf8_valid :: "byte list \<Rightarrow> bool" where
  "utf8_valid [] = True"
| "utf8_valid (b # bs) =
    (if b < 0x80 then utf8_valid bs
     else if 0xC2 \<le> b \<and> b \<le> 0xDF then
       (case bs of c1 # cs \<Rightarrow> utf8_cont c1 \<and> utf8_valid cs | [] \<Rightarrow> False)
     else if 0xE0 \<le> b \<and> b \<le> 0xEF then
       (case bs of c1 # c2 # cs \<Rightarrow>
          utf8_cont c1 \<and> (b = 0xE0 \<longrightarrow> 0xA0 \<le> c1) \<and> (b = 0xED \<longrightarrow> c1 \<le> 0x9F) \<and>
          utf8_cont c2 \<and> utf8_valid cs | _ \<Rightarrow> False)
     else if 0xF0 \<le> b \<and> b \<le> 0xF4 then
       (case bs of c1 # c2 # c3 # cs \<Rightarrow>
          utf8_cont c1 \<and> (b = 0xF0 \<longrightarrow> 0x90 \<le> c1) \<and> (b = 0xF4 \<longrightarrow> c1 \<le> 0x8F) \<and>
          utf8_cont c2 \<and> utf8_cont c3 \<and> utf8_valid cs | _ \<Rightarrow> False)
     else False)"

text \<open>The invariant of Rust's \<open>str\<close>.\<close>

definition valid_str :: "string \<Rightarrow> bool" where
  "valid_str s \<longleftrightarrow> utf8_valid (as_bytes s)"

definition from_utf8 :: "byte list \<Rightarrow> string option" where
  "from_utf8 bs = (if utf8_valid bs then Some (map char_of_byte bs) else None)"

lemma map_char_of_byte_as_bytes [simp]: "map char_of_byte (as_bytes s) = s"
  by (simp add: as_bytes_def comp_def)

lemma from_utf8_as_bytes [simp, codec_simps]: "valid_str s \<Longrightarrow> from_utf8 (as_bytes s) = Some s"
  by (simp add: from_utf8_def valid_str_def)

lemma as_bytes_map_char [simp]: "as_bytes (map char_of_byte bs) = bs"
  by (simp add: as_bytes_def comp_def)

lemma from_utf8_Some: "from_utf8 bs = Some s \<Longrightarrow> as_bytes s = bs \<and> valid_str s"
  by (auto simp: from_utf8_def valid_str_def split: if_splits)

definition ascii_str :: "string \<Rightarrow> bool" where
  "ascii_str s \<longleftrightarrow> (\<forall>b \<in> set (as_bytes s). b < 0x80)"

lemma utf8_valid_ascii: "\<forall>b \<in> set bs. b < 0x80 \<Longrightarrow> utf8_valid bs"
  by (induction bs) auto

lemma valid_str_ascii: "ascii_str s \<Longrightarrow> valid_str s"
  by (simp add: ascii_str_def valid_str_def utf8_valid_ascii)

section \<open>String functions of the standard library\<close>

fun split_on :: "char \<Rightarrow> string \<Rightarrow> string list" where
  "split_on c [] = [[]]"
| "split_on c (x # xs) =
    (if x = c then [] # split_on c xs
     else (case split_on c xs of [] \<Rightarrow> [[x]] | p # ps \<Rightarrow> (x # p) # ps))"

definition trim_start_matches :: "char \<Rightarrow> string \<Rightarrow> string" where
  "trim_start_matches c s = dropWhile (\<lambda>x. x = c) s"

definition trim_matches :: "char \<Rightarrow> string \<Rightarrow> string" where
  "trim_matches c s = rev (dropWhile (\<lambda>x. x = c) (rev (dropWhile (\<lambda>x. x = c) s)))"

definition starts_with :: "string \<Rightarrow> string \<Rightarrow> bool" where
  "starts_with s p \<longleftrightarrow> take (length p) s = p"

definition ends_with :: "string \<Rightarrow> string \<Rightarrow> bool" where
  "ends_with s p \<longleftrightarrow> length p \<le> length s \<and> drop (length s - length p) s = p"

definition strip_prefix :: "string \<Rightarrow> string \<Rightarrow> string option" where
  "strip_prefix s p = (if starts_with s p then Some (drop (length p) s) else None)"

definition strip_suffix :: "string \<Rightarrow> string \<Rightarrow> string option" where
  "strip_suffix s p = (if ends_with s p then Some (take (length s - length p) s) else None)"

fun rfind :: "char \<Rightarrow> string \<Rightarrow> nat option" where
  "rfind c [] = None"
| "rfind c (x # xs) =
    (case rfind c xs of Some i \<Rightarrow> Some (Suc i) | None \<Rightarrow> if x = c then Some 0 else None)"

fun contains_str :: "string \<Rightarrow> string \<Rightarrow> bool" where
  "contains_str [] p = (p = [])"
| "contains_str (x # xs) p = (starts_with (x # xs) p \<or> contains_str xs p)"

lemma split_on_nonempty [simp]: "split_on c s \<noteq> []"
  by (induction s) (auto split: list.splits)

lemma split_on_append:
  "split_on c (s @ c # t) = split_on c s @ split_on c t"
proof (induction s)
  case Nil
  then show ?case by simp
next
  case (Cons x xs)
  then show ?case by (cases "split_on c xs") auto
qed

lemma split_on_no_sep: "c \<notin> set s \<Longrightarrow> split_on c s = [s]"
  by (induction s) auto

lemma split_on_parts: "p \<in> set (split_on c s) \<Longrightarrow> c \<notin> set p"
proof (induction s arbitrary: p)
  case Nil
  then show ?case by simp
next
  case (Cons x xs)
  then show ?case by (cases "split_on c xs") (auto split: if_splits)
qed

lemma rfind_None: "rfind c s = None \<longleftrightarrow> c \<notin> set s"
  by (induction s) (auto split: option.splits)

lemma rfind_Some:
  "rfind c s = Some i \<Longrightarrow> i < length s \<and> s ! i = c \<and> c \<notin> set (drop (Suc i) s)"
proof (induction s arbitrary: i)
  case Nil
  then show ?case by simp
next
  case (Cons x xs)
  show ?case
  proof (cases "rfind c xs")
    case None
    with Cons.prems show ?thesis by (auto simp: rfind_None split: if_splits)
  next
    case (Some j)
    with Cons show ?thesis by auto
  qed
qed

lemma rfind_decompose:
  assumes "rfind c s = Some i"
  shows "s = take i s @ c # drop (Suc i) s" and "c \<notin> set (drop (Suc i) s)"
  using rfind_Some [OF assms] id_take_nth_drop [of i s] by auto

section \<open>Hash maps\<close>

type_synonym ('k, 'v) hmap = "('k \<times> 'v) list"

definition hm_get :: "('k, 'v) hmap \<Rightarrow> 'k \<Rightarrow> 'v option" where
  "hm_get m k = map_of m k"

definition hm_insert :: "'k \<Rightarrow> 'v \<Rightarrow> ('k, 'v) hmap \<Rightarrow> ('k, 'v) hmap" where
  "hm_insert k v m = AList.update k v m"

definition hm_remove :: "'k \<Rightarrow> ('k, 'v) hmap \<Rightarrow> ('k, 'v) hmap" where
  "hm_remove k m = AList.delete k m"

definition hm_values :: "('k, 'v) hmap \<Rightarrow> 'v list" where
  "hm_values m = map snd m"

definition hm_keys :: "('k, 'v) hmap \<Rightarrow> 'k list" where
  "hm_keys m = map fst m"

definition hm_ok :: "('k, 'v) hmap \<Rightarrow> bool" where
  "hm_ok m \<longleftrightarrow> distinct (map fst m)"

text \<open>
  The contract of a hash map, with the facts its clients use: a lookup sees the last insertion,
  removal forgets a key and every operation keeps the keys distinct.
\<close>

locale hash_map =
  fixes get :: "'m \<Rightarrow> 'k \<Rightarrow> 'v option"
    and insert :: "'k \<Rightarrow> 'v \<Rightarrow> 'm \<Rightarrow> 'm"
    and remove :: "'k \<Rightarrow> 'm \<Rightarrow> 'm"
    and ok :: "'m \<Rightarrow> bool"
  assumes get_insert: "get (insert k v m) k' = (if k' = k then Some v else get m k')"
    and get_remove: "get (remove k m) k' = (if k' = k then None else get m k')"
    and ok_insert: "ok m \<Longrightarrow> ok (insert k v m)"
    and ok_remove: "ok m \<Longrightarrow> ok (remove k m)"
begin

lemma get_insert_same: "get (insert k v m) k = Some v"
  by (simp add: get_insert)

lemma get_fold_insert:
  "get (fold (\<lambda>(k, v). insert k v) kvs m) k =
     (case map_of (rev kvs) k of Some v \<Rightarrow> Some v | None \<Rightarrow> get m k)"
  by (induction kvs arbitrary: m) (auto simp: get_insert split: option.splits)

lemma ok_fold_insert: "ok m \<Longrightarrow> ok (fold (\<lambda>(k, v). insert k v) kvs m)"
  by (induction kvs arbitrary: m) (auto simp: ok_insert)

end

interpretation hm: hash_map hm_get hm_insert hm_remove hm_ok
  by unfold_locales
    (auto simp: hm_get_def hm_insert_def hm_remove_def hm_ok_def update_conv' delete_conv'
      distinct_update distinct_delete)

declare hm.get_insert [simp, hmap_simps] hm.get_remove [simp, hmap_simps]
declare hm.ok_insert [simp, intro] hm.ok_remove [simp, intro]

lemma hm_get_Nil [simp, hmap_simps]: "hm_get [] k = None"
  by (simp add: hm_get_def)

lemma hm_ok_Nil [simp]: "hm_ok []"
  by (simp add: hm_ok_def)

lemma hm_get_iff: "hm_ok m \<Longrightarrow> hm_get m k = Some v \<longleftrightarrow> (k, v) \<in> set m"
  by (simp add: hm_get_def hm_ok_def map_of_eq_Some_iff)

lemma hm_values_iff: "hm_ok m \<Longrightarrow> v \<in> set (hm_values m) \<longleftrightarrow> (\<exists>k. hm_get m k = Some v)"
  by (force simp: hm_values_def hm_get_iff)

lemma hm_keys_iff: "k \<in> set (hm_keys m) \<longleftrightarrow> hm_get m k \<noteq> None"
  by (auto simp: hm_keys_def hm_get_def map_of_eq_None_iff)

end
