(* ===== verification/Tree_Entry.thy ===== *)
theory Tree_Entry
  imports Pmxcfs_Prelude
begin

text \<open>
  The entry of the file tree (\<open>pmxcfs-memdb/src/types.rs\<close>): the record, the update wire format
  the DFSM leader sends for one entry, and the byte string whose SHA-256 identifies an entry.
  SHA-256 itself (crate \<open>sha2\<close>) is a parameter of every definition that hashes.

  Native-endian conversions of the sources (\<open>to_ne_bytes\<close>) are little-endian here: the
  supported targets are little-endian.
\<close>

section \<open>Constants and the entry record\<close>

definition MEMDB_MAX_FILE_SIZE :: nat where "MEMDB_MAX_FILE_SIZE = 1024 * 1024"
definition MEMDB_MAX_FSSIZE :: nat where "MEMDB_MAX_FSSIZE = 128 * 1024 * 1024"
definition MEMDB_MAX_INODES :: nat where "MEMDB_MAX_INODES = 256 * 1024"
definition LOCK_TIMEOUT :: u64 where "LOCK_TIMEOUT = 120"
definition DT_DIR :: u8 where "DT_DIR = 4"
definition DT_REG :: u8 where "DT_REG = 8"
definition ROOT_INODE :: u64 where "ROOT_INODE = 0"
definition VERSION_FILENAME :: string where "VERSION_FILENAME = ''__version__''"
definition LOCK_DIR_PATH :: string where "LOCK_DIR_PATH = ''priv/lock''"

record LockInfo =
  li_ltime :: u64
  li_csum :: "byte list"

record TreeEntry =
  te_inode :: u64
  te_parent :: u64
  te_version :: u64
  te_writer :: u32
  te_mtime :: u32
  te_size :: nat
  te_entry_type :: u8
  te_name :: string
  te_data :: "byte list"

definition is_dir :: "TreeEntry \<Rightarrow> bool" where
  "is_dir e \<longleftrightarrow> te_entry_type e = DT_DIR"

definition is_file :: "TreeEntry \<Rightarrow> bool" where
  "is_file e \<longleftrightarrow> te_entry_type e = DT_REG"

lemma not_dir_and_file: "\<not> (is_dir e \<and> is_file e)"
  by (simp add: is_dir_def is_file_def DT_DIR_def DT_REG_def)

text \<open>
  What every entry the program builds satisfies: a known type, the cached size, no data in a
  directory, lengths that fit the wire format's 32-bit fields, a valid Rust string as name.
\<close>

definition te_wf :: "TreeEntry \<Rightarrow> bool" where
  "te_wf e \<longleftrightarrow>
     te_entry_type e \<in> {DT_DIR, DT_REG} \<and> te_size e = length (te_data e) \<and>
     te_size e < 2 ^ 32 \<and> (is_dir e \<longrightarrow> te_data e = []) \<and>
     length (te_name e) + 1 < 2 ^ 32 \<and> valid_str (te_name e)"

section \<open>The update wire format\<close>

definition serialize_for_update :: "TreeEntry \<Rightarrow> byte list" where
  "serialize_for_update e =
     (let namelen = of_nat (length (te_name e) + 1) :: u32 in
      u64_to_le (te_parent e) @ u64_to_le (te_inode e) @ u64_to_le (te_version e) @
      u32_to_le (te_writer e) @ u32_to_le (te_mtime e) @ u32_to_le (of_nat (te_size e)) @
      u32_to_le namelen @ [te_entry_type e] @
      as_bytes (te_name e) @ [0] @
      (if te_entry_type e = DT_REG \<and> te_data e \<noteq> [] then te_data e else []))"

datatype update_error =
    UpdateTooShort nat
  | InvalidEntryType u8
  | UpdateBodyTooShort nat nat
  | NameNotNullTerminated
  | InvalidUtf8Name

definition deserialize_from_update :: "byte list \<Rightarrow> (update_error, TreeEntry) res" where
  "deserialize_from_update data =
     (if length data < 41 then Err (UpdateTooShort (length data))
      else
        let parent = u64_of_le (slice 0 8 data);
            inode = u64_of_le (slice 8 16 data);
            version = u64_of_le (slice 16 24 data);
            writer = u32_of_le (slice 24 28 data);
            mtime = u32_of_le (slice 28 32 data);
            sz = unat (u32_of_le (slice 32 36 data));
            namelen = unat (u32_of_le (slice 36 40 data));
            entry_type = data ! 40
        in if entry_type \<noteq> DT_REG \<and> entry_type \<noteq> DT_DIR then Err (InvalidEntryType entry_type)
           else if length data < 41 + namelen + sz
             then Err (UpdateBodyTooShort (length data) (41 + namelen + sz))
           else
             let name_bytes = slice 41 (41 + namelen) data in
             if name_bytes = [] \<or> name_bytes ! (namelen - 1) \<noteq> 0 then Err NameNotNullTerminated
             else (case from_utf8 (take (namelen - 1) name_bytes) of
                 None \<Rightarrow> Err InvalidUtf8Name
               | Some name \<Rightarrow>
                   let data_vec =
                     (if entry_type = DT_REG \<and> sz > 0
                      then slice (41 + namelen) (41 + namelen + sz) data else [])
                   in Ok \<lparr>te_inode = inode, te_parent = parent, te_version = version,
                          te_writer = writer, te_mtime = mtime, te_size = sz,
                          te_entry_type = entry_type, te_name = name, te_data = data_vec\<rparr>))"

lemma length_serialize_for_update:
  "te_wf e \<Longrightarrow> length (serialize_for_update e) = 42 + length (te_name e) + te_size e"
  by (auto simp: serialize_for_update_def te_wf_def is_dir_def Let_def DT_DIR_def DT_REG_def)

lemma unat_of_nat_u32: "n < 2 ^ 32 \<Longrightarrow> unat (of_nat n :: u32) = n"
  by (simp add: unat_of_nat)

lemma update_decode_encode:
  assumes "te_wf e"
  shows "deserialize_from_update (serialize_for_update e @ rest) = Ok e"
proof -
  let ?nl = "length (te_name e) + 1"
  let ?d = "if te_entry_type e = DT_REG \<and> te_data e \<noteq> [] then te_data e else []"
  have nl: "unat (of_nat ?nl :: u32) = ?nl"
    using assms by (intro unat_of_nat_u32) (simp add: te_wf_def)
  have sz: "unat (of_nat (te_size e) :: u32) = te_size e"
    using assms by (intro unat_of_nat_u32) (simp add: te_wf_def)
  have d: "?d = te_data e" "length (te_data e) = te_size e"
    and ty: "te_entry_type e = DT_REG \<or> te_entry_type e = DT_DIR"
    and nm: "from_utf8 (as_bytes (te_name e)) = Some (te_name e)"
    and dir: "te_entry_type e \<noteq> DT_REG \<Longrightarrow> te_data e = []"
    using assms by (auto simp: te_wf_def is_dir_def)
  show ?thesis
    unfolding deserialize_from_update_def serialize_for_update_def Let_def
    using nl sz d ty nm dir
    by (cases e) (auto simp: slice_def nth_append DT_REG_def DT_DIR_def)
qed

text \<open>
  A well-formed tree entry survives the update wire format: what the leader serializes for
  one entry, a follower decodes to the same entry, whatever follows it in the buffer.
\<close>

theorem update_roundtrip:
  assumes "te_wf e"
  shows "deserialize_from_update (serialize_for_update e @ rest) = Ok e"
  using assms by (rule update_decode_encode)

text \<open>A regular file entry with content, used as the concrete entry of witnesses.\<close>

definition sample_file :: TreeEntry where
  "sample_file = \<lparr>te_inode = 7, te_parent = 0, te_version = 7, te_writer = 1, te_mtime = 1000,
     te_size = 2, te_entry_type = DT_REG, te_name = ''a.cfg'', te_data = [104, 105]\<rparr>"

lemma sample_file_wf: "te_wf sample_file"
  by (simp add: te_wf_def sample_file_def is_dir_def DT_DIR_def DT_REG_def valid_str_ascii
      ascii_str_def as_bytes_def byte_of_char_def)

theorem update_roundtrip_witness:
  "te_wf sample_file \<and>
   deserialize_from_update (serialize_for_update sample_file @ [1, 2]) = Ok sample_file"
  using update_roundtrip [OF sample_file_wf] sample_file_wf by simp

text \<open>The converse direction: decoding accepts only buffers that carry a well-formed entry,
  except that a directory may announce a size it has no data for.\<close>

lemma deserialize_from_update_Ok:
  assumes "deserialize_from_update data = Ok e"
  shows "te_entry_type e \<in> {DT_DIR, DT_REG}" and "valid_str (te_name e)"
    and "is_file e \<Longrightarrow> length (te_data e) = te_size e" and "is_dir e \<Longrightarrow> te_data e = []"
    and "te_size e < 2 ^ 32" and "length (te_name e) + 42 + te_size e \<le> length data"
proof -
  define sz nl where "sz = unat (u32_of_le (slice 32 36 data))"
    and "nl = unat (u32_of_le (slice 36 40 data))"
  note cond = assms [unfolded deserialize_from_update_def Let_def, folded sz_def nl_def]
  have ty: "data ! 40 = DT_REG \<or> data ! 40 = DT_DIR" and len: "41 + nl + sz \<le> length data"
    and ne: "slice 41 (41 + nl) data \<noteq> []"
    using cond by (simp_all split: if_split_asm)
  obtain name where nm: "from_utf8 (take (nl - 1) (slice 41 (41 + nl) data)) = Some name"
    and e: "te_name e = name" "te_size e = sz" "te_entry_type e = data ! 40"
      "te_data e = (if data ! 40 = DT_REG \<and> sz > 0 then slice (41 + nl) (41 + nl + sz) data else [])"
    using cond ty len ne by (simp split: if_split_asm option.split_asm) auto
  have "length name = nl - 1"
    using from_utf8_Some [OF nm] len by (auto dest!: arg_cong [where f = length])
  moreover have "0 < nl" using slice_nonempty [OF ne] by simp
  ultimately show "length (te_name e) + 42 + te_size e \<le> length data"
    using len e by simp
  show "te_entry_type e \<in> {DT_DIR, DT_REG}" "valid_str (te_name e)"
    using ty e from_utf8_Some [OF nm] by auto
  show "is_file e \<Longrightarrow> length (te_data e) = te_size e" "is_dir e \<Longrightarrow> te_data e = []"
    using e len by (auto simp: is_file_def is_dir_def DT_DIR_def DT_REG_def)
  show "te_size e < 2 ^ 32"
    using e unat_bounds(3) by (simp add: sz_def)
qed

section \<open>Checksums\<close>

definition checksum_bytes :: "TreeEntry \<Rightarrow> byte list" where
  "checksum_bytes e =
     u64_to_le (te_inode e) @ u64_to_le (te_version e) @ u32_to_le (te_writer e) @
     u32_to_le (te_mtime e) @ u32_to_le (of_nat (te_size e)) @ [te_entry_type e] @
     u64_to_le (te_parent e) @ as_bytes (te_name e) @
     (if te_data e \<noteq> [] then te_data e else [])"

definition compute_checksum :: "(byte list \<Rightarrow> byte list) \<Rightarrow> TreeEntry \<Rightarrow> byte list" where
  "compute_checksum sha256 e = sha256 (checksum_bytes e)"

lemma u32_to_le_of_nat_inject:
  assumes "u32_to_le (of_nat m) = u32_to_le (of_nat n)" and "m < 2 ^ 32" and "n < 2 ^ 32"
  shows "m = n"
proof -
  have "(of_nat m :: u32) = of_nat n"
    using assms(1) of_le_to_le(2) by metis
  then have "unat (of_nat m :: u32) = unat (of_nat n :: u32)" by simp
  then show ?thesis using assms(2,3) by (simp add: unat_of_nat_u32)
qed

lemma append_eq_sized:
  "xs @ ys = xs' @ ys' \<Longrightarrow> length ys = length ys' \<Longrightarrow> xs = xs' \<and> ys = ys'"
  by (simp add: append_eq_append_conv)

lemma to_le_inject [simp]:
  "u64_to_le a = u64_to_le b \<longleftrightarrow> a = b" "u32_to_le c = u32_to_le d \<longleftrightarrow> c = d"
  using of_le_to_le by metis+

text \<open>
  The string hashed for the lock checksum identifies a well-formed entry: although the name
  and the data are hashed back to back with no separator, the size field among the hashed
  metadata fixes the boundary, so two entries with the same hash input are the same entry.
\<close>

theorem checksum_bytes_inj:
  assumes "te_wf a" and "te_wf b" and "checksum_bytes a = checksum_bytes b"
  shows "a = b"
proof -
  have sizes: "te_size a < 2 ^ 32" "te_size b < 2 ^ 32"
    "length (te_data a) = te_size a" "length (te_data b) = te_size b"
    using assms(1,2) by (simp_all add: te_wf_def)
  have head: "te_inode a = te_inode b \<and> te_version a = te_version b \<and> te_writer a = te_writer b \<and>
      te_mtime a = te_mtime b \<and> (of_nat (te_size a) :: u32) = of_nat (te_size b) \<and>
      te_entry_type a = te_entry_type b \<and> te_parent a = te_parent b \<and>
      as_bytes (te_name a) @ te_data a = as_bytes (te_name b) @ te_data b"
    using assms(3) by (auto simp: checksum_bytes_def append_eq_append_conv split: if_splits)
  then have "u32_to_le (of_nat (te_size a)) = u32_to_le (of_nat (te_size b))" by simp
  then have sz: "te_size a = te_size b" using sizes by (rule_tac u32_to_le_of_nat_inject) auto
  then have "as_bytes (te_name a) = as_bytes (te_name b) \<and> te_data a = te_data b"
    using head sizes by (intro append_eq_sized) auto
  then show ?thesis
    using head sz by (cases a, cases b) (auto dest: as_bytes_inject)
qed

theorem checksum_bytes_inj_witness:
  "te_wf sample_file \<and> checksum_bytes sample_file = checksum_bytes sample_file \<and>
   sample_file = sample_file"
  using checksum_bytes_inj [OF sample_file_wf sample_file_wf refl] sample_file_wf by simp

end
