(* ===== verification/Mem_Index.thy ===== *)
theory Mem_Index
  imports Tree_Entry
begin

text \<open>
  The state index nodes exchange during synchronization (\<open>pmxcfs-memdb/src/index.rs\<close>): the
  \<open>(inode, digest)\<close> entries, the wire format, the order used to choose the synchronization
  leader and the merge loop that finds the entries a follower lacks.
\<close>

section \<open>Fixed-width codecs\<close>

text \<open>
  The loop that reads \<open>n\<close> consecutive \<open>w\<close>-byte records, \<open>&data[offset..offset + w]\<close> each time;
  a slice that runs past the end of the buffer panics.
\<close>

fun parse_chunks ::
  "nat \<Rightarrow> (byte list \<Rightarrow> ('e, 'a) res) \<Rightarrow> nat \<Rightarrow> byte list \<Rightarrow> nat \<Rightarrow> ('e, 'a list) res" where
  "parse_chunks w dec 0 data offset = Ok []"
| "parse_chunks w dec (Suc n) data offset =
    (if length data < offset + w then Panic
     else (case dec (slice offset (offset + w) data) of
         Panic \<Rightarrow> Panic
       | Err e \<Rightarrow> Err e
       | Ok x \<Rightarrow> (case parse_chunks w dec n data (offset + w) of
             Panic \<Rightarrow> Panic | Err e \<Rightarrow> Err e | Ok xs \<Rightarrow> Ok (x # xs))))"

locale fixed_codec =
  fixes enc :: "'a \<Rightarrow> byte list"
    and dec :: "byte list \<Rightarrow> ('e, 'a) res"
    and w :: nat
    and wf :: "'a \<Rightarrow> bool"
  assumes enc_length: "wf x \<Longrightarrow> length (enc x) = w"
    and dec_enc: "wf x \<Longrightarrow> dec (enc x) = Ok x"
begin

lemma length_concat_enc: "list_all wf xs \<Longrightarrow> length (concat (map enc xs)) = w * length xs"
  by (induction xs) (auto simp: enc_length)

lemma parse_chunks_concat:
  "list_all wf xs \<Longrightarrow>
   parse_chunks w dec (length xs) (pre @ concat (map enc xs) @ post) (length pre) = Ok xs"
proof (induction xs arbitrary: pre)
  case Nil
  then show ?case by simp
next
  case (Cons x xs)
  then have x: "length (enc x) = w" "dec (enc x) = Ok x" and xs: "list_all wf xs"
    by (auto simp: enc_length dec_enc)
  have "parse_chunks w dec (length xs) ((pre @ enc x) @ concat (map enc xs) @ post)
          (length (pre @ enc x)) = Ok xs"
    by (rule Cons.IH [OF xs])
  then show ?case
    using x by (simp add: slice_def)
qed

end

lemma parse_chunks_short:
  "0 < n \<Longrightarrow> length data < offset + w \<Longrightarrow> parse_chunks w dec n data offset = Panic"
  by (cases n) auto

section \<open>Index entries\<close>

record IndexEntry =
  ie_inode :: u64
  ie_digest :: "byte list"

datatype index_error =
    EntryTooShort nat
  | IndexTooShort nat
  | BytesMismatch u32 u32
  | DataTooShort nat u32

definition ie_serialize :: "IndexEntry \<Rightarrow> byte list" where
  "ie_serialize e = u64_to_le (ie_inode e) @ ie_digest e"

definition ie_deserialize :: "byte list \<Rightarrow> (index_error, IndexEntry) res" where
  "ie_deserialize data =
     (if length data < 40 then Err (EntryTooShort (length data))
      else Ok \<lparr>ie_inode = u64_of_le (slice 0 8 data), ie_digest = slice 8 40 data\<rparr>)"

definition ie_wf :: "IndexEntry \<Rightarrow> bool" where
  "ie_wf e \<longleftrightarrow> length (ie_digest e) = 32"

interpretation ie_codec: fixed_codec ie_serialize ie_deserialize 40 ie_wf
  by unfold_locales (auto simp: ie_serialize_def ie_deserialize_def ie_wf_def slice_def)

section \<open>The index\<close>

record MemDbIndex =
  ix_version :: u64
  ix_last_inode :: u64
  ix_writer :: u32
  ix_mtime :: u32
  ix_size :: u32
  ix_bytes :: u32
  ix_entries :: "IndexEntry list"

definition MEMDB_INDEX_HEADER_SIZE :: u32 where "MEMDB_INDEX_HEADER_SIZE = 32"
definition MEMDB_INDEX_ENTRY_SIZE :: u32 where "MEMDB_INDEX_ENTRY_SIZE = 40"

definition index_new :: "u64 \<Rightarrow> u64 \<Rightarrow> u32 \<Rightarrow> u32 \<Rightarrow> IndexEntry list \<Rightarrow> MemDbIndex" where
  "index_new version last_inode writer mtime entries =
     (let sorted_entries = sort_key ie_inode entries;
          sz = of_nat (length sorted_entries) :: u32
      in \<lparr>ix_version = version, ix_last_inode = last_inode, ix_writer = writer,
          ix_mtime = mtime, ix_size = sz,
          ix_bytes = MEMDB_INDEX_HEADER_SIZE + sz * MEMDB_INDEX_ENTRY_SIZE,
          ix_entries = sorted_entries\<rparr>)"

definition index_serialize :: "MemDbIndex \<Rightarrow> byte list" where
  "index_serialize ix =
     u64_to_le (ix_version ix) @ u64_to_le (ix_last_inode ix) @ u32_to_le (ix_writer ix) @
     u32_to_le (ix_mtime ix) @ u32_to_le (ix_size ix) @ u32_to_le (ix_bytes ix) @
     concat (map ie_serialize (ix_entries ix))"

definition index_deserialize :: "byte list \<Rightarrow> (index_error, MemDbIndex) res" where
  "index_deserialize data =
     (if length data < 32 then Err (IndexTooShort (length data))
      else
        let version = u64_of_le (slice 0 8 data);
            last_inode = u64_of_le (slice 8 16 data);
            writer = u32_of_le (slice 16 20 data);
            mtime = u32_of_le (slice 20 24 data);
            sz = u32_of_le (slice 24 28 data);
            bytes = u32_of_le (slice 28 32 data);
            expected_bytes = 32 + sz * 40
        in if bytes \<noteq> expected_bytes then Err (BytesMismatch bytes expected_bytes)
           else if length data < unat bytes then Err (DataTooShort (length data) bytes)
           else (case parse_chunks 40 ie_deserialize (unat sz) data 32 of
               Panic \<Rightarrow> Panic
             | Err e \<Rightarrow> Err e
             | Ok entries \<Rightarrow>
                 Ok \<lparr>ix_version = version, ix_last_inode = last_inode, ix_writer = writer,
                     ix_mtime = mtime, ix_size = sz, ix_bytes = bytes,
                     ix_entries = entries\<rparr>))"

text \<open>An index as \<open>MemDbIndex::new\<close> builds it, small enough for its 32-bit byte count.\<close>

definition ix_wf :: "MemDbIndex \<Rightarrow> bool" where
  "ix_wf ix \<longleftrightarrow> list_all ie_wf (ix_entries ix) \<and> 32 + 40 * length (ix_entries ix) < 2 ^ 32 \<and>
     ix_size ix = of_nat (length (ix_entries ix)) \<and>
     ix_bytes ix = MEMDB_INDEX_HEADER_SIZE + ix_size ix * MEMDB_INDEX_ENTRY_SIZE"

lemma ix_bytes_value:
  assumes "ix_wf ix"
  shows "unat (ix_size ix) = length (ix_entries ix)"
    and "unat (ix_bytes ix) = 32 + 40 * length (ix_entries ix)"
proof -
  let ?n = "length (ix_entries ix)"
  have n: "32 + 40 * ?n < 2 ^ 32" and sz: "ix_size ix = of_nat ?n"
    and bt: "ix_bytes ix = of_nat (32 + 40 * ?n)"
    using assms by (auto simp: ix_wf_def MEMDB_INDEX_HEADER_SIZE_def MEMDB_INDEX_ENTRY_SIZE_def)
  show "unat (ix_size ix) = ?n" using n sz by (simp add: unat_of_nat)
  show "unat (ix_bytes ix) = 32 + 40 * ?n" using n by (simp only: bt unat_of_nat) simp
qed

lemma index_new_wf:
  "list_all ie_wf entries \<Longrightarrow> 32 + 40 * length entries < 2 ^ 32 \<Longrightarrow>
   ix_wf (index_new v l w m entries)"
  by (simp add: index_new_def ix_wf_def Let_def list_all_iff)

lemma index_decode_encode:
  assumes "ix_wf ix"
  shows "index_deserialize (index_serialize ix) = Ok ix \<and>
         length (index_serialize ix) = unat (ix_bytes ix)"
proof -
  let ?hd = "u64_to_le (ix_version ix) @ u64_to_le (ix_last_inode ix) @ u32_to_le (ix_writer ix) @
     u32_to_le (ix_mtime ix) @ u32_to_le (ix_size ix) @ u32_to_le (ix_bytes ix)"
  have es: "list_all ie_wf (ix_entries ix)" using assms by (simp add: ix_wf_def)
  have len: "length (index_serialize ix) = unat (ix_bytes ix)"
    using ie_codec.length_concat_enc [OF es] ix_bytes_value [OF assms]
    by (simp add: index_serialize_def)
  have "parse_chunks 40 ie_deserialize (length (ix_entries ix)) (index_serialize ix) 32
      = Ok (ix_entries ix)"
    using ie_codec.parse_chunks_concat [OF es, of ?hd "[]"] by (simp add: index_serialize_def)
  then have "parse_chunks 40 ie_deserialize (unat (ix_size ix)) (index_serialize ix) 32
      = Ok (ix_entries ix)"
    using ix_bytes_value [OF assms] by simp
  moreover have "ix_bytes ix = 32 + ix_size ix * 40"
    using assms by (simp add: ix_wf_def MEMDB_INDEX_HEADER_SIZE_def MEMDB_INDEX_ENTRY_SIZE_def)
  moreover have "32 \<le> length (index_serialize ix)" by (simp add: index_serialize_def)
  ultimately show ?thesis
    using len
    by (cases ix) (simp add: index_deserialize_def Let_def, simp add: index_serialize_def slice_def)
qed

text \<open>
  The index a node sends as its state is decoded to the same index by every receiver, and its
  length is the byte count the header announces.
\<close>

theorem index_roundtrip:
  assumes "ix_wf ix"
  shows "index_deserialize (index_serialize ix) = Ok ix \<and>
         length (index_serialize ix) = unat (ix_bytes ix)"
  using assms by (rule index_decode_encode)

definition sample_index :: MemDbIndex where
  "sample_index = index_new 9 7 1 1000
     [\<lparr>ie_inode = 7, ie_digest = replicate 32 1\<rparr>, \<lparr>ie_inode = 0, ie_digest = replicate 32 2\<rparr>]"

lemma sample_index_wf: "ix_wf sample_index"
  unfolding sample_index_def by (rule index_new_wf) (simp_all add: ie_wf_def)

theorem index_roundtrip_witness:
  "ix_wf sample_index \<and> index_deserialize (index_serialize sample_index) = Ok sample_index"
  using index_roundtrip [OF sample_index_wf] sample_index_wf by simp

text \<open>
  The size check of \<open>MemDbIndex::deserialize\<close> is computed modulo \<open>2 ^ 32\<close>, so a header that
  announces \<open>2 ^ 29\<close> entries in 32 bytes passes it (the product \<open>size * 40\<close> is a multiple of
  \<open>2 ^ 32\<close>) and reading the first entry runs past the buffer: any such message, however short
  its body, makes the receiver panic instead of returning an error.
\<close>

theorem index_deserialize_overflow_panics:
  assumes "length hdr = 24" and "length body < 40"
  shows "index_deserialize (hdr @ u32_to_le 0x20000000 @ u32_to_le 32 @ body) = Panic"
proof -
  let ?data = "hdr @ u32_to_le 0x20000000 @ u32_to_le 32 @ body"
  have "parse_chunks 40 ie_deserialize (unat (0x20000000 :: u32)) ?data 32 = Panic"
    using assms by (intro parse_chunks_short) auto
  then show ?thesis
    using assms by (simp add: index_deserialize_def Let_def slice_def)
qed

theorem index_deserialize_overflow_panics_witness:
  "index_deserialize (replicate 24 0 @ u32_to_le 0x20000000 @ u32_to_le 32 @ []) = Panic"
  by (rule index_deserialize_overflow_panics) simp_all

section \<open>Choosing the leader\<close>

datatype ordering = Less | Equal | Greater

definition word_cmp :: "'a :: len word \<Rightarrow> 'a word \<Rightarrow> ordering" where
  "word_cmp a b = (if a < b then Less else if a = b then Equal else Greater)"

definition index_cmp :: "MemDbIndex \<Rightarrow> MemDbIndex \<Rightarrow> ordering" where
  "index_cmp a b =
     (case word_cmp (ix_version a) (ix_version b) of
        Equal \<Rightarrow> word_cmp (ix_mtime a) (ix_mtime b)
      | c \<Rightarrow> c)"

definition index_key :: "MemDbIndex \<Rightarrow> nat" where
  "index_key ix = unat (ix_version ix) * 2 ^ 32 + unat (ix_mtime ix)"

lemma index_cmp_key:
  "index_cmp a b = (if index_key a < index_key b then Less
     else if index_key a = index_key b then Equal else Greater)"
  using unat_bounds(3) [of "ix_mtime a"] unat_bounds(3) [of "ix_mtime b"]
  by (auto simp: index_cmp_def word_cmp_def index_key_def word_less_nat_alt
      word_unat_eq_iff split: ordering.splits)

section \<open>Difference detection\<close>

function diff_advance :: "IndexEntry list \<Rightarrow> nat \<Rightarrow> u64 \<Rightarrow> nat" where
  "diff_advance es j inode =
     (if j < length es \<and> ie_inode (es ! j) < inode then diff_advance es (Suc j) inode else j)"
  by pat_completeness auto
termination
  by (relation "measure (\<lambda>(es, j, inode). length es - j)") auto

declare diff_advance.simps [simp del]

fun diff_loop :: "IndexEntry list \<Rightarrow> IndexEntry list \<Rightarrow> nat \<Rightarrow> u64 list" where
  "diff_loop [] slave j = []"
| "diff_loop (m # ms) slave j =
    (let j' = diff_advance slave j (ie_inode m) in
     if j' < length slave \<and> ie_inode (slave ! j') = ie_inode m \<and>
        ie_digest (slave ! j') = ie_digest m
     then diff_loop ms slave j'
     else ie_inode m # diff_loop ms slave j')"

definition find_differences :: "MemDbIndex \<Rightarrow> MemDbIndex \<Rightarrow> u64 list" where
  "find_differences self other = diff_loop (ix_entries self) (ix_entries other) 0"

lemma diff_advance_step:
  "diff_advance es j inode =
     (if j < length es \<and> ie_inode (es ! j) < inode then diff_advance es (Suc j) inode else j)"
  by (rule diff_advance.simps)

lemma diff_advance_below:
  "j \<le> i \<Longrightarrow> i < diff_advance es j inode \<Longrightarrow> i < length es \<and> ie_inode (es ! i) < inode"
proof (induction es j inode rule: diff_advance.induct)
  case (1 es j inode)
  show ?case
  proof (cases "j < length es \<and> ie_inode (es ! j) < inode")
    case True
    with 1 show ?thesis by (cases "i = j") (auto simp: diff_advance_step [of es j])
  next
    case False
    with 1(2,3) show ?thesis by (auto simp: diff_advance_step [of es j] split: if_splits)
  qed
qed

lemma diff_advance_at:
  "diff_advance es j inode < length es \<Longrightarrow> inode \<le> ie_inode (es ! diff_advance es j inode)"
proof (induction es j inode rule: diff_advance.induct)
  case (1 es j inode)
  then show ?case
    by (cases "j < length es \<and> ie_inode (es ! j) < inode")
      (auto simp: diff_advance_step [of es j] not_less split: if_splits)
qed

text \<open>The entries before the slave pointer are below every master entry still to come.\<close>

definition diff_inv :: "IndexEntry list \<Rightarrow> IndexEntry list \<Rightarrow> nat \<Rightarrow> bool" where
  "diff_inv ms slave j \<longleftrightarrow>
     (\<forall>i < j. i < length slave \<longrightarrow> (\<forall>m \<in> set ms. ie_inode (slave ! i) < ie_inode m))"

lemma diff_advance_mem:
  assumes "sorted (map ie_inode slave)" and "distinct (map ie_inode slave)"
    and "diff_inv (m # ms) slave j"
  defines "j' \<equiv> diff_advance slave j (ie_inode m)"
  shows "(j' < length slave \<and> ie_inode (slave ! j') = ie_inode m \<and>
          ie_digest (slave ! j') = ie_digest m) \<longleftrightarrow> m \<in> set slave"
proof
  assume "j' < length slave \<and> ie_inode (slave ! j') = ie_inode m \<and>
          ie_digest (slave ! j') = ie_digest m"
  then show "m \<in> set slave" by (metis IndexEntry.equality nth_mem old.unit.exhaust)
next
  assume "m \<in> set slave"
  then obtain i where i: "i < length slave" "slave ! i = m" by (auto simp: in_set_conv_nth)
  have "j' \<le> i"
  proof (rule ccontr)
    assume "\<not> j' \<le> i"
    then have "ie_inode (slave ! i) < ie_inode m"
      using assms(3) i diff_advance_below [of j i slave "ie_inode m"]
      by (cases "i < j") (auto simp: diff_inv_def j'_def)
    with i show False by simp
  qed
  then have "ie_inode (slave ! j') \<le> ie_inode m"
    using sorted_nth_mono [OF assms(1), of j' i] i by simp
  then have "ie_inode (slave ! j') = ie_inode m"
    using diff_advance_at [of slave j "ie_inode m"] \<open>j' \<le> i\<close> i
    by (auto simp: j'_def intro: order.antisym)
  then have "map ie_inode slave ! j' = map ie_inode slave ! i" using i \<open>j' \<le> i\<close> by simp
  then have "j' = i"
    using i \<open>j' \<le> i\<close> by (subst (asm) nth_eq_iff_index_eq [OF assms(2)]) simp_all
  with i show "j' < length slave \<and> ie_inode (slave ! j') = ie_inode m \<and>
          ie_digest (slave ! j') = ie_digest m" by simp
qed

lemma diff_loop_spec:
  "sorted (map ie_inode ms) \<Longrightarrow> sorted (map ie_inode slave) \<Longrightarrow> distinct (map ie_inode slave) \<Longrightarrow>
   diff_inv ms slave j \<Longrightarrow> diff_loop ms slave j = map ie_inode (filter (\<lambda>m. m \<notin> set slave) ms)"
proof (induction ms arbitrary: j)
  case Nil
  then show ?case by simp
next
  case (Cons m ms)
  define j' where "j' = diff_advance slave j (ie_inode m)"
  have "diff_inv ms slave j'"
    unfolding diff_inv_def
  proof (intro allI impI ballI)
    fix i m2 assume i: "i < j'" "i < length slave" and m2: "m2 \<in> set ms"
    then have "ie_inode m \<le> ie_inode m2" using Cons.prems(1) by simp
    then show "ie_inode (slave ! i) < ie_inode m2"
      using Cons.prems(4) i m2 diff_advance_below [of j i slave "ie_inode m"]
      by (cases "i < j") (auto simp: diff_inv_def j'_def dest: order.strict_trans2)
  qed
  then have "diff_loop ms slave j' = map ie_inode (filter (\<lambda>m. m \<notin> set slave) ms)"
    using Cons by simp
  moreover have "(j' < length slave \<and> ie_inode (slave ! j') = ie_inode m \<and>
      ie_digest (slave ! j') = ie_digest m) \<longleftrightarrow> m \<in> set slave"
    unfolding j'_def by (rule diff_advance_mem [OF Cons.prems(2-4)])
  ultimately show ?case
    by (simp add: Let_def j'_def [symmetric])
qed

text \<open>
  The single-pass merge loop computes exactly the inodes of the leader's entries that the
  follower does not hold with the same digest, in inode order.
\<close>

theorem find_differences_spec:
  assumes "sorted (map ie_inode (ix_entries master))"
    and "sorted (map ie_inode (ix_entries slave))"
    and "distinct (map ie_inode (ix_entries slave))"
  shows "find_differences master slave =
         map ie_inode (filter (\<lambda>m. m \<notin> set (ix_entries slave)) (ix_entries master))"
  unfolding find_differences_def
  by (rule diff_loop_spec) (use assms in \<open>auto simp: diff_inv_def\<close>)

definition sample_slave :: MemDbIndex where
  "sample_slave = index_new 8 0 1 900 [\<lparr>ie_inode = 0, ie_digest = replicate 32 2\<rparr>]"

theorem find_differences_spec_witness:
  "find_differences sample_index sample_slave = [7]"
  by (subst find_differences_spec)
    (simp_all add: sample_index_def sample_slave_def index_new_def Let_def)

end
