(* ===== verification/Mem_Db.thy ===== *)
theory Mem_Db
  imports Tree_Entry
begin

text \<open>
  The in-memory database with SQLite persistence (\<open>pmxcfs-memdb/src/database.rs\<close>) and the lock
  cache it updates (\<open>locks.rs\<close>, the part \<open>create\<close> calls).

  \<^item> SQLite (crate \<open>rusqlite\<close>) is the parameter \<open>sq\<close>: opening a transaction, executing one
    statement in it, committing, and reading the table; each may fail. A transaction that is
    dropped is rolled back, so the database value is replaced only by a commit.
    The statements are those of the sources, as data.
  \<^item> SHA-256 is the parameter \<open>sha\<close>, the clock the argument \<open>now\<close> (seconds since the epoch).
  \<^item> An operation returns its result and the new state; errors change the state too (the version
    counter is bumped before the transaction starts, the error flag is set when it fails).
  \<^item> The operations are those of one thread: every mutation of the sources runs under the write
    guard, and \<open>delete\<close>, \<open>rename\<close> and \<open>set_mtime\<close> look the path up just before taking it.
\<close>

unbundle bit_operations_syntax

section \<open>The SQLite interface\<close>

record row =
  r_inode :: u64
  r_parent :: u64
  r_version :: u64
  r_writer :: u32
  r_mtime :: u32
  r_type :: u8
  r_name :: string
  r_data :: "byte list option"

datatype sql_stmt =
    UpdateMeta u64 u32 u32 u64 \<comment> \<open>SET version, writer, mtime WHERE inode\<close>
  | UpdateData u64 u32 u32 "byte list" u64 \<comment> \<open>SET version, writer, mtime, data WHERE inode\<close>
  | UpdateMove u64 string u64 u32 u32 u64 \<comment> \<open>SET parent, name, version, writer, mtime WHERE inode\<close>
  | UpdateVersion u64 u64 \<comment> \<open>SET version WHERE inode\<close>
  | InsertRow row
  | ReplaceRow row
  | DeleteRow u64
  | DeleteAll

record 'db sqlite =
  sq_schema :: "'db \<Rightarrow> 'db option" \<comment> \<open>the CREATE TABLE batch\<close>
  sq_begin :: "'db \<Rightarrow> 'db option"
  sq_exec :: "sql_stmt \<Rightarrow> 'db \<Rightarrow> 'db option"
  sq_commit :: "'db \<Rightarrow> 'db option"
  sq_select :: "'db \<Rightarrow> row list option"

fun exec_all :: "'db sqlite \<Rightarrow> sql_stmt list \<Rightarrow> 'db \<Rightarrow> 'db option" where
  "exec_all sq [] db = Some db"
| "exec_all sq (s # ss) db =
    (case sq_exec sq s db of None \<Rightarrow> None | Some db' \<Rightarrow> exec_all sq ss db')"

section \<open>State and errors\<close>

record 'db MemDb =
  db_conn :: 'db
  db_index :: "(u64, TreeEntry) hmap"
  db_tree :: "(u64, (string, u64) hmap) hmap"
  db_root_inode :: u64
  db_version :: u64
  db_locks :: "(string, LockInfo) hmap"
  db_errors :: bool

datatype mem_error =
    DatabaseHasErrors | AlreadyExists | EACCES | EmptyPath | ParentNotFound
  | ParentNotDirectory | MaxInodes | BeginFailed | VersionUpdateFailed | MutationFailed
  | CommitFailed | NotFound | IsDirectory | NotDirectory | DirectoryCorrupted | DirectoryNotEmpty
  | OffsetOverflow | FileTooLarge | FsSizeOverflow | FsTooLarge | RootProtected
  | LockOlderMtime | LockWrongOwner | RootMissing | SelectFailed | LockHeld | LockNameMissing
  | LockNameTraversal | LockChecksumMismatch | NoLock | CorosyncNotFile | CorosyncNotUtf8
  | CorosyncWriteFailed | OpenFailed | SchemaFailed

type_synonym ('db, 'a) memop = "(mem_error, 'a) res \<times> 'db MemDb"

section \<open>The tree of names\<close>

definition tree_link ::
  "u64 \<Rightarrow> string \<Rightarrow> u64 \<Rightarrow> (u64, (string, u64) hmap) hmap \<Rightarrow> (u64, (string, u64) hmap) hmap" where
  "tree_link p n i t =
     hm_insert p (hm_insert n i (case hm_get t p of None \<Rightarrow> [] | Some ch \<Rightarrow> ch)) t"

definition tree_unlink ::
  "u64 \<Rightarrow> string \<Rightarrow> (u64, (string, u64) hmap) hmap \<Rightarrow> (u64, (string, u64) hmap) hmap" where
  "tree_unlink p n t =
     (case hm_get t p of None \<Rightarrow> t | Some ch \<Rightarrow> hm_insert p (hm_remove n ch) t)"

definition tree_ensure ::
  "u64 \<Rightarrow> (u64, (string, u64) hmap) hmap \<Rightarrow> (u64, (string, u64) hmap) hmap" where
  "tree_ensure i t = (case hm_get t i of None \<Rightarrow> hm_insert i [] t | Some _ \<Rightarrow> t)"

section \<open>Paths\<close>

definition path_parts :: "string \<Rightarrow> string list" where
  "path_parts path = filter (\<lambda>s. s \<noteq> []) (split_on (CHR ''/'') path)"

fun walk :: "(u64, (string, u64) hmap) hmap \<Rightarrow> string list \<Rightarrow> u64 \<Rightarrow> u64 option" where
  "walk t [] current = Some current"
| "walk t (part # parts) current =
    (case hm_get t current of
       None \<Rightarrow> None
     | Some children \<Rightarrow> (case hm_get children part of
           None \<Rightarrow> None
         | Some i \<Rightarrow> walk t parts i))"

definition lookup_path :: "'db MemDb \<Rightarrow> string \<Rightarrow> TreeEntry option" where
  "lookup_path m path =
     (if path = '''' \<or> path = ''/'' \<or> path = ''.'' then hm_get (db_index m) (db_root_inode m)
      else (case walk (db_tree m) (path_parts path) (db_root_inode m) of
          None \<Rightarrow> None
        | Some i \<Rightarrow> hm_get (db_index m) i))"

definition normalize_path :: "string \<Rightarrow> string" where
  "normalize_path path =
     (if path = '''' \<or> path = ''/'' \<or> path = ''.'' then ''/''
      else let trimmed = trim_matches (CHR ''/'') path in
           if trimmed = '''' then ''/'' else ''/'' @ trimmed)"

definition split_path :: "string \<Rightarrow> (mem_error, string \<times> string) res" where
  "split_path path =
     (if path = '''' then Err EmptyPath
      else let np = normalize_path path in
        (case rfind (CHR ''/'') np of
           Some pos \<Rightarrow> Ok (if pos = 0 then ''/'' else take pos np, drop (pos + 1) np)
         | None \<Rightarrow> Ok (''/'', np)))"

definition is_lock_dir :: "string \<Rightarrow> bool" where
  "is_lock_dir path \<longleftrightarrow>
     (let p = trim_start_matches (CHR ''/'') path in
      starts_with p ''priv/lock/'' \<and> length p > 10)"

definition path_exists :: "'db MemDb \<Rightarrow> string \<Rightarrow> bool" where
  "path_exists m path \<longleftrightarrow> lookup_path m path \<noteq> None"

definition get_entry_by_inode :: "'db MemDb \<Rightarrow> u64 \<Rightarrow> TreeEntry option" where
  "get_entry_by_inode m inode = hm_get (db_index m) inode"

section \<open>Lock cache keys\<close>

definition is_lock_path :: "string \<Rightarrow> bool" where
  "is_lock_path path \<longleftrightarrow>
     (let p = trim_start_matches (CHR ''/'') path; lock_prefix = LOCK_DIR_PATH @ ''/'' in
      starts_with p lock_prefix \<and> length p > length lock_prefix)"

definition lock_cache_key :: "string \<Rightarrow> string" where
  "lock_cache_key path =
     (let trimmed = trim_start_matches (CHR ''/'') path in
      if starts_with trimmed LOCK_DIR_PATH then trimmed else LOCK_DIR_PATH @ ''/'' @ trimmed)"

definition lock_key_and_path :: "string \<Rightarrow> string \<times> string" where
  "lock_key_and_path path = (let k = lock_cache_key path in (k, ''/'' @ k))"

definition lock_expired ::
  "u64 \<Rightarrow> string \<Rightarrow> byte list \<Rightarrow> 'db MemDb \<Rightarrow> bool \<times> 'db MemDb" where
  "lock_expired now path csum m =
     (let lock_key = fst (lock_key_and_path path) in
      case hm_get (db_locks m) lock_key of
        Some info \<Rightarrow>
          if li_csum info \<noteq> csum then
            (False, m\<lparr>db_locks := hm_insert lock_key \<lparr>li_ltime = now, li_csum = csum\<rparr> (db_locks m)\<rparr>)
          else (u64_saturating_sub now (li_ltime info) > LOCK_TIMEOUT, m)
      | None \<Rightarrow>
          (False, m\<lparr>db_locks := hm_insert lock_key \<lparr>li_ltime = now, li_csum = csum\<rparr> (db_locks m)\<rparr>))"

section \<open>Mutations\<close>

text \<open>\<open>update_root_metadata\<close>: stamp the root entry, if it is there.\<close>

definition update_root_metadata ::
  "u64 \<Rightarrow> u64 \<Rightarrow> u32 \<Rightarrow> u32 \<Rightarrow> (u64, TreeEntry) hmap \<Rightarrow> (u64, TreeEntry) hmap" where
  "update_root_metadata root version writer mtime idx =
     (case hm_get idx root of
        None \<Rightarrow> idx
      | Some e \<Rightarrow> hm_insert root (e\<lparr>te_version := version, te_writer := writer, te_mtime := mtime\<rparr>) idx)"

text \<open>
  The transaction of every mutation: bump the version, update the \<open>__version__\<close> row, run the
  statements (which get the new version), commit, stamp the root entry. \<open>create\<close> and \<open>write\<close>
  have the same code inline because they hold the write guard already.
\<close>

definition mutate ::
  "'db sqlite \<Rightarrow> u32 \<Rightarrow> u32 \<Rightarrow> (u64 \<Rightarrow> sql_stmt list) \<Rightarrow> 'db MemDb \<Rightarrow> ('db, u64) memop" where
  "mutate sq writer mtime f m =
     (let new_version = db_version m + 1;
          m1 = m\<lparr>db_version := new_version\<rparr>
      in case sq_begin sq (db_conn m) of
           None \<Rightarrow> (Err BeginFailed, m1)
         | Some tx \<Rightarrow>
             (case sq_exec sq (UpdateMeta new_version writer mtime ROOT_INODE) tx of
                None \<Rightarrow> (Err VersionUpdateFailed, m1)
              | Some tx1 \<Rightarrow>
                  (case exec_all sq (f new_version) tx1 of
                     None \<Rightarrow> (Err MutationFailed, m1\<lparr>db_errors := True\<rparr>)
                   | Some tx2 \<Rightarrow>
                       (case sq_commit sq tx2 of
                          None \<Rightarrow> (Err CommitFailed, m1\<lparr>db_errors := True\<rparr>)
                        | Some db' \<Rightarrow>
                            (Ok new_version,
                             m1\<lparr>db_conn := db',
                                db_index := update_root_metadata (db_root_inode m) new_version
                                              writer mtime (db_index m)\<rparr>)))))"

definition with_mutation ::
  "'db sqlite \<Rightarrow> u32 \<Rightarrow> u32 \<Rightarrow> (u64 \<Rightarrow> sql_stmt list) \<Rightarrow> 'db MemDb \<Rightarrow> ('db, u64) memop" where
  "with_mutation sq writer mtime f m =
     (if db_errors m then (Err DatabaseHasErrors, m) else mutate sq writer mtime f m)"

definition row_of_entry :: "TreeEntry \<Rightarrow> row" where
  "row_of_entry e =
     \<lparr>r_inode = te_inode e, r_parent = te_parent e, r_version = te_version e,
      r_writer = te_writer e, r_mtime = te_mtime e, r_type = te_entry_type e,
      r_name = te_name e, r_data = (if is_dir e then None else Some (te_data e))\<rparr>"

definition S_IFDIR :: u32 where "S_IFDIR = 0x4000"
definition S_IFREG :: u32 where "S_IFREG = 0x8000"

definition create ::
  "'db sqlite \<Rightarrow> (byte list \<Rightarrow> byte list) \<Rightarrow> u64 \<Rightarrow> string \<Rightarrow> u32 \<Rightarrow> u32 \<Rightarrow> u32 \<Rightarrow> 'db MemDb
   \<Rightarrow> ('db, unit) memop" where
  "create sq sha now path mode writer mtime m =
     (if db_errors m then (Err DatabaseHasErrors, m)
      else if path_exists m path then (Err AlreadyExists, m)
      else case split_path path of
        Panic \<Rightarrow> (Panic, m)
      | Err e \<Rightarrow> (Err e, m)
      | Ok (parent_path, basename) \<Rightarrow>
          if basename = '''' \<or> basename = ''.'' \<or> basename = ''..'' then (Err EACCES, m)
          else case lookup_path m parent_path of
            None \<Rightarrow> (Err ParentNotFound, m)
          | Some parent_entry \<Rightarrow>
              if \<not> is_dir parent_entry then (Err ParentNotDirectory, m)
              else if length (db_index m) \<ge> MEMDB_MAX_INODES then (Err MaxInodes, m)
              else
                let entry_type = (if mode AND S_IFDIR \<noteq> 0 then DT_DIR else DT_REG);
                    entry = (\<lambda>v. \<lparr>te_inode = v, te_parent = te_inode parent_entry, te_version = v,
                                  te_writer = writer, te_mtime = mtime, te_size = 0,
                                  te_entry_type = entry_type, te_name = basename, te_data = []\<rparr>)
                in case mutate sq writer mtime (\<lambda>v. [InsertRow (row_of_entry (entry v))]) m of
                  (Ok v, m1) \<Rightarrow>
                    let e = entry v;
                        t1 = tree_link (te_inode parent_entry) basename v (db_tree m1);
                        m2 = m1\<lparr>db_index := hm_insert v e (db_index m1),
                               db_tree := (if is_dir e then hm_insert v [] t1 else t1)\<rparr>;
                        m3 = (if is_dir e \<and> parent_path = LOCK_DIR_PATH
                              then snd (lock_expired now path (compute_checksum sha e) m2) else m2)
                    in (Ok (), m3)
                | (Err e, m1) \<Rightarrow> (Err e, m1)
                | (Panic, m1) \<Rightarrow> (Panic, m1))"

definition total_file_size :: "'db MemDb \<Rightarrow> nat" where
  "total_file_size m = sum_list (map te_size (filter is_file (hm_values (db_index m))))"

definition read :: "'db MemDb \<Rightarrow> string \<Rightarrow> u64 \<Rightarrow> nat \<Rightarrow> (mem_error, byte list) res" where
  "read m path offset len =
     (case lookup_path m path of
        None \<Rightarrow> Err NotFound
      | Some e \<Rightarrow>
          if is_dir e then Err IsDirectory
          else if unat offset \<ge> length (te_data e) then Ok []
          else if unat offset + len \<ge> 2 ^ 64 then Panic
          else Ok (slice (unat offset) (min (unat offset + len) (length (te_data e))) (te_data e)))"

text \<open>The new content: truncate to the offset, zero-fill up to the end, overwrite the range.\<close>

definition write_data :: "byte list \<Rightarrow> nat \<Rightarrow> byte list \<Rightarrow> bool \<Rightarrow> byte list" where
  "write_data old offset new trunc =
     (let d1 = (if trunc then take offset old else old);
          end_offset = offset + length new;
          d2 = d1 @ replicate (end_offset - length d1) 0
      in take offset d2 @ new @ drop end_offset d2)"

definition write_op ::
  "'db sqlite \<Rightarrow> string \<Rightarrow> u64 \<Rightarrow> u32 \<Rightarrow> u32 \<Rightarrow> byte list \<Rightarrow> bool \<Rightarrow> 'db MemDb
   \<Rightarrow> ('db, nat) memop" where
  "write_op sq path offset writer mtime data trunc m =
     (if db_errors m then (Err DatabaseHasErrors, m)
      else case lookup_path m path of
        None \<Rightarrow> (Err NotFound, m)
      | Some e \<Rightarrow>
          if is_dir e then (Err IsDirectory, m)
          else case usize_checked_add (unat offset) (length data) of
            None \<Rightarrow> (Err OffsetOverflow, m)
          | Some end_offset \<Rightarrow>
              if end_offset > MEMDB_MAX_FILE_SIZE then (Err FileTooLarge, m)
              else
                let size_delta = end_offset - length (te_data e);
                    new_total = usize_checked_add (total_file_size m) size_delta
                in if size_delta > 0 \<and> new_total = None then (Err FsSizeOverflow, m)
                   else if size_delta > 0 \<and> the new_total > MEMDB_MAX_FSSIZE then (Err FsTooLarge, m)
                   else
                     let d = write_data (te_data e) (unat offset) data trunc;
                         upd = (\<lambda>v. e\<lparr>te_data := d, te_size := length d, te_mtime := mtime,
                                     te_writer := writer, te_version := v\<rparr>)
                     in case mutate sq writer mtime
                             (\<lambda>v. [UpdateData v writer mtime d (te_inode e)]) m of
                          (Ok v, m1) \<Rightarrow>
                            (Ok (length data),
                             m1\<lparr>db_index := hm_insert (te_inode e) (upd v) (db_index m1)\<rparr>)
                        | (Err er, m1) \<Rightarrow> (Err er, m1)
                        | (Panic, m1) \<Rightarrow> (Panic, m1))"

definition set_mtime ::
  "'db sqlite \<Rightarrow> (byte list \<Rightarrow> byte list) \<Rightarrow> u64 \<Rightarrow> string \<Rightarrow> u32 \<Rightarrow> u32 \<Rightarrow> 'db MemDb
   \<Rightarrow> ('db, unit) memop" where
  "set_mtime sq sha now path writer mtime m =
     (case lookup_path m path of
        None \<Rightarrow> (Err NotFound, m)
      | Some e \<Rightarrow>
          if te_inode e = db_root_inode m then (Err RootProtected, m)
          else case split_path path of
            Panic \<Rightarrow> (Panic, m)
          | Err er \<Rightarrow> (Err er, m)
          | Ok (parent_path, _) \<Rightarrow>
              let is_lock = (trim_start_matches (CHR ''/'') parent_path = LOCK_DIR_PATH \<and> is_dir e) in
              if is_lock \<and> mtime < te_mtime e then (Err LockOlderMtime, m)
              else if is_lock \<and> te_writer e \<noteq> writer then (Err LockWrongOwner, m)
              else case with_mutation sq writer mtime
                          (\<lambda>v. [UpdateMeta v writer mtime (te_inode e)]) m of
                (Ok v, m1) \<Rightarrow>
                  let e' = e\<lparr>te_version := v, te_writer := writer, te_mtime := mtime\<rparr>;
                      m2 = m1\<lparr>db_index := hm_insert (te_inode e) e' (db_index m1)\<rparr>;
                      m3 = (if is_lock
                            then m2\<lparr>db_locks := hm_insert path
                                     \<lparr>li_ltime = now, li_csum = compute_checksum sha e'\<rparr>
                                     (hm_remove path (db_locks m2))\<rparr>
                            else m2)
                  in (Ok (), m3)
              | (Err er, m1) \<Rightarrow> (Err er, m1)
              | (Panic, m1) \<Rightarrow> (Panic, m1))"

definition readdir :: "'db MemDb \<Rightarrow> string \<Rightarrow> (mem_error, TreeEntry list) res" where
  "readdir m path =
     (case lookup_path m path of
        None \<Rightarrow> Err NotFound
      | Some e \<Rightarrow>
          if \<not> is_dir e then Err NotDirectory
          else case hm_get (db_tree m) (te_inode e) of
            None \<Rightarrow> Err DirectoryCorrupted
          | Some children \<Rightarrow>
              Ok (List.map_filter (hm_get (db_index m)) (hm_values children)))"

definition delete ::
  "'db sqlite \<Rightarrow> string \<Rightarrow> u32 \<Rightarrow> u32 \<Rightarrow> 'db MemDb \<Rightarrow> ('db, unit) memop" where
  "delete sq path writer mtime m =
     (case lookup_path m path of
        None \<Rightarrow> (Err NotFound, m)
      | Some e \<Rightarrow>
          if te_inode e = db_root_inode m then (Err RootProtected, m)
          else if is_dir e \<and> (case hm_get (db_tree m) (te_inode e) of
                                 None \<Rightarrow> False | Some children \<Rightarrow> children \<noteq> [])
            then (Err DirectoryNotEmpty, m)
          else case with_mutation sq writer mtime (\<lambda>v. [DeleteRow (te_inode e)]) m of
            (Ok v, m1) \<Rightarrow>
              let t1 = tree_unlink (te_parent e) (te_name e) (db_tree m1) in
              (Ok (),
               m1\<lparr>db_index := hm_remove (te_inode e) (db_index m1),
                  db_tree := (if is_dir e then hm_remove (te_inode e) t1 else t1),
                  db_locks := (if is_dir e then hm_remove path (db_locks m1) else db_locks m1)\<rparr>)
          | (Err er, m1) \<Rightarrow> (Err er, m1)
          | (Panic, m1) \<Rightarrow> (Panic, m1))"

definition rename ::
  "'db sqlite \<Rightarrow> string \<Rightarrow> string \<Rightarrow> u32 \<Rightarrow> u32 \<Rightarrow> 'db MemDb \<Rightarrow> ('db, unit) memop" where
  "rename sq old_path new_path writer mtime m =
     (case lookup_path m old_path of
        None \<Rightarrow> (Err NotFound, m)
      | Some e \<Rightarrow>
          if te_inode e = db_root_inode m then (Err RootProtected, m)
          else if is_dir e \<and> is_lock_dir old_path then (Err EACCES, m)
          else
            let target = map_option te_inode (lookup_path m new_path) in
            case split_path new_path of
              Panic \<Rightarrow> (Panic, m)
            | Err er \<Rightarrow> (Err er, m)
            | Ok (new_parent_path, new_basename) \<Rightarrow>
                (case lookup_path m new_parent_path of
                   None \<Rightarrow> (Err ParentNotFound, m)
                 | Some np \<Rightarrow>
                     if \<not> is_dir np then (Err ParentNotDirectory, m)
                     else
                       let e' = (\<lambda>v. e\<lparr>te_parent := te_inode np, te_name := new_basename,
                                      te_writer := writer, te_mtime := mtime, te_version := v\<rparr>)
                       in case with_mutation sq writer mtime
                            (\<lambda>v. (case target of None \<Rightarrow> [] | Some ti \<Rightarrow> [DeleteRow ti]) @
                                 [UpdateMove (te_inode np) new_basename v writer mtime (te_inode e)]) m of
                         (Ok v, m1) \<Rightarrow>
                           let idx1 = (case target of None \<Rightarrow> db_index m1
                                       | Some ti \<Rightarrow> hm_remove ti (db_index m1));
                               t1 = tree_unlink (te_parent e) (te_name e) (db_tree m1)
                           in (Ok (),
                               m1\<lparr>db_index := hm_insert (te_inode e) (e' v) idx1,
                                  db_tree := tree_link (te_inode np) new_basename (te_inode e) t1\<rparr>)
                       | (Err er, m1) \<Rightarrow> (Err er, m1)
                       | (Panic, m1) \<Rightarrow> (Panic, m1)))"

section \<open>Whole-database operations\<close>

definition get_all_entries :: "'db MemDb \<Rightarrow> TreeEntry list" where
  "get_all_entries m = hm_values (db_index m)"

definition get_version :: "'db MemDb \<Rightarrow> u64" where
  "get_version m = db_version m"

definition get_version_entry :: "'db MemDb \<Rightarrow> (mem_error, TreeEntry) res" where
  "get_version_entry m =
     (case hm_get (db_index m) (db_root_inode m) of
        None \<Rightarrow> Err RootMissing
      | Some root \<Rightarrow>
          Ok \<lparr>te_inode = ROOT_INODE, te_parent = ROOT_INODE, te_version = te_version root,
              te_writer = te_writer root, te_mtime = te_mtime root, te_size = 0,
              te_entry_type = DT_REG, te_name = VERSION_FILENAME, te_data = []\<rparr>)"

definition entry_of_row :: "row \<Rightarrow> TreeEntry" where
  "entry_of_row r =
     (let data_vec = (case r_data r of None \<Rightarrow> [] | Some d \<Rightarrow> d) in
      \<lparr>te_inode = r_inode r, te_parent = r_parent r, te_version = r_version r,
       te_writer = r_writer r, te_mtime = r_mtime r, te_size = length data_vec,
       te_entry_type = r_type r, te_name = r_name r, te_data = data_vec\<rparr>)"

record load_state =
  ls_index :: "(u64, TreeEntry) hmap"
  ls_tree :: "(u64, (string, u64) hmap) hmap"
  ls_root :: TreeEntry
  ls_max_version :: u64

definition load_row :: "load_state \<Rightarrow> row \<Rightarrow> load_state" where
  "load_row s r =
     (let entry = entry_of_row r in
      if te_inode entry = ROOT_INODE then
        if te_name entry = VERSION_FILENAME then
          s\<lparr>ls_root := (ls_root s)\<lparr>te_version := te_version entry, te_writer := te_writer entry,
                                  te_mtime := te_mtime entry\<rparr>,
            ls_max_version := max (ls_max_version s) (te_version entry)\<rparr>
        else s
      else
        let t1 = tree_link (te_parent entry) (te_name entry) (te_inode entry) (ls_tree s) in
        s\<lparr>ls_max_version := max (ls_max_version s) (te_version entry),
          ls_tree := (if is_dir entry then tree_ensure (te_inode entry) t1 else t1),
          ls_index := hm_insert (te_inode entry) entry (ls_index s)\<rparr>)"

definition load_init :: "u32 \<Rightarrow> load_state" where
  "load_init now =
     \<lparr>ls_index = [], ls_tree = [],
      ls_root = \<lparr>te_inode = ROOT_INODE, te_parent = ROOT_INODE, te_version = 0, te_writer = 0,
                 te_mtime = now, te_size = 0, te_entry_type = DT_DIR, te_name = [],
                 te_data = []\<rparr>,
      ls_max_version = 0\<rparr>"

definition load_from_db :: "'db sqlite \<Rightarrow> u32 \<Rightarrow> 'db \<Rightarrow> (mem_error, load_state) res" where
  "load_from_db sq now conn =
     (case sq_select sq conn of
        None \<Rightarrow> Err SelectFailed
      | Some rows \<Rightarrow>
          let s = foldl load_row (load_init now) rows;
              s1 = (if te_version (ls_root s) = 0
                    then s\<lparr>ls_root := (ls_root s)\<lparr>te_version := 1\<rparr>, ls_max_version := 1\<rparr> else s)
          in Ok (s1\<lparr>ls_index := hm_insert ROOT_INODE (ls_root s1) (ls_index s1),
                    ls_tree := tree_ensure ROOT_INODE (ls_tree s1)\<rparr>))"

text \<open>The state that \<open>open\<close> builds from what was loaded, before it fills the lock cache.\<close>

definition memdb_of_load :: "'db \<Rightarrow> load_state \<Rightarrow> 'db MemDb" where
  "memdb_of_load conn s =
     \<lparr>db_conn = conn, db_index = ls_index s, db_tree = ls_tree s, db_root_inode = ROOT_INODE,
      db_version = ls_max_version s, db_locks = [], db_errors = False\<rparr>"

definition version_row :: "u64 \<Rightarrow> u32 \<Rightarrow> u32 \<Rightarrow> row" where
  "version_row version writer mtime =
     \<lparr>r_inode = ROOT_INODE, r_parent = ROOT_INODE, r_version = version, r_writer = writer,
      r_mtime = mtime, r_type = DT_REG, r_name = VERSION_FILENAME, r_data = None\<rparr>"

text \<open>\<open>init_schema\<close>: create the tables and insert the version row, outside a transaction.\<close>

definition init_schema :: "'db sqlite \<Rightarrow> u32 \<Rightarrow> 'db \<Rightarrow> (mem_error, 'db) res" where
  "init_schema sq now conn =
     (case sq_schema sq conn of
        None \<Rightarrow> Err SchemaFailed
      | Some conn1 \<Rightarrow>
          (case sq_exec sq (InsertRow (version_row 1 0 now)) conn1 of
             None \<Rightarrow> Err MutationFailed
           | Some conn2 \<Rightarrow> Ok conn2))"

definition add_entry_to_maps ::
  "(u64, TreeEntry) hmap \<times> (u64, (string, u64) hmap) hmap \<Rightarrow> TreeEntry
   \<Rightarrow> (u64, TreeEntry) hmap \<times> (u64, (string, u64) hmap) hmap" where
  "add_entry_to_maps s e =
     (let t1 = tree_link (te_parent e) (te_name e) (te_inode e) (snd s) in
      (hm_insert (te_inode e) e (fst s), if is_dir e then tree_ensure (te_inode e) t1 else t1))"

definition replace_all_entries ::
  "'db sqlite \<Rightarrow> TreeEntry list \<Rightarrow> 'db MemDb \<Rightarrow> ('db, unit) memop" where
  "replace_all_entries sq entries m =
     (case sq_begin sq (db_conn m) of
        None \<Rightarrow> (Err BeginFailed, m)
      | Some tx \<Rightarrow>
          let max_version = fold max (map te_version entries) 0 in
          (case exec_all sq (DeleteAll # map (\<lambda>e. InsertRow (row_of_entry e)) entries) tx of
             None \<Rightarrow> (Err MutationFailed, m)
           | Some tx1 \<Rightarrow>
               (case sq_commit sq tx1 of
                  None \<Rightarrow> (Err CommitFailed, m)
                | Some db' \<Rightarrow>
                    let s = foldl add_entry_to_maps ([], []) entries
                    in (Ok (), m\<lparr>db_conn := db', db_index := fst s, db_tree := snd s,
                                db_version := max_version\<rparr>))))"

text \<open>
  \<open>apply_tree_entry\<close>: the statements run in a transaction, then the memory is updated, and only
  then is the transaction committed; a failing commit leaves the memory updated.
\<close>

definition apply_tree_entry :: "'db sqlite \<Rightarrow> TreeEntry \<Rightarrow> 'db MemDb \<Rightarrow> ('db, unit) memop" where
  "apply_tree_entry sq entry m =
     (case sq_begin sq (db_conn m) of
        None \<Rightarrow> (Err BeginFailed, m)
      | Some tx \<Rightarrow>
          let db_name = (if te_inode entry = db_root_inode m then VERSION_FILENAME else te_name entry) in
          (case exec_all sq
                  (ReplaceRow ((row_of_entry entry)\<lparr>r_name := db_name\<rparr>) #
                   (if te_inode entry \<noteq> ROOT_INODE
                    then [UpdateMeta (te_version entry) (te_writer entry) (te_mtime entry) ROOT_INODE]
                    else [])) tx of
             None \<Rightarrow> (Err MutationFailed, m)
           | Some tx1 \<Rightarrow>
               let link = tree_link (te_parent entry) (te_name entry) (te_inode entry);
                   t1 = (case hm_get (db_index m) (te_inode entry) of
                           Some old \<Rightarrow>
                             if te_parent old \<noteq> te_parent entry \<or> te_name old \<noteq> te_name entry
                             then link (tree_unlink (te_parent old) (te_name old) (db_tree m))
                             else db_tree m
                         | None \<Rightarrow> link (db_tree m));
                   t2 = (if is_dir entry then tree_ensure (te_inode entry) t1 else t1);
                   idx1 = hm_insert (te_inode entry) entry (db_index m);
                   idx2 = (if te_inode entry \<noteq> db_root_inode m
                           then update_root_metadata (db_root_inode m) (te_version entry)
                                  (te_writer entry) (te_mtime entry) idx1
                           else idx1);
                   m1 = m\<lparr>db_index := idx2, db_tree := t2,
                          db_version := max (db_version m) (te_version entry)\<rparr>
               in (case sq_commit sq tx1 of
                     None \<Rightarrow> (Err CommitFailed, m1)
                   | Some db' \<Rightarrow> (Ok (), m1\<lparr>db_conn := db'\<rparr>))))"

definition statfs :: "'db MemDb \<Rightarrow> nat \<times> nat \<times> nat \<times> nat \<times> nat" where
  "statfs m =
     (let blocks = 128 * 1024 * 1024 div 4096;
          blocks_used = (total_file_size m + 4096 - 1) div 4096;
          bfree = blocks - blocks_used;
          files = 256 * 1024;
          ffree = files - length (db_index m)
      in (blocks, bfree, bfree, files, ffree))"

end
