(* ===== verification/Mem_Tree.thy ===== *)
theory Mem_Tree
  imports Mem_Db
begin

text \<open>
  Facts about paths and about the tree of names of the database: how a path splits into parent
  and base name, how the link operations change the child relation, and how path resolution
  changes when a link to a fresh inode is added or the link to a leaf is removed.
\<close>

section \<open>Paths\<close>

abbreviation sep :: char where "sep \<equiv> CHR ''/''"

lemma path_parts_Nil [simp]: "path_parts [] = []"
  by (simp add: path_parts_def)

lemma path_parts_sep [simp]: "path_parts (sep # p) = path_parts p"
  by (simp add: path_parts_def)

lemma path_parts_append_sep: "path_parts (p @ sep # q) = path_parts p @ path_parts q"
  by (simp add: path_parts_def split_on_append)

lemma path_parts_no_sep: "sep \<notin> set p \<Longrightarrow> p \<noteq> [] \<Longrightarrow> path_parts p = [p]"
  by (simp add: path_parts_def split_on_no_sep)

lemma path_parts_trailing: "path_parts (p @ replicate n sep) = path_parts p"
proof (induction n)
  case 0
  then show ?case by simp
next
  case (Suc n)
  have "p @ replicate (Suc n) sep = (p @ replicate n sep) @ sep # []"
    by (simp add: replicate_append_same)
  then show ?case using Suc path_parts_append_sep [of "p @ replicate n sep" "[]"] by simp
qed

lemma path_parts_dropWhile: "path_parts (dropWhile (\<lambda>x. x = sep) p) = path_parts p"
  by (induction p) (auto simp del: path_parts_def)

lemma rev_dropWhile_rev:
  "\<exists>n. p = rev (dropWhile (\<lambda>x. x = c) (rev p)) @ replicate n c"
proof -
  let ?t = "takeWhile (\<lambda>x. x = c) (rev p)"
  have "rev p = ?t @ dropWhile (\<lambda>x. x = c) (rev p)" by simp
  then have "p = rev (dropWhile (\<lambda>x. x = c) (rev p)) @ rev ?t"
    by (metis rev_append rev_rev_ident)
  moreover have "?t = replicate (length ?t) c"
    by (rule replicate_eqI) (auto dest: set_takeWhileD)
  ultimately show ?thesis by (metis rev_replicate)
qed

lemma path_parts_trim: "path_parts (trim_matches sep p) = path_parts p"
proof -
  let ?q = "dropWhile (\<lambda>x. x = sep) p"
  obtain n where "?q = trim_matches sep p @ replicate n sep"
    using rev_dropWhile_rev [of ?q sep] by (auto simp: trim_matches_def)
  then have "path_parts (trim_matches sep p) = path_parts ?q"
    using path_parts_trailing [of "trim_matches sep p" n] by simp
  then show ?thesis by (simp add: path_parts_dropWhile)
qed

lemma trim_matches_last: "trim_matches c p \<noteq> [] \<Longrightarrow> last (trim_matches c p) \<noteq> c"
  using hd_dropWhile [of "\<lambda>x. x = c" "rev (dropWhile (\<lambda>x. x = c) p)"]
  by (auto simp: trim_matches_def last_rev)

lemma normalize_path_cases:
  obtains "normalize_path p = ''/''" and "p = ''.'' \<or> path_parts p = []"
  | t where "normalize_path p = sep # t" and "t \<noteq> []" and "last t \<noteq> sep"
      and "path_parts t = path_parts p" and "p \<noteq> ''.''"
proof (cases "p = [] \<or> p = ''/'' \<or> p = ''.'' \<or> trim_matches sep p = []")
  case True
  moreover have "trim_matches sep p = [] \<Longrightarrow> path_parts p = []"
    using path_parts_trim [of p] by simp
  ultimately show ?thesis
    by (intro that(1)) (auto simp: normalize_path_def Let_def)
next
  case False
  then show ?thesis
    by (intro that(2) [of "trim_matches sep p"])
      (auto simp: normalize_path_def path_parts_trim trim_matches_last)
qed

text \<open>A split path has the parts of its parent followed by its base name.\<close>

lemma split_path_parts:
  assumes "split_path p = Ok (d, b)" and "b \<noteq> []"
  shows "path_parts p = path_parts d @ [b]" and "hd d = sep" and "d \<noteq> []" and "p \<noteq> ''.''"
    and "sep \<notin> set b"
proof -
  have "path_parts p = path_parts d @ [b] \<and> hd d = sep \<and> d \<noteq> [] \<and> p \<noteq> ''.'' \<and> sep \<notin> set b"
  proof (cases rule: normalize_path_cases [of p])
    case 1
    then show ?thesis using assms by (auto simp: split_path_def Let_def split: if_splits)
  next
    case (2 t)
    let ?np = "sep # t"
    obtain pos where pos: "rfind sep ?np = Some pos"
      using rfind_None [of sep ?np] by fastforce
    have db: "d = (if pos = 0 then ''/'' else take pos ?np)" "b = drop (Suc pos) ?np"
      using assms 2 pos by (auto simp: split_path_def split: if_splits)
    have np: "?np = take pos ?np @ sep # b" and nb: "sep \<notin> set b"
      using rfind_decompose [OF pos] db by auto
    have "path_parts p = path_parts ?np" using 2 by simp
    also have "\<dots> = path_parts (take pos ?np) @ path_parts b"
      by (subst np) (rule path_parts_append_sep)
    also have "path_parts (take pos ?np) = path_parts d"
      using db path_parts_sep [of "[]"] by (cases "pos = 0") auto
    finally have "path_parts p = path_parts d @ [b]"
      using nb assms(2) by (simp add: path_parts_no_sep)
    moreover have "hd d = sep" "d \<noteq> []"
      using db by (auto simp: hd_take)
    ultimately show ?thesis using nb 2 by simp
  qed
  then show "path_parts p = path_parts d @ [b]" "hd d = sep" "d \<noteq> []" "p \<noteq> ''.''" "sep \<notin> set b"
    by blast+
qed

lemma split_path_not_panic [simp]: "split_path p \<noteq> Panic"
  by (auto simp: split_path_def Let_def split: option.splits)

lemma split_path_base_Nil:
  assumes "split_path p = Ok (d, [])"
  shows "p = ''.'' \<or> path_parts p = []"
proof (cases rule: normalize_path_cases [of p])
  case 1
  then show ?thesis by simp
next
  case (2 t)
  obtain pos where pos: "rfind sep (sep # t) = Some pos"
    using rfind_None [of sep "sep # t"] by fastforce
  then have "drop (Suc pos) (sep # t) = []"
    using assms 2 by (auto simp: split_path_def split: if_splits)
  then have "sep # t = take pos (sep # t) @ [sep]"
    using rfind_decompose(1) [OF pos] by simp
  then have "last (sep # t) = sep" by (metis last_snoc)
  then show ?thesis using 2 by simp
qed

section \<open>The child relation\<close>

definition child :: "(u64, (string, u64) hmap) hmap \<Rightarrow> u64 \<Rightarrow> string \<Rightarrow> u64 option" where
  "child t p n = Option.bind (hm_get t p) (\<lambda>ch. hm_get ch n)"

lemma child_link [simp]:
  "child (tree_link p n i t) p' n' = (if p' = p \<and> n' = n then Some i else child t p' n')"
  by (auto simp: child_def tree_link_def split: option.splits)

lemma child_unlink [simp]:
  "child (tree_unlink p n t) p' n' = (if p' = p \<and> n' = n then None else child t p' n')"
  by (auto simp: child_def tree_unlink_def split: option.splits)

lemma child_ensure [simp]: "child (tree_ensure i t) p n = child t p n"
  by (auto simp: child_def tree_ensure_def split: option.splits)

lemma child_insert_Nil [simp]:
  "child (hm_insert v [] t) p n = (if p = v then None else child t p n)"
  by (auto simp: child_def)

lemma child_remove [simp]:
  "child (hm_remove v t) p n = (if p = v then None else child t p n)"
  by (auto simp: child_def)

lemma child_no_dir: "hm_get t p = None \<Longrightarrow> child t p n = None"
  by (simp add: child_def)

text \<open>Which inodes have a table of children.\<close>

definition has_dir :: "(u64, (string, u64) hmap) hmap \<Rightarrow> u64 \<Rightarrow> bool" where
  "has_dir t i \<longleftrightarrow> hm_get t i \<noteq> None"

lemma has_dir_ops [simp]:
  "has_dir (tree_link p n i t) j \<longleftrightarrow> j = p \<or> has_dir t j"
  "has_dir (tree_unlink p n t) j \<longleftrightarrow> has_dir t j"
  "has_dir (tree_ensure i t) j \<longleftrightarrow> j = i \<or> has_dir t j"
  "has_dir (hm_insert i ch t) j \<longleftrightarrow> j = i \<or> has_dir t j"
  "has_dir (hm_remove i t) j \<longleftrightarrow> j \<noteq> i \<and> has_dir t j"
  by (auto simp: has_dir_def tree_link_def tree_unlink_def tree_ensure_def split: option.splits)

text \<open>The tables have distinct keys at both levels.\<close>

definition tree_ok :: "(u64, (string, u64) hmap) hmap \<Rightarrow> bool" where
  "tree_ok t \<longleftrightarrow> hm_ok t \<and> (\<forall>i ch. hm_get t i = Some ch \<longrightarrow> hm_ok ch)"

lemma tree_ok_ops [simp, intro]:
  "tree_ok t \<Longrightarrow> tree_ok (tree_link p n i t)"
  "tree_ok t \<Longrightarrow> tree_ok (tree_unlink p n t)"
  "tree_ok t \<Longrightarrow> tree_ok (tree_ensure i t)"
  "tree_ok t \<Longrightarrow> tree_ok (hm_insert i [] t)"
  "tree_ok t \<Longrightarrow> tree_ok (hm_remove i t)"
  by (auto simp: tree_ok_def tree_link_def tree_unlink_def tree_ensure_def split: option.splits)

lemma tree_ok_Nil [simp]: "tree_ok []"
  by (simp add: tree_ok_def)

section \<open>Path resolution\<close>

lemma walk_Cons: "walk t (n # ns) c = Option.bind (child t c n) (walk t ns)"
  by (auto simp: child_def split: option.splits)

declare walk.simps(2) [simp del]

lemma walk_append: "walk t (ps @ qs) c = Option.bind (walk t ps c) (walk t qs)"
  by (induction ps arbitrary: c) (auto simp: walk_Cons split: Option.bind_split)

lemma walk_snoc: "walk t (ps @ [n]) c = Option.bind (walk t ps c) (\<lambda>p. child t p n)"
  by (auto simp: walk_append walk_Cons split: Option.bind_split)

lemma walk_cong:
  assumes "\<And>p n. child t p n = child t' p n"
  shows "walk t ps c = walk t' ps c"
  using assms by (induction ps arbitrary: c) (auto simp: walk_Cons split: Option.bind_split)

text \<open>
  A link to a fresh inode: the only new path is the one to that inode.
\<close>

lemma walk_link_fresh:
  assumes "\<And>p n. child t' p n = (if p = d \<and> n = b then Some v else child t p n)"
    and "\<And>p n. child t p n \<noteq> Some v" and "\<And>n. child t v n = None"
    and "v \<noteq> c" and "v \<noteq> d" and "child t d b = None"
  shows "walk t' ps c =
           (if (\<exists>qs. ps = qs @ [b] \<and> walk t qs c = Some d) then Some v else walk t ps c)"
proof (induction ps rule: rev_induct)
  case Nil
  then show ?case by simp
next
  case (snoc n ps)
  have nv: "walk t ps c \<noteq> Some v"
    using assms(2,4) by (cases ps rule: rev_cases) (auto simp: walk_snoc bind_eq_Some_conv)
  show ?case
  proof (cases "\<exists>qs. ps = qs @ [b] \<and> walk t qs c = Some d")
    case True
    then have "walk t ps c = None" using assms(6) by (auto simp: walk_snoc)
    moreover have "walk t' ps c = Some v" using True snoc.IH by simp
    ultimately show ?thesis using assms(1,3,5) by (auto simp: walk_snoc)
  next
    case False
    then have eq: "walk t' ps c = walk t ps c" using snoc.IH by (simp only: if_False)
    show ?thesis
    proof (cases "walk t ps c")
      case None
      then show ?thesis by (simp add: walk_snoc eq)
    next
      case (Some p)
      then show ?thesis using assms(1) by (simp add: walk_snoc eq)
    qed
  qed
qed

text \<open>
  Removing the link to a leaf: the only path that is lost is the one to that leaf.
\<close>

lemma walk_unlink_leaf:
  assumes "\<And>p n. child t' p n = (if p = d \<and> n = b then None else child t p n)"
    and "child t d b = Some v" and "\<And>n. child t v n = None" and "v \<noteq> c"
    and "\<And>p n. child t p n = Some v \<Longrightarrow> p = d \<and> n = b"
  shows "walk t' ps c = (if walk t ps c = Some v then None else walk t ps c)"
proof (induction ps rule: rev_induct)
  case Nil
  then show ?case using assms(4) by simp
next
  case (snoc n ps)
  show ?case
  proof (cases "walk t ps c = Some v")
    case True
    then show ?thesis using snoc.IH assms(3) by (simp add: walk_snoc)
  next
    case False
    then have eq: "walk t' ps c = walk t ps c" using snoc.IH by simp
    show ?thesis
    proof (cases "walk t ps c")
      case None
      then show ?thesis by (simp add: walk_snoc eq)
    next
      case (Some p)
      have "child t' p n = (if child t p n = Some v then None else child t p n)"
        using assms(1,2,5) by metis
      with Some show ?thesis by (simp add: walk_snoc eq)
    qed
  qed
qed

section \<open>Lookup by path\<close>

text \<open>\<open>fs_view m ps\<close> is the entry that the path with parts \<open>ps\<close> names.\<close>

definition fs_view :: "'db MemDb \<Rightarrow> string list \<Rightarrow> TreeEntry option" where
  "fs_view m ps = Option.bind (walk (db_tree m) ps (db_root_inode m)) (hm_get (db_index m))"

lemma lookup_path_view:
  "lookup_path m p = fs_view m (if p = ''.'' then [] else path_parts p)"
proof -
  have "path_parts ''/'' = []" using path_parts_sep [of "[]"] by simp
  then show ?thesis
    by (cases "walk (db_tree m) (path_parts p) (db_root_inode m)")
      (simp_all add: lookup_path_def fs_view_def)
qed

lemma lookup_parent_view:
  assumes "split_path p = Ok (d, b)" and "b \<noteq> []"
  shows "lookup_path m d = fs_view m (path_parts d)"
  using split_path_parts(2,3) [OF assms] by (auto simp: lookup_path_view)

end
