(* ===== verification/Mem_Inv.thy ===== *)
theory Mem_Inv
  imports Mem_Tree
begin

text \<open>
  The well-formedness invariant of the database and its preservation by every mutation, in the
  successful and in the failing outcomes: the index and the name tree describe the same forest,
  every entry is stored under its own inode, has a directory as parent, respects the size limit,
  and has an inode and version that the version counter has passed.
\<close>

section \<open>The invariant\<close>

definition entry_ok :: "TreeEntry \<Rightarrow> bool" where
  "entry_ok e \<longleftrightarrow>
     te_entry_type e \<in> {DT_DIR, DT_REG} \<and> te_size e = length (te_data e) \<and>
     te_size e \<le> MEMDB_MAX_FILE_SIZE \<and> (is_dir e \<longrightarrow> te_data e = [])"

definition name_ok :: "TreeEntry \<Rightarrow> bool" where
  "name_ok e \<longleftrightarrow> te_name e \<noteq> [] \<and> sep \<notin> set (te_name e)"

definition index_inv :: "u64 \<Rightarrow> (u64, TreeEntry) hmap \<Rightarrow> bool" where
  "index_inv version idx \<longleftrightarrow>
     hm_ok idx \<and>
     (\<exists>r. hm_get idx ROOT_INODE = Some r \<and> is_dir r) \<and>
     (\<forall>i e. hm_get idx i = Some e \<longrightarrow>
        te_inode e = i \<and> entry_ok e \<and> (i \<noteq> ROOT_INODE \<longrightarrow> name_ok e) \<and>
        i \<le> te_version e \<and> te_version e \<le> version)"

definition tree_inv ::
  "(u64, TreeEntry) hmap \<Rightarrow> (u64, (string, u64) hmap) hmap \<Rightarrow> bool" where
  "tree_inv idx t \<longleftrightarrow>
     tree_ok t \<and>
     (\<forall>p n i. child t p n = Some i \<longleftrightarrow>
        i \<noteq> ROOT_INODE \<and> (\<exists>e. hm_get idx i = Some e \<and> te_parent e = p \<and> te_name e = n)) \<and>
     (\<forall>i. has_dir t i \<longleftrightarrow> (\<exists>e. hm_get idx i = Some e \<and> is_dir e))"

definition memdb_inv :: "'db MemDb \<Rightarrow> bool" where
  "memdb_inv m \<longleftrightarrow>
     db_root_inode m = ROOT_INODE \<and> index_inv (db_version m) (db_index m) \<and>
     tree_inv (db_index m) (db_tree m)"

lemma index_invD:
  assumes "index_inv v idx"
  shows "hm_ok idx" and "hm_get idx i = Some e \<Longrightarrow> te_inode e = i"
    and "hm_get idx i = Some e \<Longrightarrow> entry_ok e"
    and "hm_get idx i = Some e \<Longrightarrow> i \<noteq> ROOT_INODE \<Longrightarrow> name_ok e"
    and "hm_get idx i = Some e \<Longrightarrow> i \<le> v" and "hm_get idx i = Some e \<Longrightarrow> te_version e \<le> v"
    and "hm_get idx i = Some e \<Longrightarrow> i \<le> te_version e"
  using assms by (auto simp: index_inv_def intro: order_trans)

lemma tree_invD:
  assumes "tree_inv idx t"
  shows "tree_ok t"
    and "child t p n = Some i \<Longrightarrow>
      i \<noteq> ROOT_INODE \<and> (\<exists>e. hm_get idx i = Some e \<and> te_parent e = p \<and> te_name e = n)"
    and "i \<noteq> ROOT_INODE \<Longrightarrow> hm_get idx i = Some e \<Longrightarrow> child t (te_parent e) (te_name e) = Some i"
    and "has_dir t i \<longleftrightarrow> (\<exists>e. hm_get idx i = Some e \<and> is_dir e)"
  using assms by (auto simp: tree_inv_def)

lemma index_inv_mono: "index_inv v idx \<Longrightarrow> v \<le> v' \<Longrightarrow> index_inv v' idx"
  by (fastforce simp: index_inv_def)

text \<open>Every entry but the root has an existing directory as parent.\<close>

lemma parent_is_dir:
  assumes "tree_inv idx t" and "hm_get idx i = Some e" and "i \<noteq> ROOT_INODE"
  shows "\<exists>pe. hm_get idx (te_parent e) = Some pe \<and> is_dir pe"
proof -
  have "child t (te_parent e) (te_name e) = Some i" using assms by (simp add: tree_invD(3))
  then have "has_dir t (te_parent e)" by (auto simp: has_dir_def child_def bind_eq_Some_conv)
  then show ?thesis using assms(1) by (simp add: tree_invD(4))
qed

lemma leaf_has_no_children:
  assumes "tree_inv idx t" and "hm_get idx i = None \<or> (\<exists>e. hm_get idx i = Some e \<and> \<not> is_dir e)"
  shows "child t i n = None"
proof -
  have "\<not> has_dir t i" using assms by (auto simp: tree_invD(4))
  then show ?thesis by (simp add: has_dir_def child_no_dir)
qed

text \<open>The path of an inode is unique.\<close>

lemma walk_to_root:
  assumes "tree_inv idx t" and "walk t ps ROOT_INODE = Some ROOT_INODE"
  shows "ps = []"
  using assms by (cases ps rule: rev_cases) (auto simp: walk_snoc bind_eq_Some_conv dest: tree_invD(2))

lemma walk_unique:
  assumes "tree_inv idx t"
  shows "walk t ps ROOT_INODE = Some i \<Longrightarrow> walk t qs ROOT_INODE = Some i \<Longrightarrow> ps = qs"
proof (induction ps arbitrary: qs i rule: rev_induct)
  case Nil
  then show ?case using walk_to_root [OF assms, of qs] by simp
next
  case (snoc n ps)
  then obtain p where p: "walk t ps ROOT_INODE = Some p" "child t p n = Some i"
    by (auto simp: walk_snoc bind_eq_Some_conv)
  have i: "i \<noteq> ROOT_INODE" using tree_invD(2) [OF assms p(2)] by simp
  then obtain n' qs' where qs: "qs = qs' @ [n']"
    using snoc.prems by (cases qs rule: rev_cases) auto
  then obtain p' where p': "walk t qs' ROOT_INODE = Some p'" "child t p' n' = Some i"
    using snoc.prems by (auto simp: walk_snoc bind_eq_Some_conv)
  have "p = p' \<and> n = n'"
    using tree_invD(2) [OF assms p(2)] tree_invD(2) [OF assms p'(2)] by auto
  then show ?case using snoc.IH [of p qs'] p p' qs by simp
qed

section \<open>The four shapes of an update\<close>

text \<open>An entry is replaced by one with the same position and kind.\<close>

lemma index_inv_update:
  assumes "index_inv v idx" and "hm_get idx i = Some e" and "te_inode e' = i"
    and "te_entry_type e' = te_entry_type e" and "te_name e' = te_name e"
    and "entry_ok e'" and "i \<le> te_version e'" and "te_version e' \<le> v"
  shows "index_inv v (hm_insert i e' idx)"
  using assms by (auto simp: index_inv_def name_ok_def is_dir_def)

lemma tree_inv_update:
  assumes "tree_inv idx t" and "hm_get idx i = Some e" and "te_parent e' = te_parent e"
    and "te_entry_type e' = te_entry_type e" and "te_name e' = te_name e"
  shows "tree_inv (hm_insert i e' idx) t"
  using assms by (auto simp: tree_inv_def is_dir_def)

text \<open>A fresh entry is linked below a directory.\<close>

lemma index_inv_add:
  assumes "index_inv v idx" and "v < v'" and "te_inode e = v'" and "entry_ok e" and "name_ok e"
    and "te_version e = v'"
  shows "index_inv v' (hm_insert v' e idx)"
proof -
  have "v' \<noteq> ROOT_INODE" using assms(2) by (auto simp: ROOT_INODE_def)
  then show ?thesis
    using assms index_inv_mono [OF assms(1), of v'] by (auto simp: index_inv_def)
qed

lemma tree_inv_add:
  assumes "tree_inv idx t" and "hm_get idx i = None" and "i \<noteq> ROOT_INODE"
    and "hm_get idx p = Some pe" and "is_dir pe" and "child t p n = None"
    and "te_parent e = p" and "te_name e = n"
  shows "tree_inv (hm_insert i e idx)
           (if is_dir e then hm_insert i [] (tree_link p n i t) else tree_link p n i t)"
proof -
  let ?t' = "if is_dir e then hm_insert i [] (tree_link p n i t) else tree_link p n i t"
  have ip: "i \<noteq> p" using assms by auto
  have no_child: "\<And>n. child t i n = None" using assms(1,2) by (simp add: leaf_has_no_children)
  have no_dir: "\<not> has_dir t i" and p_dir: "has_dir t p" using assms by (auto simp: tree_invD(4))
  have c: "\<And>p' n'. child ?t' p' n' = (if p' = p \<and> n' = n then Some i else child t p' n')"
    using ip no_child by auto
  have d: "\<And>j. has_dir ?t' j \<longleftrightarrow> (if j = i then is_dir e else has_dir t j)"
    using ip no_dir p_dir by auto
  have ok: "tree_ok ?t'" using assms(1) by (auto simp: tree_inv_def)
  show ?thesis unfolding tree_inv_def
  proof (intro conjI allI)
    fix p' n' j
    show "child ?t' p' n' = Some j \<longleftrightarrow>
        j \<noteq> ROOT_INODE \<and>
        (\<exists>e'. hm_get (hm_insert i e idx) j = Some e' \<and> te_parent e' = p' \<and> te_name e' = n')"
      using assms tree_invD(2) [OF assms(1), of p' n' j] tree_invD(3) [OF assms(1), of j]
      unfolding c by (cases "j = i") (auto split: if_splits)
    show "has_dir ?t' j \<longleftrightarrow> (\<exists>e'. hm_get (hm_insert i e idx) j = Some e' \<and> is_dir e')"
      using tree_invD(4) [OF assms(1), of j] unfolding d by auto
  qed (rule ok)
qed

text \<open>An entry without children is unlinked.\<close>

lemma index_inv_remove:
  assumes "index_inv v idx" and "i \<noteq> ROOT_INODE"
  shows "index_inv v (hm_remove i idx)"
  using assms by (auto simp: index_inv_def)

lemma tree_inv_remove:
  assumes "tree_inv idx t" and "hm_get idx i = Some e" and "i \<noteq> ROOT_INODE"
    and "\<And>n. child t i n = None"
  shows "tree_inv (hm_remove i idx)
           (if is_dir e then hm_remove i (tree_unlink (te_parent e) (te_name e) t)
            else tree_unlink (te_parent e) (te_name e) t)"
proof -
  let ?t' = "if is_dir e then hm_remove i (tree_unlink (te_parent e) (te_name e) t)
             else tree_unlink (te_parent e) (te_name e) t"
  have link: "child t (te_parent e) (te_name e) = Some i" using assms by (simp add: tree_invD(3))
  have c: "\<And>p n. child ?t' p n =
             (if p = te_parent e \<and> n = te_name e then None else child t p n)"
    using assms(4) by auto
  have d: "\<And>j. has_dir ?t' j \<longleftrightarrow> j \<noteq> i \<and> has_dir t j"
    using assms by (auto simp: tree_invD(4))
  have ok: "tree_ok ?t'" using assms(1) by (auto simp: tree_inv_def)
  show ?thesis unfolding tree_inv_def
  proof (intro conjI allI)
    fix p n j
    show "child ?t' p n = Some j \<longleftrightarrow>
        j \<noteq> ROOT_INODE \<and>
        (\<exists>e'. hm_get (hm_remove i idx) j = Some e' \<and> te_parent e' = p \<and> te_name e' = n)"
      using assms(2) link tree_invD(2) [OF assms(1), of p n j] tree_invD(3) [OF assms(1), of j]
      unfolding c by (cases "j = i") (auto split: if_splits)
    show "has_dir ?t' j \<longleftrightarrow> (\<exists>e'. hm_get (hm_remove i idx) j = Some e' \<and> is_dir e')"
      using tree_invD(4) [OF assms(1), of j] unfolding d by auto
  qed (rule ok)
qed

text \<open>
  An entry moves to another place; a file that was there is replaced.
\<close>

definition replaceable :: "(u64, TreeEntry) hmap \<Rightarrow> u64 \<Rightarrow> u64 option \<Rightarrow> bool" where
  "replaceable idx i target \<longleftrightarrow>
     (case target of None \<Rightarrow> True
      | Some ti \<Rightarrow> ti = i \<or> (\<exists>te. hm_get idx ti = Some te \<and> \<not> is_dir te))"

definition drop_target :: "u64 option \<Rightarrow> (u64, TreeEntry) hmap \<Rightarrow> (u64, TreeEntry) hmap" where
  "drop_target target idx = (case target of None \<Rightarrow> idx | Some ti \<Rightarrow> hm_remove ti idx)"

lemma hm_get_drop_target [simp]:
  "hm_get (drop_target target idx) i = (if target = Some i then None else hm_get idx i)"
  by (auto simp: drop_target_def split: option.splits)

lemma hm_ok_drop_target [simp]: "hm_ok idx \<Longrightarrow> hm_ok (drop_target target idx)"
  by (auto simp: drop_target_def split: option.splits)

lemma index_inv_move:
  assumes "index_inv v idx" and "i \<noteq> ROOT_INODE" and "hm_get idx i = Some e"
    and "target \<noteq> Some ROOT_INODE" and "te_inode e' = i" and "entry_ok e'" and "name_ok e'"
    and "i \<le> te_version e'" and "te_version e' \<le> v"
  shows "index_inv v (hm_insert i e' (drop_target target idx))"
  using assms by (auto simp: index_inv_def)

lemma tree_inv_move:
  assumes inv: "tree_inv idx t" and i: "hm_get idx i = Some e" "i \<noteq> ROOT_INODE"
    and np: "hm_get idx np = Some npe" "is_dir npe"
    and target: "replaceable idx i (child t np nb)"
    and e': "te_parent e' = np" "te_name e' = nb" "te_entry_type e' = te_entry_type e"
  shows "tree_inv (hm_insert i e' (drop_target (child t np nb) idx))
           (tree_link np nb i (tree_unlink (te_parent e) (te_name e) t))"
    (is "tree_inv ?idx' ?t'")
proof -
  have link: "child t (te_parent e) (te_name e) = Some i" using inv i by (simp add: tree_invD(3))
  have c: "\<And>p n. child ?t' p n = (if p = np \<and> n = nb then Some i
             else if p = te_parent e \<and> n = te_name e then None else child t p n)"
    by simp
  have d: "\<And>j. has_dir ?t' j \<longleftrightarrow> has_dir t j"
    using inv np by (auto simp: tree_invD(4))
  have ok: "tree_ok ?t'" using inv by (auto simp: tree_inv_def)
  show ?thesis unfolding tree_inv_def
  proof (intro conjI allI)
    fix p n j
    show "child ?t' p n = Some j \<longleftrightarrow>
        j \<noteq> ROOT_INODE \<and> (\<exists>e'. hm_get ?idx' j = Some e' \<and> te_parent e' = p \<and> te_name e' = n)"
    proof (cases "j = i")
      case True
      have "\<not> (p = te_parent e \<and> n = te_name e) \<Longrightarrow> child t p n \<noteq> Some i"
        using tree_invD(2) [OF inv, of p n i] i by auto
      then have "child ?t' p n = Some i \<longleftrightarrow> p = np \<and> n = nb"
        unfolding c by (simp split: if_split)
      then show ?thesis using True i(2) e'(1,2) by auto
    next
      case False
      have ex: "child t p n = Some j \<longleftrightarrow>
          j \<noteq> ROOT_INODE \<and> (\<exists>e'. hm_get idx j = Some e' \<and> te_parent e' = p \<and> te_name e' = n)"
        using inv by (simp add: tree_inv_def)
      have "child t np nb = Some j \<Longrightarrow> child t p n = Some j \<Longrightarrow> p = np \<and> n = nb"
        using tree_invD(2) [OF inv, of np nb j] ex by auto
      then have "child ?t' p n = Some j \<longleftrightarrow> child t p n = Some j \<and> child t np nb \<noteq> Some j"
        unfolding c using False link by auto
      then show ?thesis using ex False by auto
    qed
    show "has_dir ?t' j \<longleftrightarrow> (\<exists>e'. hm_get ?idx' j = Some e' \<and> is_dir e')"
      using tree_invD(4) [OF inv, of j] target i e'(3) unfolding d
      by (auto simp: replaceable_def is_dir_def)
  qed (rule ok)
qed

section \<open>The transaction\<close>

text \<open>What a committed transaction did to the connection.\<close>

definition committed :: "'db sqlite \<Rightarrow> sql_stmt list \<Rightarrow> 'db \<Rightarrow> 'db \<Rightarrow> bool" where
  "committed sq ss db db' \<longleftrightarrow>
     (\<exists>tx tx'. sq_begin sq db = Some tx \<and> exec_all sq ss tx = Some tx' \<and> sq_commit sq tx' = Some db')"

definition stamp_root :: "u64 \<Rightarrow> u32 \<Rightarrow> u32 \<Rightarrow> 'db \<Rightarrow> 'db MemDb \<Rightarrow> 'db MemDb" where
  "stamp_root v writer mtime db' m =
     m\<lparr>db_version := v, db_conn := db',
       db_index := update_root_metadata (db_root_inode m) v writer mtime (db_index m)\<rparr>"

definition bumped :: "'db MemDb \<Rightarrow> 'db MemDb \<Rightarrow> bool" where
  "bumped m m' \<longleftrightarrow>
     (\<exists>b. m' = m\<lparr>db_version := db_version m + 1, db_errors := b\<rparr> \<and> (db_errors m \<longrightarrow> b))"

lemma mutate_cases:
  assumes "mutate sq writer mtime f m = (r, m')"
  obtains v db' where "r = Ok v" and "v = db_version m + 1"
    and "m' = stamp_root v writer mtime db' m"
    and "committed sq (UpdateMeta v writer mtime ROOT_INODE # f v) (db_conn m) db'"
  | e where "r = Err e" and "bumped m m'"
proof -
  let ?v = "db_version m + 1"
  have same: "bumped m (m\<lparr>db_version := ?v\<rparr>)"
    unfolding bumped_def by (rule exI [of _ "db_errors m"]) simp
  have latched: "bumped m (m\<lparr>db_version := ?v, db_errors := True\<rparr>)"
    unfolding bumped_def by blast
  show ?thesis
  proof (cases "sq_begin sq (db_conn m)")
    case None
    with assms same show ?thesis by (intro that(2)) (auto simp: mutate_def)
  next
    case (Some tx)
    note begin_tx = this
    show ?thesis
    proof (cases "exec_all sq (UpdateMeta ?v writer mtime ROOT_INODE # f ?v) tx")
      case None
      with assms begin_tx same latched show ?thesis
        by (cases r) (auto simp: mutate_def split: option.splits intro!: that(2))
    next
      case (Some tx')
      note exec_tx = this
      show ?thesis
      proof (cases "sq_commit sq tx'")
        case None
        with assms begin_tx exec_tx latched show ?thesis
          by (intro that(2)) (auto simp: mutate_def Let_def split: option.splits)
      next
        case (Some db')
        with assms begin_tx exec_tx show ?thesis
          by (intro that(1) [of ?v db'])
            (auto simp: mutate_def Let_def stamp_root_def committed_def split: option.splits)
      qed
    qed
  qed
qed

definition no_wrap :: "'db MemDb \<Rightarrow> bool" where
  "no_wrap m \<longleftrightarrow> db_version m + 1 \<noteq> 0"

lemma no_wrap_less: "no_wrap m \<Longrightarrow> db_version m < db_version m + 1"
proof -
  assume "no_wrap m"
  then have "unat (db_version m + 1) \<noteq> 0" by (simp add: no_wrap_def unat_eq_0)
  then show ?thesis using unat_bounds(4) [of "db_version m"]
    by (simp add: word_less_nat_alt unat_word_ariths mod_Suc split: if_splits)
qed

lemma update_root_metadata_get:
  "hm_get (update_root_metadata root v w t idx) i =
     (if i = root then map_option (\<lambda>e. e\<lparr>te_version := v, te_writer := w, te_mtime := t\<rparr>) (hm_get idx root)
      else hm_get idx i)"
  by (auto simp: update_root_metadata_def split: option.splits)

lemma memdb_inv_stamp_root:
  assumes "memdb_inv m" and "no_wrap m" and "v = db_version m + 1"
  shows "memdb_inv (stamp_root v w t db' m)"
proof -
  have r: "db_root_inode m = ROOT_INODE" using assms(1) by (simp add: memdb_inv_def)
  then obtain re where re: "hm_get (db_index m) ROOT_INODE = Some re"
    using assms(1) by (auto simp: memdb_inv_def index_inv_def)
  let ?re = "re\<lparr>te_version := v, te_writer := w, te_mtime := t\<rparr>"
  have idx: "db_index (stamp_root v w t db' m) = hm_insert ROOT_INODE ?re (db_index m)"
    using r re by (simp add: stamp_root_def update_root_metadata_def)
  have inv: "index_inv v (db_index m)"
    using assms no_wrap_less [OF assms(2)] by (auto simp: memdb_inv_def intro: index_inv_mono)
  have "index_inv v (hm_insert ROOT_INODE ?re (db_index m))"
    using index_invD(2,3) [OF inv re]
    by (intro index_inv_update [OF inv re]) (auto simp: entry_ok_def is_dir_def ROOT_INODE_def)
  moreover have "tree_inv (hm_insert ROOT_INODE ?re (db_index m)) (db_tree m)"
    using assms(1) re by (intro tree_inv_update) (auto simp: memdb_inv_def)
  ultimately show ?thesis
    using r idx by (simp add: memdb_inv_def) (simp add: stamp_root_def)
qed

lemma memdb_inv_bumped:
  assumes "memdb_inv m" and "no_wrap m" and "bumped m m'"
  shows "memdb_inv m'"
  using assms no_wrap_less [OF assms(2)]
  by (auto simp: memdb_inv_def bumped_def intro: index_inv_mono [of "db_version m"])

section \<open>The outcomes of each operation\<close>

text \<open>
  Each operation either leaves the state alone and fails, fails after bumping the version
  counter, or commits a transaction and updates the memory as described.
\<close>

lemma with_mutation_cases:
  assumes "with_mutation sq writer mtime f m = (r, m')"
  obtains "r = Err DatabaseHasErrors" and "db_errors m" and "m' = m"
  | v db' where "r = Ok v" and "\<not> db_errors m" and "v = db_version m + 1"
    and "m' = stamp_root v writer mtime db' m"
    and "committed sq (UpdateMeta v writer mtime ROOT_INODE # f v) (db_conn m) db'"
  | e where "r = Err e" and "\<not> db_errors m" and "bumped m m'"
proof (cases "db_errors m")
  case True
  then show ?thesis using assms by (intro that(1)) (auto simp: with_mutation_def)
next
  case False
  then have "mutate sq writer mtime f m = (r, m')" using assms by (simp add: with_mutation_def)
  then show ?thesis using False by (cases rule: mutate_cases) (auto intro: that(2,3))
qed

definition new_entry :: "u64 \<Rightarrow> u64 \<Rightarrow> u32 \<Rightarrow> u32 \<Rightarrow> u32 \<Rightarrow> string \<Rightarrow> TreeEntry" where
  "new_entry v p mode writer mtime basename =
     \<lparr>te_inode = v, te_parent = p, te_version = v, te_writer = writer, te_mtime = mtime,
      te_size = 0, te_entry_type = (if mode AND S_IFDIR \<noteq> 0 then DT_DIR else DT_REG),
      te_name = basename, te_data = []\<rparr>"

lemma create_cases:
  assumes "create sq sha now path mode writer mtime m = (r, m')"
  obtains e where "r = Err e" and "m' = m \<or> \<not> db_errors m \<and> bumped m m'"
  | d b pe v db' where "r = Ok ()" and "\<not> db_errors m" and "\<not> path_exists m path"
    and "split_path path = Ok (d, b)" and "b \<noteq> []" and "b \<noteq> ''.''" and "b \<noteq> ''..''"
    and "lookup_path m d = Some pe" and "is_dir pe" and "length (db_index m) < MEMDB_MAX_INODES"
    and "v = db_version m + 1"
    and "committed sq [UpdateMeta v writer mtime ROOT_INODE,
            InsertRow (row_of_entry (new_entry v (te_inode pe) mode writer mtime b))] (db_conn m) db'"
    and "m' = (stamp_root v writer mtime db' m)
         \<lparr>db_index := hm_insert v (new_entry v (te_inode pe) mode writer mtime b)
                        (db_index (stamp_root v writer mtime db' m)),
          db_tree := (if is_dir (new_entry v (te_inode pe) mode writer mtime b)
                      then hm_insert v [] (tree_link (te_inode pe) b v (db_tree m))
                      else tree_link (te_inode pe) b v (db_tree m))\<rparr>"
proof (cases "db_errors m \<or> path_exists m path")
  case True
  then have "\<exists>e. r = Err e \<and> m' = m" using assms by (auto simp: create_def split: if_splits)
  then show ?thesis using that(1) by blast
next
  case False
  show ?thesis
  proof (cases "split_path path")
    case (Ok db)
    obtain d b where db: "db = (d, b)" by (cases db)
    show ?thesis
    proof (cases "b = [] \<or> b = ''.'' \<or> b = ''..'' \<or>
        (\<forall>pe. lookup_path m d = Some pe \<longrightarrow> \<not> is_dir pe) \<or> length (db_index m) \<ge> MEMDB_MAX_INODES")
      case True
      then have "\<exists>e. r = Err e \<and> m' = m"
        using assms False Ok db by (auto simp: create_def split: option.splits if_splits)
      then show ?thesis using that(1) by blast
    next
      case ok: False
      then obtain pe where pe: "lookup_path m d = Some pe" "is_dir pe" by auto
      let ?e = "\<lambda>v. new_entry v (te_inode pe) mode writer mtime b"
      obtain r1 m1 where mu: "mutate sq writer mtime (\<lambda>v. [InsertRow (row_of_entry (?e v))]) m = (r1, m1)"
        by force
      have nolock: "d \<noteq> LOCK_DIR_PATH"
        using split_path_parts(2,3) [of path d b] Ok db ok by (auto simp: LOCK_DIR_PATH_def)
      show ?thesis
      proof (cases rule: mutate_cases [OF mu])
        case (1 v db')
        then show ?thesis
          using assms False Ok db ok pe mu nolock
          by (intro that(2) [of d b pe v db'])
            (auto simp: create_def new_entry_def Let_def stamp_root_def)
      next
        case (2 e)
        then show ?thesis
          using assms False Ok db ok pe mu
          by (intro that(1) [of e]) (auto simp: create_def new_entry_def)
      qed
    qed
  qed (use assms False in \<open>auto intro!: that(1) simp: create_def\<close>)
qed

definition written_entry :: "u64 \<Rightarrow> u32 \<Rightarrow> u32 \<Rightarrow> byte list \<Rightarrow> TreeEntry \<Rightarrow> TreeEntry" where
  "written_entry v writer mtime d e =
     e\<lparr>te_data := d, te_size := length d, te_mtime := mtime, te_writer := writer, te_version := v\<rparr>"

lemma write_cases:
  assumes "write_op sq path offset writer mtime data trunc m = (r, m')"
  obtains e where "r = Err e" and "m' = m \<or> \<not> db_errors m \<and> bumped m m'"
  | e d v db' where "r = Ok (length data)" and "\<not> db_errors m"
    and "lookup_path m path = Some e" and "\<not> is_dir e"
    and "unat offset + length data \<le> MEMDB_MAX_FILE_SIZE"
    and "unat offset + length data > length (te_data e) \<Longrightarrow>
           total_file_size m + (unat offset + length data - length (te_data e)) \<le> MEMDB_MAX_FSSIZE"
    and "d = write_data (te_data e) (unat offset) data trunc" and "v = db_version m + 1"
    and "committed sq [UpdateMeta v writer mtime ROOT_INODE,
            UpdateData v writer mtime d (te_inode e)] (db_conn m) db'"
    and "m' = (stamp_root v writer mtime db' m)
         \<lparr>db_index := hm_insert (te_inode e) (written_entry v writer mtime d e)
                        (db_index (stamp_root v writer mtime db' m))\<rparr>"
proof (cases "\<exists>e. r = Err e \<and> m' = m")
  case True
  then show ?thesis using that(1) by blast
next
  case False
  then have ok: "\<not> db_errors m" using assms by (auto simp: write_op_def)
  obtain e where e: "lookup_path m path = Some e" "\<not> is_dir e"
    using assms False ok by (auto simp: write_op_def split: option.splits if_splits)
  let ?stop = "unat offset + length data"
  have en: "usize_checked_add (unat offset) (length data) = Some ?stop" "?stop \<le> MEMDB_MAX_FILE_SIZE"
    using assms False ok e
    by (auto simp: write_op_def usize_checked_add_def split: option.splits if_splits)
  have tot: "?stop > length (te_data e) \<Longrightarrow>
      total_file_size m + (?stop - length (te_data e)) \<le> MEMDB_MAX_FSSIZE"
    using assms False ok e en
    by (auto simp: write_op_def usize_checked_add_def Let_def split: if_splits)
  let ?d = "write_data (te_data e) (unat offset) data trunc"
  obtain r1 m1 where mu:
    "mutate sq writer mtime (\<lambda>v. [UpdateData v writer mtime ?d (te_inode e)]) m = (r1, m1)"
    by force
  have res: "(r, m') = (case (r1, m1) of
      (Ok v, m1) \<Rightarrow> (Ok (length data), m1\<lparr>db_index := hm_insert (te_inode e)
           (written_entry v writer mtime ?d e) (db_index m1)\<rparr>)
    | (Err er, m1) \<Rightarrow> (Err er, m1) | (Panic, m1) \<Rightarrow> (Panic, m1))"
    using assms False ok e en mu
    by (cases r1) (auto simp: write_op_def Let_def written_entry_def split: if_splits)
  show ?thesis
  proof (cases rule: mutate_cases [OF mu])
    case (1 v db')
    then show ?thesis using ok e en tot res by (intro that(2) [of e ?d v db']) auto
  next
    case (2 er)
    then show ?thesis using ok res by (intro that(1) [of er]) auto
  qed
qed

definition touched_entry :: "u64 \<Rightarrow> u32 \<Rightarrow> u32 \<Rightarrow> TreeEntry \<Rightarrow> TreeEntry" where
  "touched_entry v writer mtime e = e\<lparr>te_version := v, te_writer := writer, te_mtime := mtime\<rparr>"

definition lock_entry_at :: "string \<Rightarrow> TreeEntry \<Rightarrow> bool" where
  "lock_entry_at parent_path e \<longleftrightarrow>
     trim_start_matches (CHR ''/'') parent_path = LOCK_DIR_PATH \<and> is_dir e"

lemma set_mtime_cases:
  assumes "set_mtime sq sha now path writer mtime m = (r, m')"
  obtains e where "r = Err e" and "m' = m \<or> \<not> db_errors m \<and> bumped m m'"
  | e d b v db' lk where "r = Ok ()" and "\<not> db_errors m" and "lookup_path m path = Some e"
    and "te_inode e \<noteq> db_root_inode m" and "split_path path = Ok (d, b)"
    and "lock_entry_at d e \<Longrightarrow> te_mtime e \<le> mtime \<and> te_writer e = writer"
    and "v = db_version m + 1"
    and "committed sq [UpdateMeta v writer mtime ROOT_INODE,
            UpdateMeta v writer mtime (te_inode e)] (db_conn m) db'"
    and "m' = (stamp_root v writer mtime db' m)
         \<lparr>db_index := hm_insert (te_inode e) (touched_entry v writer mtime e)
                        (db_index (stamp_root v writer mtime db' m)), db_locks := lk\<rparr>"
proof (cases "\<exists>e. r = Err e \<and> m' = m")
  case True
  then show ?thesis using that(1) by blast
next
  case False
  obtain e where e: "lookup_path m path = Some e" "te_inode e \<noteq> db_root_inode m"
    using assms False by (auto simp: set_mtime_def split: option.splits if_splits)
  obtain d b where db: "split_path path = Ok (d, b)"
    using assms False e by (auto simp: set_mtime_def split: res.splits)
  have lock: "lock_entry_at d e \<Longrightarrow> te_mtime e \<le> mtime \<and> te_writer e = writer"
    using assms False e db
    by (auto simp: set_mtime_def lock_entry_at_def Let_def not_less split: if_splits)
  obtain r1 m1 where mu:
    "with_mutation sq writer mtime (\<lambda>v. [UpdateMeta v writer mtime (te_inode e)]) m = (r1, m1)"
    by force
  let ?lk = "\<lambda>v. if lock_entry_at d e
      then hm_insert path \<lparr>li_ltime = now, li_csum = compute_checksum sha (touched_entry v writer mtime e)\<rparr>
             (hm_remove path (db_locks m1))
      else db_locks m1"
  let ?m2 = "\<lambda>v. m1\<lparr>db_index := hm_insert (te_inode e) (touched_entry v writer mtime e) (db_index m1),
                    db_locks := ?lk v\<rparr>"
  have res: "(r, m') = (case r1 of
      Ok v \<Rightarrow> (Ok (), ?m2 v) | Err er \<Rightarrow> (Err er, m1) | Panic \<Rightarrow> (Panic, m1))"
    using assms False e db mu
    by (cases r1)
      (auto simp: set_mtime_def lock_entry_at_def touched_entry_def Let_def split: if_splits)
  show ?thesis
  proof (cases rule: with_mutation_cases [OF mu])
    case 1
    then show ?thesis using res by (intro that(1)) auto
  next
    case (2 v db')
    then show ?thesis using e db lock res by (intro that(2) [of e d b v db' "?lk v"]) auto
  next
    case (3 er)
    then show ?thesis using res by (intro that(1) [of er]) auto
  qed
qed

lemma delete_cases:
  assumes "delete sq path writer mtime m = (r, m')"
  obtains e where "r = Err e" and "m' = m \<or> \<not> db_errors m \<and> bumped m m'"
  | e v db' lk where "r = Ok ()" and "\<not> db_errors m" and "lookup_path m path = Some e"
    and "te_inode e \<noteq> db_root_inode m"
    and "is_dir e \<Longrightarrow> hm_get (db_tree m) (te_inode e) \<in> {None, Some []}"
    and "v = db_version m + 1"
    and "committed sq [UpdateMeta v writer mtime ROOT_INODE, DeleteRow (te_inode e)] (db_conn m) db'"
    and "m' = (stamp_root v writer mtime db' m)
         \<lparr>db_index := hm_remove (te_inode e) (db_index (stamp_root v writer mtime db' m)),
          db_tree := (if is_dir e
                      then hm_remove (te_inode e) (tree_unlink (te_parent e) (te_name e) (db_tree m))
                      else tree_unlink (te_parent e) (te_name e) (db_tree m)),
          db_locks := lk\<rparr>"
proof (cases "\<exists>e. r = Err e \<and> m' = m")
  case True
  then show ?thesis using that(1) by blast
next
  case False
  obtain e where e: "lookup_path m path = Some e" "te_inode e \<noteq> db_root_inode m"
    using assms False by (auto simp: delete_def split: option.splits if_splits)
  have empty: "is_dir e \<Longrightarrow> hm_get (db_tree m) (te_inode e) \<in> {None, Some []}"
    using assms False e by (auto simp: delete_def split: option.splits if_splits)
  obtain r1 m1 where mu: "with_mutation sq writer mtime (\<lambda>v. [DeleteRow (te_inode e)]) m = (r1, m1)"
    by force
  let ?t1 = "tree_unlink (te_parent e) (te_name e) (db_tree m1)"
  let ?m2 = "m1\<lparr>db_index := hm_remove (te_inode e) (db_index m1),
                db_tree := (if is_dir e then hm_remove (te_inode e) ?t1 else ?t1),
                db_locks := (if is_dir e then hm_remove path (db_locks m1) else db_locks m1)\<rparr>"
  have res: "(r, m') = (case r1 of
      Ok v \<Rightarrow> (Ok (), ?m2) | Err er \<Rightarrow> (Err er, m1) | Panic \<Rightarrow> (Panic, m1))"
    using assms False e mu empty
    by (cases r1) (auto simp: delete_def Let_def split: if_splits option.splits)
  show ?thesis
  proof (cases rule: with_mutation_cases [OF mu])
    case 1
    then show ?thesis using res by (intro that(1)) auto
  next
    case (2 v db')
    then show ?thesis using e empty res
      by (intro that(2) [of e v db' "if is_dir e then hm_remove path (db_locks m1) else db_locks m1"])
        (auto simp: stamp_root_def)
  next
    case (3 er)
    then show ?thesis using res by (intro that(1) [of er]) auto
  qed
qed

definition moved_entry :: "u64 \<Rightarrow> u64 \<Rightarrow> string \<Rightarrow> u32 \<Rightarrow> u32 \<Rightarrow> TreeEntry \<Rightarrow> TreeEntry" where
  "moved_entry v np nb writer mtime e =
     e\<lparr>te_parent := np, te_name := nb, te_writer := writer, te_mtime := mtime, te_version := v\<rparr>"

lemma rename_cases:
  assumes "rename sq old_path new_path writer mtime m = (r, m')"
  obtains e where "r = Err e" and "m' = m \<or> \<not> db_errors m \<and> bumped m m'"
  | e d b np v db' target where "r = Ok ()" and "\<not> db_errors m" and "lookup_path m old_path = Some e"
    and "te_inode e \<noteq> db_root_inode m" and "\<not> (is_dir e \<and> is_lock_dir old_path)"
    and "split_path new_path = Ok (d, b)" and "lookup_path m d = Some np" and "is_dir np"
    and "target = map_option te_inode (lookup_path m new_path)" and "v = db_version m + 1"
    and "committed sq (UpdateMeta v writer mtime ROOT_INODE #
            (case target of None \<Rightarrow> [] | Some ti \<Rightarrow> [DeleteRow ti]) @
            [UpdateMove (te_inode np) b v writer mtime (te_inode e)]) (db_conn m) db'"
    and "m' = (stamp_root v writer mtime db' m)
         \<lparr>db_index := hm_insert (te_inode e) (moved_entry v (te_inode np) b writer mtime e)
                        (drop_target target (db_index (stamp_root v writer mtime db' m))),
          db_tree := tree_link (te_inode np) b (te_inode e)
                       (tree_unlink (te_parent e) (te_name e) (db_tree m))\<rparr>"
proof (cases "\<exists>e. r = Err e \<and> m' = m")
  case True
  then show ?thesis using that(1) by blast
next
  case False
  obtain e where e: "lookup_path m old_path = Some e" "te_inode e \<noteq> db_root_inode m"
      "\<not> (is_dir e \<and> is_lock_dir old_path)"
    using assms False by (auto simp: rename_def split: option.splits if_splits)
  obtain d b where db: "split_path new_path = Ok (d, b)"
    using assms False e by (cases "split_path new_path") (auto simp: rename_def Let_def)
  obtain np where np: "lookup_path m d = Some np" "is_dir np"
    using assms False e db by (auto simp: rename_def Let_def split: option.splits if_splits)
  let ?target = "map_option te_inode (lookup_path m new_path)"
  let ?f = "\<lambda>v. (case ?target of None \<Rightarrow> [] | Some ti \<Rightarrow> [DeleteRow ti]) @
                [UpdateMove (te_inode np) b v writer mtime (te_inode e)]"
  obtain r1 m1 where mu: "with_mutation sq writer mtime ?f m = (r1, m1)" by force
  let ?m2 = "\<lambda>v. m1\<lparr>db_index := hm_insert (te_inode e) (moved_entry v (te_inode np) b writer mtime e)
                               (drop_target ?target (db_index m1)),
       db_tree := tree_link (te_inode np) b (te_inode e)
                       (tree_unlink (te_parent e) (te_name e) (db_tree m1))\<rparr>"
  have res: "(r, m') = (case r1 of
      Ok v \<Rightarrow> (Ok (), ?m2 v) | Err er \<Rightarrow> (Err er, m1) | Panic \<Rightarrow> (Panic, m1))"
    using assms False e db np mu
    by (cases r1) (auto simp: rename_def Let_def moved_entry_def drop_target_def split: if_splits)
  show ?thesis
  proof (cases rule: with_mutation_cases [OF mu])
    case 1
    then show ?thesis using res by (intro that(1)) auto
  next
    case (2 v db')
    then show ?thesis using e db np res
      by (intro that(2) [of e d b np ?target v db']) (auto simp: stamp_root_def)
  next
    case (3 er)
    then show ?thesis using res by (intro that(1) [of er]) auto
  qed
qed

end
