(* ===== verification/Mem_Preserve.thy ===== *)
theory Mem_Preserve
  imports Mem_Inv
begin

text \<open>
  Every mutation keeps the invariant, in every outcome, and so does every sequence of mutations.
  Renaming onto a directory is the exception the code has: the invariant needs it excluded.
\<close>

section \<open>Lookups under the invariant\<close>

lemma inv_root [simp]: "memdb_inv m \<Longrightarrow> db_root_inode m = ROOT_INODE"
  by (simp add: memdb_inv_def)

lemma inv_parts:
  assumes "memdb_inv m"
  shows "index_inv (db_version m) (db_index m)" and "tree_inv (db_index m) (db_tree m)"
  using assms by (simp_all add: memdb_inv_def)

lemma view_index:
  assumes "memdb_inv m" and "fs_view m ps = Some e"
  shows "hm_get (db_index m) (te_inode e) = Some e"
    and "walk (db_tree m) ps ROOT_INODE = Some (te_inode e)"
  using assms index_invD(2) [OF inv_parts(1) [OF assms(1)]]
  by (auto simp: fs_view_def bind_eq_Some_conv)

lemma view_root:
  assumes "memdb_inv m"
  shows "\<exists>r. fs_view m [] = Some r \<and> is_dir r \<and> te_inode r = ROOT_INODE"
  using assms index_invD(2) [OF inv_parts(1) [OF assms]]
  by (auto simp: memdb_inv_def fs_view_def index_inv_def)

lemma lookup_index:
  assumes "memdb_inv m" and "lookup_path m p = Some e"
  shows "hm_get (db_index m) (te_inode e) = Some e"
  using view_index [OF assms(1)] assms(2) by (auto simp: lookup_path_view)

lemma view_snoc:
  assumes "memdb_inv m" and "fs_view m ps = Some pe"
  shows "map_option te_inode (fs_view m (ps @ [b])) = child (db_tree m) (te_inode pe) b"
proof (cases "child (db_tree m) (te_inode pe) b")
  case None
  then show ?thesis
    using view_index(2) [OF assms] assms(1) by (simp add: fs_view_def walk_snoc)
next
  case (Some j)
  then obtain e where e: "hm_get (db_index m) j = Some e"
    using tree_invD(2) [OF inv_parts(2) [OF assms(1)]] by blast
  then show ?thesis
    using Some view_index(2) [OF assms] assms(1) index_invD(2) [OF inv_parts(1) [OF assms(1)] e]
    by (simp add: fs_view_def walk_snoc)
qed

lemma lookup_target:
  assumes "memdb_inv m" and "split_path p = Ok (d, b)" and "b \<noteq> []" and "lookup_path m d = Some pe"
  shows "map_option te_inode (lookup_path m p) = child (db_tree m) (te_inode pe) b"
    and "fs_view m (path_parts d) = Some pe" and "lookup_path m p = fs_view m (path_parts d @ [b])"
proof -
  show pe: "fs_view m (path_parts d) = Some pe"
    using assms lookup_parent_view by metis
  show lp: "lookup_path m p = fs_view m (path_parts d @ [b])"
    using split_path_parts(1,4) [OF assms(2,3)] by (simp add: lookup_path_view)
  show "map_option te_inode (lookup_path m p) = child (db_tree m) (te_inode pe) b"
    unfolding lp by (rule view_snoc [OF assms(1) pe])
qed

text \<open>The stamped state: only the metadata of the root entry differs.\<close>

lemma stamp_root_fields [simp]:
  "db_tree (stamp_root v w t db' m) = db_tree m"
  "db_version (stamp_root v w t db' m) = v"
  "db_root_inode (stamp_root v w t db' m) = db_root_inode m"
  "db_conn (stamp_root v w t db' m) = db'"
  "db_locks (stamp_root v w t db' m) = db_locks m"
  "db_errors (stamp_root v w t db' m) = db_errors m"
  by (simp_all add: stamp_root_def)

lemma stamp_root_get:
  "hm_get (db_index (stamp_root v w t db' m)) i =
     (if i = db_root_inode m then map_option (touched_entry v w t) (hm_get (db_index m) i)
      else hm_get (db_index m) i)"
  by (simp add: stamp_root_def update_root_metadata_get touched_entry_def [abs_def])

lemma touched_entry_simps [simp]:
  "is_dir (touched_entry v w t e) = is_dir e" "te_inode (touched_entry v w t e) = te_inode e"
  "te_parent (touched_entry v w t e) = te_parent e" "te_name (touched_entry v w t e) = te_name e"
  "te_data (touched_entry v w t e) = te_data e" "te_size (touched_entry v w t e) = te_size e"
  "te_entry_type (touched_entry v w t e) = te_entry_type e"
  "te_version (touched_entry v w t e) = v"
  "te_writer (touched_entry v w t e) = w" "te_mtime (touched_entry v w t e) = t"
  "entry_ok (touched_entry v w t e) = entry_ok e"
  by (simp_all add: touched_entry_def is_dir_def entry_ok_def)

lemma stamp_root_dir:
  assumes "hm_get (db_index m) i = Some e" and "is_dir e"
  shows "\<exists>e'. hm_get (db_index (stamp_root v w t db' m)) i = Some e' \<and> is_dir e'"
  using assms by (auto simp: stamp_root_get)

lemma bumped_fields:
  assumes "bumped m m'"
  shows "db_index m' = db_index m" and "db_tree m' = db_tree m"
    and "db_root_inode m' = db_root_inode m" and "db_conn m' = db_conn m"
    and "db_locks m' = db_locks m" and "db_version m' = db_version m + 1"
    and "db_errors m \<Longrightarrow> db_errors m'"
proof -
  obtain b where "m' = m\<lparr>db_version := db_version m + 1, db_errors := b\<rparr>" "db_errors m \<longrightarrow> b"
    using assms unfolding bumped_def by blast
  then show "db_index m' = db_index m" and "db_tree m' = db_tree m"
    and "db_root_inode m' = db_root_inode m" and "db_conn m' = db_conn m"
    and "db_locks m' = db_locks m" and "db_version m' = db_version m + 1"
    and "db_errors m \<Longrightarrow> db_errors m'" by simp_all
qed

section \<open>Preservation\<close>

lemma memdb_invI:
  assumes "db_root_inode m = ROOT_INODE" and "index_inv (db_version m) (db_index m)"
    and "tree_inv (db_index m) (db_tree m)"
  shows "memdb_inv m"
  using assms by (simp add: memdb_inv_def)

lemma new_entry_simps [simp]:
  "te_inode (new_entry v p mode w t b) = v" "te_parent (new_entry v p mode w t b) = p"
  "te_version (new_entry v p mode w t b) = v" "te_name (new_entry v p mode w t b) = b"
  "te_data (new_entry v p mode w t b) = []" "te_size (new_entry v p mode w t b) = 0"
  "entry_ok (new_entry v p mode w t b)"
  by (simp_all add: new_entry_def entry_ok_def)

lemma fresh_inode:
  assumes "memdb_inv m" and "no_wrap m"
  shows "hm_get (db_index m) (db_version m + 1) = None" and "db_version m + 1 \<noteq> ROOT_INODE"
proof -
  show "hm_get (db_index m) (db_version m + 1) = None"
    using index_invD(5) [OF inv_parts(1) [OF assms(1)]] no_wrap_less [OF assms(2)]
    by (metis leD option.exhaust)
  show "db_version m + 1 \<noteq> ROOT_INODE"
    using assms(2) by (simp add: no_wrap_def ROOT_INODE_def)
qed

lemma create_inv:
  assumes inv: "memdb_inv m" and nw: "no_wrap m"
    and op: "create sq sha now path mode writer mtime m = (r, m')"
  shows "memdb_inv m'"
  using op
proof (cases rule: create_cases)
  case (1 e)
  then show ?thesis using inv nw memdb_inv_bumped by auto
next
  case (2 d b pe v db')
  let ?s = "stamp_root v writer mtime db' m"
  let ?e = "new_entry v (te_inode pe) mode writer mtime b"
  have s: "memdb_inv ?s" using inv nw 2 by (intro memdb_inv_stamp_root) auto
  have nopath: "child (db_tree m) (te_inode pe) b = None"
    using lookup_target(1) [OF inv 2(4,5,8)] 2(3) by (simp add: path_exists_def)
  have name: "name_ok ?e" using split_path_parts(5) [OF 2(4,5)] 2(5) by (simp add: name_ok_def)
  obtain pe' where pe': "hm_get (db_index ?s) (te_inode pe) = Some pe'" "is_dir pe'"
    using stamp_root_dir [OF lookup_index [OF inv 2(8)] 2(9)] by blast
  have fresh: "hm_get (db_index ?s) v = None" "v \<noteq> ROOT_INODE"
    using fresh_inode [OF inv nw] 2(11) inv by (simp_all add: stamp_root_get)
  have idx: "index_inv v (hm_insert v ?e (db_index ?s))"
  proof -
    have "\<And>i e. hm_get (db_index ?s) i = Some e \<Longrightarrow> i \<noteq> v" using fresh by auto
    then show ?thesis using inv_parts(1) [OF s] name fresh by (auto simp: index_inv_def)
  qed
  have "tree_inv (hm_insert v ?e (db_index ?s)) (db_tree m')"
    using tree_inv_add [OF inv_parts(2) [OF s] fresh pe' _ , of b ?e] nopath 2(13)
    by (cases "is_dir ?e") simp_all
  then show ?thesis using idx 2(13) inv by (intro memdb_invI) simp_all
qed

lemma length_write_data:
  "length (write_data old offset new trunc) =
     (if trunc then offset + length new else max (length old) (offset + length new))"
proof -
  let ?d1 = "if trunc then take offset old else old"
  let ?d2 = "?d1 @ replicate (offset + length new - length ?d1) 0"
  have len: "length ?d2 = (if trunc then offset + length new else max (length old) (offset + length new))"
    by (simp add: max_def)
  have "length (write_data old offset new trunc) = length ?d2"
    using len by (simp add: write_data_def Let_def)
  with len show ?thesis by simp
qed

lemma written_entry_simps [simp]:
  "is_dir (written_entry v w t d e) = is_dir e" "te_inode (written_entry v w t d e) = te_inode e"
  "te_parent (written_entry v w t d e) = te_parent e" "te_name (written_entry v w t d e) = te_name e"
  "te_data (written_entry v w t d e) = d" "te_size (written_entry v w t d e) = length d"
  "te_entry_type (written_entry v w t d e) = te_entry_type e"
  "te_version (written_entry v w t d e) = v"
  by (simp_all add: written_entry_def is_dir_def)

lemma not_root_if_file:
  assumes "memdb_inv m" and "lookup_path m p = Some e" and "\<not> is_dir e"
  shows "te_inode e \<noteq> ROOT_INODE"
proof
  assume "te_inode e = ROOT_INODE"
  with lookup_index [OF assms(1,2)] assms(1,3) show False
    by (auto simp: memdb_inv_def index_inv_def)
qed

lemma write_inv:
  assumes inv: "memdb_inv m" and nw: "no_wrap m"
    and op: "write_op sq path offset writer mtime data trunc m = (r, m')"
  shows "memdb_inv m'"
  using op
proof (cases rule: write_cases)
  case (1 e)
  then show ?thesis using inv nw memdb_inv_bumped by auto
next
  case (2 e d v db')
  let ?s = "stamp_root v writer mtime db' m"
  let ?e = "written_entry v writer mtime d e"
  have s: "memdb_inv ?s" using inv nw 2 by (intro memdb_inv_stamp_root) auto
  have e: "hm_get (db_index ?s) (te_inode e) = Some e"
    using lookup_index [OF inv 2(3)] not_root_if_file [OF inv 2(3,4)] inv
    by (simp add: stamp_root_get)
  have eok: "entry_ok e" using index_invD(3) [OF inv_parts(1) [OF s] e] .
  then have "length d \<le> MEMDB_MAX_FILE_SIZE"
    using 2(5,7) by (simp add: length_write_data entry_ok_def)
  then have "entry_ok ?e" using eok 2(4) by (simp add: entry_ok_def)
  then have "index_inv v (hm_insert (te_inode e) ?e (db_index ?s))"
    using inv_parts(1) [OF s] e index_invD(5) [OF inv_parts(1) [OF s] e]
    by (intro index_inv_update) simp_all
  moreover have "tree_inv (hm_insert (te_inode e) ?e (db_index ?s)) (db_tree m)"
    using inv_parts(2) [OF s] e by (intro tree_inv_update) simp_all
  ultimately show ?thesis using 2(10) inv by (intro memdb_invI) simp_all
qed

lemma set_mtime_inv:
  assumes inv: "memdb_inv m" and nw: "no_wrap m"
    and op: "set_mtime sq sha now path writer mtime m = (r, m')"
  shows "memdb_inv m'"
  using op
proof (cases rule: set_mtime_cases)
  case (1 e)
  then show ?thesis using inv nw memdb_inv_bumped by auto
next
  case (2 e d b v db' lk)
  let ?s = "stamp_root v writer mtime db' m"
  let ?e = "touched_entry v writer mtime e"
  have s: "memdb_inv ?s" using inv nw 2 by (intro memdb_inv_stamp_root) auto
  have e: "hm_get (db_index ?s) (te_inode e) = Some e"
    using lookup_index [OF inv 2(3)] 2(4) by (simp add: stamp_root_get)
  have "index_inv v (hm_insert (te_inode e) ?e (db_index ?s))"
    using inv_parts(1) [OF s] e index_invD(3,5) [OF inv_parts(1) [OF s] e]
    by (intro index_inv_update) simp_all
  moreover have "tree_inv (hm_insert (te_inode e) ?e (db_index ?s)) (db_tree m)"
    using inv_parts(2) [OF s] e by (intro tree_inv_update) simp_all
  ultimately show ?thesis using 2(9) inv by (intro memdb_invI) simp_all
qed

lemma no_children_if_empty:
  assumes "memdb_inv m" and "lookup_path m p = Some e"
    and "is_dir e \<Longrightarrow> hm_get (db_tree m) (te_inode e) \<in> {None, Some []}"
  shows "child (db_tree m) (te_inode e) n = None"
proof (cases "is_dir e")
  case True
  then show ?thesis using assms(3) by (auto simp: child_def)
next
  case False
  then show ?thesis
    using leaf_has_no_children [OF inv_parts(2) [OF assms(1)]] lookup_index [OF assms(1,2)] by blast
qed

lemma delete_inv:
  assumes inv: "memdb_inv m" and nw: "no_wrap m"
    and op: "delete sq path writer mtime m = (r, m')"
  shows "memdb_inv m'"
  using op
proof (cases rule: delete_cases)
  case (1 e)
  then show ?thesis using inv nw memdb_inv_bumped by auto
next
  case (2 e v db' lk)
  let ?s = "stamp_root v writer mtime db' m"
  have s: "memdb_inv ?s" using inv nw 2 by (intro memdb_inv_stamp_root) auto
  have ne: "te_inode e \<noteq> ROOT_INODE" using 2(4) inv by simp
  have e: "hm_get (db_index ?s) (te_inode e) = Some e"
    using lookup_index [OF inv 2(3)] 2(4) by (simp add: stamp_root_get)
  have leaf: "\<And>n. child (db_tree ?s) (te_inode e) n = None"
    using no_children_if_empty [OF inv 2(3,5)] by simp
  have "tree_inv (hm_remove (te_inode e) (db_index ?s)) (db_tree m')"
    using tree_inv_remove [OF inv_parts(2) [OF s] e ne leaf] 2(8) by (cases "is_dir e") simp_all
  moreover have "index_inv v (hm_remove (te_inode e) (db_index ?s))"
    using index_inv_remove [OF inv_parts(1) [OF s] ne] by simp
  ultimately show ?thesis using 2(8) inv by (intro memdb_invI) simp_all
qed

text \<open>Renaming is safe when the new path names nothing, a file, or the entry itself.\<close>

definition rename_safe :: "'db MemDb \<Rightarrow> string \<Rightarrow> string \<Rightarrow> bool" where
  "rename_safe m old_path new_path \<longleftrightarrow>
     (case lookup_path m new_path of
        None \<Rightarrow> True
      | Some te \<Rightarrow> \<not> is_dir te \<or> lookup_path m old_path = Some te)"

lemma moved_entry_simps [simp]:
  "is_dir (moved_entry v p n w t e) = is_dir e" "te_inode (moved_entry v p n w t e) = te_inode e"
  "te_parent (moved_entry v p n w t e) = p" "te_name (moved_entry v p n w t e) = n"
  "te_data (moved_entry v p n w t e) = te_data e" "te_size (moved_entry v p n w t e) = te_size e"
  "te_entry_type (moved_entry v p n w t e) = te_entry_type e"
  "te_version (moved_entry v p n w t e) = v" "entry_ok (moved_entry v p n w t e) = entry_ok e"
  by (simp_all add: moved_entry_def is_dir_def entry_ok_def)

lemma rename_base_nonempty:
  assumes inv: "memdb_inv m" and "rename_safe m old_path new_path"
    and "split_path new_path = Ok (d, b)" and "lookup_path m old_path = Some e"
    and "te_inode e \<noteq> ROOT_INODE"
  shows "b \<noteq> []"
proof
  assume "b = []"
  then have "lookup_path m new_path = fs_view m []"
    using split_path_base_Nil assms(3) by (fastforce simp: lookup_path_view)
  with view_root [OF inv] assms(2,4,5) show False by (auto simp: rename_safe_def)
qed

lemma rename_inv:
  assumes inv: "memdb_inv m" and nw: "no_wrap m" and safe: "rename_safe m old_path new_path"
    and op: "rename sq old_path new_path writer mtime m = (r, m')"
  shows "memdb_inv m'"
  using op
proof (cases rule: rename_cases)
  case (1 e)
  then show ?thesis using inv nw memdb_inv_bumped by auto
next
  case (2 e d b np v db' target)
  let ?s = "stamp_root v writer mtime db' m"
  let ?e = "moved_entry v (te_inode np) b writer mtime e"
  have s: "memdb_inv ?s" using inv nw 2 by (intro memdb_inv_stamp_root) auto
  have ne: "te_inode e \<noteq> ROOT_INODE" using 2(4) inv by simp
  have b: "b \<noteq> []" using rename_base_nonempty [OF inv safe 2(6,3) ne] .
  have e: "hm_get (db_index ?s) (te_inode e) = Some e"
    using lookup_index [OF inv 2(3)] 2(4) by (simp add: stamp_root_get)
  have target: "target = child (db_tree ?s) (te_inode np) b"
    using lookup_target(1) [OF inv 2(6) b 2(7)] 2(9) by simp
  have tne: "target \<noteq> Some ROOT_INODE"
    using tree_invD(2) [OF inv_parts(2) [OF s], of "te_inode np" b ROOT_INODE] target by auto
  have repl: "replaceable (db_index ?s) (te_inode e) target"
    using safe 2(3,9) lookup_index [OF inv, of new_path] not_root_if_file [OF inv, of new_path] inv
    by (auto simp: rename_safe_def replaceable_def stamp_root_get split: option.splits)
  obtain np' where np': "hm_get (db_index ?s) (te_inode np) = Some np'" "is_dir np'"
    using stamp_root_dir [OF lookup_index [OF inv 2(7)] 2(8)] by blast
  have "index_inv v (hm_insert (te_inode e) ?e (drop_target target (db_index ?s)))"
    using inv_parts(1) [OF s] e index_invD(3,5) [OF inv_parts(1) [OF s] e] ne tne b
      split_path_parts(5) [OF 2(6) b]
    by (intro index_inv_move) (simp_all add: name_ok_def)
  moreover have "tree_inv (hm_insert (te_inode e) ?e (drop_target target (db_index ?s))) (db_tree m')"
    using tree_inv_move [OF inv_parts(2) [OF s] e ne np' repl [unfolded target], of ?e] target 2(12)
    by simp
  ultimately show ?thesis using 2(12) inv by (intro memdb_invI) simp_all
qed

section \<open>Sequences of mutations\<close>

text \<open>
  One mutation, whatever its outcome; a sequence of mutations. The parameters \<open>sq\<close> and \<open>sha\<close> are
  fixed, the time of the call is not. \<open>mem_step\<close> carries the outcome.
\<close>

inductive mem_step ::
  "'db sqlite \<Rightarrow> (byte list \<Rightarrow> byte list) \<Rightarrow> 'db MemDb \<Rightarrow> bool \<Rightarrow> 'db MemDb \<Rightarrow> bool"
  for sq sha where
  Create: "create sq sha now path mode writer mtime m = (r, m') \<Longrightarrow> mem_step sq sha m (is_ok r) m'"
| Write: "write_op sq path offset writer mtime data trunc m = (r, m') \<Longrightarrow>
    mem_step sq sha m (is_ok r) m'"
| Set_Mtime: "set_mtime sq sha now path writer mtime m = (r, m') \<Longrightarrow> mem_step sq sha m (is_ok r) m'"
| Delete: "delete sq path writer mtime m = (r, m') \<Longrightarrow> mem_step sq sha m (is_ok r) m'"
| Rename: "rename sq old_path new_path writer mtime m = (r, m') \<Longrightarrow>
    rename_safe m old_path new_path \<Longrightarrow> mem_step sq sha m (is_ok r) m'"

inductive mem_steps ::
  "'db sqlite \<Rightarrow> (byte list \<Rightarrow> byte list) \<Rightarrow> 'db MemDb \<Rightarrow> bool list \<Rightarrow> 'db MemDb \<Rightarrow> bool"
  for sq sha where
  Done: "mem_steps sq sha m [] m"
| Step: "mem_step sq sha m b m1 \<Longrightarrow> mem_steps sq sha m1 bs m' \<Longrightarrow> mem_steps sq sha m (b # bs) m'"

inductive_cases mem_steps_ConsE: "mem_steps sq sha m (b # bs) m'"

lemma mem_step_inv:
  assumes "mem_step sq sha m b m'" and "memdb_inv m" and "no_wrap m"
  shows "memdb_inv m'"
  using assms
  by (induction rule: mem_step.induct)
    (blast intro: create_inv write_inv set_mtime_inv delete_inv rename_inv)+

text \<open>The version counter: a successful mutation adds one, a failing one at most one.\<close>

definition version_step :: "bool \<Rightarrow> 'db MemDb \<Rightarrow> 'db MemDb \<Rightarrow> bool" where
  "version_step ok m m' \<longleftrightarrow>
     (ok \<longrightarrow> db_version m' = db_version m + 1) \<and>
     (\<not> ok \<longrightarrow> db_version m' = db_version m \<or> db_version m' = db_version m + 1) \<and>
     (db_errors m \<longrightarrow> \<not> ok \<and> m' = m)"

lemma bumped_version [simp]: "bumped m m' \<Longrightarrow> db_version m' = db_version m + 1"
  by (rule bumped_fields)

lemma version_step_Err: "m' = m \<or> \<not> db_errors m \<and> bumped m m' \<Longrightarrow> version_step False m m'"
  by (auto simp: version_step_def)

lemma version_step_Ok:
  "\<not> db_errors m \<Longrightarrow> db_version m' = db_version m + 1 \<Longrightarrow> version_step True m m'"
  by (simp add: version_step_def)

lemma mem_step_version:
  assumes "mem_step sq sha m ok m'"
  shows "version_step ok m m'"
  using assms
proof cases
  case (Create now path mode writer mtime r)
  from Create(2) show ?thesis
    by (cases rule: create_cases) (simp_all add: Create(1) version_step_Err version_step_Ok)
next
  case (Write path offset writer mtime data trunc r)
  from Write(2) show ?thesis
    by (cases rule: write_cases) (simp_all add: Write(1) version_step_Err version_step_Ok)
next
  case (Set_Mtime now path writer mtime r)
  from Set_Mtime(2) show ?thesis
    by (cases rule: set_mtime_cases) (simp_all add: Set_Mtime(1) version_step_Err version_step_Ok)
next
  case (Delete path writer mtime r)
  from Delete(2) show ?thesis
    by (cases rule: delete_cases) (simp_all add: Delete(1) version_step_Err version_step_Ok)
next
  case (Rename old_path new_path writer mtime r)
  from Rename(2) show ?thesis
    by (cases rule: rename_cases) (simp_all add: Rename(1) version_step_Err version_step_Ok)
qed

lemma mem_steps_inv:
  assumes "mem_steps sq sha m bs m'" and "memdb_inv m"
    and "unat (db_version m) + length bs < 2 ^ 64"
  shows "memdb_inv m' \<and> unat (db_version m) + length (filter (\<lambda>b. b) bs) \<le> unat (db_version m') \<and>
         unat (db_version m') \<le> unat (db_version m) + length bs"
  using assms
proof (induction rule: mem_steps.induct)
  case (Done m)
  then show ?case by simp
next
  case (Step m b m1 bs m')
  have nw: "no_wrap m"
    using Step.prems(2) by (simp add: no_wrap_def unat_eq_0 [symmetric] unat_word_ariths)
  have un: "unat (db_version m + 1) = Suc (unat (db_version m))"
    using Step.prems(2) by (simp add: unat_word_ariths)
  have inv1: "memdb_inv m1" using Step.hyps(1) Step.prems(1) nw by (rule mem_step_inv)
  have v: "unat (db_version m1) = Suc (unat (db_version m)) \<or>
      \<not> b \<and> unat (db_version m1) = unat (db_version m)"
    using mem_step_version [OF Step.hyps(1)] un by (auto simp: version_step_def)
  then have "unat (db_version m1) + length bs < 2 ^ 64" using Step.prems(2) by auto
  with Step.IH [OF inv1] v show ?case by auto
qed

end
