(* ===== verification/Mem_Capacity.thy ===== *)
theory Mem_Capacity
  imports Mem_Preserve
begin

text \<open>
  The limits of the file system: the number of entries, the size of a file and the sum of the
  file sizes stay within the constants of \<open>types.rs\<close> under every mutation, and the numbers
  \<open>statfs\<close> reports are consistent.
\<close>

section \<open>Sums over a hash map\<close>

definition hm_sum :: "('v \<Rightarrow> nat) \<Rightarrow> ('k, 'v) hmap \<Rightarrow> nat" where
  "hm_sum f m = sum_list (map f (hm_values m))"

lemma hm_sum_Cons [simp]: "hm_sum f ((k, v) # m) = f v + hm_sum f m"
  by (simp add: hm_sum_def hm_values_def)

lemma hm_insert_Cons: "hm_insert k v ((k', v') # m) = (if k' = k then (k, v) # m else (k', v') # hm_insert k v m)"
  by (simp add: hm_insert_def)

lemma hm_remove_Cons: "hm_remove k ((k', v') # m) = (if k' = k then hm_remove k m else (k', v') # hm_remove k m)"
  by (auto simp: hm_remove_def AList.delete_eq)

lemma hm_get_Cons: "hm_get ((k', v') # m) k = (if k = k' then Some v' else hm_get m k)"
  by (simp add: hm_get_def)

lemma hm_insert_Nil: "hm_insert k v [] = [(k, v)]"
  by (simp add: hm_insert_def)

lemmas hm_Cons = hm_insert_Cons hm_remove_Cons hm_get_Cons hm_insert_Nil

lemma hm_sum_insert_new:
  "hm_get m k = None \<Longrightarrow> hm_sum f (hm_insert k v m) = hm_sum f m + f v"
proof (induction m)
  case Nil
  then show ?case by (simp add: hm_Cons hm_sum_def hm_values_def)
next
  case (Cons kv m)
  then show ?case by (cases kv) (auto simp: hm_Cons split: if_splits)
qed

lemma hm_sum_insert_old:
  "hm_get m k = Some v' \<Longrightarrow> hm_sum f (hm_insert k v m) + f v' = hm_sum f m + f v"
proof (induction m)
  case Nil
  then show ?case by simp
next
  case (Cons kv m)
  then show ?case by (cases kv) (auto simp: hm_Cons split: if_splits)
qed

lemma hm_remove_absent: "hm_get m k = None \<Longrightarrow> hm_remove k m = m"
proof (induction m)
  case Nil
  then show ?case by (simp add: hm_remove_def)
next
  case (Cons kv m)
  then show ?case by (cases kv) (auto simp: hm_Cons split: if_splits)
qed

lemma hm_sum_remove_le: "hm_sum f (hm_remove k m) \<le> hm_sum f m"
proof (induction m)
  case Nil
  then show ?case by (simp add: hm_remove_def)
next
  case (Cons kv m)
  then show ?case by (cases kv) (auto simp: hm_Cons)
qed

lemma length_hm_sum: "length m = hm_sum (\<lambda>_. 1) m"
  by (induction m) (auto simp: hm_sum_def hm_values_def)

section \<open>The limits\<close>

definition file_weight :: "TreeEntry \<Rightarrow> nat" where
  "file_weight e = (if is_file e then te_size e else 0)"

lemma total_file_size_hm_sum: "total_file_size m = hm_sum file_weight (db_index m)"
  by (simp add: total_file_size_def hm_sum_def sum_list_map_filter' file_weight_def [abs_def])

definition within_limits :: "'db MemDb \<Rightarrow> bool" where
  "within_limits m \<longleftrightarrow>
     length (db_index m) \<le> MEMDB_MAX_INODES \<and> total_file_size m \<le> MEMDB_MAX_FSSIZE"

lemma file_weight_updates [simp]:
  "file_weight (touched_entry v w t e) = file_weight e"
  "file_weight (moved_entry v p n w t e) = file_weight e"
  "file_weight (new_entry v p mode w t b) = 0"
  by (simp_all add: file_weight_def is_file_def)

lemma stamp_root_sum:
  assumes "\<And>e. f (touched_entry v w t e) = f e"
  shows "hm_sum f (db_index (stamp_root v w t db' m)) = hm_sum f (db_index m)"
proof (cases "hm_get (db_index m) (db_root_inode m)")
  case None
  then show ?thesis by (simp add: stamp_root_def update_root_metadata_def)
next
  case (Some e)
  then show ?thesis
    using assms [of e] hm_sum_insert_old [OF Some, of f "touched_entry v w t e"]
    by (simp add: stamp_root_def update_root_metadata_def touched_entry_def)
qed

lemma stamp_root_limits [simp]:
  "hm_sum file_weight (db_index (stamp_root v w t db' m)) = hm_sum file_weight (db_index m)"
  "length (db_index (stamp_root v w t db' m)) = length (db_index m)"
  by (simp_all add: stamp_root_sum length_hm_sum)

lemma length_hm_insert:
  "length (hm_insert k v m) = (if hm_get m k = None then Suc (length m) else length m)"
  using hm_sum_insert_new [of m k "\<lambda>_. 1" v] hm_sum_insert_old [of m k _ "\<lambda>_. 1" v]
  by (auto simp: length_hm_sum)

lemma length_hm_remove_le: "length (hm_remove k m) \<le> length m"
  using hm_sum_remove_le [of "\<lambda>_. 1" k m] by (simp add: length_hm_sum)

lemma hm_sum_drop_target_le: "hm_sum f (drop_target target idx) \<le> hm_sum f idx"
  by (auto simp: drop_target_def hm_sum_remove_le split: option.splits)

lemma hm_sum_move_le:
  assumes "hm_get idx i = Some e" and "f e' = f e"
  shows "hm_sum f (hm_insert i e' (drop_target target idx)) \<le> hm_sum f idx"
proof (cases "target = Some i")
  case True
  have "hm_sum f (hm_insert i e' (hm_remove i idx)) = hm_sum f (hm_remove i idx) + f e'"
    by (simp add: hm_sum_insert_new)
  moreover have "hm_sum f (hm_remove i idx) + f e \<le> hm_sum f idx"
    using assms(1)
  proof (induction idx)
    case Nil
    then show ?case by simp
  next
    case (Cons kv idx)
    then show ?case
      using hm_sum_remove_le [of f i idx] by (cases kv) (auto simp: hm_Cons split: if_splits)
  qed
  ultimately show ?thesis using True assms(2) by (simp add: drop_target_def)
next
  case False
  then have "hm_get (drop_target target idx) i = Some e" using assms(1) by simp
  from hm_sum_insert_old [OF this, of f e'] assms(2) hm_sum_drop_target_le [of f target idx]
  show ?thesis by simp
qed

lemma bumped_limits:
  assumes "bumped m m'"
  shows "within_limits m' = within_limits m"
proof -
  have "db_index m' = db_index m" using assms by (rule bumped_fields)
  then show ?thesis by (simp add: within_limits_def total_file_size_hm_sum)
qed

lemma create_limits:
  assumes "memdb_inv m" and "no_wrap m" and "within_limits m"
    and "create sq sha now path mode writer mtime m = (r, m')"
  shows "within_limits m'"
  using assms(4)
proof (cases rule: create_cases)
  case (1 e)
  then show ?thesis using assms(3) bumped_limits by blast
next
  case (2 d b pe v db')
  have fresh: "hm_get (db_index (stamp_root v writer mtime db' m)) v = None"
    using fresh_inode [OF assms(1,2)] 2(11) assms(1) by (simp add: stamp_root_get)
  show ?thesis
    using assms(3) 2(10,13) fresh
    by (simp add: within_limits_def total_file_size_hm_sum hm_sum_insert_new length_hm_insert)
qed

lemma write_limits:
  assumes "memdb_inv m" and "within_limits m"
    and "write_op sq path offset writer mtime data trunc m = (r, m')"
  shows "within_limits m'"
  using assms(3)
proof (cases rule: write_cases)
  case (1 e)
  then show ?thesis using assms(2) bumped_limits by blast
next
  case (2 e d v db')
  let ?s = "stamp_root v writer mtime db' m"
  have ge: "hm_get (db_index m) (te_inode e) = Some e" by (rule lookup_index [OF assms(1) 2(3)])
  have e: "hm_get (db_index ?s) (te_inode e) = Some e"
    using ge not_root_if_file [OF assms(1) 2(3,4)] assms(1) by (simp add: stamp_root_get)
  have eok: "entry_ok e" by (rule index_invD(3) [OF inv_parts(1) [OF assms(1)] ge])
  then have w: "file_weight e = length (te_data e)" "file_weight (written_entry v writer mtime d e) = length d"
    using 2(4) by (auto simp: file_weight_def is_file_def entry_ok_def is_dir_def)
  have le: "length d \<le> max (length (te_data e)) (unat offset + length data)"
    using 2(7) by (simp add: length_write_data)
  have "total_file_size m' + length (te_data e) = total_file_size m + length d"
    using hm_sum_insert_old [OF e, of file_weight "written_entry v writer mtime d e"] 2(10) w
    by (simp add: total_file_size_hm_sum)
  moreover have "total_file_size m + length d \<le> MEMDB_MAX_FSSIZE + length (te_data e)"
    using le assms(2) 2(6) unfolding within_limits_def
    by (cases "length (te_data e) < unat offset + length data") (auto simp: max_def)
  moreover have "length (db_index m') = length (db_index m)"
    using e 2(10) by (simp add: length_hm_insert)
  ultimately show ?thesis using assms(2) by (simp add: within_limits_def)
qed

lemma set_mtime_limits:
  assumes "memdb_inv m" and "within_limits m"
    and "set_mtime sq sha now path writer mtime m = (r, m')"
  shows "within_limits m'"
  using assms(3)
proof (cases rule: set_mtime_cases)
  case (1 e)
  then show ?thesis using assms(2) bumped_limits by blast
next
  case (2 e d b v db' lk)
  have e: "hm_get (db_index (stamp_root v writer mtime db' m)) (te_inode e) = Some e"
    using lookup_index [OF assms(1) 2(3)] 2(4) by (simp add: stamp_root_get)
  show ?thesis
    using assms(2) 2(9) e hm_sum_insert_old [OF e, of file_weight "touched_entry v writer mtime e"]
    by (simp add: within_limits_def total_file_size_hm_sum length_hm_insert)
qed

lemma delete_limits:
  assumes "within_limits m" and "delete sq path writer mtime m = (r, m')"
  shows "within_limits m'"
  using assms(2)
proof (cases rule: delete_cases)
  case (1 e)
  then show ?thesis using assms(1) bumped_limits by blast
next
  case (2 e v db' lk)
  let ?s = "stamp_root v writer mtime db' m"
  show ?thesis
    using assms(1) 2(8) hm_sum_remove_le [of file_weight "te_inode e" "db_index ?s"]
      length_hm_remove_le [of "te_inode e" "db_index ?s"]
    by (simp add: within_limits_def total_file_size_hm_sum)
qed

lemma rename_limits:
  assumes "memdb_inv m" and "within_limits m"
    and "rename sq old_path new_path writer mtime m = (r, m')"
  shows "within_limits m'"
  using assms(3)
proof (cases rule: rename_cases)
  case (1 e)
  then show ?thesis using assms(2) bumped_limits by blast
next
  case (2 e d b np v db' target)
  let ?s = "stamp_root v writer mtime db' m"
  let ?e = "moved_entry v (te_inode np) b writer mtime e"
  have e: "hm_get (db_index ?s) (te_inode e) = Some e"
    using lookup_index [OF assms(1) 2(3)] 2(4) by (simp add: stamp_root_get)
  have "hm_sum file_weight (db_index m') \<le> hm_sum file_weight (db_index ?s)"
    using hm_sum_move_le [OF e, of file_weight ?e target] 2(12) by simp
  moreover have "length (db_index m') \<le> length (db_index ?s)"
    using hm_sum_move_le [OF e, of "\<lambda>_. 1" ?e target] 2(12) by (simp add: length_hm_sum)
  ultimately show ?thesis
    using assms(2) by (simp add: within_limits_def total_file_size_hm_sum)
qed

lemma mem_step_limits:
  assumes "mem_step sq sha m b m'" and "memdb_inv m" and "no_wrap m" and "within_limits m"
  shows "within_limits m'"
  using assms
  by (induction rule: mem_step.induct)
    (blast intro: create_limits write_limits set_mtime_limits delete_limits rename_limits)+

text \<open>
  \<open>statfs\<close>: free never exceeds total, and within the limits the used blocks are those of the data.
\<close>

lemma statfs_consistent:
  assumes "within_limits m" and "statfs m = (blocks, bfree, bavail, files, ffree)"
  shows "bfree \<le> blocks" and "bavail = bfree" and "blocks * 4096 = MEMDB_MAX_FSSIZE"
    and "(blocks - bfree) * 4096 \<ge> total_file_size m"
    and "(blocks - bfree) * 4096 < total_file_size m + 4096"
    and "files - ffree = length (db_index m)"
  using assms
  by (auto simp: statfs_def Let_def within_limits_def MEMDB_MAX_FSSIZE_def MEMDB_MAX_INODES_def)

end
