(* ===== verification/Mem_Spec.thy ===== *)
theory Mem_Spec
  imports Mem_Preserve "HOL-Library.Sublist"
begin

text \<open>
  The abstract file system: a finite map from paths (lists of names) to directories and files.
  Each mutation of the database refines the corresponding update of that map: inodes, versions,
  the transaction and the root stamp are invisible, and a failing operation changes nothing.
\<close>

section \<open>The abstract file system\<close>

datatype node = Dir | File "byte list"

type_synonym afs = "string list \<rightharpoonup> node"

definition node_of :: "TreeEntry \<Rightarrow> node" where
  "node_of e = (if is_dir e then Dir else File (te_data e))"

definition abs_fs :: "'db MemDb \<Rightarrow> afs" where
  "abs_fs m ps = map_option node_of (fs_view m ps)"

definition spec_create :: "string list \<Rightarrow> bool \<Rightarrow> afs \<Rightarrow> afs" where
  "spec_create ps dir fs = fs(ps \<mapsto> if dir then Dir else File [])"

definition spec_write :: "string list \<Rightarrow> nat \<Rightarrow> byte list \<Rightarrow> bool \<Rightarrow> afs \<Rightarrow> afs" where
  "spec_write ps offset data trunc fs =
     (case fs ps of Some (File d) \<Rightarrow> fs(ps \<mapsto> File (write_data d offset data trunc)) | _ \<Rightarrow> fs)"

definition spec_delete :: "string list \<Rightarrow> afs \<Rightarrow> afs" where
  "spec_delete ps fs = fs(ps := None)"

definition spec_rename :: "string list \<Rightarrow> string list \<Rightarrow> afs \<Rightarrow> afs" where
  "spec_rename old new fs =
     (\<lambda>ps. if prefix new ps then fs (old @ drop (length new) ps)
           else if prefix old ps then None else fs ps)"

section \<open>Nodes by inode\<close>

definition node_at :: "(u64, TreeEntry) hmap \<Rightarrow> u64 \<Rightarrow> node option" where
  "node_at idx i = map_option node_of (hm_get idx i)"

lemma abs_fs_walk: "abs_fs m ps = Option.bind (walk (db_tree m) ps (db_root_inode m)) (node_at (db_index m))"
  by (cases "walk (db_tree m) ps (db_root_inode m)") (simp_all add: abs_fs_def fs_view_def node_at_def)

lemma node_at_insert [simp]:
  "node_at (hm_insert i e idx) j = (if j = i then Some (node_of e) else node_at idx j)"
  by (simp add: node_at_def)

lemma node_at_remove [simp]:
  "node_at (hm_remove i idx) j = (if j = i then None else node_at idx j)"
  by (simp add: node_at_def)

lemma node_at_drop_target [simp]:
  "node_at (drop_target target idx) j = (if target = Some j then None else node_at idx j)"
  by (simp add: node_at_def)

lemma node_of_updates [simp]:
  "node_of (touched_entry v w t e) = node_of e" "node_of (moved_entry v p n w t e) = node_of e"
  "\<not> is_dir e \<Longrightarrow> node_of (written_entry v w t d e) = File d"
  by (simp_all add: node_of_def)

lemma node_at_stamp_root [simp]: "node_at (db_index (stamp_root v w t db' m)) = node_at (db_index m)"
  by (rule ext) (auto simp: node_at_def stamp_root_get option.map_comp comp_def)

lemma abs_fs_bumped: "bumped m m' \<Longrightarrow> abs_fs m' = abs_fs m"
  by (rule ext) (simp add: abs_fs_walk bumped_fields)

lemma node_at_lookup:
  assumes "memdb_inv m" and "lookup_path m p = Some e"
  shows "node_at (db_index m) (te_inode e) = Some (node_of e)"
  using lookup_index [OF assms] by (simp add: node_at_def)

lemma walk_lookup:
  assumes "memdb_inv m" and "lookup_path m p = Some e"
  shows "walk (db_tree m) (if p = ''.'' then [] else path_parts p) ROOT_INODE = Some (te_inode e)"
  using view_index(2) [OF assms(1)] assms(2) by (simp add: lookup_path_view)

lemma not_dot_if_not_root:
  assumes "memdb_inv m" and "lookup_path m p = Some e" and "te_inode e \<noteq> ROOT_INODE"
  shows "p \<noteq> ''.''"
  using walk_lookup [OF assms(1,2)] assms(3) by auto

section \<open>Refinement of the mutations\<close>

text \<open>The paths after each mutation that changes the tree.\<close>

lemma create_walk:
  assumes inv: "memdb_inv m" and nw: "no_wrap m"
    and op: "create sq sha now path mode writer mtime m = (Ok (), m')"
  shows "walk (db_tree m') ps ROOT_INODE =
    (if ps = path_parts path then Some (db_version m + 1) else walk (db_tree m) ps ROOT_INODE)"
  using op
proof (cases rule: create_cases)
  case (2 d b pe v db')
  have parts: "path_parts path = path_parts d @ [b]" by (rule split_path_parts(1) [OF 2(4,5)])
  have pe: "walk (db_tree m) (path_parts d) ROOT_INODE = Some (te_inode pe)"
    using view_index(2) [OF inv lookup_target(2) [OF inv 2(4,5,8)]] .
  have nochild: "child (db_tree m) (te_inode pe) b = None"
    using lookup_target(1) [OF inv 2(4,5,8)] 2(3) by (simp add: path_exists_def)
  have fresh: "hm_get (db_index m) v = None" "v \<noteq> ROOT_INODE"
    using fresh_inode [OF inv nw] 2(11) by simp_all
  then have vp: "v \<noteq> te_inode pe" using lookup_index [OF inv 2(8)] by auto
  have leaf: "\<And>n. child (db_tree m) v n = None"
    using leaf_has_no_children [OF inv_parts(2) [OF inv]] fresh(1) by blast
  have nolink: "\<And>p n. child (db_tree m) p n \<noteq> Some v"
    using tree_invD(2) [OF inv_parts(2) [OF inv]] fresh(1) by fastforce
  have c: "\<And>p n. child (db_tree m') p n =
      (if p = te_inode pe \<and> n = b then Some v else child (db_tree m) p n)"
    using 2(13) leaf vp by (auto split: if_splits)
  have ex: "\<And>ps. (\<exists>qs. ps = qs @ [b] \<and> walk (db_tree m) qs ROOT_INODE = Some (te_inode pe)) \<longleftrightarrow>
      ps = path_parts path"
    using walk_unique [OF inv_parts(2) [OF inv] pe] pe parts by metis
  show ?thesis
    using walk_link_fresh [of "db_tree m'" "te_inode pe" b v "db_tree m" ROOT_INODE ps]
      c nolink leaf fresh(2) vp nochild 2(11) unfolding ex by blast
qed simp

lemma walk_not_fresh:
  assumes "memdb_inv m" and "hm_get (db_index m) v = None" and "v \<noteq> ROOT_INODE"
  shows "walk (db_tree m) ps ROOT_INODE \<noteq> Some v"
  using tree_invD(2) [OF inv_parts(2) [OF assms(1)]] assms(2,3)
  by (cases ps rule: rev_cases) (fastforce simp: walk_snoc bind_eq_Some_conv)+

lemma create_refines:
  assumes inv: "memdb_inv m" and nw: "no_wrap m"
    and op: "create sq sha now path mode writer mtime m = (r, m')"
  shows "abs_fs m' =
    (if r = Ok () then spec_create (path_parts path) (mode AND S_IFDIR \<noteq> 0) (abs_fs m) else abs_fs m)"
  using op
proof (cases rule: create_cases)
  case (1 e)
  then show ?thesis using abs_fs_bumped by auto
next
  case (2 d b pe v db')
  let ?e = "new_entry v (te_inode pe) mode writer mtime b"
  have w: "walk (db_tree m') ps ROOT_INODE =
      (if ps = path_parts path then Some v else walk (db_tree m) ps ROOT_INODE)" for ps
    using create_walk [OF inv nw] op 2(1,11) by metis
  have nv: "walk (db_tree m) ps ROOT_INODE \<noteq> Some v" for ps
    using walk_not_fresh [OF inv] fresh_inode [OF inv nw] 2(11) by blast
  have "node_of ?e = (if mode AND S_IFDIR \<noteq> 0 then Dir else File [])"
    by (auto simp: node_of_def is_dir_def new_entry_def DT_DIR_def DT_REG_def)
  moreover have "abs_fs m' ps = (if ps = path_parts path then Some (node_of ?e) else abs_fs m ps)" for ps
  proof -
    have m': "db_root_inode m' = ROOT_INODE" "node_at (db_index m') = (node_at (db_index m))(v \<mapsto> node_of ?e)"
      using 2(13) inv by (simp_all add: fun_eq_iff)
    show ?thesis
      by (cases "walk (db_tree m) ps ROOT_INODE") (use nv [of ps] inv in \<open>auto simp: abs_fs_walk m' w\<close>)
  qed
  ultimately show ?thesis using 2(1) by (auto simp: spec_create_def)
qed

lemma write_refines:
  assumes inv: "memdb_inv m"
    and op: "write_op sq path offset writer mtime data trunc m = (r, m')"
  shows "abs_fs m' =
    (if is_ok r then spec_write (path_parts path) (unat offset) data trunc (abs_fs m) else abs_fs m)"
  using op
proof (cases rule: write_cases)
  case (1 e)
  then show ?thesis using abs_fs_bumped by auto
next
  case (2 e d v db')
  have ne: "te_inode e \<noteq> ROOT_INODE" by (rule not_root_if_file [OF inv 2(3,4)])
  have w: "walk (db_tree m) (path_parts path) ROOT_INODE = Some (te_inode e)"
    using walk_lookup [OF inv 2(3)] not_dot_if_not_root [OF inv 2(3) ne] by simp
  have cur: "abs_fs m (path_parts path) = Some (File (te_data e))"
    using w node_at_lookup [OF inv 2(3)] 2(4) inv by (simp add: abs_fs_walk node_of_def)
  have "abs_fs m' ps = (if ps = path_parts path then Some (File d) else abs_fs m ps)" for ps
  proof -
    have m': "db_root_inode m' = ROOT_INODE" "db_tree m' = db_tree m"
      "node_at (db_index m') = (node_at (db_index m))(te_inode e \<mapsto> File d)"
      using 2(4,10) inv by (simp_all add: fun_eq_iff)
    have "ps = path_parts path \<longleftrightarrow> walk (db_tree m) ps ROOT_INODE = Some (te_inode e)"
      using walk_unique [OF inv_parts(2) [OF inv] w, of ps] w by metis
    then show ?thesis
      by (cases "walk (db_tree m) ps ROOT_INODE") (simp_all add: abs_fs_walk m' inv)
  qed
  then show ?thesis using 2(1,7) cur by (auto simp: spec_write_def)
qed

lemma set_mtime_refines:
  assumes inv: "memdb_inv m" and op: "set_mtime sq sha now path writer mtime m = (r, m')"
  shows "abs_fs m' = abs_fs m"
  using op
proof (cases rule: set_mtime_cases)
  case (1 e)
  then show ?thesis using abs_fs_bumped by auto
next
  case (2 e d b v db' lk)
  have m': "db_root_inode m' = db_root_inode m" "db_tree m' = db_tree m"
    using 2(9) by simp_all
  have nodes: "node_at (db_index m') = node_at (db_index m)"
    using 2(9) node_at_lookup [OF inv 2(3)] by (simp add: fun_eq_iff)
  show ?thesis by (rule ext) (simp add: abs_fs_walk m' nodes)
qed

lemma delete_walk:
  assumes inv: "memdb_inv m" and op: "delete sq path writer mtime m = (Ok (), m')"
    and e: "lookup_path m path = Some e"
  shows "walk (db_tree m') ps ROOT_INODE =
    (if walk (db_tree m) ps ROOT_INODE = Some (te_inode e) then None else walk (db_tree m) ps ROOT_INODE)"
  using op
proof (cases rule: delete_cases)
  case (2 e' v db' lk)
  let ?t = "db_tree m"
  have ee: "e' = e" using 2(3) e by simp
  have ne: "te_inode e \<noteq> ROOT_INODE" using 2(4) inv by (simp add: ee)
  note ix = lookup_index [OF inv e]
  have link: "child ?t (te_parent e) (te_name e) = Some (te_inode e)"
    using tree_invD(3) [OF inv_parts(2) [OF inv] ne ix] .
  have leaf: "\<And>n. child ?t (te_inode e) n = None" by (rule no_children_if_empty [OF inv 2(3,5), unfolded ee])
  have only: "\<And>p n. child ?t p n = Some (te_inode e) \<Longrightarrow> p = te_parent e \<and> n = te_name e"
    using tree_invD(2) [OF inv_parts(2) [OF inv]] ix by fastforce
  have c: "child (db_tree m') p n =
      (if p = te_parent e \<and> n = te_name e then None else child ?t p n)" for p n
    using 2(8) leaf by (auto simp: ee)
  show ?thesis
    using walk_unlink_leaf [of "db_tree m'" "te_parent e" "te_name e" ?t "te_inode e" ROOT_INODE ps]
      c link leaf ne only by blast
qed simp

lemma delete_refines:
  assumes inv: "memdb_inv m" and op: "delete sq path writer mtime m = (r, m')"
  shows "abs_fs m' = (if r = Ok () then spec_delete (path_parts path) (abs_fs m) else abs_fs m)"
  using op
proof (cases rule: delete_cases)
  case (1 e)
  then show ?thesis using abs_fs_bumped by auto
next
  case (2 e v db' lk)
  have ne: "te_inode e \<noteq> ROOT_INODE" using 2(4) inv by simp
  have w: "walk (db_tree m) (path_parts path) ROOT_INODE = Some (te_inode e)"
    using walk_lookup [OF inv 2(3)] not_dot_if_not_root [OF inv 2(3) ne] by simp
  have w': "walk (db_tree m') ps ROOT_INODE = (if walk (db_tree m) ps ROOT_INODE = Some (te_inode e)
      then None else walk (db_tree m) ps ROOT_INODE)" for ps
    using delete_walk [OF inv _ 2(3)] op 2(1) by blast
  have "abs_fs m' ps = (if ps = path_parts path then None else abs_fs m ps)" for ps
  proof -
    have m': "db_root_inode m' = ROOT_INODE"
      "node_at (db_index m') = (node_at (db_index m))(te_inode e := None)"
      using 2(8) inv by (simp_all add: fun_eq_iff)
    have "ps = path_parts path \<longleftrightarrow> walk (db_tree m) ps ROOT_INODE = Some (te_inode e)"
      using walk_unique [OF inv_parts(2) [OF inv] w, of ps] w by metis
    then show ?thesis
      by (cases "walk (db_tree m) ps ROOT_INODE") (simp_all add: abs_fs_walk m' w' inv)
  qed
  then show ?thesis using 2(1) by (auto simp: spec_delete_def)
qed

text \<open>
  Moving a link: the subtree below the old path appears below the new one.
\<close>

lemma walk_move:
  assumes inv: "tree_inv idx t"
    and c: "\<And>p n. child t' p n = (if p = np \<and> n = b then Some i
             else if p = op \<and> n = on then None else child t p n)"
    and wo: "walk t os ROOT_INODE = Some op" and i: "child t op on = Some i"
    and wn: "walk t ns ROOT_INODE = Some np"
    and ok: "\<not> strict_prefix (os @ [on]) (ns @ [b])"
  shows "walk t' ps ROOT_INODE =
    (if prefix (ns @ [b]) ps then walk t (os @ [on] @ drop (length ns + 1) ps) ROOT_INODE
     else if prefix (os @ [on]) ps then None else walk t ps ROOT_INODE)"
proof (induction ps rule: rev_induct)
  case Nil
  then show ?case by simp
next
  case (snoc n ps)
  note uniq = walk_unique [OF inv]
  show ?case
  proof (cases "prefix (ns @ [b]) (ps @ [n])")
    case new: True
    show ?thesis
    proof (cases "prefix (ns @ [b]) ps")
      case True
      let ?q = "os @ [on] @ drop (length ns + 1) ps"
      have len: "length ns + 1 \<le> length ps" using prefix_length_le [OF True] by simp
      have keep: "child t' p n = child t p n" if p: "walk t ?q ROOT_INODE = Some p" for p
      proof -
        have "p \<noteq> np"
        proof
          assume "p = np"
          then have "?q = ns" using uniq [OF p] wn by simp
          then have "prefix (os @ [on]) ns" by (metis append_assoc prefixI)
          then have "strict_prefix (os @ [on]) (ns @ [b])"
            by (auto simp: strict_prefix_def dest: prefix_length_le)
          then show False using ok by simp
        qed
        moreover have "\<not> (p = op \<and> n = on)" using uniq [OF p] wo by auto
        ultimately show ?thesis using c by auto
      qed
      have "walk t' (ps @ [n]) ROOT_INODE = Option.bind (walk t ?q ROOT_INODE) (\<lambda>p. child t' p n)"
        using snoc.IH True by (simp add: walk_snoc)
      also have "\<dots> = walk t (?q @ [n]) ROOT_INODE"
        unfolding walk_snoc by (cases "walk t ?q ROOT_INODE") (simp_all add: keep)
      finally show ?thesis using new len by simp
    next
      case False
      then have eq: "ns = ps" "b = n" using new by (auto simp: prefix_snoc)
      have "\<not> prefix (os @ [on]) ps" using ok eq by (auto simp: strict_prefix_def prefix_def)
      then have "walk t' ps ROOT_INODE = Some np" using snoc.IH False wn eq by simp
      then show ?thesis using new c wo i eq by (simp add: walk_snoc)
    qed
  next
    case nnew: False
    then have nnew': "\<not> prefix (ns @ [b]) ps" by (auto simp: prefix_snoc)
    show ?thesis
    proof (cases "prefix (os @ [on]) ps")
      case True
      then show ?thesis using snoc.IH nnew nnew' by (auto simp: walk_snoc prefix_snoc)
    next
      case False
      then have wps: "walk t' ps ROOT_INODE = walk t ps ROOT_INODE" using snoc.IH nnew' by simp
      have stay: "\<not> (p = np \<and> n = b)" if "walk t ps ROOT_INODE = Some p" for p
        using uniq [OF that] wn nnew by auto
      have gone: "p = op \<and> n = on \<longleftrightarrow> os @ [on] = ps @ [n]" if "walk t ps ROOT_INODE = Some p" for p
        using uniq [OF that, of os] wo that by (metis append1_eq_conv option.inject)
      show ?thesis
      proof (cases "walk t ps ROOT_INODE")
        case None
        then show ?thesis using nnew by (auto simp: walk_snoc wps)
      next
        case (Some p)
        have "child t' p n = (if os @ [on] = ps @ [n] then None else child t p n)"
          unfolding c [of p n] gone [OF Some, symmetric] using stay [OF Some]
          by (simp only: if_False)
        then show ?thesis
          using nnew Some False unfolding walk_snoc wps prefix_snoc [of "os @ [on]"] by auto
      qed
    qed
  qed
qed

text \<open>
  The entry that is moved, the directory it goes to, the inode it replaces, and the paths afterwards.
\<close>

lemma rename_walk:
  assumes inv: "memdb_inv m" and safe: "rename_safe m old_path new_path"
    and down: "\<not> strict_prefix (path_parts old_path) (path_parts new_path)"
    and op: "rename sq old_path new_path writer mtime m = (Ok (), m')"
    and e: "lookup_path m old_path = Some e"
  obtains "walk (db_tree m) (path_parts old_path) ROOT_INODE = Some (te_inode e)"
    and "map_option te_inode (lookup_path m new_path) = walk (db_tree m) (path_parts new_path) ROOT_INODE"
    and "\<And>ps. walk (db_tree m') ps ROOT_INODE =
      (if prefix (path_parts new_path) ps
       then walk (db_tree m) (path_parts old_path @ drop (length (path_parts new_path)) ps) ROOT_INODE
       else if prefix (path_parts old_path) ps then None else walk (db_tree m) ps ROOT_INODE)"
  using op
proof (cases rule: rename_cases)
  case (2 e' d b np v db' target)
  let ?t = "db_tree m"
  note tinv = inv_parts(2) [OF inv]
  have ee: "e' = e" using 2(3) e by simp
  have ne: "te_inode e \<noteq> ROOT_INODE" using 2(4) inv by (simp add: ee)
  have b: "b \<noteq> []" using rename_base_nonempty [OF inv safe 2(6) e ne] .
  have wold: "walk ?t (path_parts old_path) ROOT_INODE = Some (te_inode e)"
    using walk_lookup [OF inv e] not_dot_if_not_root [OF inv e ne] by simp
  then obtain os on where old: "path_parts old_path = os @ [on]"
    using ne by (cases "path_parts old_path" rule: rev_cases) auto
  then obtain p where p: "walk ?t os ROOT_INODE = Some p" "child ?t p on = Some (te_inode e)"
    using wold by (auto simp: walk_snoc bind_eq_Some_conv)
  then have pe: "p = te_parent e" "on = te_name e"
    using tree_invD(2) [OF tinv p(2)] lookup_index [OF inv e] by auto
  have new: "path_parts new_path = path_parts d @ [b]" by (rule split_path_parts(1) [OF 2(6) b])
  have wn: "walk ?t (path_parts d) ROOT_INODE = Some (te_inode np)"
    using view_index(2) [OF inv lookup_target(2) [OF inv 2(6) b 2(7)]] .
  have c: "child (db_tree m') p' n' = (if p' = te_inode np \<and> n' = b then Some (te_inode e)
      else if p' = p \<and> n' = on then None else child ?t p' n')" for p' n'
    using 2(12) pe by (simp add: ee)
  show thesis
  proof (rule that)
    show "map_option te_inode (lookup_path m new_path) = walk ?t (path_parts new_path) ROOT_INODE"
      using lookup_target(1) [OF inv 2(6) b 2(7)] wn by (simp add: new walk_snoc)
    show "walk (db_tree m') ps ROOT_INODE =
      (if prefix (path_parts new_path) ps
       then walk ?t (path_parts old_path @ drop (length (path_parts new_path)) ps) ROOT_INODE
       else if prefix (path_parts old_path) ps then None else walk ?t ps ROOT_INODE)" for ps
      using walk_move [OF tinv c p wn] down by (simp add: old new)
  qed (rule wold)
qed simp

lemma rename_refines:
  assumes inv: "memdb_inv m" and safe: "rename_safe m old_path new_path"
    and down: "\<not> strict_prefix (path_parts old_path) (path_parts new_path)"
    and op: "rename sq old_path new_path writer mtime m = (r, m')"
  shows "abs_fs m' = (if r = Ok ()
    then spec_rename (path_parts old_path) (path_parts new_path) (abs_fs m) else abs_fs m)"
  using op
proof (cases rule: rename_cases)
  case (1 e)
  then show ?thesis using abs_fs_bumped by auto
next
  case (2 e d b np v db' target)
  let ?t = "db_tree m"
  have wold: "walk ?t (path_parts old_path) ROOT_INODE = Some (te_inode e)"
    and target: "target = walk ?t (path_parts new_path) ROOT_INODE"
    and w: "\<And>ps. walk (db_tree m') ps ROOT_INODE =
      (if prefix (path_parts new_path) ps
       then walk ?t (path_parts old_path @ drop (length (path_parts new_path)) ps) ROOT_INODE
       else if prefix (path_parts old_path) ps then None else walk ?t ps ROOT_INODE)"
    using rename_walk [OF inv safe down op [unfolded 2(1)] 2(3)] 2(9) by metis+
  have nodes: "node_at (db_index m') j =
      (if target = Some j \<and> j \<noteq> te_inode e then None else node_at (db_index m) j)" for j
    using 2(12) node_at_lookup [OF inv 2(3)] by simp
  have at_target: "target = Some j \<Longrightarrow> walk ?t qs ROOT_INODE = Some j \<Longrightarrow> qs = path_parts new_path" for j qs
    using walk_unique [OF inv_parts(2) [OF inv]] target by metis
  have node: "walk (db_tree m') ps ROOT_INODE = Some j \<Longrightarrow> node_at (db_index m') j = node_at (db_index m) j" for ps j
  proof (cases "target = Some j")
    case True
    assume *: "walk (db_tree m') ps ROOT_INODE = Some j"
    have "prefix (path_parts new_path) ps"
    proof (rule ccontr)
      assume "\<not> prefix (path_parts new_path) ps"
      with * w [of ps] have "walk ?t ps ROOT_INODE = Some j" by (simp split: if_splits)
      from at_target [OF True this] \<open>\<not> prefix (path_parts new_path) ps\<close> show False by simp
    qed
    with * w [of ps] have "walk ?t (path_parts old_path @ drop (length (path_parts new_path)) ps) ROOT_INODE = Some j"
      by simp
    from at_target [OF True this]
    have eq: "path_parts old_path @ drop (length (path_parts new_path)) ps = path_parts new_path" .
    then have "prefix (path_parts old_path) (path_parts new_path)" by (metis prefixI)
    then have "path_parts old_path = path_parts new_path" using down by (auto simp: strict_prefix_def)
    then have "j = te_inode e" using True target wold by simp
    then show ?thesis using nodes by simp
  qed (simp add: nodes)
  have "db_root_inode m' = ROOT_INODE" using 2(12) inv by simp
  then have "abs_fs m' ps = Option.bind (walk (db_tree m') ps ROOT_INODE) (node_at (db_index m))" for ps
    using node [of ps] by (cases "walk (db_tree m') ps ROOT_INODE") (simp_all add: abs_fs_walk)
  then show ?thesis using 2(1) inv by (simp add: fun_eq_iff spec_rename_def w abs_fs_walk)
qed

section \<open>Reading\<close>

definition view_path :: "string \<Rightarrow> string list" where
  "view_path p = (if p = ''.'' then [] else path_parts p)"

definition spec_read :: "string list \<Rightarrow> nat \<Rightarrow> nat \<Rightarrow> afs \<Rightarrow> (mem_error, byte list) res" where
  "spec_read ps offset len fs =
     (case fs ps of
        None \<Rightarrow> Err NotFound
      | Some Dir \<Rightarrow> Err IsDirectory
      | Some (File d) \<Rightarrow> Ok (take len (drop offset d)))"

lemma lookup_abs: "abs_fs m (view_path p) = map_option node_of (lookup_path m p)"
  by (simp add: abs_fs_def lookup_path_view view_path_def)

lemma read_refines:
  assumes "unat offset + len < 2 ^ 64"
  shows "read m path offset len = spec_read (view_path path) (unat offset) len (abs_fs m)"
proof (cases "lookup_path m path")
  case None
  then show ?thesis by (simp add: read_def spec_read_def lookup_abs)
next
  case (Some e)
  have "take (min (unat offset + len) (length (te_data e)) - unat offset) (drop (unat offset) (te_data e)) =
      take len (drop (unat offset) (te_data e))"
    by (simp add: min_def)
  then show ?thesis
    using Some assms by (simp add: read_def spec_read_def lookup_abs node_of_def slice_def)
qed

lemma map_map_filter_inverse:
  assumes "\<forall>x\<in>set xs. \<exists>y. f x = Some y \<and> g y = x"
  shows "map g (List.map_filter f xs) = xs"
  using assms by (induction xs) (auto simp: List.map_filter_simps)

lemma set_map_filter: "y \<in> set (List.map_filter f xs) \<longleftrightarrow> (\<exists>x. x \<in> set xs \<and> f x = Some y)"
  by (induction xs) (auto simp: List.map_filter_simps split: option.splits)

lemma written_data:
  assumes inv: "memdb_inv m"
    and op: "write_op sq path offset writer mtime data trunc m = (Ok n, m')"
  shows "n = length data \<and> read m' path offset (length data) = Ok data"
proof -
  have abs: "abs_fs m' = spec_write (path_parts path) (unat offset) data trunc (abs_fs m)"
    using write_refines [OF inv op] by simp
  from op show ?thesis
  proof (cases rule: write_cases)
    case (1 e)
    then show ?thesis by simp
  next
    case (2 e d v db')
    have ne: "te_inode e \<noteq> ROOT_INODE" by (rule not_root_if_file [OF inv 2(3,4)])
    have vp: "view_path path = path_parts path"
      using not_dot_if_not_root [OF inv 2(3) ne] by (simp add: view_path_def)
    have "abs_fs m (path_parts path) = Some (File (te_data e))"
      using lookup_abs [of m path] 2(3,4) vp by (simp add: node_of_def)
    then have cont: "abs_fs m' (view_path path) = Some (File d)"
      using abs vp 2(7) by (simp add: spec_write_def)
    have small: "unat offset + length data < 2 ^ 64" using 2(5) by (simp add: MEMDB_MAX_FILE_SIZE_def)
    have "take (length data) (drop (unat offset) d) = data"
      using 2(7) by (simp add: write_data_def Let_def min_def)
    then show ?thesis
      using abs 2(1) cont read_refines [OF small, of m' path] by (simp add: spec_read_def)
  qed
qed

lemma created_inode:
  assumes inv: "memdb_inv m" and nw: "no_wrap m" and op: "create sq sha now path mode writer mtime m = (Ok (), m')"
  obtains e where "lookup_path m' path = Some e" and "te_inode e = db_version m + 1"
proof -
  note inv' = create_inv [OF inv nw op]
  have w: "walk (db_tree m') (path_parts path) ROOT_INODE = Some (db_version m + 1)"
    using create_walk [OF inv nw op] by simp
  have "path \<noteq> ''.'' \<and> path_parts path \<noteq> []"
    using op
  proof (cases rule: create_cases)
    case (2 d b pe v db')
    then show ?thesis
      using view_root [OF inv] split_path_parts(1) [OF 2(4,5)] by (auto simp: path_exists_def lookup_path_view)
  qed simp
  then obtain ps n where ne: "path \<noteq> ''.''" and "path_parts path = ps @ [n]" by (metis append_butlast_last_id)
  then obtain e where "hm_get (db_index m') (db_version m + 1) = Some e"
    using w tree_invD(2) [OF inv_parts(2) [OF inv']] by (fastforce simp: walk_snoc bind_eq_Some_conv)
  then show thesis
    using that [of e] ne w index_invD(2) [OF inv_parts(1) [OF inv']] inv' by (auto simp: lookup_path_view fs_view_def)
qed

text \<open>
  A directory listing has exactly the entries one name below the path, each once.
\<close>

lemma readdir_entries:
  assumes inv: "memdb_inv m" and dir: "lookup_path m path = Some e" "is_dir e"
  shows "\<exists>es. readdir m path = Ok es \<and> distinct (map te_inode es) \<and>
           set es = {c. \<exists>n. fs_view m (view_path path @ [n]) = Some c}"
proof -
  note tinv = inv_parts(2) [OF inv] and iinv = inv_parts(1) [OF inv]
  have view: "fs_view m (view_path path) = Some e"
    using dir by (simp add: lookup_path_view view_path_def)
  obtain ch where ch: "hm_get (db_tree m) (te_inode e) = Some ch"
    using tree_invD(4) [OF tinv, of "te_inode e"] lookup_index [OF inv dir(1)] dir(2)
    by (auto simp: has_dir_def)
  have ch_ok: "hm_ok ch" using tree_invD(1) [OF tinv] ch by (auto simp: tree_ok_def)
  have chi: "hm_get ch n = Some i \<longleftrightarrow> child (db_tree m) (te_inode e) n = Some i" for n i
    using ch by (simp add: child_def)
  have ex: "\<exists>c. hm_get (db_index m) i = Some c \<and> te_inode c = i \<and> te_name c = n" if "hm_get ch n = Some i" for n i
    using that tree_invD(2) [OF tinv] index_invD(2) [OF iinv] by (simp add: chi) blast
  let ?es = "List.map_filter (hm_get (db_index m)) (hm_values ch)"
  have inodes: "map te_inode ?es = hm_values ch"
  proof -
    have "\<forall>i\<in>set (hm_values ch). \<exists>c. hm_get (db_index m) i = Some c \<and> te_inode c = i"
    proof
      fix i
      assume "i \<in> set (hm_values ch)"
      then obtain n where "hm_get ch n = Some i" using hm_values_iff [OF ch_ok] by blast
      from ex [OF this] show "\<exists>c. hm_get (db_index m) i = Some c \<and> te_inode c = i" by blast
    qed
    then show ?thesis by (rule map_map_filter_inverse)
  qed
  have "distinct (hm_values ch)"
  proof -
    have inj: "n = n'" if "hm_get ch n = Some i" "hm_get ch n' = Some i" for n n' i
      using ex [OF that(1)] ex [OF that(2)] by auto
    have "inj_on snd (set ch)"
    proof (rule inj_onI)
      fix x y
      assume "x \<in> set ch" "y \<in> set ch" "snd x = snd y"
      then have "(fst x, snd x) \<in> set ch" "(fst y, snd x) \<in> set ch" by (metis prod.collapse)+
      then have "fst x = fst y" by (intro inj [of _ "snd x"]) (simp_all add: hm_get_iff [OF ch_ok])
      with \<open>snd x = snd y\<close> show "x = y" by (simp add: prod_eq_iff)
    qed
    then show ?thesis using ch_ok by (simp add: hm_values_def hm_ok_def distinct_map)
  qed
  moreover have "set ?es = {c. \<exists>n. fs_view m (view_path path @ [n]) = Some c}"
  proof -
    have "c \<in> set ?es \<longleftrightarrow> (\<exists>n i. hm_get ch n = Some i \<and> hm_get (db_index m) i = Some c)" for c
      unfolding set_map_filter hm_values_iff [OF ch_ok] by blast
    moreover have "fs_view m (view_path path @ [n]) = Some c \<longleftrightarrow>
        (\<exists>i. hm_get ch n = Some i \<and> hm_get (db_index m) i = Some c)" for n c
      using view_index(2) [OF inv view] inv
      by (auto simp: fs_view_def walk_snoc chi bind_eq_Some_conv)
    ultimately show ?thesis by blast
  qed
  ultimately show ?thesis using dir ch inodes by (simp add: readdir_def)
qed

lemma view_name:
  assumes "memdb_inv m" and "fs_view m (ps @ [n]) = Some c"
  shows "te_name c = n"
proof -
  obtain i j where "child (db_tree m) i n = Some j" "hm_get (db_index m) j = Some c"
    using assms(2) by (auto simp: fs_view_def walk_snoc bind_eq_Some_conv)
  then show ?thesis using tree_invD(2) [OF inv_parts(2) [OF assms(1)]] by fastforce
qed

end
