(* ===== verification/Mem_Persist.thy ===== *)
theory Mem_Persist
  imports Mem_Preserve
begin

text \<open>
  The database on disk follows the memory. SQLite is a parameter; what is assumed of it is
  \<open>sqlite_laws\<close>: a transaction starts from the committed table, a statement has the effect its
  SQL describes, an insertion with a key that is present fails, a commit makes the table of the
  transaction the committed one, and a query returns the rows. Any call may fail.
  Under these laws every mutation keeps memory and table in agreement in every outcome, and
  loading the table again gives back the same index and tree.
\<close>

section \<open>The laws\<close>

fun sql_apply :: "sql_stmt \<Rightarrow> (u64 \<rightharpoonup> row) \<Rightarrow> (u64 \<rightharpoonup> row)" where
  "sql_apply (UpdateMeta v w t i) T =
     T(i := map_option (\<lambda>r. r\<lparr>r_version := v, r_writer := w, r_mtime := t\<rparr>) (T i))"
| "sql_apply (UpdateData v w t d i) T =
     T(i := map_option (\<lambda>r. r\<lparr>r_version := v, r_writer := w, r_mtime := t, r_data := Some d\<rparr>) (T i))"
| "sql_apply (UpdateMove p n v w t i) T =
     T(i := map_option (\<lambda>r. r\<lparr>r_parent := p, r_name := n, r_version := v, r_writer := w, r_mtime := t\<rparr>) (T i))"
| "sql_apply (UpdateVersion v i) T = T(i := map_option (\<lambda>r. r\<lparr>r_version := v\<rparr>) (T i))"
| "sql_apply (InsertRow r) T = T(r_inode r \<mapsto> r)"
| "sql_apply (ReplaceRow r) T = T(r_inode r \<mapsto> r)"
| "sql_apply (DeleteRow i) T = T(i := None)"
| "sql_apply DeleteAll T = Map.empty"

definition sqlite_laws :: "'db sqlite \<Rightarrow> ('db \<Rightarrow> u64 \<rightharpoonup> row) \<Rightarrow> bool" where
  "sqlite_laws sq tbl \<longleftrightarrow>
     (\<forall>db db'. sq_schema sq db = Some db' \<longrightarrow> tbl db' = Map.empty) \<and>
     (\<forall>db tx. sq_begin sq db = Some tx \<longrightarrow> tbl tx = tbl db) \<and>
     (\<forall>s tx tx'. sq_exec sq s tx = Some tx' \<longrightarrow>
        tbl tx' = sql_apply s (tbl tx) \<and> (\<forall>r. s = InsertRow r \<longrightarrow> tbl tx (r_inode r) = None)) \<and>
     (\<forall>tx db. sq_commit sq tx = Some db \<longrightarrow> tbl db = tbl tx) \<and>
     (\<forall>db rows. sq_select sq db = Some rows \<longrightarrow>
        distinct (map r_inode rows) \<and> (\<forall>i. tbl db i = map_of (map (\<lambda>r. (r_inode r, r)) rows) i))"

lemma exec_all_tbl:
  assumes "sqlite_laws sq tbl"
  shows "exec_all sq ss tx = Some tx' \<Longrightarrow> tbl tx' = fold sql_apply ss (tbl tx)"
proof (induction ss arbitrary: tx)
  case Nil
  then show ?case by simp
next
  case (Cons s ss)
  then obtain tx1 where "sq_exec sq s tx = Some tx1" "exec_all sq ss tx1 = Some tx'"
    by (auto split: option.splits)
  then show ?case using Cons.IH [of tx1] assms by (simp add: sqlite_laws_def)
qed

lemma committed_tbl:
  assumes "sqlite_laws sq tbl" and "committed sq ss db db'"
  shows "tbl db' = fold sql_apply ss (tbl db)"
  using assms exec_all_tbl [OF assms(1)] by (fastforce simp: committed_def sqlite_laws_def)

section \<open>Agreement of memory and table\<close>

definition root_row :: "TreeEntry \<Rightarrow> row" where
  "root_row e = version_row (te_version e) (te_writer e) (te_mtime e)"

definition stored :: "TreeEntry \<Rightarrow> row" where
  "stored e = (if te_inode e = ROOT_INODE then root_row e else row_of_entry e)"

definition root_shape :: "TreeEntry \<Rightarrow> bool" where
  "root_shape e \<longleftrightarrow> te_parent e = ROOT_INODE \<and> te_name e = []"

definition coherent :: "('db \<Rightarrow> u64 \<rightharpoonup> row) \<Rightarrow> 'db MemDb \<Rightarrow> bool" where
  "coherent tbl m \<longleftrightarrow>
     (\<forall>i. tbl (db_conn m) i = map_option stored (hm_get (db_index m) i)) \<and>
     (\<forall>e. hm_get (db_index m) ROOT_INODE = Some e \<longrightarrow> root_shape e)"

lemma coherent_bumped: "coherent tbl m \<Longrightarrow> bumped m m' \<Longrightarrow> coherent tbl m'"
  by (simp add: coherent_def bumped_fields)

lemma stored_touched:
  "stored (touched_entry v w t e) = (stored e)\<lparr>r_version := v, r_writer := w, r_mtime := t\<rparr>"
  by (simp add: stored_def root_row_def version_row_def row_of_entry_def touched_entry_def is_dir_def)

lemma stored_written:
  "te_inode e \<noteq> ROOT_INODE \<Longrightarrow> \<not> is_dir e \<Longrightarrow>
   stored (written_entry v w t d e) =
     (stored e)\<lparr>r_version := v, r_writer := w, r_mtime := t, r_data := Some d\<rparr>"
  by (simp add: stored_def row_of_entry_def written_entry_def is_dir_def)

lemma stored_moved:
  "te_inode e \<noteq> ROOT_INODE \<Longrightarrow>
   stored (moved_entry v p n w t e) =
     (stored e)\<lparr>r_parent := p, r_name := n, r_version := v, r_writer := w, r_mtime := t\<rparr>"
  by (simp add: stored_def row_of_entry_def moved_entry_def is_dir_def)

lemma create_coherent:
  assumes laws: "sqlite_laws sq tbl" and inv: "memdb_inv m" and nw: "no_wrap m" and coh: "coherent tbl m"
    and op: "create sq sha now path mode writer mtime m = (r, m')"
  shows "coherent tbl m'"
  using op
proof (cases rule: create_cases)
  case (1 e)
  then show ?thesis using coh coherent_bumped by auto
next
  case (2 d b pe v db')
  let ?e = "new_entry v (te_inode pe) mode writer mtime b"
  have v: "v \<noteq> ROOT_INODE" using fresh_inode(2) [OF inv nw] 2(11) by simp
  have tbl: "tbl db' = (sql_apply (UpdateMeta v writer mtime ROOT_INODE) (tbl (db_conn m)))(v \<mapsto> stored ?e)"
    using committed_tbl [OF laws 2(12)] v by (simp add: stored_def row_of_entry_def)
  have idx: "hm_get (db_index m') i = (if i = v then Some ?e
      else if i = ROOT_INODE then map_option (touched_entry v writer mtime) (hm_get (db_index m) i)
      else hm_get (db_index m) i)" for i
    using 2(13) inv by (simp add: stamp_root_get)
  have conn: "db_conn m' = db'" using 2(13) by simp
  show ?thesis
    using coh v
    by (auto simp: coherent_def conn idx tbl option.map_comp comp_def stored_touched root_shape_def)
qed

lemma write_coherent:
  assumes laws: "sqlite_laws sq tbl" and inv: "memdb_inv m" and coh: "coherent tbl m"
    and op: "write_op sq path offset writer mtime data trunc m = (r, m')"
  shows "coherent tbl m'"
  using op
proof (cases rule: write_cases)
  case (1 e)
  then show ?thesis using coh coherent_bumped by auto
next
  case (2 e d v db')
  have ne: "te_inode e \<noteq> ROOT_INODE" by (rule not_root_if_file [OF inv 2(3,4)])
  note e = lookup_index [OF inv 2(3)]
  have row: "tbl (db_conn m) (te_inode e) = Some (stored e)" using coh e by (simp add: coherent_def)
  have tbl: "tbl db' = (sql_apply (UpdateMeta v writer mtime ROOT_INODE) (tbl (db_conn m)))
      (te_inode e \<mapsto> stored (written_entry v writer mtime d e))"
    using committed_tbl [OF laws 2(9)] ne row 2(4) by (simp add: stored_written)
  have idx: "hm_get (db_index m') i = (if i = te_inode e then Some (written_entry v writer mtime d e)
      else if i = ROOT_INODE then map_option (touched_entry v writer mtime) (hm_get (db_index m) i)
      else hm_get (db_index m) i)" for i
    using 2(10) inv by (simp add: stamp_root_get)
  have conn: "db_conn m' = db'" using 2(10) by simp
  show ?thesis
    using coh ne
    by (auto simp: coherent_def conn idx tbl option.map_comp comp_def stored_touched root_shape_def)
qed

lemma set_mtime_coherent:
  assumes laws: "sqlite_laws sq tbl" and inv: "memdb_inv m" and coh: "coherent tbl m"
    and op: "set_mtime sq sha now path writer mtime m = (r, m')"
  shows "coherent tbl m'"
  using op
proof (cases rule: set_mtime_cases)
  case (1 e)
  then show ?thesis using coh coherent_bumped by auto
next
  case (2 e d b v db' lk)
  have ne: "te_inode e \<noteq> ROOT_INODE" using 2(4) inv by simp
  note e = lookup_index [OF inv 2(3)]
  have row: "tbl (db_conn m) (te_inode e) = Some (stored e)" using coh e by (simp add: coherent_def)
  have tbl: "tbl db' = (sql_apply (UpdateMeta v writer mtime ROOT_INODE) (tbl (db_conn m)))
      (te_inode e \<mapsto> stored (touched_entry v writer mtime e))"
    using committed_tbl [OF laws 2(8)] ne row by (simp add: stored_touched)
  have idx: "hm_get (db_index m') i = (if i = te_inode e then Some (touched_entry v writer mtime e)
      else if i = ROOT_INODE then map_option (touched_entry v writer mtime) (hm_get (db_index m) i)
      else hm_get (db_index m) i)" for i
    using 2(9) inv by (simp add: stamp_root_get)
  have conn: "db_conn m' = db'" using 2(9) by simp
  show ?thesis
    using coh ne
    by (auto simp: coherent_def conn idx tbl option.map_comp comp_def stored_touched root_shape_def)
qed

lemma delete_coherent:
  assumes laws: "sqlite_laws sq tbl" and inv: "memdb_inv m" and coh: "coherent tbl m"
    and op: "delete sq path writer mtime m = (r, m')"
  shows "coherent tbl m'"
  using op
proof (cases rule: delete_cases)
  case (1 e)
  then show ?thesis using coh coherent_bumped by auto
next
  case (2 e v db' lk)
  have ne: "te_inode e \<noteq> ROOT_INODE" using 2(4) inv by simp
  have tbl: "tbl db' = (sql_apply (UpdateMeta v writer mtime ROOT_INODE) (tbl (db_conn m)))(te_inode e := None)"
    using committed_tbl [OF laws 2(7)] by simp
  have idx: "hm_get (db_index m') i = (if i = te_inode e then None
      else if i = ROOT_INODE then map_option (touched_entry v writer mtime) (hm_get (db_index m) i)
      else hm_get (db_index m) i)" for i
    using 2(8) inv by (simp add: stamp_root_get)
  have conn: "db_conn m' = db'" using 2(8) by simp
  show ?thesis
    using coh ne
    by (auto simp: coherent_def conn idx tbl option.map_comp comp_def stored_touched root_shape_def)
qed

text \<open>Renaming keeps the agreement when the new path does not name the entry itself.\<close>

lemma rename_coherent:
  assumes laws: "sqlite_laws sq tbl" and inv: "memdb_inv m" and coh: "coherent tbl m"
    and safe: "rename_safe m old_path new_path" and other: "lookup_path m old_path \<noteq> lookup_path m new_path"
    and op: "rename sq old_path new_path writer mtime m = (r, m')"
  shows "coherent tbl m'"
  using op
proof (cases rule: rename_cases)
  case (1 e)
  then show ?thesis using coh coherent_bumped by auto
next
  case (2 e d b np v db' target)
  let ?e = "moved_entry v (te_inode np) b writer mtime e"
  have ne: "te_inode e \<noteq> ROOT_INODE" using 2(4) inv by simp
  note e = lookup_index [OF inv 2(3)]
  have row: "tbl (db_conn m) (te_inode e) = Some (stored e)" using coh e by (simp add: coherent_def)
  have tr: "target \<noteq> Some ROOT_INODE"
    using safe ne 2(3,9) not_root_if_file [OF inv] by (auto simp: rename_safe_def split: option.splits)
  have te: "target \<noteq> Some (te_inode e)"
    using other 2(3,9) lookup_index [OF inv, of new_path] e by auto
  have tbl: "tbl db' i = (if i = te_inode e then Some (stored ?e) else if target = Some i then None
      else sql_apply (UpdateMeta v writer mtime ROOT_INODE) (tbl (db_conn m)) i)" for i
    using committed_tbl [OF laws 2(11)] ne row te
    by (cases target) (auto simp: stored_moved)
  have idx: "hm_get (db_index m') i = (if i = te_inode e then Some ?e else if target = Some i then None
      else if i = ROOT_INODE then map_option (touched_entry v writer mtime) (hm_get (db_index m) i)
      else hm_get (db_index m) i)" for i
    using 2(12) inv by (simp add: stamp_root_get)
  have conn: "db_conn m' = db'" using 2(12) by simp
  show ?thesis
    using coh ne tr
    by (auto simp: coherent_def conn idx tbl option.map_comp comp_def stored_touched root_shape_def)
qed

text \<open>
  Renaming a path onto itself deletes its row: the transaction deletes the target before it
  updates the entry, and the two are the same row. The memory keeps the entry.
\<close>

lemma rename_self_row_lost:
  assumes laws: "sqlite_laws sq tbl" and inv: "memdb_inv m"
    and same: "lookup_path m new_path = lookup_path m old_path"
    and op: "rename sq old_path new_path writer mtime m = (Ok (), m')"
  shows "\<exists>e. lookup_path m old_path = Some e \<and> tbl (db_conn m') (te_inode e) = None \<and>
             hm_get (db_index m') (te_inode e) \<noteq> None"
  using op
proof (cases rule: rename_cases)
  case (1 e)
  then show ?thesis by simp
next
  case (2 e d b np v db' target)
  have "target = Some (te_inode e)" using 2(3,9) same by simp
  then have "tbl db' (te_inode e) = None"
    using committed_tbl [OF laws 2(11)] by simp
  moreover have "db_conn m' = db'" using 2(12) by simp
  ultimately show ?thesis using 2(3,12) by simp
qed

section \<open>Loading\<close>

definition find_row :: "row list \<Rightarrow> u64 \<Rightarrow> row option" where
  "find_row rows i = map_of (map (\<lambda>r. (r_inode r, r)) rows) i"

lemma find_row_iff:
  "distinct (map r_inode rows) \<Longrightarrow> find_row rows i = Some r \<longleftrightarrow> r \<in> set rows \<and> r_inode r = i"
  by (auto simp: find_row_def comp_def)

text \<open>The rows that name a place: two of them never name the same one.\<close>

definition rows_ok :: "row list \<Rightarrow> bool" where
  "rows_ok rows \<longleftrightarrow>
     distinct (map r_inode rows) \<and>
     (\<forall>r\<in>set rows. \<forall>r'\<in>set rows. r_inode r \<noteq> ROOT_INODE \<and> r_inode r' \<noteq> ROOT_INODE \<and>
        r_parent r = r_parent r' \<and> r_name r = r_name r' \<longrightarrow> r_inode r = r_inode r')"

definition is_version_row :: "row \<Rightarrow> bool" where
  "is_version_row r \<longleftrightarrow> r_inode r = ROOT_INODE \<and> r_name r = VERSION_FILENAME"

definition counted :: "row \<Rightarrow> bool" where
  "counted r \<longleftrightarrow> r_inode r \<noteq> ROOT_INODE \<or> is_version_row r"

lemma entry_of_row_fields [simp]:
  "te_inode (entry_of_row r) = r_inode r" "te_parent (entry_of_row r) = r_parent r"
  "te_name (entry_of_row r) = r_name r" "te_version (entry_of_row r) = r_version r"
  "te_writer (entry_of_row r) = r_writer r" "te_mtime (entry_of_row r) = r_mtime r"
  "te_entry_type (entry_of_row r) = r_type r"
  by (simp_all add: entry_of_row_def Let_def)

abbreviation load_rows :: "u32 \<Rightarrow> row list \<Rightarrow> load_state" where
  "load_rows now rows \<equiv> foldl load_row (load_init now) rows"

lemma load_row_root:
  "r_inode r = ROOT_INODE \<Longrightarrow> load_row s r =
     (if is_version_row r
      then s\<lparr>ls_root := (ls_root s)\<lparr>te_version := r_version r, te_writer := r_writer r, te_mtime := r_mtime r\<rparr>,
             ls_max_version := max (ls_max_version s) (r_version r)\<rparr>
      else s)"
  by (simp add: load_row_def Let_def is_version_row_def)

lemma load_row_entry:
  assumes "r_inode r \<noteq> ROOT_INODE"
  shows "ls_index (load_row s r) = hm_insert (r_inode r) (entry_of_row r) (ls_index s)"
    and "ls_tree (load_row s r) =
      (let t = tree_link (r_parent r) (r_name r) (r_inode r) (ls_tree s)
       in if r_type r = DT_DIR then tree_ensure (r_inode r) t else t)"
    and "ls_max_version (load_row s r) = max (ls_max_version s) (r_version r)"
    and "ls_root (load_row s r) = ls_root s"
  using assms by (simp_all add: load_row_def Let_def is_dir_def)

lemma rows_ok_snocD: "rows_ok (rows @ [r]) \<Longrightarrow> rows_ok rows"
  unfolding rows_ok_def by auto

lemma rows_ok_fresh:
  assumes "rows_ok (rows @ [r])" and "r' \<in> set rows"
  shows "r_inode r' \<noteq> r_inode r"
proof -
  have "r_inode r \<notin> r_inode ` set rows" using assms(1) by (simp add: rows_ok_def)
  with imageI [OF assms(2), of r_inode] show ?thesis by metis
qed

lemma load_rows_ok: "hm_ok (ls_index (load_rows now rows)) \<and> tree_ok (ls_tree (load_rows now rows))"
proof (induction rows rule: rev_induct)
  case Nil
  then show ?case by (simp add: load_init_def)
next
  case (snoc r rows)
  then show ?case
    by (cases "r_inode r = ROOT_INODE") (auto simp: load_row_root load_row_entry Let_def)
qed

lemma load_rows_index:
  assumes "rows_ok rows"
  shows "hm_get (ls_index (load_rows now rows)) i = Some e \<longleftrightarrow>
     i \<noteq> ROOT_INODE \<and> (\<exists>r\<in>set rows. r_inode r = i \<and> e = entry_of_row r)"
  using assms
proof (induction rows rule: rev_induct)
  case Nil
  then show ?case by (simp add: load_init_def)
next
  case (snoc r rows)
  then have "\<forall>r'\<in>set rows. r_inode r' \<noteq> r_inode r" using rows_ok_fresh by blast
  with snoc.IH [OF rows_ok_snocD [OF snoc.prems]] show ?case
    by (cases "r_inode r = ROOT_INODE") (auto simp: load_row_root load_row_entry)
qed

lemma load_rows_child:
  assumes "rows_ok rows"
  shows "child (ls_tree (load_rows now rows)) p n = Some i \<longleftrightarrow>
     i \<noteq> ROOT_INODE \<and> (\<exists>r\<in>set rows. r_inode r = i \<and> r_parent r = p \<and> r_name r = n)"
  using assms
proof (induction rows rule: rev_induct)
  case Nil
  then show ?case by (simp add: load_init_def child_def)
next
  case (snoc r rows)
  note IH = snoc.IH [OF rows_ok_snocD [OF snoc.prems]]
  show ?case
  proof (cases "r_inode r = ROOT_INODE")
    case True
    then show ?thesis using IH by (auto simp: load_row_root)
  next
    case False
    have c: "child (ls_tree (load_row s r)) p n =
        (if p = r_parent r \<and> n = r_name r then Some (r_inode r) else child (ls_tree s) p n)" for s
      using False by (simp add: load_row_entry Let_def)
    have "\<forall>r'\<in>set rows. r_inode r' \<noteq> ROOT_INODE \<longrightarrow> \<not> (r_parent r' = r_parent r \<and> r_name r' = r_name r)"
    proof (intro ballI impI notI)
      fix r'
      assume r': "r' \<in> set rows" "r_inode r' \<noteq> ROOT_INODE" "r_parent r' = r_parent r \<and> r_name r' = r_name r"
      then have "r_inode r' = r_inode r" using snoc.prems False by (simp add: rows_ok_def)
      then show False using rows_ok_fresh [OF snoc.prems r'(1)] by simp
    qed
    then show ?thesis using IH False by (auto simp: c)
  qed
qed

lemma load_rows_has_dir:
  "has_dir (ls_tree (load_rows now rows)) j \<longleftrightarrow>
     (\<exists>r\<in>set rows. r_inode r \<noteq> ROOT_INODE \<and> (r_parent r = j \<or> r_inode r = j \<and> r_type r = DT_DIR))"
proof (induction rows rule: rev_induct)
  case Nil
  then show ?case by (simp add: load_init_def has_dir_def)
next
  case (snoc r rows)
  then show ?case
    by (cases "r_inode r = ROOT_INODE") (auto simp: load_row_root load_row_entry Let_def)
qed

lemma load_rows_max_ge:
  "r \<in> set rows \<Longrightarrow> counted r \<Longrightarrow> r_version r \<le> ls_max_version (load_rows now rows)"
proof (induction rows rule: rev_induct)
  case Nil
  then show ?case by simp
next
  case (snoc x rows)
  then show ?case
    by (cases "r_inode x = ROOT_INODE") (auto simp: load_row_root load_row_entry counted_def le_max_iff_disj)
qed

lemma load_rows_max_le:
  "(\<forall>r\<in>set rows. r_version r \<le> v) \<Longrightarrow> ls_max_version (load_rows now rows) \<le> v"
proof (induction rows rule: rev_induct)
  case Nil
  then show ?case by (simp add: load_init_def)
next
  case (snoc x rows)
  then show ?case
    by (cases "r_inode x = ROOT_INODE") (auto simp: load_row_root load_row_entry)
qed

lemma load_rows_root:
  assumes "rows_ok rows" and "r \<in> set rows" and "is_version_row r"
  shows "ls_root (load_rows now rows) = (ls_root (load_init now))
     \<lparr>te_version := r_version r, te_writer := r_writer r, te_mtime := r_mtime r\<rparr>"
proof -
  have keep: "(\<forall>r\<in>set rows. \<not> is_version_row r) \<Longrightarrow> ls_root (load_rows now rows) = ls_root (load_init now)" for rows
  proof (induction rows rule: rev_induct)
    case (snoc x rows)
    then show ?case
      by (cases "r_inode x = ROOT_INODE") (auto simp: load_row_root load_row_entry)
  qed simp
  show ?thesis using assms
  proof (induction rows rule: rev_induct)
    case Nil
    then show ?case by simp
  next
    case (snoc x rows)
    have dist: "r_inode x \<notin> r_inode ` set rows" using snoc.prems(1) by (simp add: rows_ok_def)
    show ?case
    proof (cases "r = x")
      case True
      have "\<forall>r\<in>set rows. \<not> is_version_row r"
        using dist snoc.prems(3) True by (force simp: is_version_row_def)
      then show ?thesis
        using keep [of rows] True snoc.prems(3) by (simp add: load_row_root is_version_row_def)
    next
      case False
      then have r: "r \<in> set rows" using snoc.prems(2) by simp
      have "r_inode x \<noteq> ROOT_INODE" using dist r snoc.prems(3) by (force simp: is_version_row_def)
      then show ?thesis
        using snoc.IH [OF rows_ok_snocD [OF snoc.prems(1)] r snoc.prems(3)] by (simp add: load_row_entry)
    qed
  qed
qed

section \<open>Loading what was stored\<close>

lemma stored_fields [simp]:
  "te_inode e \<noteq> ROOT_INODE \<Longrightarrow> r_inode (stored e) = te_inode e"
  "te_inode e \<noteq> ROOT_INODE \<Longrightarrow> r_parent (stored e) = te_parent e"
  "te_inode e \<noteq> ROOT_INODE \<Longrightarrow> r_name (stored e) = te_name e"
  "te_inode e \<noteq> ROOT_INODE \<Longrightarrow> r_type (stored e) = te_entry_type e"
  "r_version (stored e) = te_version e"
  by (simp_all add: stored_def row_of_entry_def root_row_def version_row_def)

lemma stored_inode [simp]: "r_inode (stored e) = te_inode e"
  by (simp add: stored_def row_of_entry_def root_row_def version_row_def)

lemma entry_of_stored:
  "entry_ok e \<Longrightarrow> te_inode e \<noteq> ROOT_INODE \<Longrightarrow> entry_of_row (stored e) = e"
  by (cases e) (auto simp: stored_def entry_of_row_def row_of_entry_def entry_ok_def is_dir_def)

definition same_files :: "'db MemDb \<Rightarrow> 'db MemDb \<Rightarrow> bool" where
  "same_files m m' \<longleftrightarrow>
     db_root_inode m' = db_root_inode m \<and>
     (\<forall>i. hm_get (db_index m') i = hm_get (db_index m) i) \<and>
     (\<forall>p n. child (db_tree m') p n = child (db_tree m) p n)"

lemma same_files_view: "same_files m m' \<Longrightarrow> fs_view m' ps = fs_view m ps"
proof -
  assume same: "same_files m m'"
  then have "walk (db_tree m') ps c = walk (db_tree m) ps c" for c
    by (intro walk_cong) (simp add: same_files_def)
  then show ?thesis using same
    by (cases "walk (db_tree m) ps (db_root_inode m)") (simp_all add: fs_view_def same_files_def)
qed

lemma coherent_rows:
  assumes laws: "sqlite_laws sq tbl" and inv: "memdb_inv m" and coh: "coherent tbl m"
    and sel: "sq_select sq (db_conn m) = Some rows"
  shows "r \<in> set rows \<longleftrightarrow> (\<exists>e. hm_get (db_index m) (te_inode e) = Some e \<and> r = stored e)"
    and "rows_ok rows"
proof -
  have dist: "distinct (map r_inode rows)" and tbl: "\<And>i. tbl (db_conn m) i = find_row rows i"
    using laws sel by (simp_all add: sqlite_laws_def find_row_def)
  have find: "find_row rows i = map_option stored (hm_get (db_index m) i)" for i
    using coh tbl by (simp add: coherent_def)
  have mem: "r \<in> set rows \<longleftrightarrow> (\<exists>e. hm_get (db_index m) (te_inode e) = Some e \<and> r = stored e)" for r
  proof
    assume "r \<in> set rows"
    then have "find_row rows (r_inode r) = Some r" using find_row_iff [OF dist] by simp
    then obtain e where e: "hm_get (db_index m) (r_inode r) = Some e" "r = stored e"
      using find by auto
    then show "\<exists>e. hm_get (db_index m) (te_inode e) = Some e \<and> r = stored e" by auto
  next
    assume "\<exists>e. hm_get (db_index m) (te_inode e) = Some e \<and> r = stored e"
    then obtain e where "hm_get (db_index m) (te_inode e) = Some e" "r = stored e" by blast
    then have "find_row rows (te_inode e) = Some r" using find by simp
    then show "r \<in> set rows" using find_row_iff [OF dist] by simp
  qed
  show "r \<in> set rows \<longleftrightarrow> (\<exists>e. hm_get (db_index m) (te_inode e) = Some e \<and> r = stored e)" by (rule mem)
  show "rows_ok rows"
    unfolding rows_ok_def
  proof (intro conjI ballI impI)
    fix r r'
    assume "r \<in> set rows" "r' \<in> set rows"
      and eq: "r_inode r \<noteq> ROOT_INODE \<and> r_inode r' \<noteq> ROOT_INODE \<and> r_parent r = r_parent r' \<and> r_name r = r_name r'"
    then obtain e e' where e: "hm_get (db_index m) (te_inode e) = Some e" "r = stored e"
        "hm_get (db_index m) (te_inode e') = Some e'" "r' = stored e'"
      using mem by meson
    then have "child (db_tree m) (te_parent e) (te_name e) = Some (te_inode e)"
        "child (db_tree m) (te_parent e') (te_name e') = Some (te_inode e')"
      using tree_invD(3) [OF inv_parts(2) [OF inv]] eq by simp_all
    moreover have "te_parent e = te_parent e'" "te_name e = te_name e'" using e eq by auto
    ultimately have "te_inode e = te_inode e'" by simp
    then show "r_inode r = r_inode r'" unfolding e(2,4) stored_inode .
  qed (rule dist)
qed

lemma load_restores:
  assumes laws: "sqlite_laws sq tbl" and inv: "memdb_inv m" and coh: "coherent tbl m"
    and root: "hm_get (db_index m) ROOT_INODE = Some re" "te_version re \<noteq> 0"
    and load: "load_from_db sq now (db_conn m) = Ok s"
  shows "same_files m (memdb_of_load (db_conn m) s)" and "memdb_inv (memdb_of_load (db_conn m) s)"
    and "coherent tbl (memdb_of_load (db_conn m) s)" and "ls_max_version s \<le> db_version m"
proof -
  note iinv = inv_parts(1) [OF inv] and tinv = inv_parts(2) [OF inv]
  obtain rows where sel: "sq_select sq (db_conn m) = Some rows"
    using load by (auto simp: load_from_db_def split: option.splits)
  note rows = coherent_rows [OF laws inv coh sel]
  let ?l = "load_rows now rows"
  have re: "te_inode re = ROOT_INODE" using index_invD(2) [OF iinv root(1)] .
  have vr: "stored re \<in> set rows" "is_version_row (stored re)"
    using rows(1) root(1) re by (auto simp: stored_def is_version_row_def root_row_def version_row_def)
  have lroot: "ls_root ?l = re"
  proof -
    have "root_shape re" "is_dir re" "entry_ok re"
      using coh root(1) inv index_invD(3) [OF iinv root(1)] by (auto simp: coherent_def memdb_inv_def index_inv_def)
    then show ?thesis
      using load_rows_root [OF rows(2) vr] re
      by (cases re) (simp add: load_init_def stored_def root_row_def version_row_def root_shape_def
          entry_ok_def is_dir_def DT_DIR_def)
  qed
  have s: "ls_index s = hm_insert ROOT_INODE re (ls_index ?l)" "ls_tree s = tree_ensure ROOT_INODE (ls_tree ?l)"
      "ls_max_version s = ls_max_version ?l"
    using load sel lroot root(2) by (auto simp: load_from_db_def Let_def)
  have idx: "hm_get (ls_index s) i = hm_get (db_index m) i" for i
  proof (cases "i = ROOT_INODE")
    case True
    then show ?thesis using s root by simp
  next
    case False
    have "hm_get (ls_index ?l) i = Some e \<longleftrightarrow> hm_get (db_index m) i = Some e" for e
    proof -
      have "hm_get (ls_index ?l) i = Some e \<longleftrightarrow>
          (\<exists>e'. hm_get (db_index m) i = Some e' \<and> te_inode e' = i \<and> e = entry_of_row (stored e'))"
        unfolding load_rows_index [OF rows(2)] Bex_def rows(1) using False by auto
      moreover have "te_inode e' = i \<and> entry_of_row (stored e') = e'" if "hm_get (db_index m) i = Some e'" for e'
        using index_invD(2,3) [OF iinv that] entry_of_stored False by simp
      ultimately show ?thesis by metis
    qed
    then show ?thesis using False s by (metis hm.get_insert option.exhaust)
  qed
  have ch: "child (ls_tree s) p n = child (db_tree m) p n" for p n
  proof -
    have "child (ls_tree ?l) p n = Some i \<longleftrightarrow> child (db_tree m) p n = Some i" for i
    proof -
      have "child (ls_tree ?l) p n = Some i \<longleftrightarrow>
          i \<noteq> ROOT_INODE \<and> (\<exists>e. hm_get (db_index m) i = Some e \<and> te_inode e = i \<and> te_parent e = p \<and> te_name e = n)"
        unfolding load_rows_child [OF rows(2)] Bex_def rows(1) by auto
      moreover have "child (db_tree m) p n = Some i \<longleftrightarrow>
          i \<noteq> ROOT_INODE \<and> (\<exists>e. hm_get (db_index m) i = Some e \<and> te_parent e = p \<and> te_name e = n)"
        using tinv by (simp add: tree_inv_def)
      ultimately show ?thesis using index_invD(2) [OF iinv] by blast
    qed
    then show ?thesis using s by (metis child_ensure option.exhaust)
  qed
  show same: "same_files m (memdb_of_load (db_conn m) s)"
    using idx ch inv by (simp add: same_files_def memdb_of_load_def)
  show "coherent tbl (memdb_of_load (db_conn m) s)"
    using coh idx by (simp add: coherent_def memdb_of_load_def)
  show "ls_max_version s \<le> db_version m"
    unfolding s(3) using rows(1) index_invD(6) [OF iinv] by (intro load_rows_max_le) auto
  have vers: "te_version e \<le> ls_max_version s" if "hm_get (db_index m) i = Some e" for i e
  proof -
    have i: "te_inode e = i" using index_invD(2) [OF iinv that] .
    then have "stored e \<in> set rows" using rows(1) that by blast
    moreover have "counted (stored e)"
      using i that root vr(2) by (cases "i = ROOT_INODE") (auto simp: counted_def)
    ultimately show ?thesis using load_rows_max_ge [of "stored e" rows now] s(3) by simp
  qed
  have hd: "has_dir (ls_tree s) j \<longleftrightarrow> (\<exists>e. hm_get (db_index m) j = Some e \<and> is_dir e)" for j
  proof -
    have "has_dir (ls_tree s) j \<longleftrightarrow> j = ROOT_INODE \<or> has_dir (ls_tree ?l) j" using s(2) by simp
    also have "has_dir (ls_tree ?l) j \<longleftrightarrow> (\<exists>e. te_inode e \<noteq> ROOT_INODE \<and>
        hm_get (db_index m) (te_inode e) = Some e \<and> (te_parent e = j \<or> te_inode e = j \<and> is_dir e))"
      unfolding load_rows_has_dir Bex_def rows(1) by (auto simp: is_dir_def)
    finally have eq: "has_dir (ls_tree s) j \<longleftrightarrow> j = ROOT_INODE \<or> (\<exists>e. te_inode e \<noteq> ROOT_INODE \<and>
        hm_get (db_index m) (te_inode e) = Some e \<and> (te_parent e = j \<or> te_inode e = j \<and> is_dir e))" .
    have "te_inode e = j" if "hm_get (db_index m) j = Some e" for e
      using index_invD(2) [OF iinv that] .
    moreover have "\<exists>r. hm_get (db_index m) ROOT_INODE = Some r \<and> is_dir r"
      using iinv by (simp add: index_inv_def)
    ultimately show ?thesis unfolding eq using parent_is_dir [OF tinv] by blast
  qed
  show "memdb_inv (memdb_of_load (db_conn m) s)"
  proof (rule memdb_invI)
    have ok: "hm_ok (ls_index s)" "tree_ok (ls_tree s)" using load_rows_ok [of now rows] s by auto
    show "index_inv (db_version (memdb_of_load (db_conn m) s)) (db_index (memdb_of_load (db_conn m) s))"
      using iinv ok(1) vers unfolding index_inv_def memdb_of_load_def by (simp add: idx)
    show "tree_inv (db_index (memdb_of_load (db_conn m) s)) (db_tree (memdb_of_load (db_conn m) s))"
      using tinv ok(2) unfolding tree_inv_def memdb_of_load_def by (simp add: idx ch hd)
  qed (simp add: memdb_of_load_def)
qed

end
