(* ===== verification/Mem_Locks.thy ===== *)
theory Mem_Locks
  imports Mem_Spec Mem_Persist
begin

text \<open>
  Locks (\<open>pmxcfs-memdb/src/locks.rs\<close>) and opening the database. A lock is a directory below
  \<open>priv/lock\<close> plus an entry of the lock cache that holds the checksum of its owner and the time
  it was taken; a lock is valid for \<open>LOCK_TIMEOUT\<close> seconds.
\<close>

unbundle bit_operations_syntax

section \<open>Operations\<close>

definition lock_mode :: u32 where "lock_mode = S_IFDIR OR 0x1ED"

definition acquire_lock ::
  "'db sqlite \<Rightarrow> (byte list \<Rightarrow> byte list) \<Rightarrow> u64 \<Rightarrow> string \<Rightarrow> byte list \<Rightarrow> 'db MemDb
   \<Rightarrow> ('db, unit) memop" where
  "acquire_lock sq sha now path csum m =
     (let (lock_key, lock_path) = lock_key_and_path path;
          held = (case hm_get (db_locks m) lock_key of
                    None \<Rightarrow> False
                  | Some l \<Rightarrow> u64_saturating_sub now (li_ltime l) \<le> LOCK_TIMEOUT \<and> li_csum l \<noteq> csum);
          lock_name = (case strip_prefix lock_key (LOCK_DIR_PATH @ ''/'') of
                         None \<Rightarrow> lock_key | Some n \<Rightarrow> n);
          register = (\<lambda>m. m\<lparr>db_locks := hm_insert lock_key \<lparr>li_ltime = now, li_csum = csum\<rparr> (db_locks m)\<rparr>)
      in if held then (Err LockHeld, m)
         else if lock_key = LOCK_DIR_PATH \<or> lock_name = [] then (Err LockNameMissing, m)
         else if contains_str lock_name ''..'' then (Err LockNameTraversal, m)
         else if path_exists m lock_path then (Ok (), register m)
         else
           let mtime = ucast now;
               lock_dir_full = ''/'' @ LOCK_DIR_PATH;
               (r1, m1) = (if path_exists m lock_dir_full then (Ok (), m)
                           else create sq sha now lock_dir_full lock_mode 0 mtime m)
           in case r1 of
                Ok _ \<Rightarrow>
                  (case create sq sha now lock_path lock_mode 0 mtime m1 of
                     (Ok _, m2) \<Rightarrow> (Ok (), register m2)
                   | (Err e, m2) \<Rightarrow> (Err e, m2)
                   | (Panic, m2) \<Rightarrow> (Panic, m2))
              | Err e \<Rightarrow> (Err e, m1)
              | Panic \<Rightarrow> (Panic, m1))"

definition release_lock ::
  "'db sqlite \<Rightarrow> u64 \<Rightarrow> string \<Rightarrow> byte list \<Rightarrow> 'db MemDb \<Rightarrow> ('db, unit) memop" where
  "release_lock sq now path csum m =
     (let (lock_key, lock_path) = lock_key_and_path path in
      case hm_get (db_locks m) lock_key of
        None \<Rightarrow> (Err NoLock, m)
      | Some l \<Rightarrow>
          if li_csum l \<noteq> csum then (Err LockChecksumMismatch, m)
          else
            let (r1, m1) = (if path_exists m lock_path then delete sq lock_path 0 (ucast now) m
                            else (Ok (), m))
            in case r1 of
                 Ok _ \<Rightarrow> (Ok (), m1\<lparr>db_locks := hm_remove lock_key (db_locks m1)\<rparr>)
               | Err e \<Rightarrow> (Err e, m1)
               | Panic \<Rightarrow> (Panic, m1))"

definition lock_dir_path :: "TreeEntry \<Rightarrow> string" where
  "lock_dir_path e = LOCK_DIR_PATH @ ''/'' @ te_name e"

definition lock_info_of ::
  "(byte list \<Rightarrow> byte list) \<Rightarrow> u64 \<Rightarrow> (string, LockInfo) hmap \<Rightarrow> TreeEntry \<Rightarrow> LockInfo" where
  "lock_info_of sha now old_locks e =
     (let csum = compute_checksum sha e in
      \<lparr>li_ltime = (case hm_get old_locks (lock_dir_path e) of
                     Some old \<Rightarrow> if li_csum old = csum then li_ltime old else now
                   | None \<Rightarrow> now),
       li_csum = csum\<rparr>)"

definition update_locks :: "(byte list \<Rightarrow> byte list) \<Rightarrow> u64 \<Rightarrow> 'db MemDb \<Rightarrow> 'db MemDb" where
  "update_locks sha now m =
     (case lookup_path m LOCK_DIR_PATH of
        None \<Rightarrow> m\<lparr>db_locks := []\<rparr>
      | Some e \<Rightarrow>
          if \<not> is_dir e then m\<lparr>db_locks := []\<rparr>
          else case readdir m LOCK_DIR_PATH of
            Ok entries \<Rightarrow>
              m\<lparr>db_locks := fold (\<lambda>e locks. if is_dir e
                   then hm_insert (lock_dir_path e) (lock_info_of sha now (db_locks m) e) locks
                   else locks) entries []\<rparr>
          | Err _ \<Rightarrow> m
          | Panic \<Rightarrow> m)"

definition is_locked :: "u64 \<Rightarrow> string \<Rightarrow> 'db MemDb \<Rightarrow> bool" where
  "is_locked now path m \<longleftrightarrow>
     (case hm_get (db_locks m) (lock_cache_key path) of
        None \<Rightarrow> False
      | Some l \<Rightarrow> u64_saturating_sub now (li_ltime l) \<le> LOCK_TIMEOUT)"

text \<open>
  \<open>open\<close>: \<open>conn\<close> is what \<open>Connection::open\<close> and the pragmas gave, \<open>None\<close> when they failed.
\<close>

definition open_db ::
  "'db sqlite \<Rightarrow> (byte list \<Rightarrow> byte list) \<Rightarrow> u64 \<Rightarrow> 'db option \<Rightarrow> bool \<Rightarrow> (mem_error, 'db MemDb) res" where
  "open_db sq sha now conn create_tables =
     (case conn of
        None \<Rightarrow> Err OpenFailed
      | Some c \<Rightarrow>
          (case (if create_tables then init_schema sq (ucast now) c else Ok c) of
             Ok c1 \<Rightarrow>
               (case load_from_db sq (ucast now) c1 of
                  Ok s \<Rightarrow> Ok (update_locks sha now (memdb_of_load c1 s))
                | Err e \<Rightarrow> Err e
                | Panic \<Rightarrow> Panic)
           | Err e \<Rightarrow> Err e
           | Panic \<Rightarrow> Panic))"

section \<open>Validity\<close>

lemma not_past_timeout:
  "u64_saturating_sub now t \<le> LOCK_TIMEOUT \<longleftrightarrow> unat now \<le> unat t + 120"
  by (simp add: word_le_nat_alt unat_u64_saturating_sub LOCK_TIMEOUT_def) linarith

lemma acquire_cases:
  assumes "acquire_lock sq sha now path csum m = (Ok (), m')"
  shows "hm_get (db_locks m') (lock_cache_key path) = Some \<lparr>li_ltime = now, li_csum = csum\<rparr>"
  using assms
  by (auto simp: acquire_lock_def lock_key_and_path_def Let_def split: if_splits prod.splits res.splits)

lemma acquire_excludes:
  assumes "hm_get (db_locks m) (lock_cache_key path) = Some l" and "li_csum l \<noteq> csum"
    and "unat now \<le> unat (li_ltime l) + 120"
  shows "acquire_lock sq sha now path csum m = (Err LockHeld, m)"
  using assms by (simp add: acquire_lock_def lock_key_and_path_def Let_def not_past_timeout)

lemma is_locked_iff:
  "is_locked now path m \<longleftrightarrow>
     (\<exists>l. hm_get (db_locks m) (lock_cache_key path) = Some l \<and> unat now \<le> unat (li_ltime l) + 120)"
  by (auto simp: is_locked_def not_past_timeout split: option.splits)

lemma release_needs_owner:
  assumes "fst (release_lock sq now path csum m) = Ok ()"
  shows "\<exists>l. hm_get (db_locks m) (lock_cache_key path) = Some l \<and> li_csum l = csum"
  using assms
  by (auto simp: release_lock_def lock_key_and_path_def Let_def split: option.splits if_splits)

lemma release_unlocks:
  assumes "release_lock sq now path csum m = (Ok (), m')"
  shows "\<not> is_locked now' path m'"
  using assms
  by (auto simp: release_lock_def lock_key_and_path_def is_locked_def Let_def
      split: option.splits if_splits prod.splits res.splits)

section \<open>Effect on the file system\<close>

lemma lookup_None_abs: "lookup_path m p = None \<longleftrightarrow> abs_fs m (view_path p) = None"
  by (simp add: lookup_abs)

lemma memdb_inv_locks [simp]: "memdb_inv (m\<lparr>db_locks := lk\<rparr>) = memdb_inv m"
  by (simp add: memdb_inv_def)

lemma abs_fs_locks [simp]: "abs_fs (m\<lparr>db_locks := lk\<rparr>) = abs_fs m"
  by (rule ext) (simp add: abs_fs_walk)

lemma coherent_locks [simp]: "coherent tbl (m\<lparr>db_locks := lk\<rparr>) = coherent tbl m"
  by (simp add: coherent_def)

lemma lock_path_shape [simp]: "''/'' @ lock_cache_key path \<noteq> ''.''"
  by simp

lemma release_removes_dir:
  assumes inv: "memdb_inv m" and rel: "release_lock sq now path csum m = (Ok (), m')"
  shows "\<not> path_exists m' (snd (lock_key_and_path path))"
proof -
  let ?p = "''/'' @ lock_cache_key path"
  obtain m1 where m': "m' = m1\<lparr>db_locks := hm_remove (lock_cache_key path) (db_locks m1)\<rparr>"
    and m1: "\<not> path_exists m ?p \<and> m1 = m \<or> delete sq ?p 0 (ucast now) m = (Ok (), m1)"
    using rel
    by (auto simp: release_lock_def lock_key_and_path_def Let_def
        split: option.splits if_splits prod.splits res.splits)
  from m1 have "abs_fs m1 (path_parts ?p) = None"
  proof
    assume "\<not> path_exists m ?p \<and> m1 = m"
    then show ?thesis by (simp add: path_exists_def lookup_None_abs view_path_def)
  next
    assume "delete sq ?p 0 (ucast now) m = (Ok (), m1)"
    then show ?thesis using delete_refines [OF inv] by (simp add: spec_delete_def)
  qed
  then show ?thesis
    by (simp add: m' path_exists_def lookup_None_abs view_path_def lock_key_and_path_def Let_def)
qed

lemma create_ok_view:
  assumes "memdb_inv m" and "no_wrap m" and "create sq sha now path mode writer mtime m = (Ok (), m')"
  shows "abs_fs m' (path_parts path) = Some (if mode AND S_IFDIR \<noteq> 0 then Dir else File [])"
  using create_refines [OF assms] by (simp add: spec_create_def)

lemma create_version:
  assumes "create sq sha now path mode writer mtime m = (r, m')"
  shows "db_version m' = db_version m \<or> db_version m' = db_version m + 1"
  using mem_step_version [OF mem_step.Create [OF assms]] by (cases r) (auto simp: version_step_def)

lemma lock_mode_dir: "lock_mode AND S_IFDIR \<noteq> 0"
  by (simp add: lock_mode_def S_IFDIR_def)

lemma acquire_steps:
  assumes "acquire_lock sq sha now path csum m = (r, m')"
  obtains "is_ok r" and "path_exists m (''/'' @ lock_cache_key path)" and "\<exists>lk. m' = m\<lparr>db_locks := lk\<rparr>"
  | m1 r2 m2 where "m1 = m \<or> (\<exists>r1. create sq sha now (''/'' @ LOCK_DIR_PATH) lock_mode 0 (ucast now) m = (r1, m1))"
    and "create sq sha now (''/'' @ lock_cache_key path) lock_mode 0 (ucast now) m1 = (r2, m2)"
    and "is_ok r \<longleftrightarrow> is_ok r2" and "\<exists>lk. m' = m2\<lparr>db_locks := lk\<rparr>"
  | r1 m1 where "create sq sha now (''/'' @ LOCK_DIR_PATH) lock_mode 0 (ucast now) m = (r1, m1)"
    and "\<not> is_ok r" and "m' = m1"
  | "\<not> is_ok r" and "m' = m"
proof -
  let ?dir = "create sq sha now (''/'' @ LOCK_DIR_PATH) lock_mode 0 (ucast now) m"
  let ?reg = "\<lambda>m. m\<lparr>db_locks := hm_insert (lock_cache_key path) \<lparr>li_ltime = now, li_csum = csum\<rparr> (db_locks m)\<rparr>"
  note unf = acquire_lock_def lock_key_and_path_def Let_def
  show ?thesis
  proof (cases "\<exists>e. r = Err e \<and> m' = m")
    case True
    then show ?thesis by (intro that(4)) auto
  next
    case early: False
    show ?thesis
    proof (cases "path_exists m (''/'' @ lock_cache_key path)")
      case True
      then have "r = Ok ()" "m' = ?reg m" using assms early by (auto simp: unf split: if_splits)
      then show ?thesis using True by (intro that(1)) auto
    next
      case new: False
      obtain r1 m1 where 3: "(if path_exists m (''/'' @ LOCK_DIR_PATH) then (Ok (), m) else ?dir) = (r1, m1)"
        by force
      have 4: "(r, m') = (case r1 of
                Ok _ \<Rightarrow>
                  (case create sq sha now (''/'' @ lock_cache_key path) lock_mode 0 (ucast now) m1 of
                     (Ok _, m2) \<Rightarrow> (Ok (), ?reg m2)
                   | (Err e, m2) \<Rightarrow> (Err e, m2)
                   | (Panic, m2) \<Rightarrow> (Panic, m2))
              | Err e \<Rightarrow> (Err e, m1)
              | Panic \<Rightarrow> (Panic, m1))"
        using assms early new 3 unfolding unf by (cases r1) (auto split: if_splits)
      obtain r2 m2 where c: "create sq sha now (''/'' @ lock_cache_key path) lock_mode 0 (ucast now) m1 = (r2, m2)"
        by force
      show ?thesis
      proof (cases "is_ok r1")
        case True
        then have "is_ok r \<longleftrightarrow> is_ok r2" and m': "m' = (if is_ok r2 then ?reg m2 else m2)"
          using 4 c by (cases r1; cases r2; simp)+
        moreover have "\<exists>lk. m' = m2\<lparr>db_locks := lk\<rparr>"
          unfolding m' by (rule exI [of _ "if is_ok r2 then db_locks (?reg m2) else db_locks m2"]) simp
        ultimately show ?thesis using 3 c by (intro that(2) [of m1 r2 m2]) (auto split: if_splits)
      next
        case False
        then have "\<not> is_ok r" "m' = m1" using 4 by (cases r1; simp)+
        then show ?thesis using 3 False by (intro that(3) [of r1 m1]) (auto split: if_splits)
      qed
    qed
  qed
qed

definition room_for :: "nat \<Rightarrow> 'db MemDb \<Rightarrow> bool" where
  "room_for k m \<longleftrightarrow> unat (db_version m) + k < 2 ^ 64"

lemma room_no_wrap: "room_for k m \<Longrightarrow> 0 < k \<Longrightarrow> no_wrap m"
  by (simp add: room_for_def no_wrap_def unat_eq_0 [symmetric] unat_word_ariths)

lemma room_create:
  assumes "create sq sha now path mode writer mtime m = (r, m')" and "room_for (Suc k) m"
  shows "room_for k m'"
proof -
  have "unat (db_version m') \<le> unat (db_version m) + 1"
    using create_version [OF assms(1)] assms(2) by (auto simp: room_for_def unat_word_ariths)
  then show ?thesis using assms(2) by (simp add: room_for_def)
qed

lemma acquire_lock_effect:
  assumes inv: "memdb_inv m" and room: "room_for 2 m"
    and op: "acquire_lock sq sha now path csum m = (r, m')"
  shows "memdb_inv m'" and "is_ok r \<Longrightarrow> path_exists m' (''/'' @ lock_cache_key path)"
proof -
  let ?p = "''/'' @ lock_cache_key path"
  have nw: "no_wrap m" using room room_no_wrap by force
  have "memdb_inv m' \<and> (is_ok r \<longrightarrow> path_exists m' ?p)"
    using op
  proof (cases rule: acquire_steps)
    case 1
    then obtain lk where "m' = m\<lparr>db_locks := lk\<rparr>" by blast
    then show ?thesis
      using inv 1(2) unfolding path_exists_def lookup_None_abs by simp
  next
    case (2 m1 r2 m2)
    have inv1: "memdb_inv m1" and room1: "room_for 1 m1"
      using 2(1) inv nw room create_inv [OF inv nw] room_create [of _ _ _ _ _ _ _ m _ m1 1]
      by (auto simp: room_for_def numeral_2_eq_2)
    then have nw1: "no_wrap m1" using room_no_wrap by force
    have inv2: "memdb_inv m2" by (rule create_inv [OF inv1 nw1 2(2)])
    obtain lk where m': "m' = m2\<lparr>db_locks := lk\<rparr>" using 2(4) by blast
    have "path_exists m' ?p" if ok: "is_ok r2"
    proof -
      have "create sq sha now ?p lock_mode 0 (ucast now) m1 = (Ok (), m2)"
        using 2(2) ok by (cases r2) auto
      from create_ok_view [OF inv1 nw1 this] have "abs_fs m' (path_parts ?p) = Some Dir"
        by (simp add: m' lock_mode_dir)
      then have "abs_fs m' (view_path ?p) \<noteq> None" unfolding view_path_def by simp
      then show ?thesis unfolding path_exists_def lookup_None_abs .
    qed
    then show ?thesis using inv2 m' 2(3) by simp
  next
    case (3 r1 m1)
    then show ?thesis using create_inv [OF inv nw] by blast
  next
    case 4
    then show ?thesis using inv by simp
  qed
  then show "memdb_inv m'" and "is_ok r \<Longrightarrow> path_exists m' ?p" by blast+
qed

section \<open>Rebuilding the lock cache\<close>

lemma fold_lock_insert:
  "hm_get (fold (\<lambda>e locks. if P e then hm_insert (k e) (v e) locks else locks) es locks) x =
     (case map_of (rev (map (\<lambda>e. (k e, v e)) (filter P es))) x of Some l \<Rightarrow> Some l | None \<Rightarrow> hm_get locks x)"
  by (induction es arbitrary: locks) (auto split: option.splits)

lemma update_locks_table:
  assumes inv: "memdb_inv m" and dir: "lookup_path m LOCK_DIR_PATH = Some d" "is_dir d"
  shows "hm_get (db_locks (update_locks sha now m)) key = Some l \<longleftrightarrow>
     (\<exists>n e. key = LOCK_DIR_PATH @ ''/'' @ n \<and> fs_view m (path_parts LOCK_DIR_PATH @ [n]) = Some e \<and>
            is_dir e \<and> l = lock_info_of sha now (db_locks m) e)"
proof -
  have vp: "view_path LOCK_DIR_PATH = path_parts LOCK_DIR_PATH"
    by (simp add: view_path_def LOCK_DIR_PATH_def)
  obtain es where es: "readdir m LOCK_DIR_PATH = Ok es" "distinct (map te_inode es)"
      "set es = {c. \<exists>n. fs_view m (path_parts LOCK_DIR_PATH @ [n]) = Some c}"
    using readdir_entries [OF inv dir] vp by auto
  have name: "fs_view m (path_parts LOCK_DIR_PATH @ [te_name c]) = Some c" if "c \<in> set es" for c
    using that es(3) view_name [OF inv] by auto
  let ?kv = "\<lambda>e. (lock_dir_path e, lock_info_of sha now (db_locks m) e)"
  have "inj_on te_name (set es)"
    using name by (metis (mono_tags, lifting) inj_onI option.inject)
  then have "inj_on lock_dir_path (set (filter is_dir es))"
    by (auto simp: inj_on_def lock_dir_path_def)
  moreover have "distinct es" using es(2) by (simp add: distinct_map)
  ultimately have dist: "distinct (map fst (rev (map ?kv (filter is_dir es))))"
    by (simp add: rev_map comp_def distinct_map)
  have "hm_get (db_locks (update_locks sha now m)) key = map_of (rev (map ?kv (filter is_dir es))) key"
    using dir es(1) by (simp add: update_locks_def fold_lock_insert split: option.splits)
  also have "map_of (rev (map ?kv (filter is_dir es))) key = Some l \<longleftrightarrow>
      (\<exists>e\<in>set es. is_dir e \<and> key = lock_dir_path e \<and> l = lock_info_of sha now (db_locks m) e)"
    unfolding map_of_eq_Some_iff [OF dist] by auto
  also have "\<dots> \<longleftrightarrow> (\<exists>n e. key = LOCK_DIR_PATH @ ''/'' @ n \<and>
      fs_view m (path_parts LOCK_DIR_PATH @ [n]) = Some e \<and> is_dir e \<and> l = lock_info_of sha now (db_locks m) e)"
    unfolding es(3) lock_dir_path_def using view_name [OF inv] by blast
  finally show ?thesis .
qed

lemma update_locks_frame:
  "\<exists>lk. update_locks sha now m = m\<lparr>db_locks := lk\<rparr>"
proof (cases "lookup_path m LOCK_DIR_PATH")
  case None
  then show ?thesis by (auto simp: update_locks_def)
next
  case (Some e)
  have same: "\<exists>lk. m = m\<lparr>db_locks := lk\<rparr>" by (rule exI [of _ "db_locks m"]) simp
  show ?thesis using Some same
    by (cases "readdir m LOCK_DIR_PATH"; cases "is_dir e") (auto simp: update_locks_def)
qed

section \<open>Opening\<close>

lemma reopen_restores:
  assumes laws: "sqlite_laws sq tbl" and inv: "memdb_inv m" and coh: "coherent tbl m"
    and root: "hm_get (db_index m) ROOT_INODE = Some re" "te_version re \<noteq> 0"
    and op: "open_db sq sha now (Some (db_conn m)) False = Ok m'"
  shows "memdb_inv m'" and "coherent tbl m'" and "same_files m m'" and "\<not> db_errors m'"
    and "db_version m' \<le> db_version m"
proof -
  obtain s where s: "load_from_db sq (ucast now) (db_conn m) = Ok s"
      "m' = update_locks sha now (memdb_of_load (db_conn m) s)"
    using op by (auto simp: open_db_def split: res.splits)
  obtain lk where m': "m' = (memdb_of_load (db_conn m) s)\<lparr>db_locks := lk\<rparr>"
    using update_locks_frame s(2) by metis
  note load = load_restores [OF laws inv coh root s(1)]
  show "memdb_inv m'" "coherent tbl m'" using load by (simp_all add: m')
  show "same_files m m'" using load(1) by (simp add: m' same_files_def)
  show "\<not> db_errors m'" "db_version m' \<le> db_version m"
    using load(4) by (simp_all add: m' memdb_of_load_def)
qed

end
