(* ===== verification/Mem_Sample.thy ===== *)
theory Mem_Sample
  imports Mem_Capacity Mem_Locks "HOL-Library.Code_Target_Numeral" 
begin

text \<open>
  A concrete table with the behaviour \<open>sqlite_laws\<close> asks for, a freshly created database over it
  and a few states reached from it by the operations. The witnesses of the properties of the
  database evaluate the operations on these.
\<close>

section \<open>A table as a list of rows\<close>

definition update_row :: "u64 \<Rightarrow> (row \<Rightarrow> row) \<Rightarrow> row list \<Rightarrow> row list" where
  "update_row i f T = map (\<lambda>r. if r_inode r = i then f r else r) T"

fun list_exec :: "sql_stmt \<Rightarrow> row list \<Rightarrow> row list option" where
  "list_exec (UpdateMeta v w t i) T =
     Some (update_row i (\<lambda>r. r\<lparr>r_version := v, r_writer := w, r_mtime := t\<rparr>) T)"
| "list_exec (UpdateData v w t d i) T =
     Some (update_row i (\<lambda>r. r\<lparr>r_version := v, r_writer := w, r_mtime := t, r_data := Some d\<rparr>) T)"
| "list_exec (UpdateMove p n v w t i) T =
     Some (update_row i (\<lambda>r. r\<lparr>r_parent := p, r_name := n, r_version := v, r_writer := w, r_mtime := t\<rparr>) T)"
| "list_exec (UpdateVersion v i) T = Some (update_row i (\<lambda>r. r\<lparr>r_version := v\<rparr>) T)"
| "list_exec (InsertRow r) T = (if r_inode r \<in> r_inode ` set T then None else Some (T @ [r]))"
| "list_exec (ReplaceRow r) T = Some (filter (\<lambda>x. r_inode x \<noteq> r_inode r) T @ [r])"
| "list_exec (DeleteRow i) T = Some (filter (\<lambda>x. r_inode x \<noteq> i) T)"
| "list_exec DeleteAll T = Some []"

definition list_sqlite :: "row list sqlite" where
  "list_sqlite =
     \<lparr>sq_schema = (\<lambda>_. Some []), sq_begin = Some, sq_exec = list_exec, sq_commit = Some,
      sq_select = (\<lambda>T. if distinct (map r_inode T) then Some T else None)\<rparr>"

lemma find_row_update:
  assumes "\<And>r. r_inode (f r) = r_inode r"
  shows "find_row (update_row i f T) j = (if j = i then map_option f (find_row T i) else find_row T j)"
  using assms by (induction T) (auto simp: find_row_def update_row_def)

lemma find_row_filter:
  "find_row (filter (\<lambda>x. r_inode x \<noteq> i) T) j = (if j = i then None else find_row T j)"
  by (induction T) (auto simp: find_row_def)

lemma find_row_append:
  "find_row (T @ [r]) j = (case find_row T j of None \<Rightarrow> if r_inode r = j then Some r else None | Some x \<Rightarrow> Some x)"
  by (auto simp: find_row_def map_add_def split: option.splits)

lemma find_row_None: "find_row T i = None \<longleftrightarrow> i \<notin> r_inode ` set T"
  by (auto simp: find_row_def map_of_eq_None_iff comp_def image_image)

lemma list_sqlite_laws: "sqlite_laws list_sqlite find_row"
proof -
  have "find_row tx' = sql_apply s (find_row tx) \<and> (\<forall>r. s = InsertRow r \<longrightarrow> find_row tx (r_inode r) = None)"
    if "list_exec s tx = Some tx'" for s tx tx'
    using that
    by (cases s)
      (auto simp: find_row_update find_row_filter find_row_append find_row_None [symmetric] fun_eq_iff
        find_row_def [of "[]"] split: option.splits if_splits)
  then show ?thesis by (auto simp: sqlite_laws_def list_sqlite_def find_row_def)
qed

section \<open>A new database\<close>

lemma init_load:
  assumes laws: "sqlite_laws sq tbl" and init: "init_schema sq now conn = Ok conn'"
    and load: "load_from_db sq now' conn' = Ok s"
  shows "memdb_inv (memdb_of_load conn' s)" and "coherent tbl (memdb_of_load conn' s)"
    and "abs_fs (memdb_of_load conn' s) = [[] \<mapsto> Dir]"
proof -
  have tbl: "tbl conn' = [ROOT_INODE \<mapsto> version_row 1 0 now]"
    using laws init by (auto simp: init_schema_def sqlite_laws_def version_row_def split: option.splits)
  obtain rows where sel: "sq_select sq conn' = Some rows"
    using load by (auto simp: load_from_db_def split: option.splits)
  then have rows: "distinct (map r_inode rows)" "find_row rows = [ROOT_INODE \<mapsto> version_row 1 0 now]"
    using laws tbl by (auto simp: sqlite_laws_def find_row_def fun_eq_iff)
  have "r \<in> set rows \<longleftrightarrow> r = version_row 1 0 now" for r
    using find_row_iff [OF rows(1), of "r_inode r" r] rows(2)
    by (auto simp: version_row_def split: if_splits)
  then have set: "set rows = {version_row 1 0 now}" by blast
  have "length rows = card (set rows)" using rows(1) by (simp add: distinct_map distinct_card)
  then obtain x where "rows = [x]" using set by (auto simp: length_Suc_conv)
  then have "rows = [version_row 1 0 now]" using set by simp
  then have s: "s = \<lparr>ls_index = hm_insert ROOT_INODE ((ls_root (load_init now'))\<lparr>te_version := 1, te_mtime := now\<rparr>) [],
      ls_tree = tree_ensure ROOT_INODE [], ls_root = (ls_root (load_init now'))\<lparr>te_version := 1, te_mtime := now\<rparr>,
      ls_max_version = 1\<rparr>"
    using load sel
    by (simp add: load_from_db_def load_row_root is_version_row_def version_row_def Let_def load_init_def)
  show "memdb_inv (memdb_of_load conn' s)"
    by (auto simp: s memdb_inv_def memdb_of_load_def index_inv_def tree_inv_def load_init_def is_dir_def
        entry_ok_def child_no_dir has_dir_def [of "[]"] ROOT_INODE_def)
  show "coherent tbl (memdb_of_load conn' s)"
    by (auto simp: s coherent_def memdb_of_load_def tbl stored_def root_row_def load_init_def root_shape_def)
  show "abs_fs (memdb_of_load conn' s) = [[] \<mapsto> Dir]"
  proof
    fix ps
    show "abs_fs (memdb_of_load conn' s) ps = [[] \<mapsto> Dir] ps"
      by (cases ps)
        (simp_all add: s memdb_of_load_def abs_fs_walk walk_Cons child_def tree_ensure_def node_at_def
          node_of_def load_init_def is_dir_def)
  qed
qed

definition sample_conn :: "row list" where
  "sample_conn = [version_row 1 0 7]"

definition sample_db :: "row list MemDb" where
  "sample_db = memdb_of_load sample_conn
     (case load_from_db list_sqlite 7 sample_conn of Ok s \<Rightarrow> s)"

definition sample_sha :: "byte list \<Rightarrow> byte list" where
  "sample_sha bs = take 32 (bs @ replicate 32 0)"

text \<open>A directory \<open>/priv\<close>, a file \<open>/priv/f\<close> in it, and the file with three bytes.\<close>

definition sample_dir :: "row list MemDb" where
  "sample_dir = snd (create list_sqlite sample_sha 0 ''/priv'' 0x4000 1 2 sample_db)"

definition sample_empty :: "row list MemDb" where
  "sample_empty = snd (create list_sqlite sample_sha 0 ''/priv/f'' 0x8000 1 3 sample_dir)"

definition sample_full :: "row list MemDb" where
  "sample_full = snd (write_op list_sqlite ''/priv/f'' 0 1 4 [1, 2, 3] False sample_empty)"

definition sample_lockdir :: "row list MemDb" where
  "sample_lockdir = snd (acquire_lock list_sqlite sample_sha 100 ''vm'' [9] sample_full)"

lemma sample_results:
  "init_schema list_sqlite 7 [] = Ok sample_conn"
  "is_ok (load_from_db list_sqlite 7 sample_conn)"
  "fst (create list_sqlite sample_sha 0 ''/priv'' 0x4000 1 2 sample_db) = Ok ()"
  "fst (create list_sqlite sample_sha 0 ''/priv/f'' 0x8000 1 3 sample_dir) = Ok ()"
  "fst (write_op list_sqlite ''/priv/f'' 0 1 4 [1, 2, 3] False sample_empty) = Ok 3"
  "fst (acquire_lock list_sqlite sample_sha 100 ''vm'' [9] sample_full) = Ok ()"
  by code_simp+

lemma sample_versions:
  "db_version sample_db = 1" "db_version sample_dir = 2" "db_version sample_empty = 3"
  "db_version sample_full = 4"
  by code_simp+

lemma sample_no_wrap [simp]:
  "no_wrap sample_db" "no_wrap sample_dir" "no_wrap sample_empty" "no_wrap sample_full"
  by (simp_all add: no_wrap_def sample_versions)

lemma sample_ops:
  "create list_sqlite sample_sha 0 ''/priv'' 0x4000 1 2 sample_db = (Ok (), sample_dir)"
  "create list_sqlite sample_sha 0 ''/priv/f'' 0x8000 1 3 sample_dir = (Ok (), sample_empty)"
  "write_op list_sqlite ''/priv/f'' 0 1 4 [1, 2, 3] False sample_empty = (Ok 3, sample_full)"
  "acquire_lock list_sqlite sample_sha 100 ''vm'' [9] sample_full = (Ok (), sample_lockdir)"
  using sample_results by (simp_all add: sample_dir_def sample_empty_def sample_full_def sample_lockdir_def prod_eq_iff)

lemma sample_db_facts: "memdb_inv sample_db \<and> coherent find_row sample_db"
proof -
  obtain s where "load_from_db list_sqlite 7 sample_conn = Ok s"
    using sample_results(2) by (auto simp: is_ok_iff)
  with init_load [OF list_sqlite_laws sample_results(1) this] show ?thesis by (simp add: sample_db_def)
qed

lemma sample_inv [simp]:
  "memdb_inv sample_db" "memdb_inv sample_dir" "memdb_inv sample_empty" "memdb_inv sample_full"
  using sample_db_facts sample_ops create_inv write_inv sample_no_wrap by metis+

lemma sample_coherent [simp]:
  "coherent find_row sample_db" "coherent find_row sample_dir" "coherent find_row sample_empty"
  "coherent find_row sample_full"
  using sample_db_facts sample_inv sample_no_wrap sample_ops create_coherent [OF list_sqlite_laws]
    write_coherent [OF list_sqlite_laws] by metis+

end
