(* ===== verification/Mem_Props.thy ===== *)
theory Mem_Props
  imports Mem_Sample
begin

text \<open>
  The properties of the database component, with their witnesses: each follows from the lemmas
  of the component theories and is evaluated on the sample states.
\<close>

section \<open>Well-formedness and the version counter\<close>


lemma sample_run:
  "mem_steps list_sqlite sample_sha sample_db [True, True, True] sample_full"
proof -
  have "mem_step list_sqlite sample_sha sample_db True sample_dir"
    using mem_step.Create [OF sample_ops(1)] by simp
  moreover have "mem_step list_sqlite sample_sha sample_dir True sample_empty"
    using mem_step.Create [OF sample_ops(2)] by simp
  moreover have "mem_step list_sqlite sample_sha sample_empty True sample_full"
    using mem_step.Write [OF sample_ops(3)] by simp
  ultimately show ?thesis by (meson mem_steps.intros)
qed


text \<open>
  A mutation of a database whose error flag is set is refused and changes nothing; otherwise a
  successful mutation increments the version by exactly one.
\<close>

theorem error_flag_refuses:
  assumes "mem_step sq sha m ok m'"
  shows "if db_errors m then \<not> ok \<and> m' = m
         else (ok \<longrightarrow> db_version m' = db_version m + 1) \<and>
              (\<not> ok \<longrightarrow> db_version m' \<in> {db_version m, db_version m + 1})"
  using mem_step_version [OF assms] by (auto simp: version_step_def)

theorem error_flag_refuses_witness:
  "create list_sqlite sample_sha 0 ''/x'' 0 1 2 (sample_db\<lparr>db_errors := True\<rparr>) =
     (Err DatabaseHasErrors, sample_db\<lparr>db_errors := True\<rparr>)"
  using error_flag_refuses [OF mem_step.Create [of list_sqlite sample_sha 0 "''/x''" 0 1 2
      "sample_db\<lparr>db_errors := True\<rparr>" "Err DatabaseHasErrors" "sample_db\<lparr>db_errors := True\<rparr>"]]
  by (simp add: create_def)

section \<open>Refinement of the abstract file system\<close>

text \<open>
  C2. \<open>create\<close> refines the abstract update: on success the new path, and nothing else, names a
  directory or an empty file according to the mode; on failure no path changes its meaning.
\<close>

theorem create_refines_spec:
  assumes "memdb_inv m" and "no_wrap m" and "create sq sha now path mode writer mtime m = (r, m')"
  shows "abs_fs m' =
    (if r = Ok () then spec_create (path_parts path) (mode AND S_IFDIR \<noteq> 0) (abs_fs m) else abs_fs m)"
  using assms by (rule create_refines)

theorem create_refines_spec_witness:
  "memdb_inv sample_dir \<and> no_wrap sample_dir \<and>
   abs_fs sample_empty = spec_create [''priv'', ''f''] False (abs_fs sample_dir)"
proof -
  have "path_parts ''/priv/f'' = [''priv'', ''f'']" by code_simp
  then show ?thesis
    using create_refines_spec [OF sample_inv(2) sample_no_wrap(2) sample_ops(2)]
    by (simp add: S_IFDIR_def)
qed



text \<open>
  C8. \<open>delete\<close> removes exactly the named path. It fails, and changes nothing, for the root and for a
  directory that has entries.
\<close>

theorem delete_refines_spec:
  assumes "memdb_inv m" and "delete sq path writer mtime m = (r, m')"
  shows "abs_fs m' = (if r = Ok () then spec_delete (path_parts path) (abs_fs m) else abs_fs m) \<and>
         (r = Ok () \<longrightarrow> (\<forall>n. abs_fs m (path_parts path @ [n]) = None) \<and> path_parts path \<noteq> [])"
proof (intro conjI impI)
  show "abs_fs m' = (if r = Ok () then spec_delete (path_parts path) (abs_fs m) else abs_fs m)"
    by (rule delete_refines [OF assms])
  assume ok: "r = Ok ()"
  have "(\<forall>n. abs_fs m (path_parts path @ [n]) = None) \<and> path_parts path \<noteq> []"
    using assms(2)
  proof (cases rule: delete_cases)
    case (1 e)
    then show ?thesis using ok by simp
  next
    case (2 e v db' lk)
    have ne: "te_inode e \<noteq> ROOT_INODE" using 2(4) assms(1) by simp
    have w: "walk (db_tree m) (path_parts path) ROOT_INODE = Some (te_inode e)"
      using walk_lookup [OF assms(1) 2(3)] not_dot_if_not_root [OF assms(1) 2(3) ne] by simp
    then show ?thesis
      using no_children_if_empty [OF assms(1) 2(3,5)] assms(1) ne
      by (auto simp: abs_fs_walk walk_snoc)
  qed
  then show "\<forall>n. abs_fs m (path_parts path @ [n]) = None" "path_parts path \<noteq> []" by simp_all
qed

theorem delete_refines_spec_witness:
  "fst (delete list_sqlite ''/priv/f'' 1 5 sample_full) = Ok () \<and>
   fst (delete list_sqlite ''/priv'' 1 5 sample_full) = Err DirectoryNotEmpty \<and>
   abs_fs (snd (delete list_sqlite ''/priv/f'' 1 5 sample_full)) [''priv'', ''f''] = None"
proof -
  have ok: "fst (delete list_sqlite ''/priv/f'' 1 5 sample_full) = Ok ()"
    and full: "fst (delete list_sqlite ''/priv'' 1 5 sample_full) = Err DirectoryNotEmpty"
    and parts: "path_parts ''/priv/f'' = [''priv'', ''f'']" by code_simp+
  have "delete list_sqlite ''/priv/f'' 1 5 sample_full =
      (Ok (), snd (delete list_sqlite ''/priv/f'' 1 5 sample_full))"
    using ok by (simp add: prod_eq_iff)
  from delete_refines_spec [OF sample_inv(4) this] ok full parts show ?thesis
    by (simp add: spec_delete_def)
qed

text \<open>
  C7. \<open>rename\<close> moves the whole subtree: afterwards a path below the new name means what the
  corresponding path below the old name meant, paths below the old name mean nothing and all others
  are unchanged. The hypotheses exclude what the code does not check: a directory as target, and a
  target inside the moved directory.
\<close>

theorem rename_refines_spec:
  assumes "memdb_inv m" and "rename_safe m old_path new_path"
    and "\<not> strict_prefix (path_parts old_path) (path_parts new_path)"
    and "rename sq old_path new_path writer mtime m = (r, m')"
  shows "abs_fs m' = (if r = Ok ()
    then spec_rename (path_parts old_path) (path_parts new_path) (abs_fs m) else abs_fs m)"
  using assms by (rule rename_refines)

theorem rename_refines_spec_witness:
  "rename_safe sample_full ''/priv'' ''/q'' \<and>
   fst (rename list_sqlite ''/priv'' ''/q'' 1 5 sample_full) = Ok () \<and>
   abs_fs (snd (rename list_sqlite ''/priv'' ''/q'' 1 5 sample_full)) [''q'', ''f''] =
     abs_fs sample_full [''priv'', ''f'']"
proof -
  have safe: "rename_safe sample_full ''/priv'' ''/q''"
    and ok: "fst (rename list_sqlite ''/priv'' ''/q'' 1 5 sample_full) = Ok ()"
    and parts: "path_parts ''/priv'' = [''priv'']" "path_parts ''/q'' = [''q'']" by code_simp+
  have "rename list_sqlite ''/priv'' ''/q'' 1 5 sample_full =
      (Ok (), snd (rename list_sqlite ''/priv'' ''/q'' 1 5 sample_full))"
    using ok by (simp add: prod_eq_iff)
  from rename_refines_spec [OF sample_inv(4) safe _ this] parts ok safe show ?thesis
    by (simp add: spec_rename_def strict_prefix_def)
qed

text \<open>
  A directory listing has exactly the entries one name below the directory, each once, and
  under the invariant a directory is never reported as corrupted.
\<close>

theorem readdir_lists_children:
  assumes "memdb_inv m" and "lookup_path m path = Some e" and "is_dir e"
  shows "\<exists>es. readdir m path = Ok es \<and> distinct (map te_inode es) \<and>
           set es = {c. \<exists>n. fs_view m (view_path path @ [n]) = Some c}"
  using assms by (rule readdir_entries)

theorem readdir_lists_children_witness:
  "\<exists>e es. lookup_path sample_full ''/priv'' = Some e \<and> is_dir e \<and>
     readdir sample_full ''/priv'' = Ok es \<and> map te_name es = [''f''] \<and> distinct (map te_inode es)"
proof -
  have "(case lookup_path sample_full ''/priv'' of Some e \<Rightarrow> is_dir e | None \<Rightarrow> False)"
    and names: "(case readdir sample_full ''/priv'' of Ok es \<Rightarrow> map te_name es = [''f''] | _ \<Rightarrow> False)"
    by code_simp+
  then obtain e where e: "lookup_path sample_full ''/priv'' = Some e" "is_dir e"
    by (auto split: option.splits)
  from readdir_lists_children [OF sample_inv(4) e] names e show ?thesis by auto
qed

section \<open>Limits\<close>

text \<open>
  No mutation takes the database over its limits: at most \<open>MEMDB_MAX_INODES\<close> entries and at
  most \<open>MEMDB_MAX_FSSIZE\<close> bytes of file content.
\<close>

theorem mutations_keep_limits:
  assumes "mem_step sq sha m b m'" and "memdb_inv m" and "no_wrap m" and "within_limits m"
  shows "length (db_index m') \<le> MEMDB_MAX_INODES \<and> total_file_size m' \<le> MEMDB_MAX_FSSIZE"
  using mem_step_limits [OF assms] by (simp add: within_limits_def)

theorem mutations_keep_limits_witness:
  "within_limits sample_empty \<and> total_file_size sample_full \<le> MEMDB_MAX_FSSIZE"
proof -
  have lim: "within_limits sample_empty" by code_simp
  have "mem_step list_sqlite sample_sha sample_empty True sample_full"
    using mem_step.Write [OF sample_ops(3)] by simp
  from mutations_keep_limits [OF this] lim show ?thesis by simp
qed

text \<open>
  Within the limits the numbers of \<open>statfs\<close> are consistent: the blocks make up the file system
  size, the used blocks are those that hold the content, and the used inodes are the entries.
\<close>

theorem statfs_reports_usage:
  assumes "within_limits m" and "statfs m = (blocks, bfree, bavail, files, ffree)"
  shows "bfree \<le> blocks \<and> bavail = bfree \<and> blocks * 4096 = MEMDB_MAX_FSSIZE \<and>
         total_file_size m \<le> (blocks - bfree) * 4096 \<and> (blocks - bfree) * 4096 < total_file_size m + 4096 \<and>
         files - ffree = length (db_index m)"
  using statfs_consistent [OF assms] by blast

theorem statfs_reports_usage_witness:
  "within_limits sample_full \<and> statfs sample_full = (32768, 32767, 32767, 262144, 262141) \<and>
   (262144::nat) - 262141 = length (db_index sample_full)"
proof -
  have "within_limits sample_full" "statfs sample_full = (32768, 32767, 32767, 262144, 262141)"
    by code_simp+
  with statfs_reports_usage [OF this] show ?thesis by simp
qed

section \<open>Persistence\<close>



text \<open>
  C9. A restart recovers the database: opening the connection of a coherent state gives a
  well-formed, coherent database with the same entries at the same paths, a clear error flag, and a
  version counter that has passed every inode in use.
\<close>

theorem reopen_recovers:
  assumes "sqlite_laws sq tbl" and "memdb_inv m" and "coherent tbl m"
    and "hm_get (db_index m) ROOT_INODE = Some re" and "te_version re \<noteq> 0"
    and "open_db sq sha now (Some (db_conn m)) False = Ok m'"
  shows "memdb_inv m' \<and> coherent tbl m' \<and> (\<forall>ps. fs_view m' ps = fs_view m ps) \<and>
         \<not> db_errors m' \<and> db_version m' \<le> db_version m"
  using reopen_restores [OF assms] same_files_view by blast

theorem reopen_recovers_witness:
  "\<exists>m'. open_db list_sqlite sample_sha 9 (Some (db_conn sample_full)) False = Ok m' \<and>
        memdb_inv m' \<and> fs_view m' [''priv'', ''f''] = fs_view sample_full [''priv'', ''f'']"
proof -
  have ok: "is_ok (open_db list_sqlite sample_sha 9 (Some (db_conn sample_full)) False)"
    and root: "(case hm_get (db_index sample_full) ROOT_INODE of Some e \<Rightarrow> te_version e \<noteq> 0 | None \<Rightarrow> False)"
    by code_simp+
  obtain m' where m': "open_db list_sqlite sample_sha 9 (Some (db_conn sample_full)) False = Ok m'"
    using ok by (auto simp: is_ok_iff)
  obtain re where re: "hm_get (db_index sample_full) ROOT_INODE = Some re" "te_version re \<noteq> 0"
    using root by (auto split: option.splits)
  from reopen_recovers [OF list_sqlite_laws sample_inv(4) sample_coherent(4) re m'] m'
  show ?thesis by blast
qed

text \<open>
  A new database: what \<open>open\<close> builds after creating the tables is well formed, agrees with the
  table, has only the root directory, and its version is 1.
\<close>

theorem new_database:
  assumes "sqlite_laws sq tbl" and "open_db sq sha now (Some conn) True = Ok m"
  shows "memdb_inv m \<and> coherent tbl m \<and> abs_fs m = [[] \<mapsto> Dir] \<and> \<not> db_errors m"
proof -
  obtain c1 s where s: "init_schema sq (ucast now) conn = Ok c1" "load_from_db sq (ucast now) c1 = Ok s"
      "m = update_locks sha now (memdb_of_load c1 s)"
    using assms(2) by (auto simp: open_db_def split: res.splits)
  obtain lk where m: "m = (memdb_of_load c1 s)\<lparr>db_locks := lk\<rparr>"
    using update_locks_frame s(3) by metis
  show ?thesis using init_load [OF assms(1) s(1,2)] by (simp add: m) (simp add: memdb_of_load_def)
qed

theorem new_database_witness:
  "\<exists>m. open_db list_sqlite sample_sha 7 (Some []) True = Ok m \<and> abs_fs m = [[] \<mapsto> Dir]"
proof -
  have "is_ok (open_db list_sqlite sample_sha 7 (Some []) True)" by code_simp
  then obtain m where m: "open_db list_sqlite sample_sha 7 (Some []) True = Ok m"
    by (auto simp: is_ok_iff)
  from new_database [OF list_sqlite_laws m] m show ?thesis by blast
qed

text \<open>
  Renaming a path onto itself loses it on disk: the transaction deletes the row of the target,
  which is the row of the entry, and the entry stays in memory only.
\<close>

theorem rename_onto_itself_loses_row:
  assumes "sqlite_laws sq tbl" and "memdb_inv m"
    and "lookup_path m new_path = lookup_path m old_path"
    and "rename sq old_path new_path writer mtime m = (Ok (), m')"
  shows "\<exists>e. lookup_path m old_path = Some e \<and> tbl (db_conn m') (te_inode e) = None \<and>
             hm_get (db_index m') (te_inode e) \<noteq> None"
  using assms by (rule rename_self_row_lost)

theorem rename_onto_itself_loses_row_witness:
  "fst (rename list_sqlite ''/priv/f'' ''/priv/f'' 1 5 sample_full) = Ok () \<and>
   (\<exists>e. lookup_path sample_full ''/priv/f'' = Some e \<and>
        find_row (db_conn (snd (rename list_sqlite ''/priv/f'' ''/priv/f'' 1 5 sample_full))) (te_inode e) = None)"
proof -
  have ok: "fst (rename list_sqlite ''/priv/f'' ''/priv/f'' 1 5 sample_full) = Ok ()" by code_simp
  then have "rename list_sqlite ''/priv/f'' ''/priv/f'' 1 5 sample_full =
      (Ok (), snd (rename list_sqlite ''/priv/f'' ''/priv/f'' 1 5 sample_full))"
    by (simp add: prod_eq_iff)
  from rename_onto_itself_loses_row [OF list_sqlite_laws sample_inv(4) refl this] ok
  show ?thesis by blast
qed

section \<open>Locks\<close>



text \<open>
  Acquiring a lock keeps the database well formed and leaves its directory in place; releasing
  it needs the checksum of the owner, and afterwards neither the directory nor the cache entry is
  there.
\<close>

theorem lock_lifecycle:
  assumes "memdb_inv m" and "unat (db_version m) + 2 < 2 ^ 64"
    and "acquire_lock sq sha now path csum m = (Ok (), m1)"
    and "release_lock sq now' path csum' m1 = (Ok (), m2)"
  shows "memdb_inv m1 \<and> path_exists m1 (snd (lock_key_and_path path)) \<and> csum' = csum \<and>
         \<not> path_exists m2 (snd (lock_key_and_path path)) \<and> \<not> is_locked t path m2"
proof -
  have eff: "memdb_inv m1" "path_exists m1 (snd (lock_key_and_path path))"
    using acquire_lock_effect [OF assms(1) _ assms(3)] assms(2)
    by (simp_all add: room_for_def lock_key_and_path_def Let_def)
  have "csum' = csum"
    using release_needs_owner [of sq now' path csum' m1] assms(4) acquire_cases [OF assms(3)] by auto
  then show ?thesis
    using eff release_removes_dir [OF eff(1) assms(4)] release_unlocks [OF assms(4)] by simp
qed

theorem lock_lifecycle_witness:
  "memdb_inv sample_lockdir \<and> fst (release_lock list_sqlite 130 ''vm'' [9] sample_lockdir) = Ok () \<and>
   \<not> is_locked 130 ''vm'' (snd (release_lock list_sqlite 130 ''vm'' [9] sample_lockdir))"
proof -
  have ok: "fst (release_lock list_sqlite 130 ''vm'' [9] sample_lockdir) = Ok ()" by code_simp
  then have rel: "release_lock list_sqlite 130 ''vm'' [9] sample_lockdir =
      (Ok (), snd (release_lock list_sqlite 130 ''vm'' [9] sample_lockdir))"
    by (simp add: prod_eq_iff)
  have "unat (db_version sample_full) + 2 < 2 ^ 64" by (simp add: sample_versions)
  from lock_lifecycle [OF sample_inv(4) this sample_ops(4) rel] ok show ?thesis by blast
qed

text \<open>
  Rebuilding the lock cache: the new table has exactly one entry for each directory in
  \<open>priv/lock\<close>, with the checksum of that directory; a lock whose checksum is unchanged keeps the time
  at which it was taken, any other starts now.
\<close>

theorem update_locks_follows_directory:
  assumes "memdb_inv m" and "lookup_path m LOCK_DIR_PATH = Some d" and "is_dir d"
  shows "hm_get (db_locks (update_locks sha now m)) key = Some l \<longleftrightarrow>
     (\<exists>n e. key = LOCK_DIR_PATH @ ''/'' @ n \<and> fs_view m (path_parts LOCK_DIR_PATH @ [n]) = Some e \<and>
            is_dir e \<and> l = lock_info_of sha now (db_locks m) e)"
  using assms by (rule update_locks_table)

theorem update_locks_follows_directory_witness:
  "\<exists>d e l. lookup_path sample_lockdir LOCK_DIR_PATH = Some d \<and> is_dir d \<and>
     fs_view sample_lockdir [''priv'', ''lock'', ''vm''] = Some e \<and>
     hm_get (db_locks (update_locks sample_sha 7 sample_lockdir)) ''priv/lock/vm'' = Some l"
proof -
  have inv: "memdb_inv sample_lockdir"
    using acquire_lock_effect(1) [OF sample_inv(4) _ sample_ops(4)]
    by (simp add: room_for_def sample_versions)
  have "(case lookup_path sample_lockdir LOCK_DIR_PATH of Some d \<Rightarrow> is_dir d | None \<Rightarrow> False)"
    and vm: "(case fs_view sample_lockdir [''priv'', ''lock'', ''vm''] of Some e \<Rightarrow> is_dir e | None \<Rightarrow> False)"
    and parts: "path_parts LOCK_DIR_PATH = [''priv'', ''lock'']"
    and key: "''priv/lock/vm'' = LOCK_DIR_PATH @ ''/'' @ ''vm''"
    by code_simp+
  then obtain d e where d: "lookup_path sample_lockdir LOCK_DIR_PATH = Some d" "is_dir d"
    and e: "fs_view sample_lockdir [''priv'', ''lock'', ''vm''] = Some e" "is_dir e"
    by (auto split: option.splits)
  have "hm_get (db_locks (update_locks sample_sha 7 sample_lockdir)) ''priv/lock/vm'' =
      Some (lock_info_of sample_sha 7 (db_locks sample_lockdir) e)"
    using update_locks_follows_directory [OF inv d, of sample_sha 7 "''priv/lock/vm''"] e key parts
    by fastforce
  then show ?thesis using d e by blast
qed

end
