(* ===== verification/Mem_Sync.thy ===== *)
theory Mem_Sync
  imports Mem_Index Mem_Preserve "HOL-Library.Multiset"
begin

text \<open>
  State synchronization (\<open>pmxcfs-memdb/src/sync.rs\<close> and \<open>compute_entry_digest\<close> of \<open>index.rs\<close>): the
  index that a node sends as its state, the checksum of the whole database, and the copy of
  \<open>corosync.conf\<close> to the local file system. The digests are written in the byte order of the
  target, which is little-endian. \<open>bincode\<close> is a parameter.
\<close>

section \<open>Operations\<close>

definition digest_bytes :: "TreeEntry \<Rightarrow> byte list" where
  "digest_bytes e =
     u64_to_le (te_version e) @ u32_to_le (te_writer e) @ u32_to_le (te_mtime e) @
     u32_to_le (of_nat (te_size e)) @ [te_entry_type e] @ u64_to_le (te_parent e) @
     as_bytes (te_name e) @ (if te_entry_type e = DT_REG \<and> te_size e > 0 then te_data e else [])"

definition compute_entry_digest :: "(byte list \<Rightarrow> byte list) \<Rightarrow> TreeEntry \<Rightarrow> byte list" where
  "compute_entry_digest sha e = sha (digest_bytes e)"

definition sorted_entries :: "'db MemDb \<Rightarrow> TreeEntry list" where
  "sorted_entries m = sort_key te_inode (hm_values (db_index m))"

definition index_entry_of :: "(byte list \<Rightarrow> byte list) \<Rightarrow> TreeEntry \<Rightarrow> IndexEntry" where
  "index_entry_of sha e = \<lparr>ie_inode = te_inode e, ie_digest = compute_entry_digest sha e\<rparr>"

definition build_index :: "(byte list \<Rightarrow> byte list) \<Rightarrow> u64 \<Rightarrow> TreeEntry \<Rightarrow> 'db MemDb \<Rightarrow> MemDbIndex" where
  "build_index sha global_version root m =
     index_new global_version (fold max (hm_keys (db_index m)) 0) (te_writer root) (te_mtime root)
       (map (index_entry_of sha) (sorted_entries m))"

text \<open>
  \<open>encode_index\<close>: the version of the root entry is brought up to the counter in memory first; when
  it changed, it is then written to the database, and a failure there leaves the memory changed.
\<close>

definition encode_index ::
  "'db sqlite \<Rightarrow> (byte list \<Rightarrow> byte list) \<Rightarrow> 'db MemDb \<Rightarrow> ('db, MemDbIndex) memop" where
  "encode_index sq sha m =
     (case hm_get (db_index m) (db_root_inode m) of
        None \<Rightarrow> (Err RootMissing, m)
      | Some root \<Rightarrow>
          let global_version = db_version m;
              root' = root\<lparr>te_version := global_version\<rparr>;
              m1 = m\<lparr>db_index := hm_insert (db_root_inode m) root' (db_index m)\<rparr>
          in if te_version root = global_version then (Ok (build_index sha global_version root m), m)
             else case sq_begin sq (db_conn m1) of
               None \<Rightarrow> (Err BeginFailed, m1)
             | Some tx \<Rightarrow>
                 (case sq_exec sq (UpdateVersion global_version (db_root_inode m)) tx of
                    None \<Rightarrow> (Err MutationFailed, m1)
                  | Some tx1 \<Rightarrow>
                      (case sq_commit sq tx1 of
                         None \<Rightarrow> (Err CommitFailed, m1)
                       | Some db' \<Rightarrow> let m2 = m1\<lparr>db_conn := db'\<rparr> in (Ok (build_index sha global_version root m2), m2))))"

definition encode_database :: "(TreeEntry list \<Rightarrow> byte list option) \<Rightarrow> 'db MemDb \<Rightarrow> byte list option" where
  "encode_database bincode m = bincode (sorted_entries m)"

definition compute_database_checksum ::
  "(TreeEntry list \<Rightarrow> byte list option) \<Rightarrow> (byte list \<Rightarrow> byte list) \<Rightarrow> 'db MemDb \<Rightarrow> byte list option" where
  "compute_database_checksum bincode sha m = map_option sha (encode_database bincode m)"

definition decode_database :: "(byte list \<Rightarrow> TreeEntry list option) \<Rightarrow> byte list \<Rightarrow> TreeEntry list option" where
  "decode_database unbincode bs = unbincode bs"

text \<open>
  \<open>sync_corosync_conf\<close>: \<open>system\<close> is the content of the system file if it can be read; the outcome of
  the write is a parameter. The result says what was written, if anything.
\<close>

datatype write_outcome = WriteOk | WriteDenied | WriteFailed

definition sync_corosync_conf ::
  "byte list option \<Rightarrow> bool \<Rightarrow> write_outcome \<Rightarrow> 'db MemDb \<Rightarrow> (mem_error, byte list option) res" where
  "sync_corosync_conf system force outcome m =
     (case lookup_path m ''/corosync.conf'' of
        None \<Rightarrow> Ok None
      | Some e \<Rightarrow>
          if \<not> is_file e then Err CorosyncNotFile
          else if \<not> force \<and> system = Some (te_data e) then Ok None
          else if from_utf8 (te_data e) = None then Err CorosyncNotUtf8
          else (case outcome of
                  WriteOk \<Rightarrow> Ok (Some (te_data e))
                | WriteDenied \<Rightarrow> Ok None
                | WriteFailed \<Rightarrow> Err CorosyncWriteFailed))"

section \<open>The index is canonical\<close>

lemma hm_values_keys:
  assumes "index_inv v idx"
  shows "map te_inode (hm_values idx) = hm_keys idx"
proof -
  have "te_inode e = i" if "(i, e) \<in> set idx" for i e
    using that index_invD(1,2) [OF assms] by (simp add: hm_get_iff)
  then show ?thesis by (auto simp: hm_values_def hm_keys_def)
qed

lemma sorted_entries_distinct:
  assumes "memdb_inv m"
  shows "sorted (map te_inode (sorted_entries m))" and "distinct (map te_inode (sorted_entries m))"
proof -
  show "sorted (map te_inode (sorted_entries m))" by (simp add: sorted_entries_def)
  have "distinct (map te_inode (hm_values (db_index m)))"
    using hm_values_keys [OF inv_parts(1) [OF assms]] index_invD(1) [OF inv_parts(1) [OF assms]]
    by (simp add: hm_ok_def hm_keys_def)
  moreover have "mset (map te_inode (sorted_entries m)) = mset (map te_inode (hm_values (db_index m)))"
    by (simp add: sorted_entries_def)
  ultimately show "distinct (map te_inode (sorted_entries m))" by (metis mset_eq_imp_distinct_iff)
qed

lemma set_sorted_entries:
  assumes "memdb_inv m"
  shows "e \<in> set (sorted_entries m) \<longleftrightarrow> hm_get (db_index m) (te_inode e) = Some e"
  using hm_values_iff [OF index_invD(1) [OF inv_parts(1) [OF assms]], of e]
    index_invD(2) [OF inv_parts(1) [OF assms]]
  by (auto simp: sorted_entries_def)

lemma sorted_key_unique:
  fixes f :: "'a \<Rightarrow> 'k :: linorder"
  assumes "sorted (map f xs)" and "sorted (map f ys)" and "distinct (map f xs)" and "distinct (map f ys)"
    and "set xs = set ys"
  shows "xs = ys"
proof -
  have "map f xs = map f ys"
    using assms by (intro sorted_distinct_set_unique) simp_all
  moreover have "inj_on f (set xs \<union> set ys)" using assms(3,5) by (simp add: distinct_map)
  ultimately show ?thesis by (rule map_inj_on)
qed

text \<open>Nodes with the same entries have the same sorted list, whatever the order of their hash maps.\<close>

lemma sorted_entries_canonical:
  assumes "memdb_inv m" and "memdb_inv m'"
    and "\<And>i. hm_get (db_index m) i = hm_get (db_index m') i"
  shows "sorted_entries m = sorted_entries m'"
  using sorted_entries_distinct [OF assms(1)] sorted_entries_distinct [OF assms(2)]
    set_sorted_entries [OF assms(1)] set_sorted_entries [OF assms(2)] assms(3)
  by (intro sorted_key_unique) auto

lemma fold_max_set:
  fixes a :: "'a :: linorder"
  assumes "set xs = set ys"
  shows "fold max xs a = fold max ys a"
  using assms by (simp add: Max.set_eq_fold [symmetric])

lemma encode_index_Ok:
  assumes inv: "memdb_inv m" and enc: "encode_index sq sha m = (Ok ix, m1)"
  obtains root where "hm_get (db_index m) ROOT_INODE = Some root"
    and "\<And>i. hm_get (db_index m1) i =
           (if i = ROOT_INODE then Some (root\<lparr>te_version := db_version m\<rparr>) else hm_get (db_index m) i)"
    and "memdb_inv m1" and "db_version m1 = db_version m"
    and "ix = index_new (db_version m) (fold max (hm_keys (db_index m1)) 0) (te_writer root) (te_mtime root)
              (map (index_entry_of sha) (sorted_entries m1))"
proof -
  have root_inode: "db_root_inode m = ROOT_INODE" using inv by simp
  obtain root where root: "hm_get (db_index m) ROOT_INODE = Some root"
    using inv by (auto simp: memdb_inv_def index_inv_def)
  let ?root = "root\<lparr>te_version := db_version m\<rparr>"
  note iinv = inv_parts(1) [OF inv] and tinv = inv_parts(2) [OF inv]
  have stamped: "memdb_inv m2" if "db_index m2 = hm_insert ROOT_INODE ?root (db_index m)"
      "db_tree m2 = db_tree m" "db_version m2 = db_version m" "db_root_inode m2 = ROOT_INODE" for m2 :: "'a MemDb"
  proof (rule memdb_invI)
    show "index_inv (db_version m2) (db_index m2)"
      using that index_invD(2,3) [OF iinv root] index_inv_update [OF iinv root, of ?root]
      by (simp add: entry_ok_def is_dir_def ROOT_INODE_def)
    show "tree_inv (db_index m2) (db_tree m2)"
      using that tree_inv_update [OF tinv root, of ?root] by simp
  qed (rule that)
  show ?thesis
  proof (cases "te_version root = db_version m")
    case True
    have m1: "m1 = m" using enc root root_inode True by (simp add: encode_index_def build_index_def)
    have "?root = root" using True by simp
    then have "\<And>i. hm_get (db_index m1) i = (if i = ROOT_INODE then Some ?root else hm_get (db_index m) i)"
      using root m1 by simp
    then show ?thesis
      using that [OF root] enc root root_inode True inv m1 by (simp add: encode_index_def build_index_def)
  next
    case False
    obtain db' where m1: "m1 = m\<lparr>db_index := hm_insert ROOT_INODE ?root (db_index m), db_conn := db'\<rparr>"
      and ix: "ix = index_new (db_version m) (fold max (hm_keys (db_index m1)) 0) (te_writer root) (te_mtime root)
              (map (index_entry_of sha) (sorted_entries m1))"
      using enc root root_inode False
      by (auto simp: encode_index_def build_index_def Let_def split: option.splits)
    have fields: "db_index m1 = hm_insert ROOT_INODE ?root (db_index m)" "db_tree m1 = db_tree m"
        "db_version m1 = db_version m" "db_root_inode m1 = ROOT_INODE"
      using m1 root_inode by simp_all
    show ?thesis
      by (rule that [OF root _ stamped [OF fields] fields(3) ix]) (simp add: fields)
  qed
qed

lemma encode_index_sorted:
  assumes "memdb_inv m" and "encode_index sq sha m = (Ok ix, m1)"
  shows "sorted (map ie_inode (ix_entries ix))" and "distinct (map ie_inode (ix_entries ix))"
    and "ix_entries ix = map (index_entry_of sha) (sorted_entries m1)"
proof -
  obtain root :: TreeEntry where inv1: "memdb_inv m1" and ix: "ix = index_new (db_version m) (fold max (hm_keys (db_index m1)) 0)
      (te_writer root) (te_mtime root) (map (index_entry_of sha) (sorted_entries m1))"
    by (rule encode_index_Ok [OF assms]) blast
  have inodes: "map ie_inode (map (index_entry_of sha) (sorted_entries m1)) = map te_inode (sorted_entries m1)"
    by (simp add: index_entry_of_def)
  show entries: "ix_entries ix = map (index_entry_of sha) (sorted_entries m1)"
  proof -
    have "sorted (map ie_inode (map (index_entry_of sha) (sorted_entries m1)))"
      unfolding inodes by (rule sorted_entries_distinct(1) [OF inv1])
    then show ?thesis by (simp only: ix index_new_def Let_def sort_key_id_if_sorted MemDbIndex.simps)
  qed
  show "sorted (map ie_inode (ix_entries ix))" "distinct (map ie_inode (ix_entries ix))"
    unfolding entries inodes using sorted_entries_distinct [OF inv1] by simp_all
qed

section \<open>What equal indices mean\<close>

lemma digest_bytes_inject:
  assumes "te_wf a" and "te_wf b" and "te_inode a = te_inode b" and "digest_bytes a = digest_bytes b"
  shows "a = b"
proof -
  have sizes: "te_size a < 2 ^ 32" "te_size b < 2 ^ 32"
    "length (te_data a) = te_size a" "length (te_data b) = te_size b"
    using assms(1,2) by (simp_all add: te_wf_def)
  have tail: "(if te_entry_type e = DT_REG \<and> te_size e > 0 then te_data e else []) = te_data e" if "te_wf e" for e
    using that by (auto simp: te_wf_def is_dir_def)
  have head: "te_version a = te_version b \<and> te_writer a = te_writer b \<and>
      te_mtime a = te_mtime b \<and> (of_nat (te_size a) :: u32) = of_nat (te_size b) \<and>
      te_entry_type a = te_entry_type b \<and> te_parent a = te_parent b \<and>
      as_bytes (te_name a) @ te_data a = as_bytes (te_name b) @ te_data b"
    using assms(4) tail [OF assms(1)] tail [OF assms(2)]
    by (simp add: digest_bytes_def append_eq_append_conv)
  then have "u32_to_le (of_nat (te_size a)) = u32_to_le (of_nat (te_size b))" by simp
  then have sz: "te_size a = te_size b" using sizes by (rule_tac u32_to_le_of_nat_inject) auto
  then have "as_bytes (te_name a) = as_bytes (te_name b) \<and> te_data a = te_data b"
    using head sizes by (intro append_eq_sized) auto
  then show ?thesis
    using head sz assms(3) by (cases a, cases b) (auto dest: as_bytes_inject)
qed

definition entries_wf :: "'db MemDb \<Rightarrow> bool" where
  "entries_wf m \<longleftrightarrow> (\<forall>i e. hm_get (db_index m) i = Some e \<longrightarrow> te_wf e)"

text \<open>SHA-256 has no collision among the digests of two databases.\<close>

definition no_collision :: "(byte list \<Rightarrow> byte list) \<Rightarrow> 'db MemDb \<Rightarrow> 'db MemDb \<Rightarrow> bool" where
  "no_collision sha m m' \<longleftrightarrow>
     inj_on sha (digest_bytes ` (set (sorted_entries m) \<union> set (sorted_entries m')))"

lemma index_entry_inject:
  assumes "memdb_inv m" "memdb_inv m'" "entries_wf m" "entries_wf m'" "no_collision sha m m'"
    and "e \<in> set (sorted_entries m)" "e' \<in> set (sorted_entries m')"
    and "index_entry_of sha e = index_entry_of sha e'"
  shows "e = e'"
proof (rule digest_bytes_inject)
  show "te_wf e" "te_wf e'"
    using assms(3,4,6,7) set_sorted_entries [OF assms(1)] set_sorted_entries [OF assms(2)]
    by (auto simp: entries_wf_def)
  show "te_inode e = te_inode e'" using assms(8) by (simp add: index_entry_of_def)
  have "sha (digest_bytes e) = sha (digest_bytes e')"
    using assms(8) by (simp add: index_entry_of_def compute_entry_digest_def)
  then show "digest_bytes e = digest_bytes e'"
    using assms(5,6,7) unfolding no_collision_def inj_on_def by blast
qed

lemma equal_indices_equal_entries:
  assumes "memdb_inv m" "memdb_inv m'" "entries_wf m" "entries_wf m'" "no_collision sha m m'"
    and "map (index_entry_of sha) (sorted_entries m) = map (index_entry_of sha) (sorted_entries m')"
  shows "hm_get (db_index m) i = hm_get (db_index m') i"
proof -
  have "sorted_entries m = sorted_entries m'"
  proof (rule nth_equalityI)
    show len: "length (sorted_entries m) = length (sorted_entries m')"
      using assms(6) by (metis length_map)
    fix k
    assume k: "k < length (sorted_entries m)"
    then have "index_entry_of sha (sorted_entries m ! k) = index_entry_of sha (sorted_entries m' ! k)"
      using assms(6) len by (metis nth_map)
    then show "sorted_entries m ! k = sorted_entries m' ! k"
      using index_entry_inject [OF assms(1-5)] k len by (metis nth_mem)
  qed
  then have eq: "hm_get (db_index m) (te_inode e) = Some e \<longleftrightarrow> hm_get (db_index m') (te_inode e) = Some e" for e
    using set_sorted_entries [OF assms(1)] set_sorted_entries [OF assms(2)] by metis
  show ?thesis
    using eq index_invD(2) [OF inv_parts(1) [OF assms(1)]] index_invD(2) [OF inv_parts(1) [OF assms(2)]]
    by (metis option.exhaust)
qed

end
