(* ===== verification/Vm_List.thy ===== *)
theory Vm_List
  imports Mem_Spec
begin

text \<open>
  The registry of virtual machines and containers that is read off the configuration tree
  (\<open>pmxcfs-memdb/src/vmlist.rs\<close>): the files \<open>nodes/<node>/qemu-server/<vmid>.conf\<close> and
  \<open>nodes/<node>/lxc/<vmid>.conf\<close>. The lemmas say which machines the registry contains and that
  names and paths of configuration files are parsed back to what they were built from.
\<close>

section \<open>Definitions\<close>

datatype VmType = Qemu | Lxc

record VmEntry =
  vm_vmid :: u32
  vm_vmtype :: VmType
  vm_node :: string
  vm_version :: u32

text \<open>\<open>str::parse::<u32>\<close>: an optional plus sign, then decimal digits without overflow.\<close>

definition digit_value :: "char \<Rightarrow> nat option" where
  "digit_value c = (let n = of_char c :: nat in if 48 \<le> n \<and> n \<le> 57 then Some (n - 48) else None)"

fun parse_digits :: "nat \<Rightarrow> string \<Rightarrow> nat option" where
  "parse_digits acc [] = Some acc"
| "parse_digits acc (c # cs) =
    (case digit_value c of
       None \<Rightarrow> None
     | Some d \<Rightarrow> if acc * 10 + d < 2 ^ 32 then parse_digits (acc * 10 + d) cs else None)"

definition parse_u32 :: "string \<Rightarrow> u32 option" where
  "parse_u32 s =
     (let digits = (case s of [] \<Rightarrow> [] | c # cs \<Rightarrow> if c = CHR ''+'' then cs else s)
      in if digits = [] then None else map_option of_nat (parse_digits 0 digits))"

definition parse_vm_config_name :: "string \<Rightarrow> u32 option" where
  "parse_vm_config_name name =
     (case strip_suffix name ''.conf'' of
        None \<Rightarrow> None
      | Some vmid_str \<Rightarrow> if starts_with vmid_str ''0'' then None else parse_u32 vmid_str)"

definition is_ascii_alphanumeric :: "char \<Rightarrow> bool" where
  "is_ascii_alphanumeric c \<longleftrightarrow>
     (let n = of_char c :: nat in (48 \<le> n \<and> n \<le> 57) \<or> (65 \<le> n \<and> n \<le> 90) \<or> (97 \<le> n \<and> n \<le> 122))"

definition is_valid_nodename :: "string \<Rightarrow> bool" where
  "is_valid_nodename name \<longleftrightarrow>
     \<not> (name = [] \<or> length name > 255) \<and>
     \<not> (starts_with name ''-'' \<or> ends_with name ''-'') \<and>
     list_all (\<lambda>c. is_ascii_alphanumeric c \<or> c = CHR ''-'') name"

definition parse_vm_config_path :: "string \<Rightarrow> (string \<times> VmType \<times> u32) option" where
  "parse_vm_config_path path =
     (case split_on (CHR ''/'') (trim_start_matches (CHR ''/'') path) of
        [p0, nodename, vmtype_dir, filename] \<Rightarrow>
          if p0 \<noteq> ''nodes'' \<or> \<not> is_valid_nodename nodename then None
          else (case (if vmtype_dir = ''qemu-server'' then Some Qemu
                      else if vmtype_dir = ''lxc'' then Some Lxc else None) of
                  None \<Rightarrow> None
                | Some vmtype \<Rightarrow>
                    (case parse_vm_config_name filename of
                       None \<Rightarrow> None
                     | Some vmid \<Rightarrow> Some (nodename, vmtype, vmid)))
      | _ \<Rightarrow> None)"

text \<open>One configuration file: the first machine with a number is kept, later ones are only reported.\<close>

definition add_vm ::
  "VmType \<Rightarrow> string \<Rightarrow> (u32, VmEntry) hmap \<times> u32 list \<Rightarrow> TreeEntry \<Rightarrow> (u32, VmEntry) hmap \<times> u32 list" where
  "add_vm vmtype node_name acc entry =
     (case acc of (vmlist, duplicates) \<Rightarrow>
       (case parse_vm_config_name (te_name entry) of
          None \<Rightarrow> (vmlist, duplicates)
        | Some vmid \<Rightarrow>
            (case hm_get vmlist vmid of
               Some _ \<Rightarrow> (vmlist, duplicates @ [vmid])
             | None \<Rightarrow>
                 (hm_insert vmid \<lparr>vm_vmid = vmid, vm_vmtype = vmtype, vm_node = node_name,
                                  vm_version = ucast (te_version entry)\<rparr> vmlist, duplicates))))"

definition scan_vm_dir ::
  "'db MemDb \<Rightarrow> VmType \<Rightarrow> string \<Rightarrow> string \<Rightarrow> (u32, VmEntry) hmap \<times> u32 list \<Rightarrow> (u32, VmEntry) hmap \<times> u32 list" where
  "scan_vm_dir m vmtype node_name path acc =
     (case readdir m path of
        Ok entries \<Rightarrow> foldl (add_vm vmtype node_name) acc entries
      | _ \<Rightarrow> acc)"

definition scan_node ::
  "'db MemDb \<Rightarrow> (u32, VmEntry) hmap \<times> u32 list \<Rightarrow> TreeEntry \<Rightarrow> (u32, VmEntry) hmap \<times> u32 list" where
  "scan_node m acc node_entry =
     (if \<not> is_dir node_entry then acc
      else let node_name = te_name node_entry in
        if \<not> is_valid_nodename node_name then acc
        else scan_vm_dir m Lxc node_name (''nodes/'' @ node_name @ ''/lxc'')
               (scan_vm_dir m Qemu node_name (''nodes/'' @ node_name @ ''/qemu-server'') acc))"

definition recreate_vmlist :: "'db MemDb \<Rightarrow> (mem_error, (u32, VmEntry) hmap) res" where
  "recreate_vmlist m =
     (case readdir m ''nodes'' of
        Ok nodes_entries \<Rightarrow> Ok (fst (foldl (scan_node m) ([], []) nodes_entries))
      | _ \<Rightarrow> Ok [])"

section \<open>Names and paths of configuration files\<close>

function decimal :: "nat \<Rightarrow> string" where
  "decimal n = (if n < 10 then [char_of (48 + n)] else decimal (n div 10) @ [char_of (48 + n mod 10)])"
  by pat_completeness auto
termination by (relation "measure id") auto

declare decimal.simps [simp del]

lemma digit_value_char [simp]: "d < 10 \<Longrightarrow> digit_value (char_of (48 + d)) = Some d"
  by (simp add: digit_value_def Let_def of_char_of)

lemma parse_digits_append:
  "parse_digits acc (xs @ ys) = Option.bind (parse_digits acc xs) (\<lambda>a. parse_digits a ys)"
  by (induction acc xs rule: parse_digits.induct) (auto split: option.splits)

lemma parse_digits_decimal: "n < 2 ^ 32 \<Longrightarrow> parse_digits 0 (decimal n) = Some n"
proof (induction n rule: decimal.induct)
  case (1 n)
  show ?case
  proof (cases "n < 10")
    case True
    then show ?thesis using 1(2) by (simp add: decimal.simps [of n])
  next
    case False
    have "n div 10 * 10 + n mod 10 = n" by simp
    then show ?thesis using False 1 by (simp add: decimal.simps [of n] parse_digits_append)
  qed
qed

lemma decimal_hd:
  "n \<noteq> 0 \<Longrightarrow> \<exists>d ds. decimal n = char_of (48 + d) # ds \<and> 1 \<le> d \<and> d < (10 :: nat)"
proof (induction n rule: decimal.induct)
  case (1 n)
  show ?case
  proof (cases "n < 10")
    case True
    then show ?thesis using 1(2) by (intro exI [of _ n]) (simp add: decimal.simps [of n])
  next
    case False
    then obtain d ds where "decimal (n div 10) = char_of (48 + d) # ds" "1 \<le> d" "d < (10 :: nat)"
      using 1(1) by (auto simp: div_eq_0_iff)
    then show ?thesis using False by (intro exI [of _ d]) (simp add: decimal.simps [of n])
  qed
qed

lemma decimal_digits: "c \<in> set (decimal n) \<Longrightarrow> is_ascii_alphanumeric c"
proof (induction n rule: decimal.induct)
  case (1 n)
  then show ?case
    by (cases "n < 10") (auto simp: decimal.simps [of n] is_ascii_alphanumeric_def Let_def of_char_of)
qed

lemma char_digit_neq:
  assumes "1 \<le> d" and "d < (10 :: nat)"
  shows "char_of (48 + d) \<noteq> CHR ''0''" and "char_of (48 + d) \<noteq> CHR ''+''"
proof -
  have v: "(of_char (char_of (48 + d)) :: nat) = 48 + d" using assms(2) by (simp add: of_char_of)
  have "(of_char CHR ''0'' :: nat) = 48" "(of_char CHR ''+'' :: nat) = 43" by simp_all
  then show "char_of (48 + d) \<noteq> CHR ''0''" "char_of (48 + d) \<noteq> CHR ''+''" using v assms by force+
qed

lemma strip_suffix_append [simp]: "strip_suffix (s @ p) p = Some s"
  by (simp add: strip_suffix_def ends_with_def)

lemma parse_name_decimal:
  assumes "0 < n" and "n < 2 ^ 32"
  shows "parse_vm_config_name (decimal n @ ''.conf'') = Some (of_nat n)"
proof -
  obtain d ds where d: "decimal n = char_of (48 + d) # ds" "1 \<le> d" "d < (10 :: nat)"
    using decimal_hd assms(1) by blast
  then have "parse_u32 (decimal n) = Some (of_nat n)"
    using char_digit_neq [OF d(2,3)] parse_digits_decimal [OF assms(2)]
    by (simp add: parse_u32_def Let_def)
  moreover have "\<not> starts_with (decimal n) ''0''"
    using char_digit_neq [OF d(2,3)] d(1) by (simp add: starts_with_def)
  ultimately show ?thesis
    by (simp only: parse_vm_config_name_def strip_suffix_append option.case if_False)
qed

abbreviation config_dir :: "VmType \<Rightarrow> string" where
  "config_dir ty \<equiv> (case ty of Qemu \<Rightarrow> ''qemu-server'' | Lxc \<Rightarrow> ''lxc'')"

lemma alphanumeric_not_slash: "is_ascii_alphanumeric c \<Longrightarrow> c \<noteq> CHR ''/''"
  by (auto simp: is_ascii_alphanumeric_def)

lemma nodename_no_slash: "is_valid_nodename node \<Longrightarrow> CHR ''/'' \<notin> set node"
  using alphanumeric_not_slash by (auto simp: is_valid_nodename_def list_all_iff)

lemma split_config_path:
  assumes "is_valid_nodename node" and "CHR ''/'' \<notin> set name"
  shows "split_on (CHR ''/'') (''nodes/'' @ node @ ''/'' @ config_dir ty @ ''/'' @ name) =
         [''nodes'', node, config_dir ty, name]"
proof -
  have "split_on (CHR ''/'') (''nodes'' @ CHR ''/'' # node @ CHR ''/'' # config_dir ty @ CHR ''/'' # name) =
         [''nodes'', node, config_dir ty, name]"
    unfolding split_on_append
    using nodename_no_slash [OF assms(1)] assms(2) by (cases ty) (simp_all add: split_on_no_sep)
  then show ?thesis by simp
qed

lemma parse_config_path:
  assumes "is_valid_nodename node" and "CHR ''/'' \<notin> set name"
  shows "parse_vm_config_path (''/nodes/'' @ node @ ''/'' @ config_dir ty @ ''/'' @ name) =
         map_option (\<lambda>vmid. (node, ty, vmid)) (parse_vm_config_name name)"
proof -
  have "trim_start_matches (CHR ''/'') (''/nodes/'' @ node @ ''/'' @ config_dir ty @ ''/'' @ name) =
      ''nodes/'' @ node @ ''/'' @ config_dir ty @ ''/'' @ name"
    by (simp add: trim_start_matches_def)
  then show ?thesis
    using assms(1) unfolding parse_vm_config_path_def
    by (simp only: split_config_path [OF assms] list.case)
      (cases ty; auto split: option.splits)
qed

section \<open>Contents of the registry\<close>

text \<open>\<open>vm_config m node ty name e\<close>: \<open>e\<close> is the entry of the file or directory \<open>nodes/node/<ty>/name\<close>.\<close>

definition vm_config :: "'db MemDb \<Rightarrow> string \<Rightarrow> VmType \<Rightarrow> string \<Rightarrow> TreeEntry \<Rightarrow> bool" where
  "vm_config m node ty name e \<longleftrightarrow>
     is_valid_nodename node \<and> fs_view m [''nodes'', node, config_dir ty, name] = Some e"

text \<open>What the list holds after the configurations in \<open>C\<close> were scanned.\<close>

definition covers :: "(VmType \<times> string \<times> TreeEntry) set \<Rightarrow> (u32, VmEntry) hmap \<Rightarrow> bool" where
  "covers C vl \<longleftrightarrow> hm_ok vl \<and>
     (\<forall>v vm. hm_get vl v = Some vm \<longrightarrow> vm_vmid vm = v \<and>
        (\<exists>e. (vm_vmtype vm, vm_node vm, e) \<in> C \<and> parse_vm_config_name (te_name e) = Some v \<and>
             vm_version vm = ucast (te_version e))) \<and>
     (\<forall>ty node e v. (ty, node, e) \<in> C \<longrightarrow> parse_vm_config_name (te_name e) = Some v \<longrightarrow> hm_get vl v \<noteq> None)"

lemma covers_mono_sound:
  assumes "covers C vl"
  shows "hm_ok vl" and "hm_get vl v = Some vm \<Longrightarrow> vm_vmid vm = v"
    and "hm_get vl v = Some vm \<Longrightarrow> \<exists>e. (vm_vmtype vm, vm_node vm, e) \<in> C \<and>
        parse_vm_config_name (te_name e) = Some v \<and> vm_version vm = ucast (te_version e)"
    and "(ty, node, e) \<in> C \<Longrightarrow> parse_vm_config_name (te_name e) = Some v \<Longrightarrow> hm_get vl v \<noteq> None"
  using assms unfolding covers_def by blast+

lemma covers_add:
  assumes "covers C vl"
  shows "covers (insert (ty, node, e) C) (fst (add_vm ty node (vl, dup) e))"
proof (cases "parse_vm_config_name (te_name e)")
  case None
  then show ?thesis using assms by (auto simp: add_vm_def covers_def)
next
  case (Some v)
  show ?thesis
  proof (cases "hm_get vl v")
    case (Some vm)
    with \<open>parse_vm_config_name (te_name e) = Some v\<close> assms show ?thesis
      by (auto simp: add_vm_def covers_def)
  next
    case None
    let ?vm = "\<lparr>vm_vmid = v, vm_vmtype = ty, vm_node = node, vm_version = ucast (te_version e)\<rparr>"
    have eq: "fst (add_vm ty node (vl, dup) e) = hm_insert v ?vm vl"
      using None Some by (simp add: add_vm_def)
    note vl = covers_mono_sound [OF assms]
    have "vm_vmid vm = w \<and> (\<exists>e'. (vm_vmtype vm, vm_node vm, e') \<in> insert (ty, node, e) C \<and>
        parse_vm_config_name (te_name e') = Some w \<and> vm_version vm = ucast (te_version e'))"
      if "hm_get (hm_insert v ?vm vl) w = Some vm" for w vm
    proof (cases "w = v")
      case True
      then show ?thesis using that Some by (intro conjI exI [of _ e]) auto
    next
      case False
      then have old: "hm_get vl w = Some vm" using that by simp
      from vl(2) [OF old] vl(3) [OF old] show ?thesis by blast
    qed
    moreover have "hm_get (hm_insert v ?vm vl) w \<noteq> None"
      if "(ty', node', e') \<in> insert (ty, node, e) C" "parse_vm_config_name (te_name e') = Some w" for ty' node' e' w
      using that vl(4) [of ty' node' e' w] Some by auto
    ultimately show ?thesis
      unfolding eq covers_def using vl(1) by blast
  qed
qed

lemma covers_fold_add:
  "covers C (fst acc) \<Longrightarrow>
   covers (C \<union> {(ty, node, e) | e. e \<in> set es}) (fst (foldl (add_vm ty node) acc es))"
proof (induction es arbitrary: C acc)
  case Nil
  then show ?case by simp
next
  case (Cons e es)
  have "covers (insert (ty, node, e) C) (fst (add_vm ty node acc e))"
    using covers_add [OF Cons.prems, of ty node e "snd acc"] by simp
  moreover have "insert (ty, node, e) C \<union> {(ty, node, e') | e'. e' \<in> set es} =
      C \<union> {(ty, node, e') | e'. e' \<in> set (e # es)}" by auto
  ultimately show ?case using Cons.IH [of "insert (ty, node, e) C" "add_vm ty node acc e"] by simp
qed

text \<open>The configurations that one directory and one node contribute.\<close>

definition dir_configs :: "'db MemDb \<Rightarrow> VmType \<Rightarrow> string \<Rightarrow> (VmType \<times> string \<times> TreeEntry) set" where
  "dir_configs m ty node = {(ty, node, e) | e. \<exists>name. fs_view m [''nodes'', node, config_dir ty, name] = Some e}"

lemma view_parent_dir:
  assumes inv: "memdb_inv m" and "fs_view m (ps @ [n]) = Some c"
  shows "\<exists>d. fs_view m ps = Some d \<and> is_dir d"
proof -
  obtain i where i: "walk (db_tree m) ps (db_root_inode m) = Some i" and "child (db_tree m) i n \<noteq> None"
    using assms(2) by (auto simp: fs_view_def walk_snoc bind_eq_Some_conv)
  then have "has_dir (db_tree m) i" by (auto simp: has_dir_def child_def bind_eq_Some_conv)
  then obtain d where "hm_get (db_index m) i = Some d" "is_dir d"
    using tree_invD(4) [OF inv_parts(2) [OF inv]] by blast
  with i show ?thesis by (simp add: fs_view_def)
qed

lemma readdir_view:
  assumes inv: "memdb_inv m" and path: "view_path path = ps" "path \<noteq> ''.''"
  shows "(\<exists>es. readdir m path = Ok es \<and> set es = {c. \<exists>n. fs_view m (ps @ [n]) = Some c}) \<or>
         ((\<forall>es. readdir m path \<noteq> Ok es) \<and> {c. \<exists>n. fs_view m (ps @ [n]) = Some c} = {})"
proof (cases "\<exists>e. lookup_path m path = Some e \<and> is_dir e")
  case True
  then obtain e where "lookup_path m path = Some e" "is_dir e" by blast
  from readdir_entries [OF inv this] path show ?thesis by auto
next
  case False
  have "lookup_path m path = fs_view m ps" using path by (simp add: lookup_path_view view_path_def)
  then have "{c. \<exists>n. fs_view m (ps @ [n]) = Some c} = {}"
    using False view_parent_dir [OF inv, of ps] by auto
  moreover have "readdir m path \<noteq> Ok es" for es
    using False by (auto simp: readdir_def split: option.splits if_splits)
  ultimately show ?thesis by blast
qed

lemma config_dir_path:
  assumes "is_valid_nodename node"
  shows "view_path (''nodes/'' @ node @ ''/'' @ config_dir ty) = [''nodes'', node, config_dir ty]"
    and "''nodes/'' @ node @ ''/'' @ config_dir ty \<noteq> ''.''"
proof -
  show ne: "''nodes/'' @ node @ ''/'' @ config_dir ty \<noteq> ''.''" by simp
  have "node \<noteq> []" using assms by (simp add: is_valid_nodename_def)
  then have "path_parts (''nodes'' @ CHR ''/'' # node @ CHR ''/'' # config_dir ty) = [''nodes'', node, config_dir ty]"
    unfolding path_parts_append_sep
    using nodename_no_slash [OF assms] by (cases ty) (simp_all add: path_parts_no_sep)
  then show "view_path (''nodes/'' @ node @ ''/'' @ config_dir ty) = [''nodes'', node, config_dir ty]"
    by (simp add: view_path_def)
qed

lemma covers_scan_dir:
  assumes inv: "memdb_inv m" and "is_valid_nodename node" and "covers C (fst acc)"
  shows "covers (C \<union> dir_configs m ty node)
           (fst (scan_vm_dir m ty node (''nodes/'' @ node @ ''/'' @ config_dir ty) acc))"
proof -
  let ?path = "''nodes/'' @ node @ ''/'' @ config_dir ty"
  from readdir_view [OF inv config_dir_path [OF assms(2)], of ty]
  consider (ok) es where "readdir m ?path = Ok es"
      "set es = {c. \<exists>n. fs_view m [''nodes'', node, config_dir ty, n] = Some c}"
    | (none) "\<forall>es. readdir m ?path \<noteq> Ok es" "dir_configs m ty node = {}"
    by (auto simp: dir_configs_def)
  then show ?thesis
  proof cases
    case ok
    then have "dir_configs m ty node = {(ty, node, e) | e. e \<in> set es}" by (auto simp: dir_configs_def)
    then show ?thesis using covers_fold_add [OF assms(3)] ok(1) by (simp add: scan_vm_dir_def)
  next
    case none
    then show ?thesis using assms(3) by (auto simp: scan_vm_dir_def split: res.splits)
  qed
qed

definition node_configs :: "'db MemDb \<Rightarrow> TreeEntry \<Rightarrow> (VmType \<times> string \<times> TreeEntry) set" where
  "node_configs m ne =
     (if is_dir ne \<and> is_valid_nodename (te_name ne)
      then dir_configs m Qemu (te_name ne) \<union> dir_configs m Lxc (te_name ne) else {})"

lemma covers_scan_node:
  assumes "memdb_inv m" and "covers C (fst acc)"
  shows "covers (C \<union> node_configs m ne) (fst (scan_node m acc ne))"
proof (cases "is_dir ne \<and> is_valid_nodename (te_name ne)")
  case True
  then have valid: "is_valid_nodename (te_name ne)" by simp
  have "covers (C \<union> dir_configs m Qemu (te_name ne) \<union> dir_configs m Lxc (te_name ne)) (fst (scan_node m acc ne))"
    using covers_scan_dir [OF assms(1) valid covers_scan_dir [OF assms(1) valid assms(2), of Qemu], of Lxc] True
    by (simp add: scan_node_def Let_def)
  then show ?thesis using True by (simp add: node_configs_def Un_assoc)
next
  case False
  then show ?thesis using assms(2) by (auto simp: scan_node_def node_configs_def Let_def)
qed

lemma covers_fold_nodes:
  assumes "memdb_inv m"
  shows "covers C (fst acc) \<Longrightarrow> covers (C \<union> (\<Union>ne \<in> set nes. node_configs m ne)) (fst (foldl (scan_node m) acc nes))"
proof (induction nes arbitrary: C acc)
  case Nil
  then show ?case by simp
next
  case (Cons ne nes)
  from Cons.IH [OF covers_scan_node [OF assms Cons.prems, of ne]] show ?case
    by (simp add: Un_assoc)
qed

lemma all_configs:
  assumes inv: "memdb_inv m" and nes: "set nes = {c. \<exists>n. fs_view m ([''nodes''] @ [n]) = Some c}"
  shows "(ty, node, e) \<in> (\<Union>ne \<in> set nes. node_configs m ne) \<longleftrightarrow> (\<exists>name. vm_config m node ty name e)"
proof
  assume "(ty, node, e) \<in> (\<Union>ne \<in> set nes. node_configs m ne)"
  then show "\<exists>name. vm_config m node ty name e"
    by (auto simp: node_configs_def dir_configs_def vm_config_def split: if_splits)
next
  assume "\<exists>name. vm_config m node ty name e"
  then obtain name where valid: "is_valid_nodename node"
    and e: "fs_view m (([''nodes''] @ [node]) @ [config_dir ty] @ [name]) = Some e"
    by (auto simp: vm_config_def)
  obtain d where "fs_view m (([''nodes''] @ [node]) @ [config_dir ty]) = Some d"
    using view_parent_dir [OF inv, of "([''nodes''] @ [node]) @ [config_dir ty]" name e] e by auto
  then obtain ne where ne: "fs_view m ([''nodes''] @ [node]) = Some ne" "is_dir ne"
    using view_parent_dir [OF inv] by blast
  then have "te_name ne = node" by (intro view_name [OF inv])
  moreover have "ne \<in> set nes" using nes ne by blast
  moreover have "(ty, node, e) \<in> dir_configs m ty node" using e by (auto simp: dir_configs_def)
  ultimately show "(ty, node, e) \<in> (\<Union>ne \<in> set nes. node_configs m ne)"
    using valid ne(2) by (cases ty) (auto simp: node_configs_def)
qed

lemma vmlist_covers:
  assumes inv: "memdb_inv m"
  shows "\<exists>vl. recreate_vmlist m = Ok vl \<and>
           covers {(ty, node, e). \<exists>name. vm_config m node ty name e} vl"
proof -
  have empty: "covers {} []" by (simp add: covers_def)
  have path: "view_path ''nodes'' = [''nodes'']" "''nodes'' \<noteq> ''.''"
    by (simp_all add: view_path_def path_parts_def)
  from readdir_view [OF inv path]
  consider (ok) nes where "readdir m ''nodes'' = Ok nes"
      "set nes = {c. \<exists>n. fs_view m ([''nodes''] @ [n]) = Some c}"
    | (none) "\<forall>es. readdir m ''nodes'' \<noteq> Ok es" "{c. \<exists>n. fs_view m ([''nodes''] @ [n]) = Some c} = {}"
    by blast
  then show ?thesis
  proof cases
    case ok
    have "(\<Union>ne \<in> set nes. node_configs m ne) = {(ty, node, e). \<exists>name. vm_config m node ty name e}"
    proof (rule set_eqI)
      fix x :: "VmType \<times> string \<times> TreeEntry"
      obtain ty node e where "x = (ty, node, e)" by (metis prod_cases3)
      then show "x \<in> (\<Union>ne \<in> set nes. node_configs m ne) \<longleftrightarrow>
          x \<in> {(ty, node, e). \<exists>name. vm_config m node ty name e}"
        using all_configs [OF inv ok(2), of ty node e] by (simp only: mem_Collect_eq prod.case)
    qed
    with covers_fold_nodes [OF inv, of "{}" "([], [])" nes] empty ok(1) show ?thesis
      by (simp add: recreate_vmlist_def)
  next
    case none
    then have "{(ty, node, e). \<exists>name. vm_config m node ty name e} = {}"
      using all_configs [OF inv, of "[]"] by simp
    moreover have "recreate_vmlist m = Ok []"
      using none(1) by (auto simp: recreate_vmlist_def split: res.splits)
    ultimately show ?thesis using empty by (simp only: res.inject ex_simps simp_thms)
  qed
qed

end
