(* ===== verification/Dfsm_Wire.thy ===== *)
theory Dfsm_Wire
  imports Tree_Entry
begin

text \<open>
  The messages of the cluster protocol and their wire formats (\<open>pmxcfs-dfsm/src\<close>: \<open>types.rs\<close>,
  \<open>wire_format.rs\<close>, \<open>fuse_message.rs\<close>, \<open>kv_store_message.rs\<close>, \<open>message.rs\<close>, \<open>dfsm_message.rs\<close>).
  The trait \<open>Message\<close> is a locale; its law is the round trip, and the round trip of the protocol
  messages that carry application messages is proved once in it. The header of a file system
  message is copied with the byte order of the target, which is little-endian.
\<close>

section \<open>Types\<close>

datatype DfsmMode = ModeStart | StartSync | Synced | ModeUpdate | Leave | VersionError | ModeError

fun mode_code :: "DfsmMode \<Rightarrow> u8" where
  "mode_code ModeStart = 0"
| "mode_code StartSync = 1"
| "mode_code Synced = 2"
| "mode_code ModeUpdate = 3"
| "mode_code Leave = 253"
| "mode_code VersionError = 254"
| "mode_code ModeError = 255"

definition is_error_mode :: "DfsmMode \<Rightarrow> bool" where
  "is_error_mode m \<longleftrightarrow> mode_code m \<ge> 128"

datatype DfsmMessageType =
  TNormal | TSyncStart | TState | TUpdate | TUpdateComplete | TVerifyRequest | TVerify

fun dfsm_type_code :: "DfsmMessageType \<Rightarrow> u16" where
  "dfsm_type_code TNormal = 0"
| "dfsm_type_code TSyncStart = 1"
| "dfsm_type_code TState = 2"
| "dfsm_type_code TUpdate = 3"
| "dfsm_type_code TUpdateComplete = 4"
| "dfsm_type_code TVerifyRequest = 5"
| "dfsm_type_code TVerify = 6"

definition dfsm_type_of_code :: "u16 \<Rightarrow> DfsmMessageType option" where
  "dfsm_type_of_code c =
     find (\<lambda>t. dfsm_type_code t = c)
       [TNormal, TSyncStart, TState, TUpdate, TUpdateComplete, TVerifyRequest, TVerify]"

datatype wire_error =
    WTooShort | WSizeOverflow | WTooLarge | WSpanOverflow | WBadLength | WNoNul | WNotUtf8
  | WBadType | WSizeMismatch | WEntry update_error

record SyncEpoch =
  se_epoch :: u32
  se_time :: u32
  se_nodeid :: u32
  se_pid :: u32

definition epoch_serialize :: "SyncEpoch \<Rightarrow> byte list" where
  "epoch_serialize e =
     u32_to_le (se_epoch e) @ u32_to_le (se_time e) @ u32_to_le (se_nodeid e) @ u32_to_le (se_pid e)"

definition epoch_deserialize :: "byte list \<Rightarrow> (wire_error, SyncEpoch) res" where
  "epoch_deserialize bs =
     (if length bs < 16 then Err WTooShort
      else Ok \<lparr>se_epoch = u32_of_le (slice 0 4 bs), se_time = u32_of_le (slice 4 8 bs),
               se_nodeid = u32_of_le (slice 8 12 bs), se_pid = u32_of_le (slice 12 16 bs)\<rparr>)"

section \<open>File system messages\<close>

datatype CMessageType =
  CWrite | CMkdir | CDelete | CRename | CCreate | CMtime | CUnlockRequest | CUnlock

fun c_type_code :: "CMessageType \<Rightarrow> u16" where
  "c_type_code CWrite = 1"
| "c_type_code CMkdir = 2"
| "c_type_code CDelete = 3"
| "c_type_code CRename = 4"
| "c_type_code CCreate = 5"
| "c_type_code CMtime = 6"
| "c_type_code CUnlockRequest = 7"
| "c_type_code CUnlock = 8"

definition c_type_of_code :: "u16 \<Rightarrow> CMessageType option" where
  "c_type_of_code c =
     find (\<lambda>t. c_type_code t = c)
       [CWrite, CMkdir, CDelete, CRename, CCreate, CMtime, CUnlockRequest, CUnlock]"

record CFuseMessage =
  cf_size :: u32
  cf_offset :: u32
  cf_flags :: u32
  cf_path :: string
  cf_to :: "string option"
  cf_data :: "byte list"

definition MAX_MESSAGE_SIZE :: u32 where "MAX_MESSAGE_SIZE = 16 * 1024 * 1024"

text \<open>A length-prefixed span of the message, and a C string in it.\<close>

definition read_span :: "byte list \<Rightarrow> nat \<Rightarrow> u32 \<Rightarrow> (wire_error, byte list \<times> nat) res" where
  "read_span bs offset len =
     (case usize_checked_add offset (unat len) of
        None \<Rightarrow> Err WSpanOverflow
      | Some end_offset \<Rightarrow>
          if end_offset > length bs then Err WBadLength
          else Ok (slice offset end_offset bs, end_offset))"

definition c_str :: "byte list \<Rightarrow> (wire_error, string) res" where
  "c_str bs =
     (if 0 \<notin> set bs then Err WNoNul
      else case from_utf8 (takeWhile (\<lambda>b. b \<noteq> 0) bs) of None \<Rightarrow> Err WNotUtf8 | Some s \<Rightarrow> Ok s)"

definition read_c_str :: "byte list \<Rightarrow> nat \<Rightarrow> u32 \<Rightarrow> (wire_error, string option \<times> nat) res" where
  "read_c_str bs offset len =
     (if len > 0 then
        (case read_span bs offset len of
           Err e \<Rightarrow> Err e
         | Panic \<Rightarrow> Panic
         | Ok (span, off') \<Rightarrow>
             (case c_str span of Err e \<Rightarrow> Err e | Panic \<Rightarrow> Panic | Ok s \<Rightarrow> Ok (Some s, off')))
      else Ok (None, offset))"

definition cfuse_parse :: "byte list \<Rightarrow> (wire_error, CFuseMessage) res" where
  "cfuse_parse bs =
     (if length bs < 20 then Err WTooShort
      else
        let size = u32_of_le (slice 0 4 bs); offset = u32_of_le (slice 4 8 bs);
            pathlen = u32_of_le (slice 8 12 bs); tolen = u32_of_le (slice 12 16 bs);
            flags = u32_of_le (slice 16 20 bs)
        in (case Option.bind (u32_checked_add pathlen tolen) (\<lambda>s. u32_checked_add s size) of
              None \<Rightarrow> Err WSizeOverflow
            | Some total_size \<Rightarrow>
                if total_size > MAX_MESSAGE_SIZE then Err WTooLarge
                else (case read_c_str bs 20 pathlen of
                        Err e \<Rightarrow> Err e
                      | Panic \<Rightarrow> Panic
                      | Ok (path, off1) \<Rightarrow>
                          (case read_c_str bs off1 tolen of
                             Err e \<Rightarrow> Err e
                           | Panic \<Rightarrow> Panic
                           | Ok (to, off2) \<Rightarrow>
                               (case (if size > 0 then read_span bs off2 size else Ok ([], off2)) of
                                  Err e \<Rightarrow> Err e
                                | Panic \<Rightarrow> Panic
                                | Ok (buf, _) \<Rightarrow>
                                    Ok \<lparr>cf_size = size, cf_offset = offset, cf_flags = flags,
                                        cf_path = (case path of None \<Rightarrow> [] | Some p \<Rightarrow> p),
                                        cf_to = to, cf_data = buf\<rparr>)))))"

definition c_len :: "byte list \<Rightarrow> u32" where
  "c_len bs = (if bs = [] then 0 else of_nat (length bs + 1))"

definition c_bytes :: "byte list \<Rightarrow> byte list" where
  "c_bytes bs = (if c_len bs > 0 then bs @ [0] else [])"

definition cfuse_serialize :: "CFuseMessage \<Rightarrow> byte list" where
  "cfuse_serialize c =
     (let path_bytes = as_bytes (cf_path c);
          to_bytes = (case cf_to c of None \<Rightarrow> [] | Some t \<Rightarrow> as_bytes t)
      in u32_to_le (cf_size c) @ u32_to_le (cf_offset c) @ u32_to_le (c_len path_bytes) @
         u32_to_le (c_len to_bytes) @ u32_to_le (cf_flags c) @
         c_bytes path_bytes @ c_bytes to_bytes @ (if cf_size c > 0 then cf_data c else []))"

datatype FuseMessage =
    FCreate string
  | FMkdir string
  | FWrite string u64 "byte list"
  | FDelete string
  | FRename string string
  | FMtime string u32
  | FUnlockRequest string
  | FUnlock string

fun fuse_message_type :: "FuseMessage \<Rightarrow> u16" where
  "fuse_message_type (FCreate _) = c_type_code CCreate"
| "fuse_message_type (FMkdir _) = c_type_code CMkdir"
| "fuse_message_type (FWrite _ _ _) = c_type_code CWrite"
| "fuse_message_type (FDelete _) = c_type_code CDelete"
| "fuse_message_type (FRename _ _) = c_type_code CRename"
| "fuse_message_type (FMtime _ _) = c_type_code CMtime"
| "fuse_message_type (FUnlockRequest _) = c_type_code CUnlockRequest"
| "fuse_message_type (FUnlock _) = c_type_code CUnlock"

definition cfuse_of_path :: "string \<Rightarrow> CFuseMessage" where
  "cfuse_of_path path =
     \<lparr>cf_size = 0, cf_offset = 0, cf_flags = 0, cf_path = path, cf_to = None, cf_data = []\<rparr>"

fun fuse_to_c :: "FuseMessage \<Rightarrow> CFuseMessage" where
  "fuse_to_c (FCreate path) = cfuse_of_path path"
| "fuse_to_c (FMkdir path) = cfuse_of_path path"
| "fuse_to_c (FWrite path offset d) =
     (cfuse_of_path path)\<lparr>cf_size := of_nat (length d), cf_offset := ucast offset, cf_data := d\<rparr>"
| "fuse_to_c (FDelete path) = cfuse_of_path path"
| "fuse_to_c (FRename from to) = (cfuse_of_path from)\<lparr>cf_to := Some to\<rparr>"
| "fuse_to_c (FMtime path mtime) = (cfuse_of_path path)\<lparr>cf_offset := mtime\<rparr>"
| "fuse_to_c (FUnlockRequest path) = cfuse_of_path path"
| "fuse_to_c (FUnlock path) = cfuse_of_path path"

definition fuse_serialize :: "FuseMessage \<Rightarrow> byte list" where
  "fuse_serialize msg = cfuse_serialize (fuse_to_c msg)"

fun fuse_of_c :: "CMessageType \<Rightarrow> CFuseMessage \<Rightarrow> FuseMessage" where
  "fuse_of_c CCreate c = FCreate (cf_path c)"
| "fuse_of_c CMkdir c = FMkdir (cf_path c)"
| "fuse_of_c CWrite c = FWrite (cf_path c) (ucast (cf_offset c)) (cf_data c)"
| "fuse_of_c CDelete c = FDelete (cf_path c)"
| "fuse_of_c CRename c = FRename (cf_path c) (case cf_to c of None \<Rightarrow> [] | Some t \<Rightarrow> t)"
| "fuse_of_c CMtime c = FMtime (cf_path c) (cf_offset c)"
| "fuse_of_c CUnlockRequest c = FUnlockRequest (cf_path c)"
| "fuse_of_c CUnlock c = FUnlock (cf_path c)"

definition fuse_deserialize :: "u16 \<Rightarrow> byte list \<Rightarrow> (wire_error, FuseMessage) res" where
  "fuse_deserialize message_type bs =
     (case cfuse_parse bs of
        Err e \<Rightarrow> Err e
      | Panic \<Rightarrow> Panic
      | Ok c \<Rightarrow> (case c_type_of_code message_type of None \<Rightarrow> Err WBadType | Some t \<Rightarrow> Ok (fuse_of_c t c)))"

section \<open>Key-value store messages\<close>

datatype KvStoreMessage =
    KUpdate string "byte list"
  | KLog u32 u8 string string string string \<comment> \<open>time, priority, node, ident, tag, message\<close>
  | KUpdateComplete

fun kv_message_type :: "KvStoreMessage \<Rightarrow> u16" where
  "kv_message_type (KUpdate _ _) = 1"
| "kv_message_type KUpdateComplete = 2"
| "kv_message_type (KLog _ _ _ _ _ _) = 3"

definition log_len :: "string \<Rightarrow> u32" where
  "log_len s = of_nat (length s + 1)"

fun kv_serialize :: "KvStoreMessage \<Rightarrow> byte list" where
  "kv_serialize (KUpdate key value) =
     (let copy_len = min (length key) 255 in
      take copy_len (as_bytes key) @ replicate (256 - copy_len) 0 @ value)"
| "kv_serialize (KLog time priority node ident tag message) =
     u32_to_le time @ [priority] @ [0, 0, 0] @
     u32_to_le (log_len node) @ u32_to_le (log_len ident) @ u32_to_le (log_len tag) @ u32_to_le (log_len message) @
     as_bytes node @ [0] @ as_bytes ident @ [0] @ as_bytes tag @ [0] @ as_bytes message @ [0]"
| "kv_serialize KUpdateComplete = []"

text \<open>\<open>&data[a..b]\<close>, which panics when the range is not in the slice, and the text in it.\<close>

definition range_utf8 :: "nat \<Rightarrow> nat \<Rightarrow> byte list \<Rightarrow> (wire_error, string) res" where
  "range_utf8 a b bs =
     (if a \<le> b \<and> b \<le> length bs
      then (case from_utf8 (slice a b bs) of None \<Rightarrow> Err WNotUtf8 | Some s \<Rightarrow> Ok s)
      else Panic)"

definition kv_deserialize_log :: "byte list \<Rightarrow> (wire_error, KvStoreMessage) res" where
  "kv_deserialize_log bs =
     (if length bs < 20 then Err WTooShort
      else if length bs < 24 then Panic
      else
        let time = u32_of_le (slice 0 4 bs); priority = bs ! 4;
            node_len = unat (u32_of_le (slice 8 12 bs)); ident_len = unat (u32_of_le (slice 12 16 bs));
            tag_len = unat (u32_of_le (slice 16 20 bs)); msg_len = unat (u32_of_le (slice 20 24 bs));
            o1 = 24 + node_len; o2 = o1 + ident_len; o3 = o2 + tag_len
        in if length bs \<noteq> 24 + node_len + ident_len + tag_len + msg_len then Err WSizeMismatch
           else (case range_utf8 24 (o1 - 1) bs of
               Err e \<Rightarrow> Err e | Panic \<Rightarrow> Panic
             | Ok node \<Rightarrow> (case range_utf8 o1 (o2 - 1) bs of
                   Err e \<Rightarrow> Err e | Panic \<Rightarrow> Panic
                 | Ok ident \<Rightarrow> (case range_utf8 o2 (o3 - 1) bs of
                       Err e \<Rightarrow> Err e | Panic \<Rightarrow> Panic
                     | Ok tag \<Rightarrow> (case range_utf8 o3 (o3 + msg_len - 1) bs of
                           Err e \<Rightarrow> Err e | Panic \<Rightarrow> Panic
                         | Ok message \<Rightarrow> Ok (KLog time priority node ident tag message))))))"

definition kv_deserialize :: "u16 \<Rightarrow> byte list \<Rightarrow> (wire_error, KvStoreMessage) res" where
  "kv_deserialize msg_type bs =
     (if msg_type = 1 then
        if length bs < 256 then Err WTooShort
        else if 0 \<notin> set (take 256 bs) then Err WNoNul
        else (case from_utf8 (takeWhile (\<lambda>b. b \<noteq> 0) (take 256 bs)) of
                None \<Rightarrow> Err WNotUtf8
              | Some key \<Rightarrow> Ok (KUpdate key (drop 256 bs)))
      else if msg_type = 2 then Ok KUpdateComplete
      else if msg_type = 3 then kv_deserialize_log bs
      else Err WBadType)"

section \<open>Protocol messages\<close>

text \<open>
  \<open>DfsmMessage<M>\<close>. The functions take the members of the trait \<open>Message\<close> they call as arguments:
  \<open>mtype\<close>, \<open>ser\<close> and \<open>deser\<close>. State messages carry the time of their serialization.
\<close>

datatype 'm DfsmMessage =
    Normal u64 u32 u32 'm \<comment> \<open>count, timestamp, protocol version, message\<close>
  | SyncStart SyncEpoch
  | StateMsg SyncEpoch "byte list"
  | UpdateMsg SyncEpoch TreeEntry
  | UpdateComplete SyncEpoch
  | VerifyRequest SyncEpoch u64
  | Verify SyncEpoch u64 "byte list"

definition DEFAULT_PROTOCOL_VERSION :: u32 where "DEFAULT_PROTOCOL_VERSION = 1"

fun dfsm_message_type :: "'m DfsmMessage \<Rightarrow> DfsmMessageType" where
  "dfsm_message_type (Normal _ _ _ _) = TNormal"
| "dfsm_message_type (SyncStart _) = TSyncStart"
| "dfsm_message_type (StateMsg _ _) = TState"
| "dfsm_message_type (UpdateMsg _ _) = TUpdate"
| "dfsm_message_type (UpdateComplete _) = TUpdateComplete"
| "dfsm_message_type (VerifyRequest _ _) = TVerifyRequest"
| "dfsm_message_type (Verify _ _ _) = TVerify"

definition serialize_normal_message ::
  "('m \<Rightarrow> u16) \<Rightarrow> ('m \<Rightarrow> byte list) \<Rightarrow> u64 \<Rightarrow> u32 \<Rightarrow> u32 \<Rightarrow> 'm \<Rightarrow> byte list" where
  "serialize_normal_message mtype ser msg_count timestamp protocol_version message =
     u16_to_le (dfsm_type_code TNormal) @ u16_to_le (mtype message) @ u32_to_le protocol_version @
     u32_to_le timestamp @ u32_to_le 0 @ u64_to_le msg_count @ ser message"

fun extract_epoch_and_payload :: "'m DfsmMessage \<Rightarrow> (SyncEpoch \<times> byte list) option" where
  "extract_epoch_and_payload (Normal _ _ _ _) = None" \<comment> \<open>unreachable in the source\<close>
| "extract_epoch_and_payload (SyncStart e) = Some (e, [])"
| "extract_epoch_and_payload (StateMsg e d) = Some (e, d)"
| "extract_epoch_and_payload (UpdateMsg e t) = Some (e, serialize_for_update t)"
| "extract_epoch_and_payload (UpdateComplete e) = Some (e, [])"
| "extract_epoch_and_payload (VerifyRequest e i) = Some (e, u64_to_le i)"
| "extract_epoch_and_payload (Verify e i c) = Some (e, u64_to_le i @ c)"

definition serialize_state_message :: "u32 \<Rightarrow> 'm DfsmMessage \<Rightarrow> byte list option" where
  "serialize_state_message now msg =
     map_option (\<lambda>(sync_epoch, payload).
         u16_to_le (dfsm_type_code (dfsm_message_type msg)) @ u16_to_le 0 @
         u32_to_le DEFAULT_PROTOCOL_VERSION @ u32_to_le now @ u32_to_le 0 @
         epoch_serialize sync_epoch @ payload)
       (extract_epoch_and_payload msg)"

definition dfsm_serialize ::
  "('m \<Rightarrow> u16) \<Rightarrow> ('m \<Rightarrow> byte list) \<Rightarrow> u32 \<Rightarrow> 'm DfsmMessage \<Rightarrow> byte list option" where
  "dfsm_serialize mtype ser now msg =
     (case msg of
        Normal msg_count timestamp protocol_version message \<Rightarrow>
          Some (serialize_normal_message mtype ser msg_count timestamp protocol_version message)
      | _ \<Rightarrow> serialize_state_message now msg)"

definition deserialize_normal_message ::
  "(u16 \<Rightarrow> byte list \<Rightarrow> (wire_error, 'm) res) \<Rightarrow> u16 \<Rightarrow> u32 \<Rightarrow> u32 \<Rightarrow> byte list
   \<Rightarrow> (wire_error, 'm DfsmMessage) res" where
  "deserialize_normal_message deser subtype protocol_version timestamp payload =
     (if length payload < 8 then Err WTooShort
      else (case deser subtype (drop 8 payload) of
              Err e \<Rightarrow> Err e
            | Panic \<Rightarrow> Panic
            | Ok message \<Rightarrow>
                Ok (Normal (u64_of_le (slice 0 8 payload)) timestamp protocol_version message)))"

fun deserialize_state_message ::
  "DfsmMessageType \<Rightarrow> SyncEpoch \<Rightarrow> byte list \<Rightarrow> (wire_error, 'm DfsmMessage) res" where
  "deserialize_state_message TNormal e payload = Panic"
| "deserialize_state_message TUpdate e payload =
    (case deserialize_from_update payload of
       Err er \<Rightarrow> Err (WEntry er) | Panic \<Rightarrow> Panic | Ok t \<Rightarrow> Ok (UpdateMsg e t))"
| "deserialize_state_message TSyncStart e payload = Ok (SyncStart e)"
| "deserialize_state_message TState e payload = Ok (StateMsg e payload)"
| "deserialize_state_message TUpdateComplete e payload = Ok (UpdateComplete e)"
| "deserialize_state_message TVerifyRequest e payload =
    (if length payload < 8 then Err WTooShort else Ok (VerifyRequest e (u64_of_le (slice 0 8 payload))))"
| "deserialize_state_message TVerify e payload =
    (if length payload < 40 then Err WTooShort
     else Ok (Verify e (u64_of_le (slice 0 8 payload)) (slice 8 40 payload)))"

definition dfsm_deserialize ::
  "(u16 \<Rightarrow> byte list \<Rightarrow> (wire_error, 'm) res) \<Rightarrow> byte list \<Rightarrow> (wire_error, 'm DfsmMessage) res" where
  "dfsm_deserialize deser bs =
     (if length bs < 16 then Err WTooShort
      else
        let msg_type = u16_of_le (slice 0 2 bs); subtype = u16_of_le (slice 2 4 bs);
            protocol_version = u32_of_le (slice 4 8 bs); timestamp = u32_of_le (slice 8 12 bs)
        in (case dfsm_type_of_code msg_type of
              None \<Rightarrow> Err WBadType
            | Some t \<Rightarrow>
                if t = TNormal
                then deserialize_normal_message deser subtype protocol_version timestamp (drop 16 bs)
                else if length bs < 32 then Err WTooShort
                else (case epoch_deserialize (slice 16 32 bs) of
                        Err e \<Rightarrow> Err e
                      | Panic \<Rightarrow> Panic
                      | Ok sync_epoch \<Rightarrow> deserialize_state_message t sync_epoch (drop 32 bs))))"

definition from_message :: "u32 \<Rightarrow> u64 \<Rightarrow> 'm \<Rightarrow> u32 \<Rightarrow> 'm DfsmMessage" where
  "from_message now msg_count message protocol_version = Normal msg_count now protocol_version message"

definition from_tree_entry :: "TreeEntry \<Rightarrow> SyncEpoch \<Rightarrow> 'm DfsmMessage" where
  "from_tree_entry tree_entry sync_epoch = UpdateMsg sync_epoch tree_entry"

section \<open>Codecs of the parts\<close>

lemma dfsm_type_of_code_code [simp]: "dfsm_type_of_code (dfsm_type_code t) = Some t"
  by (cases t) (simp_all add: dfsm_type_of_code_def)

lemma c_type_of_code_code [simp]: "c_type_of_code (c_type_code t) = Some t"
  by (cases t) (simp_all add: c_type_of_code_def)

lemma length_epoch_serialize [simp, codec_simps]: "length (epoch_serialize e) = 16"
  by (simp add: epoch_serialize_def)

lemma epoch_roundtrip [simp, codec_simps]: "epoch_deserialize (epoch_serialize e) = Ok e"
  by (cases e) (simp add: epoch_deserialize_def epoch_serialize_def slice_def)

text \<open>
  A text that survives a C string field: valid UTF-8 without a NUL byte.
\<close>

definition c_text :: "string \<Rightarrow> bool" where
  "c_text s \<longleftrightarrow> valid_str s \<and> CHR 0x00 \<notin> set s"

lemma c_text_no_nul: "c_text s \<Longrightarrow> 0 \<notin> set (as_bytes s)"
proof -
  assume "c_text s"
  have "byte_of_char c = 0 \<Longrightarrow> c = CHR 0x00" for c
    using char_of_byte_of_char [of c] by (simp add: char_of_byte_def char_of_def)
  then show ?thesis using \<open>c_text s\<close> by (force simp: c_text_def as_bytes_def)
qed

lemma takeWhile_no_nul: "0 \<notin> set bs \<Longrightarrow> takeWhile (\<lambda>b. b \<noteq> 0) (bs @ 0 # rest) = bs"
  by (induction bs) auto

lemma c_str_roundtrip: "c_text s \<Longrightarrow> c_str (as_bytes s @ [0]) = Ok s"
  by (simp add: c_str_def takeWhile_no_nul c_text_no_nul) (simp add: c_text_def)

lemma c_len_small:
  "length bs + 1 < 2 ^ 32 \<Longrightarrow> unat (c_len bs) = (if bs = [] then 0 else length bs + 1)"
  using unat_of_nat_u32 [of "length bs + 1"] unfolding c_len_def by (auto simp del: of_nat_Suc of_nat_add)

lemma c_bytes_small: "length bs + 1 < 2 ^ 32 \<Longrightarrow> c_bytes bs = (if bs = [] then [] else bs @ [0])"
  using c_len_small [of bs] by (simp add: c_bytes_def c_len_def word_less_nat_alt)

text \<open>Reading back a C string field that starts after \<open>pre\<close>.\<close>

lemma read_c_str_roundtrip:
  assumes "c_text s" and "length s + 1 < 2 ^ 32" and "length pre < 2 ^ 32"
  shows "read_c_str (pre @ c_bytes (as_bytes s) @ rest) (length pre) (c_len (as_bytes s)) =
    Ok (if s = [] then None else Some s, length pre + length (c_bytes (as_bytes s)))"
proof (cases "s = []")
  case True
  then show ?thesis by (simp add: read_c_str_def c_len_def c_bytes_def)
next
  case False
  have len: "unat (c_len (as_bytes s)) = length s + 1" and bytes: "c_bytes (as_bytes s) = as_bytes s @ [0]"
    using c_len_small [of "as_bytes s"] c_bytes_small [of "as_bytes s"] assms(2) False by simp_all
  have "0 < c_len (as_bytes s)" using len by (simp add: word_less_nat_alt)
  moreover have "read_span (pre @ c_bytes (as_bytes s) @ rest) (length pre) (c_len (as_bytes s)) =
      Ok (as_bytes s @ [0], length pre + length s + 1)"
    using assms(2,3) len bytes by (simp add: read_span_def usize_checked_add_def slice_def)
  ultimately show ?thesis
    using False assms(1) by (simp add: read_c_str_def c_str_roundtrip bytes)
qed

definition c_size :: "string \<Rightarrow> nat" where
  "c_size s = (if s = [] then 0 else length s + 1)"

definition to_text :: "CFuseMessage \<Rightarrow> string" where
  "to_text c = (case cf_to c of None \<Rightarrow> [] | Some t \<Rightarrow> t)"

definition cfuse_ok :: "CFuseMessage \<Rightarrow> bool" where
  "cfuse_ok c \<longleftrightarrow>
     c_text (cf_path c) \<and> c_text (to_text c) \<and> unat (cf_size c) = length (cf_data c) \<and>
     c_size (cf_path c) + c_size (to_text c) + length (cf_data c) \<le> 16 * 1024 * 1024"

lemma as_bytes_Nil [simp]: "as_bytes [] = []"
  by (simp add: as_bytes_def)

lemma c_text_Nil [simp]: "c_text []"
  by (simp add: c_text_def valid_str_def)

lemma c_size_fields:
  assumes "c_size s \<le> 16 * 1024 * 1024"
  shows "length s + 1 < 2 ^ 32" and "unat (c_len (as_bytes s)) = c_size s"
    and "length (c_bytes (as_bytes s)) = c_size s"
proof -
  show l: "length s + 1 < 2 ^ 32" using assms by (cases "s = []") (simp_all add: c_size_def)
  show "unat (c_len (as_bytes s)) = c_size s" "length (c_bytes (as_bytes s)) = c_size s"
    using c_len_small [of "as_bytes s"] c_bytes_small [of "as_bytes s"] l by (simp_all add: c_size_def)
qed

lemma checked_sum:
  assumes "unat a + unat b + unat c \<le> 16 * 1024 * 1024"
  shows "\<exists>t. Option.bind (u32_checked_add a b) (\<lambda>s. u32_checked_add s c) = Some t \<and> \<not> MAX_MESSAGE_SIZE < t"
proof -
  have ab: "u32_checked_add a b = Some (a + b)" "unat (a + b) = unat a + unat b"
    using assms by (simp_all add: u32_checked_add_def unat_word_ariths)
  then have "u32_checked_add (a + b) c = Some (a + b + c)" "unat (a + b + c) = unat a + unat b + unat c"
    using assms by (simp_all add: u32_checked_add_def unat_word_ariths)
  then show ?thesis using assms ab by (simp add: MAX_MESSAGE_SIZE_def word_less_nat_alt)
qed

lemma read_span_end:
  assumes "unat len = length d" and "length pre + length d < 2 ^ 32"
  shows "read_span (pre @ d) (length pre) len = Ok (d, length pre + length d)"
  using assms by (simp add: read_span_def usize_checked_add_def slice_def)

lemma cfuse_roundtrip:
  assumes "cfuse_ok c"
  shows "cfuse_parse (cfuse_serialize c) =
    Ok (c\<lparr>cf_to := (if to_text c = [] then None else Some (to_text c))\<rparr>)"
proof -
  let ?p = "as_bytes (cf_path c)" and ?t = "as_bytes (to_text c)" and ?d = "cf_data c"
  let ?h = "u32_to_le (cf_size c) @ u32_to_le (cf_offset c) @ u32_to_le (c_len ?p) @
         u32_to_le (c_len ?t) @ u32_to_le (cf_flags c)"
  have ok: "c_text (cf_path c)" "c_text (to_text c)" "unat (cf_size c) = length ?d"
    and tot: "c_size (cf_path c) + c_size (to_text c) + length ?d \<le> 16 * 1024 * 1024"
    using assms by (simp_all add: cfuse_ok_def)
  note p = c_size_fields [of "cf_path c"] and t = c_size_fields [of "to_text c"]
  have d: "(if cf_size c > 0 then ?d else []) = ?d"
    using ok(3) by (auto simp: word_less_nat_alt)
  have ser: "cfuse_serialize c = ?h @ c_bytes ?p @ c_bytes ?t @ ?d"
    using d by (simp add: cfuse_serialize_def to_text_def Let_def split: option.splits)
  have head: "slice 0 4 (cfuse_serialize c) = u32_to_le (cf_size c)"
      "slice 4 8 (cfuse_serialize c) = u32_to_le (cf_offset c)"
      "slice 8 12 (cfuse_serialize c) = u32_to_le (c_len ?p)"
      "slice 12 16 (cfuse_serialize c) = u32_to_le (c_len ?t)"
      "slice 16 20 (cfuse_serialize c) = u32_to_le (cf_flags c)"
      "\<not> length (cfuse_serialize c) < 20"
    unfolding ser by (simp_all add: slice_def)
  obtain total where total:
    "Option.bind (u32_checked_add (c_len ?p) (c_len ?t)) (\<lambda>s. u32_checked_add s (cf_size c)) = Some total"
    "\<not> MAX_MESSAGE_SIZE < total"
    using checked_sum [of "c_len ?p" "c_len ?t" "cf_size c"] tot ok(3) p t by auto
  have rp: "read_c_str (cfuse_serialize c) 20 (c_len ?p) =
      Ok (if cf_path c = [] then None else Some (cf_path c), 20 + c_size (cf_path c))"
    using read_c_str_roundtrip [OF ok(1), of ?h "c_bytes ?t @ ?d"] p tot unfolding ser by simp
  have rt: "read_c_str (cfuse_serialize c) (20 + c_size (cf_path c)) (c_len ?t) =
      Ok (if to_text c = [] then None else Some (to_text c), 20 + c_size (cf_path c) + c_size (to_text c))"
    using read_c_str_roundtrip [OF ok(2), of "?h @ c_bytes ?p" ?d] p t tot unfolding ser by simp
  have rd: "(if 0 < cf_size c then read_span (cfuse_serialize c) (20 + c_size (cf_path c) + c_size (to_text c)) (cf_size c)
      else Ok ([], 20 + c_size (cf_path c) + c_size (to_text c))) =
      Ok (?d, 20 + c_size (cf_path c) + c_size (to_text c) + length ?d)"
    using read_span_end [OF ok(3), of "?h @ c_bytes ?p @ c_bytes ?t"] p t tot ok(3) unfolding ser
    by (auto simp: word_less_nat_alt add.assoc)
  show ?thesis
    unfolding cfuse_parse_def Let_def head of_le_to_le total
    using head(6) total(2) by (simp add: rp rt rd)
qed

section \<open>Application messages\<close>

text \<open>The messages that the wire format can carry.\<close>

fun fuse_ok :: "FuseMessage \<Rightarrow> bool" where
  "fuse_ok (FWrite path offset d) \<longleftrightarrow>
     c_text path \<and> unat offset < 2 ^ 32 \<and> c_size path + length d \<le> 16 * 1024 * 1024"
| "fuse_ok (FRename from to) \<longleftrightarrow>
     c_text from \<and> c_text to \<and> c_size from + c_size to \<le> 16 * 1024 * 1024"
| "fuse_ok (FCreate path) \<longleftrightarrow> c_text path \<and> c_size path \<le> 16 * 1024 * 1024"
| "fuse_ok (FMkdir path) \<longleftrightarrow> c_text path \<and> c_size path \<le> 16 * 1024 * 1024"
| "fuse_ok (FDelete path) \<longleftrightarrow> c_text path \<and> c_size path \<le> 16 * 1024 * 1024"
| "fuse_ok (FMtime path _) \<longleftrightarrow> c_text path \<and> c_size path \<le> 16 * 1024 * 1024"
| "fuse_ok (FUnlockRequest path) \<longleftrightarrow> c_text path \<and> c_size path \<le> 16 * 1024 * 1024"
| "fuse_ok (FUnlock path) \<longleftrightarrow> c_text path \<and> c_size path \<le> 16 * 1024 * 1024"

lemma c_size_Nil [simp]: "c_size [] = 0"
  by (simp add: c_size_def)

lemma unat_length_u32: "length d \<le> 16 * 1024 * 1024 \<Longrightarrow> unat (of_nat (length d) :: u32) = length d"
  by (rule unat_of_nat_u32) simp

lemma ucast_u32_u64: "unat (w :: u64) < 2 ^ 32 \<Longrightarrow> ucast (ucast w :: u32) = w"
  by (simp add: word_unat_eq_iff unsigned_ucast_eq take_bit_eq_mod unat_mod)

lemma fuse_to_c_ok: "fuse_ok msg \<Longrightarrow> cfuse_ok (fuse_to_c msg)"
  by (cases msg) (auto simp: cfuse_ok_def cfuse_of_path_def to_text_def unat_length_u32)

lemma fuse_of_c_to_c:
  assumes "fuse_ok msg" and "c = fuse_to_c msg" and "c_type_of_code (fuse_message_type msg) = Some t"
  shows "fuse_of_c t (c\<lparr>cf_to := (if to_text c = [] then None else Some (to_text c))\<rparr>) = msg"
  using assms
  by (cases msg)
    (auto simp: cfuse_of_path_def to_text_def ucast_u32_u64 c_type_of_code_def split: if_splits)

lemma fuse_type_known: "\<exists>t. c_type_of_code (fuse_message_type msg) = Some t"
  by (cases msg) (simp_all add: c_type_of_code_def)

lemma fuse_message_roundtrip:
  assumes "fuse_ok msg"
  shows "fuse_deserialize (fuse_message_type msg) (fuse_serialize msg) = Ok msg"
  using fuse_type_known [of msg] cfuse_roundtrip [OF fuse_to_c_ok [OF assms]]
    fuse_of_c_to_c [OF assms refl]
  by (auto simp: fuse_deserialize_def fuse_serialize_def)

fun kv_ok :: "KvStoreMessage \<Rightarrow> bool" where
  "kv_ok (KUpdate key value) \<longleftrightarrow> c_text key \<and> length key \<le> 255"
| "kv_ok (KLog time priority node ident tag message) \<longleftrightarrow>
     (\<forall>s\<in>{node, ident, tag, message}. valid_str s \<and> length s + 1 < 2 ^ 32)"
| "kv_ok KUpdateComplete \<longleftrightarrow> True"

lemma kv_update_roundtrip:
  assumes "c_text key" and "length key \<le> 255"
  shows "kv_deserialize 1 (kv_serialize (KUpdate key value)) = Ok (KUpdate key value)"
proof -
  let ?bs = "kv_serialize (KUpdate key value)"
  obtain n where n: "256 - length key = Suc n" using assms(2) by (cases "256 - length key") auto
  have bs: "?bs = (as_bytes key @ 0 # replicate n 0) @ value"
    using assms(2) n by (simp add: min_def)
  have len: "length (as_bytes key @ 0 # replicate n 0) = 256" using assms(2) n by simp
  then have t: "take 256 ?bs = as_bytes key @ 0 # replicate n 0" and d: "drop 256 ?bs = value"
    unfolding bs using len by (metis append_eq_conv_conj)+
  have "\<not> length ?bs < 256" using len unfolding bs by simp
  moreover have "takeWhile (\<lambda>b. b \<noteq> 0) (take 256 ?bs) = as_bytes key"
    unfolding t by (rule takeWhile_no_nul [OF c_text_no_nul [OF assms(1)]])
  moreover have "0 \<in> set (take 256 ?bs)" unfolding t by simp
  ultimately show ?thesis
    using assms(1) d by (simp add: kv_deserialize_def c_text_def del: kv_serialize.simps)
qed

lemma range_utf8_part:
  assumes "valid_str s"
  shows "range_utf8 (length pre) (length pre + length s) (pre @ as_bytes s @ rest) = Ok s"
  using assms by (simp add: range_utf8_def slice_def)

lemma kv_log_roundtrip:
  assumes "kv_ok (KLog time priority node ident tag message)"
  shows "kv_deserialize 3 (kv_serialize (KLog time priority node ident tag message)) =
    Ok (KLog time priority node ident tag message)"
proof -
  let ?bs = "kv_serialize (KLog time priority node ident tag message)"
  let ?h = "u32_to_le time @ [priority] @ [0, 0, 0] @ u32_to_le (log_len node) @
    u32_to_le (log_len ident) @ u32_to_le (log_len tag) @ u32_to_le (log_len message)"
  have len: "unat (log_len node) = length node + 1" "unat (log_len ident) = length ident + 1"
      "unat (log_len tag) = length tag + 1" "unat (log_len message) = length message + 1"
    using assms unfolding log_len_def by (auto simp del: of_nat_Suc of_nat_add intro!: unat_of_nat_u32)
  have valid: "valid_str node" "valid_str ident" "valid_str tag" "valid_str message"
    using assms by simp_all
  have bs: "?bs = ?h @ as_bytes node @ [0] @ as_bytes ident @ [0] @ as_bytes tag @ [0] @ as_bytes message @ [0]"
    by simp
  have head: "slice 0 4 ?bs = u32_to_le time" "?bs ! 4 = priority"
      "slice 8 12 ?bs = u32_to_le (log_len node)" "slice 12 16 ?bs = u32_to_le (log_len ident)"
      "slice 16 20 ?bs = u32_to_le (log_len tag)" "slice 20 24 ?bs = u32_to_le (log_len message)"
      "\<not> length ?bs < 20" "\<not> length ?bs < 24"
      "length ?bs = 24 + (length node + 1) + (length ident + 1) + (length tag + 1) + (length message + 1)"
    by (simp_all add: slice_def nth_append)
  note part = range_utf8_part
  have r1: "range_utf8 24 (24 + (length node + 1) - 1) ?bs = Ok node"
    using part [OF valid(1), of ?h] unfolding bs by simp
  have r2: "range_utf8 (24 + (length node + 1)) (24 + (length node + 1) + (length ident + 1) - 1) ?bs = Ok ident"
    using part [OF valid(2), of "?h @ as_bytes node @ [0]"] unfolding bs by (simp add: add.assoc)
  have r3: "range_utf8 (24 + (length node + 1) + (length ident + 1))
      (24 + (length node + 1) + (length ident + 1) + (length tag + 1) - 1) ?bs = Ok tag"
    using part [OF valid(3), of "?h @ as_bytes node @ [0] @ as_bytes ident @ [0]"] unfolding bs
    by (simp add: add.assoc)
  have r4: "range_utf8 (24 + (length node + 1) + (length ident + 1) + (length tag + 1))
      (24 + (length node + 1) + (length ident + 1) + (length tag + 1) + (length message + 1) - 1) ?bs = Ok message"
    using part [OF valid(4), of "?h @ as_bytes node @ [0] @ as_bytes ident @ [0] @ as_bytes tag @ [0]"]
    unfolding bs by (simp add: add.assoc)
  have "kv_deserialize_log ?bs = Ok (KLog time priority node ident tag message)"
    unfolding kv_deserialize_log_def Let_def head(1-6) of_le_to_le len r1 r2 r3 r4
    using head(7,8,9) by simp
  then show ?thesis by (simp only: kv_deserialize_def) simp
qed

lemma kv_message_roundtrip:
  assumes "kv_ok msg"
  shows "kv_deserialize (kv_message_type msg) (kv_serialize msg) = Ok msg"
proof (cases msg)
  case (KUpdate key val)
  then show ?thesis using assms kv_update_roundtrip by simp
next
  case (KLog time priority node ident tag message)
  then show ?thesis using assms kv_log_roundtrip [of time priority node ident tag message]
    by (simp del: kv_serialize.simps)
next
  case KUpdateComplete
  then show ?thesis by (simp add: kv_deserialize_def)
qed

section \<open>The message interface\<close>

text \<open>
  The trait \<open>Message\<close>: the type code and the payload determine the message, for every message that
  fits the format.
\<close>

locale message =
  fixes mtype :: "'m \<Rightarrow> u16"
    and ser :: "'m \<Rightarrow> byte list"
    and deser :: "u16 \<Rightarrow> byte list \<Rightarrow> (wire_error, 'm) res"
    and ok :: "'m \<Rightarrow> bool"
  assumes deser_ser: "ok m \<Longrightarrow> deser (mtype m) (ser m) = Ok m"
begin

definition dfsm_ok :: "'m DfsmMessage \<Rightarrow> bool" where
  "dfsm_ok msg \<longleftrightarrow>
     (case msg of
        Normal _ _ _ m \<Rightarrow> ok m
      | UpdateMsg _ t \<Rightarrow> te_wf t
      | Verify _ _ c \<Rightarrow> length c = 32
      | _ \<Rightarrow> True)"

lemma normal_roundtrip:
  assumes "ok m"
  shows "dfsm_deserialize deser (serialize_normal_message mtype ser n t v m) = Ok (Normal n t v m)"
  using deser_ser [OF assms]
  by (simp add: dfsm_deserialize_def serialize_normal_message_def deserialize_normal_message_def
      slice_def dfsm_type_of_code_def)

lemma state_roundtrip:
  assumes "dfsm_ok msg" and "serialize_state_message now msg = Some bs"
  shows "dfsm_deserialize deser bs = Ok msg"
proof -
  obtain e payload where ep: "extract_epoch_and_payload msg = Some (e, payload)"
    and bs: "bs = u16_to_le (dfsm_type_code (dfsm_message_type msg)) @ u16_to_le 0 @
         u32_to_le DEFAULT_PROTOCOL_VERSION @ u32_to_le now @ u32_to_le 0 @ epoch_serialize e @ payload"
    using assms(2) by (auto simp: serialize_state_message_def)
  have head: "u16_of_le (slice 0 2 bs) = dfsm_type_code (dfsm_message_type msg)"
      "slice 16 32 bs = epoch_serialize e" "drop 32 bs = payload" "\<not> length bs < 32"
    unfolding bs by (simp_all add: slice_def)
  have "dfsm_message_type msg \<noteq> TNormal" using ep by (cases msg) simp_all
  then have "dfsm_deserialize deser bs = deserialize_state_message (dfsm_message_type msg) e payload"
    using head by (simp add: dfsm_deserialize_def)
  also have "\<dots> = Ok msg"
    using ep assms(1) update_decode_encode [where rest = "[]"]
    by (cases msg) (auto simp: dfsm_ok_def slice_def)
  finally show ?thesis .
qed

lemma dfsm_roundtrip:
  assumes "dfsm_ok msg"
  shows "\<exists>bs. dfsm_serialize mtype ser now msg = Some bs \<and> dfsm_deserialize deser bs = Ok msg"
proof (cases "\<exists>n t v m. msg = Normal n t v m")
  case True
  then show ?thesis using normal_roundtrip assms by (auto simp: dfsm_serialize_def dfsm_ok_def)
next
  case False
  then obtain bs where "serialize_state_message now msg = Some bs"
    by (cases msg) (auto simp: serialize_state_message_def)
  then show ?thesis
    using False state_roundtrip [OF assms] by (cases msg) (auto simp: dfsm_serialize_def)
qed

end

interpretation fuse: message fuse_message_type fuse_serialize fuse_deserialize fuse_ok
  by unfold_locales (rule fuse_message_roundtrip)

interpretation kv: message kv_message_type kv_serialize kv_deserialize kv_ok
  by unfold_locales (rule kv_message_roundtrip)

section \<open>Decoding does not panic\<close>

lemma c_str_no_panic [simp]: "c_str bs \<noteq> Panic"
  by (simp add: c_str_def split: option.splits)

lemma read_span_no_panic [simp]: "read_span bs off len \<noteq> Panic"
  by (simp add: read_span_def split: option.splits)

lemma read_c_str_no_panic [simp]: "read_c_str bs off len \<noteq> Panic"
  by (auto simp: read_c_str_def split: res.splits)

lemma cfuse_parse_no_panic [simp]: "cfuse_parse bs \<noteq> Panic"
  by (auto simp: cfuse_parse_def Let_def split: option.splits res.splits if_splits)

lemma deserialize_from_update_no_panic [simp]: "deserialize_from_update bs \<noteq> Panic"
  by (auto simp: deserialize_from_update_def Let_def split: option.splits)

lemma dfsm_deserialize_no_panic:
  assumes "\<And>t bs. deser t bs \<noteq> Panic"
  shows "dfsm_deserialize deser bs \<noteq> Panic"
proof -
  have "deserialize_state_message t e payload \<noteq> Panic" if "t \<noteq> TNormal" for t e payload
    using that by (cases t) (auto split: res.splits)
  then show ?thesis
    using assms
    by (auto simp: dfsm_deserialize_def deserialize_normal_message_def epoch_deserialize_def Let_def
        split: option.splits res.splits)
qed

section \<open>Properties\<close>

text \<open>
  Every protocol message of the database group survives the wire: what a node broadcasts, a node
  decodes to the same message, whatever the time of sending. \<open>fuse_ok\<close> says what the format can
  carry: paths are UTF-8 without NUL, write offsets fit 32 bits, the parts fit 16 MiB.
\<close>

theorem dfsm_fuse_roundtrip:
  assumes "case msg of Normal _ _ _ m \<Rightarrow> fuse_ok m | UpdateMsg _ t \<Rightarrow> te_wf t
           | Verify _ _ c \<Rightarrow> length c = 32 | _ \<Rightarrow> True"
  shows "\<exists>bs. dfsm_serialize fuse_message_type fuse_serialize now msg = Some bs \<and>
              dfsm_deserialize fuse_deserialize bs = Ok msg"
  using fuse.dfsm_roundtrip [of msg now] assms by (simp add: fuse.dfsm_ok_def)

theorem dfsm_fuse_roundtrip_witness:
  "fuse_ok (FWrite ''a'' 2 [1, 2]) \<and>
   (\<exists>bs. dfsm_serialize fuse_message_type fuse_serialize 9 (Normal 1 9 1 (FWrite ''a'' 2 [1, 2])) = Some bs \<and>
         dfsm_deserialize fuse_deserialize bs = Ok (Normal 1 9 1 (FWrite ''a'' 2 [1, 2])))"
proof -
  have ok: "fuse_ok (FWrite ''a'' 2 [1, 2])"
    by (simp add: c_text_def valid_str_def as_bytes_def byte_of_char_def c_size_def)
  then show ?thesis using dfsm_fuse_roundtrip [of "Normal 1 9 1 (FWrite ''a'' 2 [1, 2])" 9] by simp
qed

text \<open>
  The same for the status group, whose application messages are key-value updates and log
  entries: keys have at most 255 bytes and no NUL, log texts are UTF-8 with lengths below \<open>2 ^ 32\<close>.
\<close>

theorem dfsm_kv_roundtrip:
  assumes "case msg of Normal _ _ _ m \<Rightarrow> kv_ok m | UpdateMsg _ t \<Rightarrow> te_wf t
           | Verify _ _ c \<Rightarrow> length c = 32 | _ \<Rightarrow> True"
  shows "\<exists>bs. dfsm_serialize kv_message_type kv_serialize now msg = Some bs \<and>
              dfsm_deserialize kv_deserialize bs = Ok msg"
  using kv.dfsm_roundtrip [of msg now] assms by (simp add: kv.dfsm_ok_def)

theorem dfsm_kv_roundtrip_witness:
  "kv_ok (KLog 5 6 ''n'' [] ''t'' ''m'') \<and>
   (\<exists>bs. dfsm_serialize kv_message_type kv_serialize 9 (Normal 1 9 1 (KLog 5 6 ''n'' [] ''t'' ''m'')) = Some bs \<and>
         dfsm_deserialize kv_deserialize bs = Ok (Normal 1 9 1 (KLog 5 6 ''n'' [] ''t'' ''m'')))"
proof -
  have ok: "kv_ok (KLog 5 6 ''n'' [] ''t'' ''m'')"
    by (simp add: valid_str_def as_bytes_def byte_of_char_def)
  then show ?thesis using dfsm_kv_roundtrip [of "Normal 1 9 1 (KLog 5 6 ''n'' [] ''t'' ''m'')" 9] by simp
qed

text \<open>
  Whatever bytes arrive in the database group, decoding returns a message or an error; it does
  not panic.
\<close>

theorem fuse_decoding_never_panics: "dfsm_deserialize fuse_deserialize bs \<noteq> Panic"
proof (rule dfsm_deserialize_no_panic)
  show "fuse_deserialize t bs \<noteq> Panic" for t bs
    by (auto simp: fuse_deserialize_def split: res.splits option.splits)
qed

text \<open>
  Decoding in the status group can panic: a log message of 20 to 23 bytes passes the length check
  and is then indexed up to byte 23.
\<close>

theorem short_log_message_panics:
  assumes "20 \<le> length payload" and "length payload < 24"
  shows "dfsm_deserialize kv_deserialize
    (u16_to_le 0 @ u16_to_le 3 @ u32_to_le v @ u32_to_le t @ u32_to_le 0 @ u64_to_le n @ payload) = Panic"
proof -
  have "dfsm_type_of_code 0 = Some TNormal" by (simp add: dfsm_type_of_code_def)
  then show ?thesis
    using assms
    by (simp add: dfsm_deserialize_def deserialize_normal_message_def slice_def kv_deserialize_def
        kv_deserialize_log_def)
qed

theorem short_log_message_panics_witness:
  "dfsm_deserialize kv_deserialize
    (u16_to_le 0 @ u16_to_le 3 @ u32_to_le 1 @ u32_to_le 2 @ u32_to_le 0 @ u64_to_le 3 @ replicate 22 0) = Panic"
  using short_log_message_panics [of "replicate 22 0" 1 2 3] by simp

end
