(* ===== verification/Ordered_Map.thy ===== *)
theory Ordered_Map
  imports Pmxcfs_Prelude
begin

text \<open>
  Rust's \<open>BTreeMap\<close> as a list of pairs in ascending order of the keys: the order of the list is the
  order of iteration.
\<close>

fun bt_insert :: "'k :: linorder \<Rightarrow> 'v \<Rightarrow> ('k \<times> 'v) list \<Rightarrow> ('k \<times> 'v) list" where
  "bt_insert k v [] = [(k, v)]"
| "bt_insert k v ((k', v') # m) =
    (if k < k' then (k, v) # (k', v') # m
     else if k = k' then (k, v) # m
     else (k', v') # bt_insert k v m)"

definition bt_remove :: "'k \<Rightarrow> ('k \<times> 'v) list \<Rightarrow> ('k \<times> 'v) list" where
  "bt_remove k m = filter (\<lambda>kv. fst kv \<noteq> k) m"

definition bt_ok :: "('k :: linorder \<times> 'v) list \<Rightarrow> bool" where
  "bt_ok m \<longleftrightarrow> sorted_wrt (<) (map fst m)"

lemma bt_ok_Nil [simp]: "bt_ok []"
  by (simp add: bt_ok_def)

lemma bt_ok_Cons: "bt_ok (kv # m) \<longleftrightarrow> (\<forall>k \<in> fst ` set m. fst kv < k) \<and> bt_ok m"
  by (auto simp: bt_ok_def)

lemma fst_set_bt_insert: "fst ` set (bt_insert k v m) = insert k (fst ` set m)"
  by (induction k v m rule: bt_insert.induct) auto

lemma bt_ok_insert: "bt_ok m \<Longrightarrow> bt_ok (bt_insert k v m)"
proof (induction k v m rule: bt_insert.induct)
  case (1 k v)
  then show ?case by (simp add: bt_ok_Cons)
next
  case (2 k v k' v' m)
  then show ?case by (auto simp: bt_ok_Cons fst_set_bt_insert)
qed

lemma bt_ok_filter: "bt_ok m \<Longrightarrow> bt_ok (filter P m)"
  by (induction m) (auto simp: bt_ok_Cons)

lemma bt_ok_distinct: "bt_ok m \<Longrightarrow> distinct (map fst m)"
  by (induction m) (auto simp: bt_ok_Cons)

lemma map_of_bt_insert: "bt_ok m \<Longrightarrow> map_of (bt_insert k v m) = (map_of m)(k \<mapsto> v)"
proof (induction k v m rule: bt_insert.induct)
  case (1 k v)
  then show ?case by simp
next
  case (2 k v k' v' m)
  then show ?case by (auto simp: bt_ok_Cons fun_eq_iff)
qed

lemma length_bt_insert_le: "length (bt_insert k v m) \<le> Suc (length m)"
  by (induction k v m rule: bt_insert.induct) auto

lemma fold_bt_remove: "fold bt_remove ks m = filter (\<lambda>kv. fst kv \<notin> set ks) m"
  by (induction ks arbitrary: m) (auto simp: bt_remove_def intro: filter_cong)

lemma filter_keys:
  assumes "distinct (map fst m)"
  shows "filter (\<lambda>kv. fst kv \<notin> set (map fst (filter P m))) m = filter (\<lambda>kv. \<not> P kv) m"
proof (rule filter_cong [OF refl])
  fix kv
  assume "kv \<in> set m"
  then show "fst kv \<notin> set (map fst (filter P m)) \<longleftrightarrow> \<not> P kv"
    using assms by (auto simp: distinct_map inj_on_def)
qed

end
