(* ===== verification/Dfsm_Machine.thy ===== *)
theory Dfsm_Machine
  imports Dfsm_Wire Ordered_Map
begin

text \<open>
  The replicated state machine of a node (\<open>pmxcfs-dfsm/src/state_machine.rs\<close>): operating modes,
  the synchronization epoch, the queues for messages that cannot be delivered yet, the collection
  of states during synchronization, and checksum verification.

  \<^item> The application is the parameter \<open>cb\<close>, the trait \<open>Callbacks\<close>. As in the sources, a callback
    may use the state machine it is registered with (it holds a reference to it), so callbacks map
    pairs of machine and application state to such pairs; what they may change is the law of the
    locale \<open>app\<close>.
  \<^item> Corosync is the parameter \<open>en_mcast\<close>: whether a multicast after the given history succeeds.
    \<open>d_net\<close> is the list of messages that were multicast.
  \<^item> \<open>now\<close> is the clock, in seconds, as \<open>u32\<close>.
  \<^item> A handler runs to its end before the next one starts: the dispatcher is one thread.
\<close>

section \<open>State\<close>

record NodeSyncInfo =
  ni_node_id :: u32
  ni_pid :: u32
  ni_state :: "byte list option"
  ni_synced :: bool

record MemberInfo =
  mi_node_id :: u32
  mi_pid :: u32
  mi_joined_at :: u64

record 'm QueuedMessage =
  qm_nodeid :: u32
  qm_pid :: u32
  qm_msg_count :: u64
  qm_message :: 'm
  qm_timestamp :: u64

record MessageResult =
  mr_msgcount :: u64
  mr_result :: int
  mr_processed :: bool

record 'm Dfsm =
  d_joined :: bool \<comment> \<open>\<open>cpg_service\<close> is there\<close>
  d_net :: "byte list list"
  d_mode :: DfsmMode
  d_sync_epoch :: SyncEpoch
  d_local_epoch_counter :: u32
  d_sync_nodes :: "NodeSyncInfo list"
  d_msg_queue :: "(u64 \<times> 'm QueuedMessage) list" \<comment> \<open>a \<open>BTreeMap\<close>: ascending keys\<close>
  d_sync_queue :: "'m QueuedMessage list"
  d_msg_counter :: u64
  d_lowest_nodeid :: u32
  d_nodeid :: u32
  d_pid :: u32
  d_protocol_version :: u32
  d_checksum :: "byte list"
  d_checksum_epoch :: SyncEpoch
  d_checksum_id :: u64
  d_checksum_counter :: u64
  d_msgcount_rcvd :: u64
  d_waiting :: "(u64, unit) hmap" \<comment> \<open>the keys of \<open>message_results\<close>\<close>
  d_results :: "MessageResult list" \<comment> \<open>what was sent to waiting callers\<close>

datatype dfsm_error =
    GetStateFailed | McastFailed | NotJoined | NonMemberState | DuplicateState | StateUpdateFailed
  | ChecksumFailed | ChecksumMismatch | SerializeUnreachable

text \<open>
  \<open>Deadlock\<close>: the handler waits for a lock that it holds itself and does not return. \<open>Panicked\<close>: a
  callback panicked.
\<close>

datatype dfsm_result = Done | Failed dfsm_error | Deadlock | Panicked

record ('m, 's) Callbacks =
  cb_deliver :: "u32 \<Rightarrow> u32 \<Rightarrow> 'm \<Rightarrow> u64 \<Rightarrow> 'm Dfsm \<times> 's \<Rightarrow> (int \<times> bool) option \<times> 'm Dfsm \<times> 's"
  cb_checksum :: "'s \<Rightarrow> byte list option"
  cb_get_state :: "'s \<Rightarrow> (unit, byte list) res \<times> 's"
  cb_process_state_update :: "NodeSyncInfo list \<Rightarrow> 'm Dfsm \<times> 's \<Rightarrow> (unit, bool) res \<times> 'm Dfsm \<times> 's"
  cb_process_update :: "u32 \<Rightarrow> u32 \<Rightarrow> byte list \<Rightarrow> 'm Dfsm \<times> 's \<Rightarrow> bool \<times> 'm Dfsm \<times> 's"
  cb_on_synced :: "'m Dfsm \<times> 's \<Rightarrow> 'm Dfsm \<times> 's"
  cb_cleanup :: "NodeSyncInfo list \<Rightarrow> 'm Dfsm \<times> 's \<Rightarrow> 'm Dfsm \<times> 's"
  cb_membership :: "MemberInfo list \<Rightarrow> 'm Dfsm \<times> 's \<Rightarrow> 'm Dfsm \<times> 's"

record 'm env =
  en_mtype :: "'m \<Rightarrow> u16"
  en_ser :: "'m \<Rightarrow> byte list"
  en_deser :: "u16 \<Rightarrow> byte list \<Rightarrow> (wire_error, 'm) res"
  en_mcast :: "byte list list \<Rightarrow> byte list \<Rightarrow> bool"

definition MAX_QUEUE_LEN :: nat where "MAX_QUEUE_LEN = 500"
definition EIO :: int where "EIO = 5"

definition null_epoch :: SyncEpoch where
  "null_epoch = \<lparr>se_epoch = 0, se_time = 0, se_nodeid = 0, se_pid = 0\<rparr>"

definition new_with_protocol_version :: "u32 \<Rightarrow> u32 \<Rightarrow> u32 \<Rightarrow> 'm Dfsm" where
  "new_with_protocol_version now pid protocol_version =
     \<lparr>d_joined = False, d_net = [], d_mode = ModeStart,
      d_sync_epoch = \<lparr>se_epoch = 0, se_time = now, se_nodeid = 0, se_pid = pid\<rparr>,
      d_local_epoch_counter = 0, d_sync_nodes = [], d_msg_queue = [], d_sync_queue = [],
      d_msg_counter = 0, d_lowest_nodeid = 0, d_nodeid = 0, d_pid = pid,
      d_protocol_version = protocol_version, d_checksum = replicate 32 0,
      d_checksum_epoch = null_epoch, d_checksum_id = 0, d_checksum_counter = 0,
      d_msgcount_rcvd = 0, d_waiting = [], d_results = []\<rparr>"

section \<open>Modes, sending\<close>

definition set_mode :: "DfsmMode \<Rightarrow> 'm Dfsm \<Rightarrow> 'm Dfsm" where
  "set_mode new_mode d =
     (let old_mode = d_mode d in
      if old_mode = new_mode then d
      else if \<not> is_error_mode new_mode \<or> \<not> is_error_mode old_mode \<or> mode_code old_mode \<le> mode_code new_mode
        then d\<lparr>d_mode := new_mode\<rparr>
      else d)"

definition is_leader :: "'m Dfsm \<Rightarrow> bool" where
  "is_leader d \<longleftrightarrow> d_lowest_nodeid d > 0 \<and> d_lowest_nodeid d = d_nodeid d"

definition is_synced :: "'m Dfsm \<Rightarrow> bool" where
  "is_synced d \<longleftrightarrow> d_mode d = Synced"

definition send_dfsm_message ::
  "'m env \<Rightarrow> u32 \<Rightarrow> 'm DfsmMessage \<Rightarrow> 'm Dfsm \<Rightarrow> dfsm_result \<times> 'm Dfsm" where
  "send_dfsm_message en now msg d =
     (case dfsm_serialize (en_mtype en) (en_ser en) now msg of
        None \<Rightarrow> (Failed SerializeUnreachable, d)
      | Some serialized \<Rightarrow>
          if \<not> d_joined d then (Failed NotJoined, d)
          else if en_mcast en (d_net d) serialized then (Done, d\<lparr>d_net := d_net d @ [serialized]\<rparr>)
          else (Failed McastFailed, d))"

definition send_sync_start :: "'m env \<Rightarrow> u32 \<Rightarrow> 'm Dfsm \<Rightarrow> dfsm_result \<times> 'm Dfsm" where
  "send_sync_start en now d = send_dfsm_message en now (SyncStart (d_sync_epoch d)) d"

definition send_state ::
  "'m env \<Rightarrow> ('m, 's) Callbacks \<Rightarrow> u32 \<Rightarrow> 'm Dfsm \<times> 's \<Rightarrow> dfsm_result \<times> 'm Dfsm \<times> 's" where
  "send_state en cb now ds =
     (case ds of (d, s) \<Rightarrow>
       (case cb_get_state cb s of
          (Err _, s1) \<Rightarrow> (Failed GetStateFailed, d, s1)
        | (Panic, s1) \<Rightarrow> (Panicked, d, s1)
        | (Ok state_data, s1) \<Rightarrow>
            (case send_dfsm_message en now (StateMsg (d_sync_epoch d) state_data) d of
               (r, d') \<Rightarrow> (r, d', s1))))"

definition send_message :: "'m env \<Rightarrow> u32 \<Rightarrow> 'm \<Rightarrow> 'm Dfsm \<Rightarrow> dfsm_result \<times> u64 \<times> 'm Dfsm" where
  "send_message en now app_msg d =
     (let msg_count = d_msg_counter d + 1;
          d1 = d\<lparr>d_msg_counter := msg_count\<rparr>
      in case send_dfsm_message en now (from_message now msg_count app_msg (d_protocol_version d)) d1 of
           (r, d2) \<Rightarrow> (r, msg_count, d2))"

definition broadcast :: "'m env \<Rightarrow> u32 \<Rightarrow> 'm \<Rightarrow> 'm Dfsm \<Rightarrow> dfsm_result \<times> 'm Dfsm" where
  "broadcast en now app_msg d =
     (if \<not> is_synced d then (Done, d)
      else case send_message en now app_msg d of (r, _, d') \<Rightarrow> (r, d'))"

text \<open>
  \<open>send_message_sync\<close>: register and send; the wait ends with the result, a timeout or a
  cancellation, and in each case the guard removes the registration.
\<close>

definition send_message_sync_begin :: "'m env \<Rightarrow> u32 \<Rightarrow> 'm \<Rightarrow> 'm Dfsm \<Rightarrow> dfsm_result \<times> u64 \<times> 'm Dfsm" where
  "send_message_sync_begin en now app_msg d =
     (let msg_count = d_msg_counter d + 1;
          d1 = d\<lparr>d_msg_counter := msg_count, d_waiting := hm_insert msg_count () (d_waiting d)\<rparr>
      in case send_dfsm_message en now (from_message now msg_count app_msg (d_protocol_version d)) d1 of
           (Done, d2) \<Rightarrow> (Done, msg_count, d2)
         | (r, d2) \<Rightarrow> (r, msg_count, d2\<lparr>d_waiting := hm_remove msg_count (d_waiting d2)\<rparr>))"

definition send_message_sync_end :: "u64 \<Rightarrow> 'm Dfsm \<Rightarrow> 'm Dfsm" where
  "send_message_sync_end msg_count d = d\<lparr>d_waiting := hm_remove msg_count (d_waiting d)\<rparr>"

definition record_message_result :: "u64 \<Rightarrow> int \<Rightarrow> bool \<Rightarrow> 'm Dfsm \<Rightarrow> 'm Dfsm" where
  "record_message_result msg_count result processed d =
     (let d1 = d\<lparr>d_msgcount_rcvd := msg_count\<rparr> in
      case hm_get (d_waiting d1) msg_count of
        None \<Rightarrow> d1
      | Some _ \<Rightarrow>
          d1\<lparr>d_waiting := hm_remove msg_count (d_waiting d1),
             d_results := d_results d1 @
               [\<lparr>mr_msgcount = msg_count, mr_result = result, mr_processed = processed\<rparr>]\<rparr>)"

definition send_update :: "'m env \<Rightarrow> u32 \<Rightarrow> TreeEntry \<Rightarrow> 'm Dfsm \<Rightarrow> dfsm_result \<times> 'm Dfsm" where
  "send_update en now tree_entry d = send_dfsm_message en now (from_tree_entry tree_entry (d_sync_epoch d)) d"

definition send_update_complete :: "'m env \<Rightarrow> u32 \<Rightarrow> 'm Dfsm \<Rightarrow> dfsm_result \<times> 'm Dfsm" where
  "send_update_complete en now d = send_dfsm_message en now (UpdateComplete (d_sync_epoch d)) d"

section \<open>Queues\<close>

definition find_node :: "u32 \<Rightarrow> u32 \<Rightarrow> NodeSyncInfo list \<Rightarrow> NodeSyncInfo option" where
  "find_node nodeid pid nodes = find (\<lambda>n. ni_node_id n = nodeid \<and> ni_pid n = pid) nodes"

definition queue_message :: "u32 \<Rightarrow> u32 \<Rightarrow> u64 \<Rightarrow> 'm \<Rightarrow> u64 \<Rightarrow> 'm Dfsm \<Rightarrow> 'm Dfsm" where
  "queue_message nodeid pid msg_count app_msg timestamp d =
     (let qm = \<lparr>qm_nodeid = nodeid, qm_pid = pid, qm_msg_count = msg_count, qm_message = app_msg,
                qm_timestamp = timestamp\<rparr>;
          node_synced = (case find_node nodeid pid (d_sync_nodes d) of None \<Rightarrow> False | Some n \<Rightarrow> ni_synced n)
      in if d_mode d = ModeUpdate \<and> node_synced then
           let q = (if length (d_sync_queue d) \<ge> MAX_QUEUE_LEN then tl (d_sync_queue d) else d_sync_queue d)
           in d\<lparr>d_sync_queue := q @ [qm]\<rparr>
         else
           let q = (if length (d_msg_queue d) \<ge> MAX_QUEUE_LEN
                    then (case d_msg_queue d of [] \<Rightarrow> [] | (oldest_count, _) # _ \<Rightarrow>
                            bt_remove oldest_count (d_msg_queue d))
                    else d_msg_queue d)
           in d\<lparr>d_msg_queue := bt_insert msg_count qm q\<rparr>)"

text \<open>Deliver one message to the application and record its result.\<close>

definition deliver_one ::
  "('m, 's) Callbacks \<Rightarrow> u32 \<Rightarrow> u32 \<Rightarrow> 'm \<Rightarrow> u64 \<Rightarrow> u64 \<Rightarrow> 'm Dfsm \<times> 's \<Rightarrow> 'm Dfsm \<times> 's" where
  "deliver_one cb nodeid pid app_msg timestamp msg_count ds =
     (case cb_deliver cb nodeid pid app_msg timestamp ds of
        (Some (result, processed), d, s) \<Rightarrow> (record_message_result msg_count result processed d, s)
      | (None, d, s) \<Rightarrow> (record_message_result msg_count (- EIO) False d, s))"

text \<open>
  One turn of the loop of \<open>deliver_message_queue\<close>. The mode and the nodes are those at the start;
  the accumulator holds the counts to remove and the messages to move.
\<close>

definition deliver_queue_step ::
  "('m, 's) Callbacks \<Rightarrow> DfsmMode \<Rightarrow> NodeSyncInfo list \<Rightarrow>
   (u64 list \<times> 'm QueuedMessage list) \<times> 'm Dfsm \<times> 's \<Rightarrow> u64 \<times> 'm QueuedMessage \<Rightarrow>
   (u64 list \<times> 'm QueuedMessage list) \<times> 'm Dfsm \<times> 's" where
  "deliver_queue_step cb mode nodes acc kv =
     (case (acc, kv) of (((to_remove, to_sync), ds), (count, qm)) \<Rightarrow>
        (case find_node (qm_nodeid qm) (qm_pid qm) nodes of
           None \<Rightarrow> ((to_remove @ [count], to_sync), ds)
         | Some info \<Rightarrow>
             if mode = Synced \<and> ni_synced info then
               ((to_remove @ [count], to_sync),
                deliver_one cb (qm_nodeid qm) (qm_pid qm) (qm_message qm) (qm_timestamp qm) count ds)
             else if mode = ModeUpdate \<and> ni_synced info then
               ((to_remove @ [count], to_sync @ [qm]), ds)
             else acc))"

definition deliver_message_queue :: "('m, 's) Callbacks \<Rightarrow> 'm Dfsm \<times> 's \<Rightarrow> 'm Dfsm \<times> 's" where
  "deliver_message_queue cb ds =
     (case ds of (d, s) \<Rightarrow>
        if d_msg_queue d = [] then (d, s)
        else case foldl (deliver_queue_step cb (d_mode d) (d_sync_nodes d)) (([], []), d, s) (d_msg_queue d) of
          ((to_remove, to_sync), d1, s1) \<Rightarrow>
            (d1\<lparr>d_msg_queue := fold bt_remove to_remove (d_msg_queue d1),
                d_sync_queue := d_sync_queue d1 @ to_sync\<rparr>, s1))"

text \<open>\<open>deliver_sync_queue\<close>: pop and deliver until the queue is empty; its lock is held meanwhile.\<close>

fun deliver_sync_loop :: "('m, 's) Callbacks \<Rightarrow> 'm QueuedMessage list \<Rightarrow> 'm Dfsm \<times> 's \<Rightarrow> 'm Dfsm \<times> 's" where
  "deliver_sync_loop cb [] ds = ds"
| "deliver_sync_loop cb (qm # q) ds =
    deliver_sync_loop cb q
      (deliver_one cb (qm_nodeid qm) (qm_pid qm) (qm_message qm) (qm_timestamp qm) (qm_msg_count qm) ds)"

definition deliver_sync_queue :: "('m, 's) Callbacks \<Rightarrow> 'm Dfsm \<times> 's \<Rightarrow> 'm Dfsm \<times> 's" where
  "deliver_sync_queue cb ds =
     (case ds of (d, s) \<Rightarrow>
        (case deliver_sync_loop cb (d_sync_queue d) (d, s) of
           (d1, s1) \<Rightarrow> (d1\<lparr>d_sync_queue := []\<rparr>, s1)))"

section \<open>State collection\<close>

definition mark_first :: "(NodeSyncInfo \<Rightarrow> bool) \<Rightarrow> (NodeSyncInfo \<Rightarrow> NodeSyncInfo) \<Rightarrow> NodeSyncInfo list \<Rightarrow> NodeSyncInfo list" where
  "mark_first P f nodes =
     (case dropWhile (\<lambda>n. \<not> P n) nodes of
        [] \<Rightarrow> nodes
      | n # rest \<Rightarrow> takeWhile (\<lambda>n. \<not> P n) nodes @ f n # rest)"

definition process_state_sync :: "('m, 's) Callbacks \<Rightarrow> 'm Dfsm \<times> 's \<Rightarrow> dfsm_result \<times> 'm Dfsm \<times> 's" where
  "process_state_sync cb ds =
     (case ds of (d, s) \<Rightarrow>
       (case cb_process_state_update cb (d_sync_nodes d) (d, s) of
          (Ok True, d1, s1) \<Rightarrow>
            let d2 = d1\<lparr>d_sync_nodes := mark_first (\<lambda>n. ni_node_id n = d_nodeid d1 \<and> ni_pid n = d_pid d1)
                          (\<lambda>n. n\<lparr>ni_synced := True\<rparr>) (d_sync_nodes d1)\<rparr>
            in (Done, deliver_message_queue cb (cb_on_synced cb (set_mode Synced d2, s1)))
        | (Ok False, d1, s1) \<Rightarrow> (Done, deliver_message_queue cb (set_mode ModeUpdate d1, s1))
        | (Err _, d1, s1) \<Rightarrow> (Failed StateUpdateFailed, set_mode ModeError d1, s1)
        | (Panic, d1, s1) \<Rightarrow> (Panicked, d1, s1)))"

definition process_state ::
  "('m, 's) Callbacks \<Rightarrow> u32 \<Rightarrow> u32 \<Rightarrow> byte list \<Rightarrow> 'm Dfsm \<times> 's \<Rightarrow> dfsm_result \<times> 'm Dfsm \<times> 's" where
  "process_state cb nodeid pid state ds =
     (case ds of (d, s) \<Rightarrow>
       (case find_node nodeid pid (d_sync_nodes d) of
          None \<Rightarrow> (Failed NonMemberState, set_mode Leave d, s)
        | Some node_info \<Rightarrow>
            if ni_state node_info \<noteq> None then (Failed DuplicateState, set_mode Leave d, s)
            else
              let d1 = d\<lparr>d_sync_nodes := mark_first (\<lambda>n. ni_node_id n = nodeid \<and> ni_pid n = pid)
                           (\<lambda>n. n\<lparr>ni_state := Some state\<rparr>) (d_sync_nodes d)\<rparr>
              in if \<forall>n \<in> set (d_sync_nodes d1). ni_state n \<noteq> None
                 then process_state_sync cb (d1, s) else (Done, d1, s)))"

section \<open>Verification\<close>

definition verify_request :: "'m env \<Rightarrow> u32 \<Rightarrow> 'm Dfsm \<Rightarrow> dfsm_result \<times> 'm Dfsm" where
  "verify_request en now d =
     (if \<not> is_leader d then (Done, d)
      else if d_mode d \<noteq> Synced then (Done, d)
      else if d_checksum_counter d \<noteq> d_checksum_id d then (Done, d)
      else
        let new_counter = d_checksum_counter d + 1;
            d1 = d\<lparr>d_checksum_counter := new_counter\<rparr>
        in send_dfsm_message en now (VerifyRequest (d_sync_epoch d1) new_counter) d1)"

definition handle_verify_request ::
  "'m env \<Rightarrow> ('m, 's) Callbacks \<Rightarrow> u32 \<Rightarrow> SyncEpoch \<Rightarrow> u64 \<Rightarrow> 'm Dfsm \<times> 's \<Rightarrow> dfsm_result \<times> 'm Dfsm \<times> 's" where
  "handle_verify_request en cb now message_epoch csum_id ds =
     (case ds of (d, s) \<Rightarrow>
       (case cb_checksum cb s of
          None \<Rightarrow> (Failed ChecksumFailed, d, s)
        | Some checksum \<Rightarrow>
            let d1 = d\<lparr>d_checksum := checksum, d_checksum_epoch := message_epoch, d_checksum_id := csum_id\<rparr>
            in (case send_dfsm_message en now (Verify (d_sync_epoch d1) csum_id checksum) d1 of
                  (r, d2) \<Rightarrow> (r, d2, s))))"

definition handle_verify :: "SyncEpoch \<Rightarrow> u64 \<Rightarrow> byte list \<Rightarrow> 'm Dfsm \<Rightarrow> dfsm_result \<times> 'm Dfsm" where
  "handle_verify message_epoch csum_id received_checksum d =
     (if d_checksum_id d = csum_id \<and> d_checksum_epoch d = message_epoch then
        if d_checksum d \<noteq> received_checksum then (Failed ChecksumMismatch, set_mode Leave d)
        else (Done, d)
      else (Done, d))"

definition invalidate_checksum :: "'m Dfsm \<Rightarrow> 'm Dfsm" where
  "invalidate_checksum d = d\<lparr>d_checksum_id := d_checksum_counter d, d_checksum_epoch := null_epoch\<rparr>"

section \<open>Handlers\<close>

definition handle_normal_message ::
  "('m, 's) Callbacks \<Rightarrow> u32 \<Rightarrow> u32 \<Rightarrow> u64 \<Rightarrow> u32 \<Rightarrow> 'm \<Rightarrow> 'm Dfsm \<times> 's \<Rightarrow> 'm Dfsm \<times> 's" where
  "handle_normal_message cb nodeid pid msg_count timestamp app_msg ds =
     (if d_mode (fst ds) = Synced
      then deliver_one cb nodeid pid app_msg (ucast timestamp) msg_count ds
      else (queue_message nodeid pid msg_count app_msg (ucast timestamp) (fst ds), snd ds))"

definition handle_sync_start ::
  "'m env \<Rightarrow> ('m, 's) Callbacks \<Rightarrow> u32 \<Rightarrow> u32 \<Rightarrow> SyncEpoch \<Rightarrow> 'm Dfsm \<times> 's \<Rightarrow> dfsm_result \<times> 'm Dfsm \<times> 's" where
  "handle_sync_start en cb now nodeid new_epoch ds =
     (case ds of (d, s) \<Rightarrow>
        let d1 = d\<lparr>d_sync_epoch := new_epoch\<rparr> in
        if nodeid \<noteq> d_nodeid d1 then send_state en cb now (d1, s) else (Done, d1, s))"

definition handle_update ::
  "('m, 's) Callbacks \<Rightarrow> u32 \<Rightarrow> u32 \<Rightarrow> TreeEntry \<Rightarrow> 'm Dfsm \<times> 's \<Rightarrow> 'm Dfsm \<times> 's" where
  "handle_update cb nodeid pid tree_entry ds =
     snd (cb_process_update cb nodeid pid (serialize_for_update tree_entry) ds)"

definition handle_update_complete :: "('m, 's) Callbacks \<Rightarrow> 'm Dfsm \<times> 's \<Rightarrow> 'm Dfsm \<times> 's" where
  "handle_update_complete cb ds =
     (case deliver_sync_queue cb ds of (d1, s1) \<Rightarrow> cb_on_synced cb (set_mode Synced d1, s1))"

fun message_epoch :: "'m DfsmMessage \<Rightarrow> SyncEpoch option" where
  "message_epoch (Normal _ _ _ _) = None"
| "message_epoch (SyncStart _) = None"
| "message_epoch (StateMsg e _) = Some e"
| "message_epoch (UpdateMsg e _) = Some e"
| "message_epoch (UpdateComplete e) = Some e"
| "message_epoch (VerifyRequest e _) = Some e"
| "message_epoch (Verify e _ _) = Some e"

definition handle_dfsm_message ::
  "'m env \<Rightarrow> ('m, 's) Callbacks \<Rightarrow> u32 \<Rightarrow> u32 \<Rightarrow> u32 \<Rightarrow> 'm DfsmMessage \<Rightarrow> 'm Dfsm \<times> 's
   \<Rightarrow> dfsm_result \<times> 'm Dfsm \<times> 's" where
  "handle_dfsm_message en cb now nodeid pid msg ds =
     (if message_epoch msg \<noteq> None \<and> message_epoch msg \<noteq> Some (d_sync_epoch (fst ds)) then (Done, ds)
      else case msg of
        Normal msg_count timestamp _ app_msg \<Rightarrow>
          (Done, handle_normal_message cb nodeid pid msg_count timestamp app_msg ds)
      | SyncStart sync_epoch \<Rightarrow> handle_sync_start en cb now nodeid sync_epoch ds
      | StateMsg _ data \<Rightarrow> process_state cb nodeid pid data ds
      | UpdateMsg _ tree_entry \<Rightarrow> (Done, handle_update cb nodeid pid tree_entry ds)
      | UpdateComplete _ \<Rightarrow> (Done, handle_update_complete cb ds)
      | VerifyRequest sync_epoch csum_id \<Rightarrow> handle_verify_request en cb now sync_epoch csum_id ds
      | Verify sync_epoch csum_id checksum \<Rightarrow>
          (case handle_verify sync_epoch csum_id checksum (fst ds) of (r, d) \<Rightarrow> (r, d, snd ds)))"

text \<open>
  \<open>handle_membership_change\<close>. With a single member the write lock of \<open>sync_nodes\<close> is still held
  when \<open>deliver_message_queue\<close> reads it, which it does when the queue is not empty.
\<close>

definition lowest_node :: "MemberInfo list \<Rightarrow> u32" where
  "lowest_node members = (case members of [] \<Rightarrow> 0 | m # ms \<Rightarrow> fold min (map mi_node_id ms) (mi_node_id m))"

definition fresh_node :: "MemberInfo \<Rightarrow> NodeSyncInfo" where
  "fresh_node m = \<lparr>ni_node_id = mi_node_id m, ni_pid = mi_pid m, ni_state = None, ni_synced = False\<rparr>"

definition enter_epoch :: "u32 \<Rightarrow> MemberInfo list \<Rightarrow> 'm Dfsm \<Rightarrow> 'm Dfsm" where
  "enter_epoch now members d =
     (let d1 = invalidate_checksum d;
          counter = d_local_epoch_counter d1 + 1
      in d1\<lparr>d_local_epoch_counter := counter,
            d_sync_epoch := \<lparr>se_epoch = counter, se_time = now, se_nodeid = d_nodeid d1, se_pid = d_pid d1\<rparr>,
            d_lowest_nodeid := lowest_node members\<rparr>)"

definition handle_membership_change ::
  "'m env \<Rightarrow> ('m, 's) Callbacks \<Rightarrow> u32 \<Rightarrow> MemberInfo list \<Rightarrow> 'm Dfsm \<times> 's
   \<Rightarrow> dfsm_result \<times> 'm Dfsm \<times> 's" where
  "handle_membership_change en cb now members ds =
     (let d1 = enter_epoch now members (fst ds);
          (d2, s2) = (if d_sync_nodes d1 \<noteq> [] then cb_cleanup cb (d_sync_nodes d1) (d1, snd ds) else (d1, snd ds));
          d3 = d2\<lparr>d_sync_nodes := map fresh_node members, d_sync_queue := []\<rparr>;
          (d4, s4) = cb_membership cb members (d3, s2)
      in if length members = 1 then
           let d5 = set_mode Synced d4;
               d6 = d5\<lparr>d_sync_nodes := (case d_sync_nodes d5 of [] \<Rightarrow> [] | n # ns \<Rightarrow> n\<lparr>ni_synced := True\<rparr> # ns)\<rparr>
           in if d_msg_queue d6 = [] then (Done, d6, s4) else (Deadlock, d6, s4)
         else
           let d5 = set_mode StartSync d4 in
           if is_leader d5 then
             (case send_sync_start en now d5 of
                (Done, d6) \<Rightarrow> send_state en cb now (d6, s4)
              | (r, d6) \<Rightarrow> (r, d6, s4))
           else (Done, d5, s4))"

definition on_deliver ::
  "'m env \<Rightarrow> ('m, 's) Callbacks \<Rightarrow> u32 \<Rightarrow> u32 \<Rightarrow> u32 \<Rightarrow> byte list \<Rightarrow> 'm Dfsm \<times> 's \<Rightarrow> (wire_error, 'm Dfsm \<times> 's) res" where
  "on_deliver en cb now nodeid pid bs ds =
     (case dfsm_deserialize (en_deser en) bs of
        Ok msg \<Rightarrow>
          (case handle_dfsm_message en cb now nodeid pid msg ds of
             (Panicked, _) \<Rightarrow> Panic
           | (_, ds') \<Rightarrow> Ok ds')
      | Err _ \<Rightarrow> Ok ds
      | Panic \<Rightarrow> Panic)"

definition on_confchg ::
  "'m env \<Rightarrow> ('m, 's) Callbacks \<Rightarrow> u32 \<Rightarrow> u64 \<Rightarrow> (u32 \<times> u32) list \<Rightarrow> 'm Dfsm \<times> 's \<Rightarrow> dfsm_result \<times> 'm Dfsm \<times> 's" where
  "on_confchg en cb now now_secs member_list ds =
     handle_membership_change en cb now
       (map (\<lambda>(nodeid, pid). \<lparr>mi_node_id = nodeid, mi_pid = pid, mi_joined_at = now_secs\<rparr>) member_list) ds"

end
