(* ===== verification/Log_Entry.thy ===== *)
theory Log_Entry
  imports Pmxcfs_Prelude
begin

text \<open>
  The entries of the cluster log (\<open>pmxcfs-logger/src/entry.rs\<close>) and the hash that identifies nodes
  and users (\<open>hash.rs\<close>): construction of an entry from the strings of a log message, with the
  escaping and truncation of the sources, its size in the ring buffer and its binary form.

  \<^item> \<open>chars\<close> are the Unicode scalar values of a string, as Rust's iterator of the same name.
  \<^item> \<open>from_utf8_lossy\<close> replaces ill-formed parts by U+FFFD, one for each maximal prefix of a
    character, as the standard library does.
  \<^item> The global counter of entry numbers is a parameter and a result of \<open>pack\<close>.
\<close>

unbundle bit_operations_syntax

section \<open>Hash\<close>

definition FNV1A_64_INIT :: u64 where "FNV1A_64_INIT = 0xcbf29ce484222325"

definition fnv_mix :: "u64 \<Rightarrow> u64" where
  "fnv_mix hval =
     hval + (push_bit 1 hval + push_bit 4 hval + push_bit 5 hval + push_bit 7 hval + push_bit 8 hval +
             push_bit 40 hval)"

fun fnv_64a :: "byte list \<Rightarrow> u64 \<Rightarrow> u64" where
  "fnv_64a [] hval = hval"
| "fnv_64a (b # bs) hval = fnv_64a bs (fnv_mix (hval XOR ucast b))"

definition fnv_64a_str :: "string \<Rightarrow> u64" where
  "fnv_64a_str s = fnv_mix (fnv_64a (as_bytes s) FNV1A_64_INIT)"

section \<open>Characters\<close>

fun chars :: "byte list \<Rightarrow> nat list" where
  "chars [] = []"
| "chars (b # bs) =
    (if b < 0x80 then unat b # chars bs
     else if b < 0xE0 then
       (case bs of c1 # cs \<Rightarrow> (unat b mod 32 * 64 + unat c1 mod 64) # chars cs | [] \<Rightarrow> [])
     else if b < 0xF0 then
       (case bs of c1 # c2 # cs \<Rightarrow>
          (unat b mod 16 * 4096 + unat c1 mod 64 * 64 + unat c2 mod 64) # chars cs | _ \<Rightarrow> [])
     else
       (case bs of c1 # c2 # c3 # cs \<Rightarrow>
          (unat b mod 8 * 262144 + unat c1 mod 64 * 4096 + unat c2 mod 64 * 64 + unat c3 mod 64) # chars cs
        | _ \<Rightarrow> []))"

definition len_utf8 :: "nat \<Rightarrow> nat" where
  "len_utf8 c = (if c < 0x80 then 1 else if c < 0x800 then 2 else if c < 0x10000 then 3 else 4)"

text \<open>The end of the last character that ends at most at \<open>max_len\<close>.\<close>

fun last_boundary :: "nat \<Rightarrow> nat \<Rightarrow> nat list \<Rightarrow> nat" where
  "last_boundary max_len idx [] = idx"
| "last_boundary max_len idx (c # cs) =
    (if idx + len_utf8 c \<le> max_len then last_boundary max_len (idx + len_utf8 c) cs else idx)"

definition truncate_string :: "string \<Rightarrow> nat \<Rightarrow> string" where
  "truncate_string s max_len =
     (if length s \<le> max_len then s else take (last_boundary max_len 0 (chars (as_bytes s))) s)"

text \<open>\<open>{:03}\<close> and \<open>{:04x}\<close>.\<close>

definition dec_digit :: "nat \<Rightarrow> char" where
  "dec_digit d = char_of (48 + d)"

definition hex_digit :: "nat \<Rightarrow> char" where
  "hex_digit d = (if d < 10 then char_of (48 + d) else char_of (87 + d))"

definition fmt_03 :: "nat \<Rightarrow> string" where
  "fmt_03 c = [dec_digit (c div 100 mod 10), dec_digit (c div 10 mod 10), dec_digit (c mod 10)]"

definition fmt_04x :: "nat \<Rightarrow> string" where
  "fmt_04x c =
     [hex_digit (c div 4096 mod 16), hex_digit (c div 256 mod 16), hex_digit (c div 16 mod 16), hex_digit (c mod 16)]"

definition escape_char :: "nat \<Rightarrow> string" where
  "escape_char c =
     (if c \<le> 0x1F \<or> c = 0x7F then ''#'' @ fmt_03 c
      else if c = 0x22 then [char_of (0x5C :: nat), char_of (0x22 :: nat)]
      else if c < 0x80 then [char_of c]
      else if c < 0x10000 then [char_of (0x5C :: nat), CHR ''u''] @ fmt_04x c
      else [])"

definition utf8_to_ascii :: "string \<Rightarrow> string" where
  "utf8_to_ascii s = concat (map escape_char (chars (as_bytes s)))"

section \<open>Entries\<close>

definition CLOG_DEFAULT_SIZE :: nat where "CLOG_DEFAULT_SIZE = 8192 * 16"
definition CLOG_MAX_ENTRY_SIZE :: nat where "CLOG_MAX_ENTRY_SIZE = 4096"

record LogEntry =
  le_uid :: u32
  le_time :: u32
  le_node_digest :: u64
  le_ident_digest :: u64
  le_pid :: u32
  le_priority :: u8
  le_node :: string
  le_ident :: string
  le_tag :: string
  le_message :: string

datatype log_error =
    InvalidPriority | EntrySizeOverflow | EntryTooSmall | EntryExceedsBuffer
  | BufferTooSmall | SizeMismatch | InvalidCpos

definition header_size :: nat where "header_size = 4 * 4 + 8 * 2 + 4 * 2 + 1 * 4"

definition pack ::
  "string \<Rightarrow> string \<Rightarrow> string \<Rightarrow> u32 \<Rightarrow> u32 \<Rightarrow> u8 \<Rightarrow> string \<Rightarrow> u32 \<Rightarrow> (log_error, LogEntry) res \<times> u32" where
  "pack node0 ident0 tag0 pid time priority message0 uid_counter =
     (if priority \<ge> 8 then (Err InvalidPriority, uid_counter)
      else
        let node = truncate_string node0 254;
            ident = truncate_string ident0 254;
            tag = truncate_string tag0 254;
            msg = utf8_to_ascii message0;
            msg_len = length msg + 1
        in case Option.bind (Option.bind (Option.bind (usize_checked_add header_size (length node + 1))
                  (\<lambda>s. usize_checked_add s (length ident + 1))) (\<lambda>s. usize_checked_add s (length tag + 1)))
                  (\<lambda>s. usize_checked_add s msg_len) of
             None \<Rightarrow> (Err EntrySizeOverflow, uid_counter)
           | Some total_size \<Rightarrow>
               let msg_len' = (if total_size > CLOG_MAX_ENTRY_SIZE
                               then msg_len - (total_size - CLOG_MAX_ENTRY_SIZE) else msg_len);
                   uid = uid_counter + 1
               in (Ok \<lparr>le_uid = uid, le_time = time, le_node_digest = fnv_64a_str node,
                       le_ident_digest = fnv_64a_str ident, le_pid = pid, le_priority = priority,
                       le_node = node, le_ident = ident, le_tag = tag,
                       le_message = take (msg_len' - 1) msg\<rparr>, uid))"

definition entry_size :: "LogEntry \<Rightarrow> nat" where
  "entry_size e =
     4 * 4 + 8 * 2 + 4 * 2 + 1 * 4 + length (le_node e) + 1 + length (le_ident e) + 1 + length (le_tag e) + 1 +
     length (le_message e) + 1"

text \<open>\<open>(size + 7) & !7\<close>\<close>

definition aligned_size :: "LogEntry \<Rightarrow> nat" where
  "aligned_size e = (entry_size e + 7) div 8 * 8"

definition entry_serialize :: "LogEntry \<Rightarrow> u32 \<Rightarrow> u32 \<Rightarrow> byte list" where
  "entry_serialize e prev nxt =
     u32_to_le prev @ u32_to_le nxt @ u32_to_le (le_uid e) @ u32_to_le (le_time e) @
     u64_to_le (le_node_digest e) @ u64_to_le (le_ident_digest e) @ u32_to_le (le_pid e) @ [le_priority e] @
     [of_nat (min (length (le_node e) + 1) 255), of_nat (min (length (le_ident e) + 1) 255),
      of_nat (min (length (le_tag e) + 1) 255)] @
     u32_to_le (of_nat (length (le_message e) + 1)) @
     as_bytes (le_node e) @ [0] @ as_bytes (le_ident e) @ [0] @ as_bytes (le_tag e) @ [0] @
     as_bytes (le_message e) @ [0]"

section \<open>Decoding\<close>

text \<open>The bytes of the first character and whether it is well formed.\<close>

definition utf8_second :: "byte \<Rightarrow> byte \<Rightarrow> bool" where
  "utf8_second b c1 \<longleftrightarrow>
     utf8_cont c1 \<and> (b = 0xE0 \<longrightarrow> 0xA0 \<le> c1) \<and> (b = 0xED \<longrightarrow> c1 \<le> 0x9F) \<and>
     (b = 0xF0 \<longrightarrow> 0x90 \<le> c1) \<and> (b = 0xF4 \<longrightarrow> c1 \<le> 0x8F)"

definition cont_at :: "byte list \<Rightarrow> nat \<Rightarrow> bool" where
  "cont_at bs i \<longleftrightarrow> i < length bs \<and> utf8_cont (bs ! i)"

definition utf8_step :: "byte \<Rightarrow> byte list \<Rightarrow> nat \<times> bool" where
  "utf8_step b bs =
     (if b < 0x80 then (1, True)
      else if 0xC2 \<le> b \<and> b \<le> 0xDF then (if cont_at bs 0 then (2, True) else (1, False))
      else if 0xE0 \<le> b \<and> b \<le> 0xEF then
        (if bs = [] \<or> \<not> utf8_second b (hd bs) then (1, False)
         else if cont_at bs 1 then (3, True) else (2, False))
      else if 0xF0 \<le> b \<and> b \<le> 0xF4 then
        (if bs = [] \<or> \<not> utf8_second b (hd bs) then (1, False)
         else if \<not> cont_at bs 1 then (2, False)
         else if cont_at bs 2 then (4, True) else (3, False))
      else (1, False))"

lemma utf8_step_pos: "0 < fst (utf8_step b bs)"
  by (auto simp: utf8_step_def)

function utf8_lossy :: "byte list \<Rightarrow> byte list" where
  "utf8_lossy [] = []"
| "utf8_lossy (b # bs) =
    (case utf8_step b bs of (n, ok) \<Rightarrow>
       (if ok then take n (b # bs) else [0xEF, 0xBF, 0xBD]) @ utf8_lossy (drop (n - 1) bs))"
  by pat_completeness auto
termination by (relation "measure length") auto

definition from_utf8_lossy :: "byte list \<Rightarrow> string" where
  "from_utf8_lossy bs = map char_of_byte (utf8_lossy bs)"

definition read_null_terminated :: "byte list \<Rightarrow> string" where
  "read_null_terminated data = from_utf8_lossy (takeWhile (\<lambda>b. b \<noteq> 0) data)"

definition entry_deserialize :: "byte list \<Rightarrow> (log_error, LogEntry \<times> u32 \<times> u32) res" where
  "entry_deserialize data =
     (if length data < 48 then Err EntryTooSmall
      else
        let prev = u32_of_le (slice 0 4 data);
            nxt = u32_of_le (slice 4 8 data);
            uid = u32_of_le (slice 8 12 data);
            time = u32_of_le (slice 12 16 data);
            node_digest = u64_of_le (slice 16 24 data);
            ident_digest = u64_of_le (slice 24 32 data);
            pid = u32_of_le (slice 32 36 data);
            priority = data ! 36;
            node_len = unat (data ! 37);
            ident_len = unat (data ! 38);
            tag_len = unat (data ! 39);
            msg_len = unat (u32_of_le (slice 40 44 data))
        in if 44 + node_len + ident_len + tag_len + msg_len > length data then Err EntryExceedsBuffer
           else
             let o1 = 44 + node_len; o2 = o1 + ident_len; o3 = o2 + tag_len
             in Ok (\<lparr>le_uid = uid, le_time = time, le_node_digest = node_digest, le_ident_digest = ident_digest,
                     le_pid = pid, le_priority = priority,
                     le_node = read_null_terminated (slice 44 o1 data),
                     le_ident = read_null_terminated (slice o1 o2 data),
                     le_tag = read_null_terminated (slice o2 o3 data),
                     le_message = read_null_terminated (slice o3 (o3 + msg_len) data)\<rparr>, prev, nxt))"


section \<open>The hash is a multiplication by the FNV prime\<close>

lemma fnv_mix_mult [code]: "fnv_mix h = h * 0x100000001b3"
  by (simp add: fnv_mix_def push_bit_eq_mult algebra_simps)

lemma fnv_64a_append: "fnv_64a (xs @ ys) h = fnv_64a ys (fnv_64a xs h)"
  by (induction xs arbitrary: h) simp_all

text \<open>The string hash includes the terminating NUL byte.\<close>

lemma fnv_64a_str_nul: "fnv_64a_str s = fnv_64a (as_bytes s @ [0]) FNV1A_64_INIT"
  by (simp add: fnv_64a_str_def fnv_64a_append)

section \<open>One character of well-formed text\<close>

lemma mod_window: "m * k \<le> b \<Longrightarrow> b < m * k + m \<Longrightarrow> b mod m = b - m * k" for b m k :: nat
  by (auto simp: le_iff_add)

lemma len_utf8_two: "194 \<le> b \<Longrightarrow> b \<le> 223 \<Longrightarrow> len_utf8 (b mod 32 * 64 + c mod 64) = 2" for b c :: nat
proof -
  assume "194 \<le> b" "b \<le> 223"
  then have "b mod 32 = b - 192" using mod_window [of 32 6 b] by simp
  moreover have "c mod 64 < 64" by simp
  ultimately show ?thesis using \<open>194 \<le> b\<close> \<open>b \<le> 223\<close> by (auto simp: len_utf8_def)
qed

lemma len_utf8_three:
  assumes "224 \<le> b" "b \<le> 239" "128 \<le> c1" "c1 \<le> 191" "b = 224 \<longrightarrow> 160 \<le> (c1 :: nat)"
  shows "len_utf8 (b mod 16 * 4096 + c1 mod 64 * 64 + c2 mod 64) = 3"
proof -
  have "b mod 16 = b - 224" "c1 mod 64 = c1 - 128"
    using assms(1-4) mod_window [of 16 14 b] mod_window [of 64 2 c1] by simp_all
  moreover have "c2 mod 64 < 64" by simp
  ultimately show ?thesis using assms by (auto simp: len_utf8_def)
qed

lemma len_utf8_four:
  assumes "240 \<le> b" "b \<le> 244" "128 \<le> c1" "c1 \<le> 191" "b = 240 \<longrightarrow> 144 \<le> (c1 :: nat)"
  shows "len_utf8 (b mod 8 * 262144 + c1 mod 64 * 4096 + c2 mod 64 * 64 + c3 mod 64) = 4"
proof -
  have "b mod 8 = b - 240" "c1 mod 64 = c1 - 128"
    using assms(1-4) mod_window [of 8 30 b] mod_window [of 64 2 c1] by simp_all
  then show ?thesis using assms by (auto simp: len_utf8_def)
qed

lemmas byte_order = word_le_nat_alt word_less_nat_alt

lemma utf8_first:
  assumes "utf8_valid (b # bs)"
  obtains n c where "n \<le> length bs" "utf8_step b bs = (Suc n, True)"
    "chars (b # bs) = c # chars (drop n bs)" "len_utf8 c = Suc n" "utf8_valid (drop n bs)"
    "\<And>ys. utf8_valid ys \<Longrightarrow> utf8_valid (b # take n bs @ ys)"
proof -
  consider (one) "b < 0x80"
    | (two) "0xC2 \<le> b" "b \<le> 0xDF"
    | (three) "0xE0 \<le> b" "b \<le> 0xEF"
    | (four) "0xF0 \<le> b" "b \<le> 0xF4"
    using assms by (auto split: if_splits)
  then show thesis
  proof cases
    case one
    show thesis
      by (rule that [of 0 "unat b"])
        (use one assms in \<open>auto simp: utf8_step_def len_utf8_def byte_order\<close>)
  next
    case two
    then have n: "\<not> b < 0x80" "b < 0xE0" by (auto simp: byte_order)
    obtain c1 cs where bs: "bs = c1 # cs" "utf8_cont c1" "utf8_valid cs"
      using assms two n by (auto split: list.splits)
    show thesis
      by (rule that [of 1 "unat b mod 32 * 64 + unat c1 mod 64"])
        (use two n bs in \<open>simp_all add: utf8_step_def cont_at_def len_utf8_two byte_order\<close>)
  next
    case three
    then have n: "\<not> b < 0x80" "\<not> b \<le> 0xDF" "\<not> b < 0xE0" "b < 0xF0" "b \<noteq> 0xF0" "b \<noteq> 0xF4" by (auto simp: byte_order)
    obtain c1 c2 cs where bs: "bs = c1 # c2 # cs" "utf8_cont c1" "b = 0xE0 \<longrightarrow> 0xA0 \<le> c1"
        "b = 0xED \<longrightarrow> c1 \<le> 0x9F" "utf8_cont c2" "utf8_valid cs"
      using assms three n by (auto split: list.splits)
    have "len_utf8 (unat b mod 16 * 4096 + unat c1 mod 64 * 64 + unat c2 mod 64) = 3"
      by (rule len_utf8_three) (use three bs in \<open>auto simp: byte_order word_unat_eq_iff utf8_cont_def\<close>)
    then show thesis
      by (intro that [of 2 "unat b mod 16 * 4096 + unat c1 mod 64 * 64 + unat c2 mod 64"])
        (use three n bs in \<open>simp_all add: utf8_step_def utf8_second_def cont_at_def\<close>)
  next
    case four
    then have n: "\<not> b < 0x80" "\<not> b \<le> 0xDF" "\<not> b \<le> 0xEF" "\<not> b < 0xE0" "\<not> b < 0xF0" "b \<noteq> 0xE0" "b \<noteq> 0xED"
      by (auto simp: byte_order)
    obtain c1 c2 c3 cs where bs: "bs = c1 # c2 # c3 # cs" "utf8_cont c1" "b = 0xF0 \<longrightarrow> 0x90 \<le> c1"
        "b = 0xF4 \<longrightarrow> c1 \<le> 0x8F" "utf8_cont c2" "utf8_cont c3" "utf8_valid cs"
      using assms four n by (auto split: list.splits)
    have "len_utf8 (unat b mod 8 * 262144 + unat c1 mod 64 * 4096 + unat c2 mod 64 * 64 + unat c3 mod 64) = 4"
      by (rule len_utf8_four) (use four bs in \<open>auto simp: byte_order word_unat_eq_iff utf8_cont_def\<close>)
    then show thesis
      by (intro that [of 3 "unat b mod 8 * 262144 + unat c1 mod 64 * 4096 + unat c2 mod 64 * 64 + unat c3 mod 64"])
        (use four n bs in \<open>simp_all add: utf8_step_def utf8_second_def cont_at_def\<close>)
  qed
qed


section \<open>Truncation and lossy decoding keep well-formed text\<close>

lemma utf8_lossy_valid: "utf8_valid bs \<Longrightarrow> utf8_lossy bs = bs"
proof (induction bs rule: utf8_lossy.induct)
  case 1
  then show ?case by simp
next
  case (2 b bs)
  obtain n where n: "n \<le> length bs" "utf8_step b bs = (Suc n, True)" "utf8_valid (drop n bs)"
    using utf8_first [OF 2(2)] by metis
  then show ?case using 2(1) [OF n(2) [symmetric]] by simp
qed

lemma from_utf8_lossy_as_bytes [simp]: "valid_str s \<Longrightarrow> from_utf8_lossy (as_bytes s) = s"
  by (simp add: from_utf8_lossy_def utf8_lossy_valid valid_str_def)

lemma last_boundary_valid:
  "utf8_valid bs \<Longrightarrow> i \<le> m \<Longrightarrow> i \<le> last_boundary m i (chars bs) \<and> last_boundary m i (chars bs) \<le> m \<and>
     utf8_valid (take (last_boundary m i (chars bs) - i) bs)"
proof (induction bs arbitrary: i rule: length_induct)
  case (1 bs)
  show ?case
  proof (cases bs)
    case Nil
    then show ?thesis using 1(3) by simp
  next
    case (Cons b cs)
    obtain n c where n: "n \<le> length cs" "chars (b # cs) = c # chars (drop n cs)" "len_utf8 c = Suc n"
        "utf8_valid (drop n cs)" "\<And>ys. utf8_valid ys \<Longrightarrow> utf8_valid (b # take n cs @ ys)"
      using utf8_first 1(2) Cons by metis
    let ?j = "last_boundary m (i + Suc n) (chars (drop n cs))"
    show ?thesis
    proof (cases "i + Suc n \<le> m")
      case True
      then have IH: "i + Suc n \<le> ?j" "?j \<le> m" "utf8_valid (take (?j - (i + Suc n)) (drop n cs))"
        using 1(1) n(4) Cons by auto
      have "take (?j - i) (b # cs) = b # take n cs @ take (?j - (i + Suc n)) (drop n cs)"
        using IH(1) n(1) by (simp add: take_Cons' flip: take_add)
      then show ?thesis using IH n(5) [OF IH(3)] True n(2,3) Cons by simp
    next
      case False
      then show ?thesis using n(2,3) Cons 1(3) by simp
    qed
  qed
qed

lemma truncate_string_props:
  assumes "valid_str s"
  shows "valid_str (truncate_string s m)" "length (truncate_string s m) \<le> m"
    "set (truncate_string s m) \<subseteq> set s" "length s \<le> m \<Longrightarrow> truncate_string s m = s"
proof -
  note b = last_boundary_valid [OF assms [unfolded valid_str_def], of 0 m]
  have "as_bytes (take k s) = take k (as_bytes s)" for k by (simp add: as_bytes_def take_map)
  then show "valid_str (truncate_string s m)" "length (truncate_string s m) \<le> m"
      "set (truncate_string s m) \<subseteq> set s" "length s \<le> m \<Longrightarrow> truncate_string s m = s"
    using b assms by (auto simp: truncate_string_def valid_str_def dest: in_set_takeD)
qed

section \<open>Escaped messages are printable ASCII\<close>

definition printable :: "char \<Rightarrow> bool" where
  "printable c \<longleftrightarrow> 0x20 \<le> (of_char c :: nat) \<and> (of_char c :: nat) \<le> 0x7E"

lemma printable_char_of: "printable (char_of n) \<longleftrightarrow> 0x20 \<le> n \<and> n \<le> 0x7E" if "n < 256" for n :: nat
  using that by (simp add: printable_def)

lemma escape_char_printable: "c \<in> set (escape_char n) \<Longrightarrow> printable c"
proof -
  have "dec_digit (k mod 10) = char_of (48 + k mod 10)" "48 + k mod 10 < 58" for k :: nat
    by (auto simp: dec_digit_def)
  then have dec: "printable (dec_digit (k mod 10))" for k
    using printable_char_of [of "48 + k mod 10"] by simp
  have "d < 16 \<Longrightarrow> printable (hex_digit d)" for d
    using printable_char_of [of "48 + d"] printable_char_of [of "87 + d"] by (simp add: hex_digit_def)
  then have hex: "printable (hex_digit (k mod 16))" for k by simp
  assume "c \<in> set (escape_char n)"
  then show ?thesis
    using dec hex
    by (auto simp: escape_char_def fmt_03_def fmt_04x_def printable_char_of printable_def split: if_splits)
qed

lemma utf8_to_ascii_printable: "c \<in> set (utf8_to_ascii s) \<Longrightarrow> printable c"
  using escape_char_printable by (auto simp: utf8_to_ascii_def)

lemma printable_ascii: "list_all printable s \<Longrightarrow> ascii_str s \<and> char_of (0 :: nat) \<notin> set s"
proof -
  assume a: "list_all printable s"
  have "byte_of_char c < 0x80" if "printable c" for c
    using that by (simp add: printable_def byte_of_char_def word_less_nat_alt unat_of_nat)
  then show ?thesis
    using a by (auto simp: ascii_str_def as_bytes_def list_all_iff printable_def)
qed


section \<open>Entries survive their binary form\<close>

text \<open>What the format can carry: text without NUL, short names, a message below 4 GiB.\<close>

definition c_name :: "string \<Rightarrow> bool" where
  "c_name s \<longleftrightarrow> valid_str s \<and> char_of (0 :: nat) \<notin> set s \<and> length s \<le> 254"

definition log_entry_ok :: "LogEntry \<Rightarrow> bool" where
  "log_entry_ok e \<longleftrightarrow> c_name (le_node e) \<and> c_name (le_ident e) \<and> c_name (le_tag e) \<and>
     valid_str (le_message e) \<and> char_of (0 :: nat) \<notin> set (le_message e) \<and> length (le_message e) < 2 ^ 31"

lemma length_entry_serialize [simp]: "length (entry_serialize e p n) = entry_size e"
  by (simp add: entry_serialize_def entry_size_def)

lemma entry_size_min: "48 \<le> entry_size e"
  by (simp add: entry_size_def)

lemma zero_not_in_as_bytes: "char_of (0 :: nat) \<notin> set s \<Longrightarrow> 0 \<notin> set (as_bytes s)"
proof
  assume "char_of (0 :: nat) \<notin> set s" "0 \<in> set (as_bytes s)"
  then obtain c where "c \<in> set s" "byte_of_char c = 0" by (auto simp: as_bytes_def)
  then have "c = char_of_byte 0" by (metis char_of_byte_of_char)
  with \<open>c \<in> set s\<close> \<open>char_of 0 \<notin> set s\<close> show False by (simp add: char_of_byte_def)
qed

lemma read_null_terminated_text:
  assumes "valid_str s" and "char_of (0 :: nat) \<notin> set s"
  shows "read_null_terminated (as_bytes s @ [0]) = s"
proof -
  have "takeWhile (\<lambda>b. b \<noteq> 0) (as_bytes s @ [0]) = as_bytes s"
    using zero_not_in_as_bytes [OF assms(2)] by (subst takeWhile_append2) auto
  then show ?thesis by (simp add: read_null_terminated_def assms(1))
qed

lemma name_len: "length s \<le> 254 \<Longrightarrow> unat (of_nat (min (length s + 1) 255) :: u8) = length s + 1" for s :: string
  by (simp add: unat_of_nat_byte del: of_nat_add of_nat_Suc)

lemma msg_len: "length s < 2 ^ 31 \<Longrightarrow> unat (of_nat (length s + 1) :: u32) = length s + 1" for s :: string
  by (simp add: unat_of_nat del: of_nat_add of_nat_Suc)

lemma entry_roundtrip:
  assumes "log_entry_ok e"
  shows "entry_deserialize (entry_serialize e p n @ rest) = Ok (e, p, n)"
proof -
  have ok: "c_name (le_node e)" "c_name (le_ident e)" "c_name (le_tag e)" "valid_str (le_message e)"
      "char_of (0 :: nat) \<notin> set (le_message e)" "length (le_message e) < 2 ^ 31"
    using assms by (auto simp: log_entry_ok_def)
  define N where "N = as_bytes (le_node e) @ [0]"
  define I where "I = as_bytes (le_ident e) @ [0]"
  define T where "T = as_bytes (le_tag e) @ [0]"
  define G where "G = as_bytes (le_message e) @ [0]"
  define H where "H = u32_to_le p @ u32_to_le n @ u32_to_le (le_uid e) @ u32_to_le (le_time e) @
     u64_to_le (le_node_digest e) @ u64_to_le (le_ident_digest e) @ u32_to_le (le_pid e) @ [le_priority e] @
     [of_nat (min (length (le_node e) + 1) 255), of_nat (min (length (le_ident e) + 1) 255),
      of_nat (min (length (le_tag e) + 1) 255)] @ u32_to_le (of_nat (length (le_message e) + 1))"
  let ?d = "H @ N @ I @ T @ G @ rest"
  have d: "entry_serialize e p n @ rest = ?d"
    by (simp add: entry_serialize_def H_def N_def I_def T_def G_def)
  have len: "length H = 44" "length N = length (le_node e) + 1" "length I = length (le_ident e) + 1"
      "length T = length (le_tag e) + 1" "length G = length (le_message e) + 1"
    by (simp_all add: H_def N_def I_def T_def G_def)
  have H: "slice 0 4 ?d = u32_to_le p" "slice 4 8 ?d = u32_to_le n" "slice 8 12 ?d = u32_to_le (le_uid e)"
      "slice 12 16 ?d = u32_to_le (le_time e)" "slice 16 24 ?d = u64_to_le (le_node_digest e)"
      "slice 24 32 ?d = u64_to_le (le_ident_digest e)" "slice 32 36 ?d = u32_to_le (le_pid e)"
      "slice 40 44 ?d = u32_to_le (of_nat (length (le_message e) + 1))"
    by (simp_all add: H_def slice_def)
  have B: "?d ! 36 = le_priority e" "?d ! 37 = of_nat (min (length (le_node e) + 1) 255)"
      "?d ! 38 = of_nat (min (length (le_ident e) + 1) 255)" "?d ! 39 = of_nat (min (length (le_tag e) + 1) 255)"
    by (simp_all add: H_def nth_append)
  have S: "slice 44 (44 + length N) ?d = N" "slice (44 + length N) (44 + length N + length I) ?d = I"
      "slice (44 + length N + length I) (44 + length N + length I + length T) ?d = T"
      "slice (44 + length N + length I + length T) (44 + length N + length I + length T + length G) ?d = G"
    using len(1) by (simp_all add: slice_def)
  have R: "read_null_terminated N = le_node e" "read_null_terminated I = le_ident e"
      "read_null_terminated T = le_tag e" "read_null_terminated G = le_message e"
    using ok by (simp_all add: N_def I_def T_def G_def c_name_def read_null_terminated_text)
  have U: "unat (?d ! 37) = length N" "unat (?d ! 38) = length I" "unat (?d ! 39) = length T"
      "unat (u32_of_le (slice 40 44 ?d)) = length G"
    unfolding B H of_le_to_le using ok name_len msg_len len by (simp_all add: c_name_def del: of_nat_add of_nat_Suc)
  have "48 \<le> length ?d" "44 + length N + length I + length T + length G \<le> length ?d" using len by simp_all
  then show ?thesis
    unfolding d entry_deserialize_def Let_def U S R unfolding H B of_le_to_le by simp
qed

section \<open>Packed entries\<close>

lemma pack_ok:
  assumes "pack node ident tag pid time priority msg uid = (Ok e, uid')"
    and "valid_str node" "valid_str ident" "valid_str tag"
    and "char_of (0 :: nat) \<notin> set node" "char_of (0 :: nat) \<notin> set ident" "char_of (0 :: nat) \<notin> set tag"
  shows "log_entry_ok e" "entry_size e \<le> CLOG_MAX_ENTRY_SIZE" "uid' = uid + 1" "le_uid e = uid'"
proof -
  let ?n = "truncate_string node 254" and ?i = "truncate_string ident 254" and ?t = "truncate_string tag 254"
  let ?m = "utf8_to_ascii msg"
  let ?total = "44 + (length ?n + 1) + (length ?i + 1) + (length ?t + 1) + (length ?m + 1)"
  obtain k where e: "uid' = uid + 1" "le_uid e = uid'" "le_node e = ?n" "le_ident e = ?i" "le_tag e = ?t"
      "le_message e = take k ?m"
      "k = (if ?total > CLOG_MAX_ENTRY_SIZE then length ?m + 1 - (?total - CLOG_MAX_ENTRY_SIZE) else length ?m + 1) - 1"
    using assms(1)
    by (auto simp: pack_def Let_def usize_checked_add_def header_size_def ac_simps split: if_splits option.splits)
  have c: "c_name ?n" "c_name ?i" "c_name ?t"
    using truncate_string_props [OF assms(2), of 254] truncate_string_props [OF assms(3), of 254]
      truncate_string_props [OF assms(4), of 254] assms(5-7) by (auto simp: c_name_def)
  have "length (le_message e) \<le> k" using e(6) by simp
  moreover have "k + length ?n + length ?i + length ?t + 48 \<le> CLOG_MAX_ENTRY_SIZE"
    using c e(7) by (auto simp: c_name_def CLOG_MAX_ENTRY_SIZE_def)
  ultimately show size: "entry_size e \<le> CLOG_MAX_ENTRY_SIZE"
    using e by (simp add: entry_size_def)
  have "list_all printable (le_message e)"
    using e(6) utf8_to_ascii_printable by (auto simp: list_all_iff dest: in_set_takeD)
  then show "log_entry_ok e"
    using size c e(3-5) printable_ascii valid_str_ascii
    by (auto simp: log_entry_ok_def entry_size_def CLOG_MAX_ENTRY_SIZE_def)
  show "uid' = uid + 1" "le_uid e = uid'" using e by simp_all
qed

lemma pack_accepts:
  assumes "priority < 8" and "length node < 2 ^ 31" "length ident < 2 ^ 31" "length tag < 2 ^ 31"
    "length (utf8_to_ascii msg) < 2 ^ 32"
  shows "\<exists>e. pack node ident tag pid time priority msg uid = (Ok e, uid + 1)"
proof -
  have "length (truncate_string s 254) \<le> length s" for s by (simp add: truncate_string_def)
  from this [of node] this [of ident] this [of tag] show ?thesis
    using assms by (auto simp: pack_def Let_def usize_checked_add_def header_size_def not_le)
qed

end
