(* ===== verification/Log_Buffer.thy ===== *)
theory Log_Buffer
  imports Log_Entry Ordered_Map "HOL-Library.Product_Lexorder"
begin

text \<open>
  The ring buffer of the cluster log (\<open>pmxcfs-logger/src/ring_buffer.rs\<close>): a bounded list of entries,
  newest first, that drops its oldest entries, and its binary form, in which the entries are linked
  by offsets. The lemmas show that the buffer always holds the longest run of newest entries that
  fits, that the binary form is read back to the same buffer, and when writing it panics.
\<close>

section \<open>Operations\<close>

record RingBuffer =
  rb_capacity :: nat
  rb_current_size :: nat
  rb_entries :: "LogEntry list" \<comment> \<open>newest first\<close>

definition rb_new :: "nat \<Rightarrow> RingBuffer" where
  "rb_new capacity =
     \<lparr>rb_capacity = (if capacity < CLOG_MAX_ENTRY_SIZE * 10 then CLOG_DEFAULT_SIZE else capacity),
      rb_current_size = 0, rb_entries = []\<rparr>"

function make_room :: "nat \<Rightarrow> nat \<Rightarrow> nat \<Rightarrow> LogEntry list \<Rightarrow> nat \<times> LogEntry list" where
  "make_room capacity needed current_size es =
     (if current_size + needed > capacity \<and> es \<noteq> []
      then make_room capacity needed (current_size - aligned_size (last es)) (butlast es)
      else (current_size, es))"
  by pat_completeness auto
termination by (relation "measure (\<lambda>(_, _, _, es). length es)") auto

declare make_room.simps [simp del]

definition add_entry :: "LogEntry \<Rightarrow> RingBuffer \<Rightarrow> RingBuffer" where
  "add_entry entry b =
     (case make_room (rb_capacity b) (aligned_size entry) (rb_current_size b) (rb_entries b) of
        (sz, es) \<Rightarrow> b\<lparr>rb_entries := entry # es, rb_current_size := sz + aligned_size entry\<rparr>)"

definition is_near_full :: "RingBuffer \<Rightarrow> bool" where
  "is_near_full b \<longleftrightarrow> rb_current_size b > rb_capacity b * 9 div 10"

definition log_key :: "LogEntry \<Rightarrow> u32 \<times> u64 \<times> u32" where
  "log_key e = (le_time e, le_node_digest e, le_uid e)"

definition rb_sort :: "RingBuffer \<Rightarrow> RingBuffer" where
  "rb_sort b = fold add_entry (sort_key log_key (rb_entries b)) (rb_new (rb_capacity b))"

text \<open>The entries that \<open>dump_json\<close> prints.\<close>

definition dump_entries :: "string option \<Rightarrow> nat \<Rightarrow> RingBuffer \<Rightarrow> LogEntry list" where
  "dump_entries ident_filter max_entries b =
     take max_entries (filter (\<lambda>e. case ident_filter of None \<Rightarrow> True
                                   | Some ident \<Rightarrow> fnv_64a_str ident = le_ident_digest e) (rb_entries b))"

section \<open>Binary form\<close>

text \<open>\<open>buf[off..off + bytes.len()].copy_from_slice(bytes)\<close>\<close>

definition copy_at :: "nat \<Rightarrow> byte list \<Rightarrow> byte list \<Rightarrow> ('e, byte list) res" where
  "copy_at off bytes buf =
     (if off + length bytes > length buf then Panic
      else Ok (take off buf @ bytes @ drop (off + length bytes) buf))"

fun entry_offsets :: "nat \<Rightarrow> nat \<Rightarrow> LogEntry list \<Rightarrow> u32 list" where
  "entry_offsets capacity current_offset [] = []"
| "entry_offsets capacity current_offset (e # es) =
    (if current_offset + aligned_size e > capacity then []
     else of_nat current_offset # entry_offsets capacity (current_offset + aligned_size e) es)"

text \<open>The loop over \<open>self.iter().enumerate()\<close>, from index \<open>i\<close>.\<close>

fun write_entries :: "u32 list \<Rightarrow> nat \<Rightarrow> LogEntry list \<Rightarrow> byte list \<Rightarrow> (unit, byte list) res" where
  "write_entries offsets i [] buf = Ok buf"
| "write_entries offsets i (e # es) buf =
    (if i \<ge> length offsets then Panic
     else
       let offset = unat (offsets ! i);
           prev = (if i + 1 < length offsets then offsets ! (i + 1) else 0);
           nxt = of_nat offset + of_nat (aligned_size e)
       in case copy_at offset (entry_serialize e prev nxt) buf of
            Ok buf' \<Rightarrow> write_entries offsets (i + 1) es buf'
          | r \<Rightarrow> r)"

definition write_header :: "nat \<Rightarrow> u32 \<Rightarrow> byte list \<Rightarrow> (unit, byte list) res" where
  "write_header capacity cpos buf =
     (case copy_at 0 (u32_to_le (of_nat capacity)) buf of
        Ok buf' \<Rightarrow> copy_at 4 (u32_to_le cpos) buf'
      | r \<Rightarrow> r)"

definition rb_serialize :: "RingBuffer \<Rightarrow> (unit, byte list) res" where
  "rb_serialize b =
     (let buf = replicate (rb_capacity b) 0 in
      if rb_entries b = [] then write_header (rb_capacity b) 0 buf
      else case write_entries (entry_offsets (rb_capacity b) 8 (rb_entries b)) 0 (rb_entries b) buf of
             Ok buf' \<Rightarrow> write_header (rb_capacity b) 8 buf'
           | r \<Rightarrow> r)"

text \<open>The walk along the \<open>prev\<close> offsets. \<open>visited\<close> is the set of positions that guards against cycles.\<close>

function parse_entries ::
  "byte list \<Rightarrow> nat \<Rightarrow> nat \<Rightarrow> nat list \<Rightarrow> LogEntry list \<Rightarrow> (log_error, LogEntry list) res" where
  "parse_entries data initial_cpos current_pos visited es =
     (if current_pos \<in> set visited then Ok es
      else if current_pos = 0 then Ok es
      else if current_pos \<ge> length data then Ok es
      else case entry_deserialize (drop current_pos data) of
             Ok (entry, prev, _) \<Rightarrow>
               if current_pos < unat prev \<and> unat prev \<le> initial_cpos then Ok (es @ [entry])
               else parse_entries data initial_cpos (unat prev) (current_pos # visited) (es @ [entry])
           | Err e \<Rightarrow> Err e
           | Panic \<Rightarrow> Panic)"
  by pat_completeness auto
termination
proof (relation "measure (\<lambda>(data, _, _, visited, _). card ({..<length data} - set visited))", goal_cases)
  case (2 data initial_cpos current_pos visited es p entry q prev nxt)
  from 2(1,3) have "current_pos \<in> {..<length data} - set visited" by simp
  then have "card ({..<length data} - set visited - {current_pos}) < card ({..<length data} - set visited)"
    by (intro card_Diff1_less) simp_all
  moreover have "{..<length data} - set (current_pos # visited) = {..<length data} - set visited - {current_pos}"
    by (subst list.set(2), rule Diff_insert)
  ultimately show ?case by (simp only: in_measure prod.case)
qed simp

declare parse_entries.simps [simp del]

definition rb_deserialize :: "byte list \<Rightarrow> (log_error, RingBuffer) res" where
  "rb_deserialize data =
     (if length data < 8 then Err BufferTooSmall
      else
        let sz = unat (u32_of_le (slice 0 4 data));
            initial_cpos = unat (u32_of_le (slice 4 8 data))
        in if sz \<noteq> length data then Err SizeMismatch
           else if initial_cpos = 0 then Ok (rb_new sz)
           else if initial_cpos < 8 \<or> initial_cpos \<ge> sz then Err InvalidCpos
           else case parse_entries data initial_cpos initial_cpos [] [] of
                  Ok es \<Rightarrow> Ok ((rb_new sz)\<lparr>rb_entries := es, rb_current_size := sum_list (map aligned_size es)\<rparr>)
                | Err e \<Rightarrow> Err e
                | Panic \<Rightarrow> Panic)"


section \<open>The buffer holds the newest entries that fit\<close>

abbreviation total_size :: "LogEntry list \<Rightarrow> nat" where
  "total_size es \<equiv> sum_list (map aligned_size es)"

text \<open>The longest prefix that fits.\<close>

fun fitting :: "nat \<Rightarrow> LogEntry list \<Rightarrow> LogEntry list" where
  "fitting room [] = []"
| "fitting room (e # es) = (if aligned_size e \<le> room then e # fitting (room - aligned_size e) es else [])"

lemma aligned_size_bounds: "entry_size e \<le> aligned_size e" "aligned_size e < entry_size e + 8" "48 \<le> aligned_size e"
  using entry_size_min [of e] by (auto simp: aligned_size_def)

lemma fitting_size: "total_size (fitting room es) \<le> room"
proof (induction room es rule: fitting.induct)
  case (1 room)
  then show ?case by simp
next
  case (2 room e es)
  then show ?case by (cases "aligned_size e \<le> room") auto
qed

lemma fitting_all: "total_size es \<le> room \<Longrightarrow> fitting room es = es"
  by (induction room es rule: fitting.induct) auto

lemma fitting_prefix: "\<exists>rest. es = fitting room es @ rest"
  by (induction room es rule: fitting.induct) auto

lemma fitting_snoc: "room < total_size (es @ [e]) \<Longrightarrow> fitting room (es @ [e]) = fitting room es"
  by (induction room es rule: fitting.induct) auto

lemma fitting_fitting: "k \<le> room \<Longrightarrow> fitting k (fitting room es) = fitting k es"
  by (induction room es arbitrary: k rule: fitting.induct) auto

lemma fitting_maximal: "es = fitting room es @ e # rest \<Longrightarrow> room < total_size (fitting room es) + aligned_size e"
  by (induction room es rule: fitting.induct) (auto split: if_splits)

lemma make_room_fitting:
  "need \<le> cap \<Longrightarrow>
   make_room cap need (total_size es) es = (total_size (fitting (cap - need) es), fitting (cap - need) es)"
proof (induction es rule: rev_induct)
  case Nil
  then show ?case by (simp add: make_room.simps)
next
  case (snoc e es)
  show ?case
  proof (cases "total_size (es @ [e]) + need > cap")
    case True
    then have "make_room cap need (total_size (es @ [e])) (es @ [e]) = make_room cap need (total_size es) es"
      by (subst make_room.simps) simp
    moreover have "fitting (cap - need) (es @ [e]) = fitting (cap - need) es"
      using True snoc.prems by (intro fitting_snoc) simp
    ultimately show ?thesis using snoc by simp
  next
    case False
    then have "make_room cap need (total_size (es @ [e])) (es @ [e]) = (total_size (es @ [e]), es @ [e])"
      by (subst make_room.simps) simp
    moreover have "fitting (cap - need) (es @ [e]) = es @ [e]"
      using False by (intro fitting_all) simp
    ultimately show ?thesis by simp
  qed
qed

definition rb_inv :: "RingBuffer \<Rightarrow> bool" where
  "rb_inv b \<longleftrightarrow> CLOG_MAX_ENTRY_SIZE * 10 \<le> rb_capacity b \<and> rb_current_size b = total_size (rb_entries b)"

lemma rb_inv_new [simp]: "rb_inv (rb_new cap)"
  by (simp add: rb_inv_def rb_new_def CLOG_MAX_ENTRY_SIZE_def CLOG_DEFAULT_SIZE_def)

lemma rb_new_entries [simp]: "rb_entries (rb_new cap) = []"
  by (simp add: rb_new_def)

lemma add_entry_simps [simp]: "rb_capacity (add_entry e b) = rb_capacity b"
  by (simp add: add_entry_def split: prod.splits)

lemma add_entry_fitting:
  assumes "rb_inv b" and "aligned_size e \<le> rb_capacity b"
  shows "rb_inv (add_entry e b)"
    and "rb_entries (add_entry e b) = e # fitting (rb_capacity b - aligned_size e) (rb_entries b)"
  using assms by (simp_all add: add_entry_def rb_inv_def make_room_fitting)

lemma fold_add_entry:
  assumes "rb_inv b" and "\<forall>e \<in> set es. aligned_size e \<le> rb_capacity b"
    and "rb_entries b = fitting (rb_capacity b) hist"
  shows "rb_inv (fold add_entry es b) \<and> rb_capacity (fold add_entry es b) = rb_capacity b \<and>
    rb_entries (fold add_entry es b) = fitting (rb_capacity b) (rev es @ hist)"
  using assms
proof (induction es arbitrary: b hist)
  case Nil
  then show ?case by simp
next
  case (Cons e es)
  then have e: "aligned_size e \<le> rb_capacity b" by simp
  have "rb_entries (add_entry e b) = fitting (rb_capacity (add_entry e b)) (e # hist)"
    using add_entry_fitting(2) [OF Cons.prems(1) e] Cons.prems(3) e by (simp add: fitting_fitting)
  from Cons.IH [OF add_entry_fitting(1) [OF Cons.prems(1) e] _ this] Cons.prems(2) show ?case by simp
qed

lemma fold_add_new:
  assumes "\<forall>e \<in> set es. aligned_size e \<le> rb_capacity (rb_new cap)"
  shows "rb_inv (fold add_entry es (rb_new cap))"
    and "rb_capacity (fold add_entry es (rb_new cap)) = rb_capacity (rb_new cap)"
    and "rb_entries (fold add_entry es (rb_new cap)) = fitting (rb_capacity (rb_new cap)) (rev es)"
  using fold_add_entry [of "rb_new cap" es "[]"] assms by simp_all

lemma rb_new_capacity: "rb_inv b \<Longrightarrow> rb_new (rb_capacity b) = b\<lparr>rb_current_size := 0, rb_entries := []\<rparr>"
  by (simp add: rb_new_def rb_inv_def)

lemma total_size_insort: "total_size (insort_key f e es) = aligned_size e + total_size es"
  by (induction es) auto

lemma total_size_sort: "total_size (sort_key f es) = total_size es"
  by (induction es) (simp_all add: total_size_insort)

lemma rb_sort_entries:
  assumes "rb_inv b" and "total_size (rb_entries b) \<le> rb_capacity b"
  shows "rb_inv (rb_sort b)" "rb_capacity (rb_sort b) = rb_capacity b"
    "rb_entries (rb_sort b) = rev (sort_key log_key (rb_entries b))"
proof -
  let ?es = "sort_key log_key (rb_entries b)"
  have cap: "rb_capacity (rb_new (rb_capacity b)) = rb_capacity b" using rb_new_capacity [OF assms(1)] by simp
  have "aligned_size e \<le> rb_capacity b" if "e \<in> set ?es" for e
    using that member_le_sum_list [of "aligned_size e" "map aligned_size (rb_entries b)"] assms(2) by simp
  then have es: "\<forall>e \<in> set ?es. aligned_size e \<le> rb_capacity (rb_new (rb_capacity b))" using cap by simp
  have "total_size (rev ?es) = total_size (rb_entries b)"
    by (simp add: total_size_sort sum_list_rev flip: rev_map)
  then have "fitting (rb_capacity b) (rev ?es) = rev ?es" using assms(2) by (intro fitting_all) simp
  then show "rb_inv (rb_sort b)" "rb_capacity (rb_sort b) = rb_capacity b"
      "rb_entries (rb_sort b) = rev ?es"
    unfolding rb_sort_def using fold_add_new [OF es] cap by simp_all
qed


section \<open>Binary form\<close>

text \<open>The area after the header: each entry padded to its aligned size, linked to the next older one.\<close>

fun layout :: "nat \<Rightarrow> LogEntry list \<Rightarrow> byte list" where
  "layout off [] = []"
| "layout off (e # es) =
    entry_serialize e (if es = [] then 0 else of_nat (off + aligned_size e)) (of_nat (off + aligned_size e)) @
    replicate (aligned_size e - entry_size e) 0 @ layout (off + aligned_size e) es"

lemma length_layout: "length (layout off es) = total_size es"
proof (induction off es rule: layout.induct)
  case (1 off)
  then show ?case by simp
next
  case (2 off e es)
  then show ?case using aligned_size_bounds(1) [of e] by simp
qed

lemma entry_offsets_Nil: "off + total_size es \<le> cap \<Longrightarrow> entry_offsets cap off es = [] \<longleftrightarrow> es = []"
  by (cases es) auto

lemma entry_offsets_hd: "off + total_size es \<le> cap \<Longrightarrow> es \<noteq> [] \<Longrightarrow> hd (entry_offsets cap off es) = of_nat off"
  by (cases es) auto

lemma copy_at_zeros:
  "length pre = off \<Longrightarrow> length bs \<le> k \<Longrightarrow> copy_at off bs (pre @ replicate k 0) = Ok (pre @ bs @ replicate (k - length bs) 0)"
  by (simp add: copy_at_def)

lemma write_entries_layout:
  assumes "off + total_size es \<le> cap" and "cap < 2 ^ 32" and "length pre = off"
  shows "write_entries (used @ entry_offsets cap off es) (length used) es (pre @ replicate (cap - off) 0) =
         Ok (pre @ layout off es @ replicate (cap - (off + total_size es)) 0)"
  using assms
proof (induction es arbitrary: off pre used)
  case Nil
  then show ?case by simp
next
  case (Cons e es)
  let ?off = "off + aligned_size e"
  have fits: "?off + total_size es \<le> cap" using Cons.prems(1) by simp
  then have ofs: "entry_offsets cap off (e # es) = of_nat off # entry_offsets cap ?off es" by simp
  have off: "unat (of_nat off :: u32) = off" using Cons.prems(1,2) by (simp add: unat_of_nat)
  have prev: "(if length used + 1 < length (used @ of_nat off # entry_offsets cap ?off es)
       then (used @ of_nat off # entry_offsets cap ?off es) ! (length used + 1) else 0) =
      (if es = [] then 0 else of_nat ?off)"
    using entry_offsets_Nil [OF fits] entry_offsets_hd [OF fits]
    by (cases "entry_offsets cap ?off es") (auto simp: nth_append)
  define bs where "bs = entry_serialize e (if es = [] then 0 else of_nat ?off) (of_nat ?off)"
  have len: "length bs = entry_size e" by (simp add: bs_def)
  have size: "entry_size e \<le> cap - off" "cap - off - entry_size e = (aligned_size e - entry_size e) + (cap - ?off)"
    using fits aligned_size_bounds(1) [of e] by simp_all
  have copy: "(copy_at off bs (pre @ replicate (cap - off) 0) :: (unit, byte list) res) =
      Ok ((pre @ bs @ replicate (aligned_size e - entry_size e) 0) @ replicate (cap - ?off) 0)"
    using copy_at_zeros [OF Cons.prems(3), of bs "cap - off", unfolded len, OF size(1)]
    unfolding size(2) replicate_add by simp
  have "length (pre @ bs @ replicate (aligned_size e - entry_size e) 0) = ?off"
    using Cons.prems(3) aligned_size_bounds(1) [of e] len by simp
  note IH = Cons.IH [OF fits Cons.prems(2) this, of "used @ [of_nat off]"]
  have nxt: "of_nat off + of_nat (aligned_size e) = (of_nat ?off :: u32)" by simp
  have "write_entries (used @ entry_offsets cap off (e # es)) (length used) (e # es) (pre @ replicate (cap - off) 0) =
      (case copy_at off bs (pre @ replicate (cap - off) 0) of
         Ok buf' \<Rightarrow> write_entries (used @ entry_offsets cap off (e # es)) (length used + 1) es buf' | r \<Rightarrow> r)"
    unfolding ofs write_entries.simps Let_def prev nth_append_length off nxt bs_def by simp
  moreover have "used @ entry_offsets cap off (e # es) = (used @ [of_nat off]) @ entry_offsets cap ?off es"
    unfolding ofs by simp
  moreover have "layout off (e # es) = bs @ replicate (aligned_size e - entry_size e) 0 @ layout ?off es"
      "off + total_size (e # es) = ?off + total_size es" by (simp_all add: bs_def)
  ultimately show ?case using copy IH by (simp only: res.case length_append_singleton Suc_eq_plus1 append_assoc)
qed

lemma write_entries_panics:
  "i \<le> length offsets \<Longrightarrow> length offsets < i + length es \<Longrightarrow> write_entries offsets i es buf = Panic"
proof (induction es arbitrary: i buf)
  case Nil
  then show ?case by simp
next
  case (Cons e es)
  then show ?case by (auto simp: Let_def copy_at_def)
qed


lemma rb_serialize_layout:
  assumes "8 + total_size (rb_entries b) \<le> rb_capacity b" and "rb_capacity b < 2 ^ 32"
  shows "rb_serialize b =
    Ok (u32_to_le (of_nat (rb_capacity b)) @ u32_to_le (if rb_entries b = [] then 0 else 8) @
        layout 8 (rb_entries b) @ replicate (rb_capacity b - (8 + total_size (rb_entries b))) 0)"
proof -
  let ?cap = "rb_capacity b" and ?es = "rb_entries b"
  have header: "write_header ?cap c (replicate 8 0 @ rest) = Ok (u32_to_le (of_nat ?cap) @ u32_to_le c @ rest)" for c rest
    by (simp add: write_header_def copy_at_def)
  have zeros: "replicate ?cap (0 :: byte) = replicate 8 0 @ replicate (?cap - 8) 0"
    using assms(1) by (simp flip: replicate_add)
  show ?thesis
  proof (cases "?es = []")
    case True
    then show ?thesis using header [of 0 "replicate (?cap - 8) 0"] zeros by (simp add: rb_serialize_def)
  next
    case False
    have "write_entries (entry_offsets ?cap 8 ?es) 0 ?es (replicate ?cap 0) =
        Ok (replicate 8 0 @ layout 8 ?es @ replicate (?cap - (8 + total_size ?es)) 0)"
      unfolding zeros using write_entries_layout [OF assms, of "replicate 8 0" "[]"] by simp
    then show ?thesis using False header by (simp add: rb_serialize_def Let_def)
  qed
qed

lemma parse_layout:
  assumes "es \<noteq> []" and "\<forall>e \<in> set es. log_entry_ok e" and "8 \<le> off" and "length pre = off"
    and "off + total_size es < 2 ^ 32" and "\<forall>v \<in> set visited. 8 \<le> v \<and> v < off"
  shows "parse_entries (pre @ layout off es @ rest) 8 off visited acc = Ok (acc @ es)"
  using assms
proof (induction es arbitrary: off pre visited acc)
  case Nil
  then show ?case by simp
next
  case (Cons e es)
  let ?off = "off + aligned_size e"
  let ?prev = "if es = [] then 0 else of_nat ?off :: u32"
  define bs where "bs = entry_serialize e ?prev (of_nat ?off) @ replicate (aligned_size e - entry_size e) 0"
  let ?data = "pre @ layout off (e # es) @ rest"
  have len: "length bs = aligned_size e" using aligned_size_bounds(1) [of e] by (simp add: bs_def)
  have data: "?data = (pre @ bs) @ layout ?off es @ rest" by (simp add: bs_def)
  have entry: "entry_deserialize (drop off ?data) = Ok (e, ?prev, of_nat ?off)"
    using entry_roundtrip [of e ?prev "of_nat ?off"] Cons.prems(2,4) by simp
  have prev: "unat ?prev = (if es = [] then 0 else ?off)" using Cons.prems(5) by (simp add: unat_of_nat del: of_nat_add)
  have "off \<notin> set visited" "off \<noteq> 0" "\<not> length ?data \<le> off"
    using Cons.prems(3,4,6) len aligned_size_bounds(3) [of e] unfolding data by auto
  then have step: "parse_entries ?data 8 off visited acc = parse_entries ?data 8 (unat ?prev) (off # visited) (acc @ [e])"
    using entry prev Cons.prems(3) by (subst parse_entries.simps) auto
  show ?case
  proof (cases "es = []")
    case True
    have "0 \<notin> set (off # visited)" using Cons.prems(3,6) by auto
    then show ?thesis using step prev True by (simp add: parse_entries.simps)
  next
    case False
    have "parse_entries ((pre @ bs) @ layout ?off es @ rest) 8 ?off (off # visited) (acc @ [e]) = Ok ((acc @ [e]) @ es)"
      by (rule Cons.IH) (use False Cons.prems len aligned_size_bounds(3) [of e] in auto)
    then show ?thesis using step prev False unfolding data by simp
  qed
qed

lemma rb_roundtrip:
  assumes "rb_inv b" and "\<forall>e \<in> set (rb_entries b). log_entry_ok e"
    and "8 + total_size (rb_entries b) \<le> rb_capacity b" and "rb_capacity b < 2 ^ 32"
  shows "\<exists>bs. rb_serialize b = Ok bs \<and> rb_deserialize bs = Ok b"
proof -
  let ?es = "rb_entries b" and ?cap = "rb_capacity b"
  let ?H = "u32_to_le (of_nat ?cap) @ u32_to_le (if ?es = [] then 0 else 8)"
  let ?R = "replicate (?cap - (8 + total_size ?es)) 0"
  define bs where "bs = ?H @ layout 8 ?es @ ?R"
  have len: "length bs = ?cap" using assms(3) by (simp add: bs_def length_layout)
  have fields: "slice 0 4 bs = u32_to_le (of_nat ?cap)" "slice 4 8 bs = u32_to_le (if ?es = [] then 0 else 8)"
    by (simp_all add: bs_def slice_def)
  have cap: "unat (of_nat ?cap :: u32) = ?cap" using assms(4) by (simp add: unat_of_nat)
  have empty: "?es = [] \<Longrightarrow> rb_new ?cap = b"
    using rb_new_capacity [OF assms(1)] assms(1) by (simp add: rb_inv_def)
  have new: "(rb_new ?cap)\<lparr>rb_entries := ?es, rb_current_size := total_size ?es\<rparr> = b"
    using rb_new_capacity [OF assms(1)] assms(1) by (simp add: rb_inv_def)
  have parse: "parse_entries bs 8 8 [] [] = Ok ?es" if "?es \<noteq> []"
    using parse_layout [OF that assms(2), of 8 ?H "[]" ?R "[]"] assms(3,4) by (simp add: bs_def)
  have "8 < ?cap" using assms(1) by (simp add: rb_inv_def CLOG_MAX_ENTRY_SIZE_def)
  then have "rb_deserialize bs = Ok b"
    using len new empty parse unfolding rb_deserialize_def Let_def fields of_le_to_le cap by (cases "?es = []") auto
  then show ?thesis using rb_serialize_layout [OF assms(3,4)] by (simp add: bs_def)
qed

text \<open>The header needs eight bytes that the size accounting of the buffer does not reserve.\<close>

lemma entry_offsets_short: "cap < off + total_size es \<Longrightarrow> es \<noteq> [] \<Longrightarrow> length (entry_offsets cap off es) < length es"
proof (induction es arbitrary: off)
  case Nil
  then show ?case by simp
next
  case (Cons e es)
  then show ?case by (cases "es = []") auto
qed

lemma rb_serialize_panics:
  assumes "rb_entries b \<noteq> []" and "rb_capacity b < 8 + total_size (rb_entries b)"
  shows "rb_serialize b = Panic"
  using write_entries_panics [of 0 _ "rb_entries b"] entry_offsets_short [OF assms(2,1)] assms(1)
  by (simp add: rb_serialize_def Let_def)

section \<open>Arbitrary input\<close>

lemma entry_deserialize_no_panic [simp]: "entry_deserialize data \<noteq> Panic"
  by (simp add: entry_deserialize_def Let_def)

lemma parse_entries_bounded:
  "(case parse_entries data c pos visited es of
      Ok es' \<Rightarrow> length es' + card (set visited) \<le> length es + card (set visited \<union> {..<length data})
    | Err _ \<Rightarrow> True | Panic \<Rightarrow> False)"
proof (induction data c pos visited es rule: parse_entries.induct)
  case (1 data c pos visited es)
  have le: "card (set visited) \<le> card (set visited \<union> {..<length data})" by (rule card_mono) auto
  show ?case
  proof (cases "pos \<in> set visited \<or> pos = 0 \<or> pos \<ge> length data")
    case True
    then show ?thesis using le by (subst parse_entries.simps) auto
  next
    case False
    then have c: "card (set (pos # visited)) = Suc (card (set visited))"
        "set (pos # visited) \<union> {..<length data} = set visited \<union> {..<length data}" by auto
    have le': "Suc (card (set visited)) \<le> card (set visited \<union> {..<length data})"
      using c card_mono [of "set visited \<union> {..<length data}" "set (pos # visited)"] False by auto
    show ?thesis
    proof (cases "entry_deserialize (drop pos data)")
      case (Ok x)
      obtain entry prev nxt where x: "x = (entry, prev, nxt)" by (cases x)
      show ?thesis
      proof (cases "pos < unat prev \<and> unat prev \<le> c")
        case True
        then show ?thesis using False Ok x le' by (subst parse_entries.simps) auto
      next
        case stop: False
        have "parse_entries data c pos visited es = parse_entries data c (unat prev) (pos # visited) (es @ [entry])"
          using False Ok x stop by (subst parse_entries.simps) auto
        moreover have "(case parse_entries data c (unat prev) (pos # visited) (es @ [entry]) of
            Ok es' \<Rightarrow> length es' + card (set (pos # visited)) \<le>
              length (es @ [entry]) + card (set (pos # visited) \<union> {..<length data})
          | Err _ \<Rightarrow> True | Panic \<Rightarrow> False)"
          by (rule 1) (use False Ok x stop in simp_all)
        ultimately show ?thesis unfolding c by (simp split: res.splits)
      qed
    qed (use False in \<open>subst parse_entries.simps; simp\<close>)+
  qed
qed

lemma rb_deserialize_bounded:
  "rb_deserialize data \<noteq> Panic"
  "rb_deserialize data = Ok b \<Longrightarrow> rb_inv b \<and> length (rb_entries b) \<le> length data"
proof -
  have p: "(case parse_entries data c c [] [] of Ok es \<Rightarrow> length es \<le> length data | Err _ \<Rightarrow> True | Panic \<Rightarrow> False)" for c
    using parse_entries_bounded [where data = data and c = c and pos = c and visited = "[]" and es = "[]"] by (auto split: res.splits)
  have np: "parse_entries data c c [] [] \<noteq> Panic" for c
    using p [of c] by (cases "parse_entries data c c [] []") simp_all
  show "rb_deserialize data \<noteq> Panic"
    using np by (auto simp: rb_deserialize_def Let_def split: res.splits)
  assume "rb_deserialize data = Ok b"
  then show "rb_inv b \<and> length (rb_entries b) \<le> length data"
    using p [of "unat (u32_of_le (slice 4 8 data))"] rb_inv_new [of "length data"]
    by (auto simp: rb_deserialize_def Let_def rb_inv_def split: res.splits if_splits)
qed

end
