(* ===== verification/Cluster_Log.thy ===== *)
theory Cluster_Log
  imports Log_Buffer
begin

text \<open>
  The cluster log (\<open>pmxcfs-logger/src/cluster_log.rs\<close>): a ring buffer with a record of the last entry
  of every node, which keeps duplicates out, and the merge of the logs of several nodes.
\<close>

section \<open>Operations\<close>

record DedupEntry =
  dd_uid :: u32
  dd_time :: u32

record ClusterLog =
  cl_buffer :: RingBuffer
  cl_dedup :: "(u64, DedupEntry) hmap"

definition log_with_capacity :: "nat \<Rightarrow> ClusterLog" where
  "log_with_capacity capacity = \<lparr>cl_buffer = rb_new capacity, cl_dedup = []\<rparr>"

definition log_new :: ClusterLog where
  "log_new = log_with_capacity CLOG_DEFAULT_SIZE"

definition is_not_duplicate :: "(u64, DedupEntry) hmap \<Rightarrow> LogEntry \<Rightarrow> bool \<times> (u64, DedupEntry) hmap" where
  "is_not_duplicate dedup entry =
     (let new = \<lparr>dd_uid = le_uid entry, dd_time = le_time entry\<rparr> in
      case hm_get dedup (le_node_digest entry) of
        None \<Rightarrow> (True, hm_insert (le_node_digest entry) new dedup)
      | Some dd \<Rightarrow>
          if le_time entry > dd_time dd \<or> (le_time entry = dd_time dd \<and> le_uid entry > dd_uid dd)
          then (True, hm_insert (le_node_digest entry) new dedup)
          else (False, dedup))"

definition log_insert :: "LogEntry \<Rightarrow> ClusterLog \<Rightarrow> ClusterLog" where
  "log_insert entry l =
     (case is_not_duplicate (cl_dedup l) entry of
        (is_new, dedup) \<Rightarrow>
          if is_new then l\<lparr>cl_dedup := dedup, cl_buffer := add_entry entry (cl_buffer l)\<rparr>
          else l\<lparr>cl_dedup := dedup\<rparr>)"

text \<open>The log and the global counter of entry numbers.\<close>

definition log_add ::
  "string \<Rightarrow> string \<Rightarrow> string \<Rightarrow> u32 \<Rightarrow> u8 \<Rightarrow> u32 \<Rightarrow> string \<Rightarrow> ClusterLog \<times> u32
   \<Rightarrow> (log_error, unit) res \<times> ClusterLog \<times> u32" where
  "log_add node ident tag pid priority time msg lu =
     (case pack node ident tag pid time priority msg (snd lu) of
        (Ok entry, uid) \<Rightarrow> (Ok (), log_insert entry (fst lu), uid)
      | (Err e, uid) \<Rightarrow> (Err e, fst lu, uid)
      | (Panic, uid) \<Rightarrow> (Panic, fst lu, uid))"

definition get_entries :: "nat \<Rightarrow> ClusterLog \<Rightarrow> LogEntry list" where
  "get_entries max_entries l = take max_entries (rb_entries (cl_buffer l))"

definition log_clear :: "ClusterLog \<Rightarrow> ClusterLog" where
  "log_clear l = \<lparr>cl_buffer = rb_new (rb_capacity (cl_buffer l)), cl_dedup = []\<rparr>"

definition log_sort :: "ClusterLog \<Rightarrow> RingBuffer" where
  "log_sort l = rb_sort (cl_buffer l)"

text \<open>The vacant-entry guard: the first entry with a key stays.\<close>

definition merge_insert ::
  "LogEntry \<Rightarrow> ((u32 \<times> u64 \<times> u32) \<times> LogEntry) list \<times> (u64, DedupEntry) hmap
   \<Rightarrow> ((u32 \<times> u64 \<times> u32) \<times> LogEntry) list \<times> (u64, DedupEntry) hmap" where
  "merge_insert entry acc =
     (case acc of (sorted_entries, dedup) \<Rightarrow>
        if map_of sorted_entries (log_key entry) = None
        then (bt_insert (log_key entry) entry sorted_entries, snd (is_not_duplicate dedup entry))
        else (sorted_entries, dedup))"

definition max_or_default :: "nat list \<Rightarrow> nat" where
  "max_or_default caps = (case caps of [] \<Rightarrow> CLOG_DEFAULT_SIZE | c # cs \<Rightarrow> fold max cs c)"

definition log_merge :: "RingBuffer list \<Rightarrow> bool \<Rightarrow> ClusterLog \<Rightarrow> ClusterLog" where
  "log_merge remote_logs include_local l =
     (let max_size = (if include_local
                      then max_or_default (rb_capacity (cl_buffer l) # map rb_capacity remote_logs)
                      else max_or_default (map rb_capacity remote_logs));
          local = (if include_local then fold merge_insert (rb_entries (cl_buffer l)) ([], []) else ([], []));
          (sorted_entries, dedup) = fold (\<lambda>b. fold merge_insert (rb_entries b)) remote_logs local
      in \<lparr>cl_buffer = fold add_entry (map snd sorted_entries) (rb_new max_size), cl_dedup = dedup\<rparr>)"

definition log_get_state :: "ClusterLog \<Rightarrow> (unit, byte list) res" where
  "log_get_state l = rb_serialize (log_sort l)"

definition log_deserialize_state :: "byte list \<Rightarrow> (log_error, RingBuffer) res" where
  "log_deserialize_state data = rb_deserialize data"

section \<open>Duplicates\<close>

text \<open>The number of an entry among the entries of its node, and the last one on record.\<close>

definition stamp :: "LogEntry \<Rightarrow> u32 \<times> u32" where
  "stamp e = (le_time e, le_uid e)"

definition last_stamp :: "(u64, DedupEntry) hmap \<Rightarrow> u64 \<Rightarrow> (u32 \<times> u32) option" where
  "last_stamp dedup n = map_option (\<lambda>d. (dd_time d, dd_uid d)) (hm_get dedup n)"

definition of_node :: "u64 \<Rightarrow> LogEntry list \<Rightarrow> LogEntry list" where
  "of_node n es = filter (\<lambda>e. le_node_digest e = n) es"

lemma of_node_simps [simp]:
  "of_node n [] = []" "of_node n (e # es) = (if le_node_digest e = n then e # of_node n es else of_node n es)"
  "of_node n (es @ fs) = of_node n es @ of_node n fs"
  by (auto simp: of_node_def)

lemma in_of_node: "e \<in> set (of_node n es) \<longleftrightarrow> e \<in> set es \<and> le_node_digest e = n"
  by (auto simp: of_node_def)

lemma is_not_duplicate_fst:
  "fst (is_not_duplicate dedup e) \<longleftrightarrow>
     (case last_stamp dedup (le_node_digest e) of None \<Rightarrow> True | Some s \<Rightarrow> s < stamp e)"
  by (auto simp: is_not_duplicate_def last_stamp_def stamp_def Let_def split: option.splits)

lemma is_not_duplicate_snd:
  "last_stamp (snd (is_not_duplicate dedup e)) n =
     (if n = le_node_digest e
      then Some (case last_stamp dedup n of None \<Rightarrow> stamp e | Some s \<Rightarrow> max s (stamp e))
      else last_stamp dedup n)"
  by (auto simp: is_not_duplicate_def last_stamp_def stamp_def Let_def max_def split: option.splits)

text \<open>
  The entries of a node are in strictly descending order, newest first, and none is newer than the
  record of the node.
\<close>

definition log_inv :: "ClusterLog \<Rightarrow> bool" where
  "log_inv l \<longleftrightarrow> rb_inv (cl_buffer l) \<and>
     (\<forall>n. sorted_wrt (>) (map stamp (of_node n (rb_entries (cl_buffer l)))) \<and>
        (\<forall>e \<in> set (of_node n (rb_entries (cl_buffer l))).
           \<exists>s. last_stamp (cl_dedup l) n = Some s \<and> stamp e \<le> s))"


lemma make_room_prefix:
  "\<exists>p rest. es = p @ rest \<and> make_room cap need (total_size es) es = (total_size p, p)"
proof (induction es rule: rev_induct)
  case Nil
  then show ?case by (simp add: make_room.simps)
next
  case (snoc e es)
  then obtain p rest where p: "es = p @ rest" "make_room cap need (total_size es) es = (total_size p, p)" by blast
  show ?case
  proof (cases "total_size (es @ [e]) + need > cap")
    case True
    then have "make_room cap need (total_size (es @ [e])) (es @ [e]) = make_room cap need (total_size es) es"
      by (subst make_room.simps) simp
    with p have "es @ [e] = p @ (rest @ [e]) \<and> make_room cap need (total_size (es @ [e])) (es @ [e]) = (total_size p, p)"
      by simp
    then show ?thesis by blast
  next
    case False
    then have "make_room cap need (total_size (es @ [e])) (es @ [e]) = (total_size (es @ [e]), es @ [e])"
      by (subst make_room.simps) simp
    then show ?thesis by blast
  qed
qed

lemma add_entry_prefix:
  assumes "rb_inv b"
  obtains p rest where "rb_entries b = p @ rest" "rb_entries (add_entry e b) = e # p" "rb_inv (add_entry e b)"
proof -
  obtain p rest where "rb_entries b = p @ rest"
      "make_room (rb_capacity b) (aligned_size e) (total_size (rb_entries b)) (rb_entries b) = (total_size p, p)"
    using make_room_prefix by blast
  with assms show thesis by (intro that) (simp_all add: add_entry_def rb_inv_def)
qed

lemma fold_add_prefix:
  "rb_inv b \<Longrightarrow> \<exists>rest. rev es @ rb_entries b = rb_entries (fold add_entry es b) @ rest \<and> rb_inv (fold add_entry es b)"
proof (induction es arbitrary: b)
  case Nil
  then show ?case by simp
next
  case (Cons e es)
  obtain p rest where p: "rb_entries b = p @ rest" "rb_entries (add_entry e b) = e # p" "rb_inv (add_entry e b)"
    using add_entry_prefix [OF Cons.prems] by metis
  from Cons.IH [OF p(3)] obtain rest' where
    "rev es @ e # p = rb_entries (fold add_entry es (add_entry e b)) @ rest'"
    "rb_inv (fold add_entry es (add_entry e b))" using p(2) by auto
  moreover from this(1) have "rev (e # es) @ rb_entries b = rb_entries (fold add_entry es (add_entry e b)) @ rest' @ rest"
    using p(1) by simp
  ultimately show ?case by auto
qed

section \<open>The invariant\<close>

lemma log_invD:
  assumes "log_inv l"
  shows "rb_inv (cl_buffer l)" "sorted_wrt (>) (map stamp (of_node n (rb_entries (cl_buffer l))))"
    "e \<in> set (rb_entries (cl_buffer l)) \<Longrightarrow>
       \<exists>s. last_stamp (cl_dedup l) (le_node_digest e) = Some s \<and> stamp e \<le> s"
  using assms by (auto simp: log_inv_def of_node_def)

lemma log_inv_empty: "log_inv \<lparr>cl_buffer = rb_new cap, cl_dedup = []\<rparr>"
  by (simp add: log_inv_def)

lemma log_clear_inv: "log_inv (log_clear l)"
  by (simp add: log_clear_def log_inv_empty)

lemma log_insert_inv:
  assumes "log_inv l"
  shows "log_inv (log_insert e l)"
proof -
  note inv = log_invD [OF assms]
  let ?dd = "snd (is_not_duplicate (cl_dedup l) e)"
  have mono: "\<exists>s'. last_stamp ?dd n = Some s' \<and> s \<le> s'" if "last_stamp (cl_dedup l) n = Some s" for n s
    using that by (auto simp: is_not_duplicate_snd simp del: split_paired_Ex)
  show ?thesis
  proof (cases "fst (is_not_duplicate (cl_dedup l) e)")
    case True
    obtain p rest where p: "rb_entries (cl_buffer l) = p @ rest" "rb_entries (add_entry e (cl_buffer l)) = e # p"
        "rb_inv (add_entry e (cl_buffer l))"
      using add_entry_prefix [OF inv(1)] by metis
    have less: "stamp f < stamp e" if "f \<in> set (of_node (le_node_digest e) p)" for f
    proof -
      have f: "f \<in> set (rb_entries (cl_buffer l))" "le_node_digest f = le_node_digest e"
        using that p(1) by (auto simp: of_node_def)
      obtain s where "last_stamp (cl_dedup l) (le_node_digest e) = Some s" "stamp f \<le> s"
        using inv(3) [OF f(1)] f(2) by auto
      then show ?thesis using True by (auto simp: is_not_duplicate_fst)
    qed
    have sorted: "sorted_wrt (>) (map stamp (of_node n (e # p)))" for n
      using inv(2) [of n] less p(1) by (auto simp: sorted_wrt_append)
    have new: "\<exists>s. last_stamp ?dd (le_node_digest e) = Some s \<and> stamp e \<le> s"
      by (auto simp: is_not_duplicate_snd simp del: split_paired_Ex split: option.splits)
    have bound: "\<exists>s. last_stamp ?dd n = Some s \<and> stamp f \<le> s" if "f \<in> set (of_node n (e # p))" for n f
    proof (cases "f = e")
      case True
      then show ?thesis using that new by (simp add: in_of_node del: of_node_simps)
    next
      case False
      then have "f \<in> set (rb_entries (cl_buffer l))" "le_node_digest f = n"
        using that p(1) by (auto simp: in_of_node simp del: of_node_simps)
      then obtain s where "last_stamp (cl_dedup l) n = Some s" "stamp f \<le> s" using inv(3) by blast
      then show ?thesis using mono order_trans by meson
    qed
    have "log_insert e l = l\<lparr>cl_dedup := ?dd, cl_buffer := add_entry e (cl_buffer l)\<rparr>"
      using True by (simp add: log_insert_def case_prod_beta)
    then show ?thesis using p(2,3) sorted bound unfolding log_inv_def by (simp del: of_node_simps)
  next
    case False
    then have "log_insert e l = l\<lparr>cl_dedup := ?dd\<rparr>" by (simp add: log_insert_def case_prod_beta)
    moreover have "\<exists>s. last_stamp ?dd n = Some s \<and> stamp f \<le> s" if "f \<in> set (of_node n (rb_entries (cl_buffer l)))" for n f
      using that inv(3) [of f] mono order_trans by (fastforce simp: of_node_def)
    ultimately show ?thesis using inv unfolding log_inv_def by simp
  qed
qed


section \<open>Merge\<close>

text \<open>All entries in the order in which the merge sees them, and the newest one of a node.\<close>

definition merged_entries :: "RingBuffer list \<Rightarrow> bool \<Rightarrow> ClusterLog \<Rightarrow> LogEntry list" where
  "merged_entries remote_logs include_local l =
     (if include_local then rb_entries (cl_buffer l) else []) @ concat (map rb_entries remote_logs)"

definition merged_capacity :: "RingBuffer list \<Rightarrow> bool \<Rightarrow> ClusterLog \<Rightarrow> nat" where
  "merged_capacity remote_logs include_local l =
     rb_capacity (rb_new (max_or_default ((if include_local then [rb_capacity (cl_buffer l)] else []) @
       map rb_capacity remote_logs)))"

definition newest :: "u64 \<Rightarrow> LogEntry list \<Rightarrow> (u32 \<times> u32) option" where
  "newest n es = (if of_node n es = [] then None else Some (Max (stamp ` set (of_node n es))))"

lemma fold_concat: "fold (\<lambda>b. fold f (g b)) bs acc = fold f (concat (map g bs)) acc"
  by (induction bs arbitrary: acc) simp_all

lemma log_merge_fold:
  "log_merge remote_logs include_local l =
     (case fold merge_insert (merged_entries remote_logs include_local l) ([], []) of (m, dedup) \<Rightarrow>
        \<lparr>cl_buffer = fold add_entry (map snd m) (rb_new (max_or_default
            ((if include_local then [rb_capacity (cl_buffer l)] else []) @ map rb_capacity remote_logs))),
         cl_dedup = dedup\<rparr>)"
  by (simp add: log_merge_def merged_entries_def fold_concat Let_def)

lemma newest_snoc:
  "newest n (es @ [e]) =
     (if n = le_node_digest e then Some (case newest n es of None \<Rightarrow> stamp e | Some s \<Rightarrow> max s (stamp e))
      else newest n es)"
  by (auto simp: newest_def max.commute)

lemma newest_known:
  assumes "f \<in> set es" and "log_key f = log_key e"
  shows "newest n (es @ [e]) = newest n es"
proof -
  have f: "stamp f = stamp e" "f \<in> set (of_node (le_node_digest e) es)"
    using assms by (auto simp: log_key_def stamp_def in_of_node)
  then have "stamp e \<le> Max (stamp ` set (of_node (le_node_digest e) es))"
    by (intro Max_ge) (simp, metis imageI)
  then show ?thesis using f(2) by (auto simp: newest_snoc newest_def max_def)
qed

lemma find_append: "find P (xs @ ys) = (case find P xs of None \<Rightarrow> find P ys | Some x \<Rightarrow> Some x)"
  by (induction xs) auto

lemma merge_fold:
  obtains m dd where "fold merge_insert es ([], []) = (m, dd)" "bt_ok m"
    "\<And>k. map_of m k = find (\<lambda>e. log_key e = k) es" "\<And>n. last_stamp dd n = newest n es"
proof -
  have "\<exists>m dd. fold merge_insert es ([], []) = (m, dd) \<and> bt_ok m \<and>
      (\<forall>k. map_of m k = find (\<lambda>e. log_key e = k) es) \<and> (\<forall>n. last_stamp dd n = newest n es)"
  proof (induction es rule: rev_induct)
    case Nil
    then show ?case by (simp add: newest_def last_stamp_def)
  next
    case (snoc e es)
    then obtain m dd where IH: "fold merge_insert es ([], []) = (m, dd)" "bt_ok m"
        "\<And>k. map_of m k = find (\<lambda>e. log_key e = k) es" "\<And>n. last_stamp dd n = newest n es" by blast
    show ?case
    proof (cases "map_of m (log_key e)")
      case None
      let ?dd = "snd (is_not_duplicate dd e)"
      have "fold merge_insert (es @ [e]) ([], []) = (bt_insert (log_key e) e m, ?dd)"
        using IH(1) None by (simp add: merge_insert_def)
      moreover have "map_of (bt_insert (log_key e) e m) k = find (\<lambda>e. log_key e = k) (es @ [e])" for k
        using IH(3) None by (auto simp: map_of_bt_insert [OF IH(2)] find_append split: option.splits)
      moreover have "last_stamp ?dd n = newest n (es @ [e])" for n
        by (simp add: is_not_duplicate_snd newest_snoc IH(4))
      ultimately show ?thesis using bt_ok_insert [OF IH(2)] by blast
    next
      case (Some f)
      then have "find (\<lambda>g. log_key g = log_key e) es = Some f" using IH(3) by simp
      then have f: "f \<in> set es" "log_key f = log_key e" by (auto simp: find_Some_iff)
      have "fold merge_insert (es @ [e]) ([], []) = (m, dd)" using IH(1) Some by (simp add: merge_insert_def)
      moreover have "map_of m k = find (\<lambda>e. log_key e = k) (es @ [e])" for k
        using IH(3) Some by (auto simp: find_append split: option.splits)
      moreover have "last_stamp dd n = newest n (es @ [e])" for n
        using newest_known [OF f] IH(4) by simp
      ultimately show ?thesis using IH(2) by blast
    qed
  qed
  then show thesis using that by blast
qed

text \<open>The merged entries, newest first: one entry per key, the first one that the merge saw.\<close>

definition merge_result :: "LogEntry list \<Rightarrow> LogEntry list" where
  "merge_result es = rev (map snd (fst (fold merge_insert es ([], []))))"

lemma merge_result_spec:
  "sorted_wrt (\<lambda>a b. log_key a > log_key b) (merge_result es)"
  "e \<in> set (merge_result es) \<longleftrightarrow> find (\<lambda>f. log_key f = log_key e) es = Some e"
proof -
  obtain m dd where m: "fold merge_insert es ([], []) = (m, dd)" "bt_ok m"
      "\<And>k. map_of m k = find (\<lambda>e. log_key e = k) es"
    using merge_fold by metis
  have key: "log_key e = k" if "(k, e) \<in> set m" for k e
    using that map_of_is_SomeI [OF bt_ok_distinct [OF m(2)], of k e] m(3) [of k] by (auto simp: find_Some_iff)
  then have fst: "map fst m = map log_key (map snd m)" by (auto intro!: map_cong)
  have res: "merge_result es = rev (map snd m)" by (simp add: merge_result_def m(1))
  show "sorted_wrt (\<lambda>a b. log_key a > log_key b) (merge_result es)"
    using m(2) unfolding res bt_ok_def fst by (simp add: sorted_wrt_map sorted_wrt_rev)
  have "e \<in> set (merge_result es) \<longleftrightarrow> map_of m (log_key e) = Some e"
    unfolding res map_of_eq_Some_iff [OF bt_ok_distinct [OF m(2)]] using key by force
  then show "e \<in> set (merge_result es) \<longleftrightarrow> find (\<lambda>f. log_key f = log_key e) es = Some e" using m(3) by simp
qed

lemma merge_result_subset: "set (merge_result es) \<subseteq> set es"
  using merge_result_spec(2) by (auto simp: find_Some_iff)

lemma merge_result_keys: "log_key ` set (merge_result es) = log_key ` set es"
proof -
  have "log_key e \<in> log_key ` set (merge_result es)" if "e \<in> set es" for e
  proof -
    obtain f where f: "find (\<lambda>f. log_key f = log_key e) es = Some f"
      using \<open>e \<in> set es\<close> by (cases "find (\<lambda>f. log_key f = log_key e) es") (auto simp: find_None_iff)
    then have "log_key f = log_key e" by (auto simp: find_Some_iff)
    with f show ?thesis using merge_result_spec(2) [of f es] by (metis imageI)
  qed
  then show ?thesis using merge_result_subset by blast
qed


lemma log_merge_parts:
  "rb_inv (cl_buffer (log_merge rs il l))"
  "rb_capacity (cl_buffer (log_merge rs il l)) = merged_capacity rs il l"
  "\<exists>rest. merge_result (merged_entries rs il l) = rb_entries (cl_buffer (log_merge rs il l)) @ rest"
  "last_stamp (cl_dedup (log_merge rs il l)) n = newest n (merged_entries rs il l)"
  "\<forall>e \<in> set (merged_entries rs il l). aligned_size e \<le> merged_capacity rs il l \<Longrightarrow>
     rb_entries (cl_buffer (log_merge rs il l)) =
       fitting (merged_capacity rs il l) (merge_result (merged_entries rs il l))"
proof -
  let ?es = "merged_entries rs il l"
  obtain m dd where m: "fold merge_insert ?es ([], []) = (m, dd)" "\<And>n. last_stamp dd n = newest n ?es"
    using merge_fold by metis
  let ?new = "rb_new (max_or_default ((if il then [rb_capacity (cl_buffer l)] else []) @ map rb_capacity rs))"
  have l: "log_merge rs il l = \<lparr>cl_buffer = fold add_entry (map snd m) ?new, cl_dedup = dd\<rparr>"
    by (simp add: log_merge_fold m(1))
  have cap: "rb_capacity (fold add_entry es b) = rb_capacity b" for es b
    by (induction es arbitrary: b) simp_all
  have res: "merge_result ?es = rev (map snd m)" by (simp add: merge_result_def m(1))
  have new: "rb_capacity ?new = merged_capacity rs il l" by (simp add: merged_capacity_def)
  show "rb_inv (cl_buffer (log_merge rs il l))"
      "\<exists>rest. merge_result ?es = rb_entries (cl_buffer (log_merge rs il l)) @ rest"
    using fold_add_prefix [OF rb_inv_new, of "map snd m"] by (auto simp: l res)
  show "rb_capacity (cl_buffer (log_merge rs il l)) = merged_capacity rs il l" by (simp add: l cap new)
  show "last_stamp (cl_dedup (log_merge rs il l)) n = newest n ?es" by (simp add: l m(2))
  assume "\<forall>e \<in> set ?es. aligned_size e \<le> merged_capacity rs il l"
  then have "\<forall>e \<in> set (map snd m). aligned_size e \<le> rb_capacity ?new"
    using merge_result_subset [of ?es] unfolding res new by auto
  from fold_add_new(3) [OF this] show "rb_entries (cl_buffer (log_merge rs il l)) =
      fitting (merged_capacity rs il l) (merge_result ?es)"
    by (simp add: l res new)
qed

lemma descending_of_node:
  "sorted_wrt (\<lambda>a b. log_key a > log_key b) es \<Longrightarrow> sorted_wrt (>) (map stamp (of_node n es))"
  by (induction es) (auto simp: log_key_def stamp_def in_of_node)

lemma log_merge_inv: "log_inv (log_merge rs il l)"
proof -
  let ?es = "merged_entries rs il l" and ?B = "rb_entries (cl_buffer (log_merge rs il l))"
  obtain rest where rest: "merge_result ?es = ?B @ rest" using log_merge_parts(3) by blast
  have "sorted_wrt (\<lambda>a b. log_key a > log_key b) ?B"
    using merge_result_spec(1) [of ?es] unfolding rest by (simp add: sorted_wrt_append)
  then have "sorted_wrt (>) (map stamp (of_node n ?B))" for n
    by (rule descending_of_node)
  moreover have "\<exists>s. newest n ?es = Some s \<and> stamp e \<le> s" if "e \<in> set (of_node n ?B)" for n e
  proof -
    have "e \<in> set (of_node n ?es)"
      using that merge_result_subset [of ?es] unfolding rest by (auto simp: in_of_node)
    then show ?thesis by (auto simp: newest_def simp del: split_paired_Ex intro!: Max_ge)
  qed
  ultimately show ?thesis unfolding log_inv_def using log_merge_parts(1,4) by metis
qed

text \<open>The entries of a log have different keys.\<close>

lemma log_inv_distinct:
  assumes "log_inv l"
  shows "distinct (map log_key (rb_entries (cl_buffer l)))"
proof -
  have "distinct (map log_key es)" if "\<And>n. sorted_wrt (>) (map stamp (of_node n es))" for es
    using that
  proof (induction es)
    case Nil
    then show ?case by simp
  next
    case (Cons e es)
    have "sorted_wrt (>) (map stamp (of_node n es))" for n
      using Cons.prems [of n] by (simp split: if_splits)
    moreover have "log_key e \<noteq> log_key f" if "f \<in> set es" for f
      using Cons.prems [of "le_node_digest e"] that by (auto simp: log_key_def stamp_def in_of_node)
    ultimately show ?case using Cons.IH by auto
  qed
  then show ?thesis using log_invD(2) [OF assms] by blast
qed

section \<open>Every history of a log\<close>

inductive log_history :: "ClusterLog \<Rightarrow> bool" where
  Created: "log_history (log_with_capacity cap)"
| Inserted: "log_history l \<Longrightarrow> log_history (log_insert e l)"
| Merged: "log_history l \<Longrightarrow> log_history (log_merge remote_logs include_local l)"
| Cleared: "log_history l \<Longrightarrow> log_history (log_clear l)"

lemma log_history_inv: "log_history l \<Longrightarrow> log_inv l"
  by (induction rule: log_history.induct)
    (simp_all add: log_with_capacity_def log_inv_empty log_insert_inv log_merge_inv log_clear_inv)

end
