(* ===== verification/Cluster_Status.thy ===== *)
theory Cluster_Status
  imports Vm_List Dfsm_Machine Cluster_Log
begin

text \<open>
  The status of the cluster (\<open>pmxcfs-status/src/status.rs\<close> and \<open>types.rs\<close>): nodes and their online
  state, membership, quorum, the key-value data of the nodes, the registry of virtual machines and
  the version counters that tell clients what to read again, the status data of the local node, the
  cluster log and the cache of RRD data. The writer of RRD files is the optional member of the struct
  that is absent here (\<open>Status::new(config, None)\<close>); the global counter of log entries is a field.
\<close>

section \<open>State\<close>

record ClusterNode =
  cn_name :: string
  cn_node_id :: u32
  cn_ip :: string
  cn_online :: bool

record ClusterInfo =
  ci_cluster_name :: string
  ci_config_version :: u64
  ci_nodes_by_id :: "(u32, ClusterNode) hmap"
  ci_nodes_by_name :: "(string, u32) hmap"

record NodeStatus =
  ns_name :: string
  ns_data :: "byte list"
  ns_timestamp :: u64

record RrdEntry =
  rrd_key :: string
  rrd_data :: string
  rrd_timestamp :: u64

record Status =
  st_nodename :: string \<comment> \<open>of the configuration\<close>
  st_cluster_info :: "ClusterInfo option"
  st_cluster_version :: u64
  st_vmlist_version :: u64
  st_vminfo_version_counter :: u64
  st_path_versions :: "(string, u64) hmap"
  st_node_status :: "(string, NodeStatus) hmap"
  st_cluster_log :: ClusterLog
  st_uid_counter :: u32 \<comment> \<open>the static \<open>UID_COUNTER\<close> of the log\<close>
  st_rrd_data :: "(string, RrdEntry) hmap"
  st_rrd_dump_cache :: "(u64 \<times> string) option"
  st_vmlist :: "(u32, VmEntry) hmap"
  st_quorate :: bool
  st_members :: "MemberInfo list"
  st_start_time :: u64
  st_kvstore :: "(u32, (string, byte list \<times> u32) hmap) hmap"
  st_node_ips :: "(string, string) hmap"

definition common_paths :: "string list" where
  "common_paths =
     [''corosync.conf'', ''corosync.conf.new'', ''storage.cfg'', ''user.cfg'', ''domains.cfg'',
      ''notifications.cfg'', ''priv/notifications.cfg'', ''priv/shadow.cfg'', ''priv/acme/plugins.cfg'',
      ''priv/tfa.cfg'', ''priv/token.cfg'', ''datacenter.cfg'', ''vzdump.cron'', ''vzdump.conf'', ''jobs.cfg'',
      ''ha/crm_commands'', ''ha/manager_status'', ''ha/resources.cfg'', ''ha/rules.cfg'', ''ha/groups.cfg'',
      ''ha/fence.cfg'', ''status.cfg'', ''replication.cfg'', ''ceph.conf'', ''sdn/vnets.cfg'', ''sdn/zones.cfg'',
      ''sdn/controllers.cfg'', ''sdn/subnets.cfg'', ''sdn/ipams.cfg'', ''sdn/mac-cache.json'',
      ''sdn/pve-ipam-state.json'', ''sdn/dns.cfg'', ''sdn/fabrics.cfg'', ''sdn/.running-config'',
      ''virtual-guest/cpu-models.conf'', ''virtual-guest/profiles.cfg'', ''firewall/cluster.fw'',
      ''mapping/directory.cfg'', ''mapping/pci.cfg'', ''mapping/usb.cfg'']"

definition status_new :: "string \<Rightarrow> u64 \<Rightarrow> Status" where
  "status_new nodename now =
     \<lparr>st_nodename = nodename, st_cluster_info = None, st_cluster_version = 0, st_vmlist_version = 0,
      st_vminfo_version_counter = 0,
      st_path_versions = fold (\<lambda>p. hm_insert p 0) common_paths [],
      st_node_status = [], st_cluster_log = log_new, st_uid_counter = 0, st_rrd_data = [], st_rrd_dump_cache = None,
      st_vmlist = [], st_quorate = False, st_members = [], st_start_time = now, st_kvstore = [], st_node_ips = []\<rparr>"

section \<open>Nodes\<close>

definition cluster_info_new :: "string \<Rightarrow> u64 \<Rightarrow> ClusterInfo" where
  "cluster_info_new cluster_name config_version =
     \<lparr>ci_cluster_name = cluster_name, ci_config_version = config_version,
      ci_nodes_by_id = [], ci_nodes_by_name = []\<rparr>"

definition add_node :: "ClusterNode \<Rightarrow> ClusterInfo \<Rightarrow> ClusterInfo" where
  "add_node node info =
     info\<lparr>ci_nodes_by_id := hm_insert (cn_node_id node) node (ci_nodes_by_id info),
          ci_nodes_by_name := hm_insert (cn_name node) (cn_node_id node) (ci_nodes_by_name info)\<rparr>"

definition get_node_by_name :: "ClusterInfo \<Rightarrow> string \<Rightarrow> ClusterNode option" where
  "get_node_by_name info name =
     Option.bind (hm_get (ci_nodes_by_name info) name) (hm_get (ci_nodes_by_id info))"

definition increment_cluster_version :: "Status \<Rightarrow> Status" where
  "increment_cluster_version s = s\<lparr>st_cluster_version := st_cluster_version s + 1\<rparr>"

definition init_cluster :: "string \<Rightarrow> Status \<Rightarrow> Status" where
  "init_cluster cluster_name s =
     increment_cluster_version (s\<lparr>st_cluster_info := Some (cluster_info_new cluster_name 0)\<rparr>)"

definition register_node :: "u32 \<Rightarrow> string \<Rightarrow> string \<Rightarrow> Status \<Rightarrow> Status" where
  "register_node node_id name ip s =
     (case st_cluster_info s of
        None \<Rightarrow> s
      | Some info \<Rightarrow>
          increment_cluster_version
            (s\<lparr>st_cluster_info := Some (add_node
                 \<lparr>cn_name = name, cn_node_id = node_id, cn_ip = ip, cn_online = False\<rparr> info)\<rparr>))"

definition update_cluster_info :: "string \<Rightarrow> u64 \<Rightarrow> (u32 \<times> string \<times> string) list \<Rightarrow> Status \<Rightarrow> Status" where
  "update_cluster_info cluster_name config_version nodes s =
     (let info = (case st_cluster_info s of
                    Some i \<Rightarrow> i
                  | None \<Rightarrow> cluster_info_new cluster_name config_version);
          old_nodes = ci_nodes_by_id info;
          info1 = info\<lparr>ci_cluster_name := cluster_name, ci_config_version := config_version,
                       ci_nodes_by_id := [], ci_nodes_by_name := []\<rparr>;
          info2 = fold (\<lambda>(nodeid, name, ip).
                    add_node \<lparr>cn_name = name, cn_node_id = nodeid, cn_ip = ip,
                              cn_online = (case hm_get old_nodes nodeid of None \<Rightarrow> False | Some n \<Rightarrow> cn_online n)\<rparr>)
                    nodes info1
      in increment_cluster_version
           (s\<lparr>st_kvstore := filter (\<lambda>(nodeid, _). hm_get (ci_nodes_by_id info2) nodeid \<noteq> None) (st_kvstore s),
              st_cluster_info := Some info2\<rparr>))"

definition set_node_online :: "u32 \<Rightarrow> bool \<Rightarrow> Status \<Rightarrow> Status" where
  "set_node_online node_id online s =
     (case st_cluster_info s of
        None \<Rightarrow> s
      | Some info \<Rightarrow>
          (case hm_get (ci_nodes_by_id info) node_id of
             None \<Rightarrow> s
           | Some node \<Rightarrow>
               if cn_online node = online then s
               else increment_cluster_version
                      (s\<lparr>st_cluster_info := Some (info\<lparr>ci_nodes_by_id :=
                           hm_insert node_id (node\<lparr>cn_online := online\<rparr>) (ci_nodes_by_id info)\<rparr>)\<rparr>)))"

text \<open>All nodes go offline, then the listed ones online.\<close>

definition mark_online :: "u32 \<Rightarrow> (u32, ClusterNode) hmap \<Rightarrow> (u32, ClusterNode) hmap" where
  "mark_online nodeid nodes =
     (case hm_get nodes nodeid of
        None \<Rightarrow> nodes
      | Some node \<Rightarrow> hm_insert nodeid (node\<lparr>cn_online := True\<rparr>) nodes)"

definition refresh_online :: "u32 list \<Rightarrow> ClusterInfo \<Rightarrow> ClusterInfo" where
  "refresh_online ids info =
     info\<lparr>ci_nodes_by_id :=
       fold mark_online ids (map (\<lambda>(i, node). (i, node\<lparr>cn_online := False\<rparr>)) (ci_nodes_by_id info))\<rparr>"

definition update_member_status :: "u32 list \<Rightarrow> Status \<Rightarrow> Status" where
  "update_member_status member_list s =
     (case st_cluster_info s of
        None \<Rightarrow> s
      | Some info \<Rightarrow>
          increment_cluster_version (s\<lparr>st_cluster_info := Some (refresh_online member_list info)\<rparr>))"

definition update_members :: "MemberInfo list \<Rightarrow> Status \<Rightarrow> Status" where
  "update_members members s =
     (let s1 = s\<lparr>st_members := members\<rparr> in
      case st_cluster_info s1 of
        None \<Rightarrow> s1
      | Some info \<Rightarrow>
          increment_cluster_version
            (s1\<lparr>st_cluster_info := Some (refresh_online (map mi_node_id members) info)\<rparr>))"

definition set_quorate :: "bool \<Rightarrow> Status \<Rightarrow> Status" where
  "set_quorate quorate s = s\<lparr>st_quorate := quorate\<rparr>"

section \<open>Version counters\<close>

definition increment_vmlist_version :: "Status \<Rightarrow> Status" where
  "increment_vmlist_version s = s\<lparr>st_vmlist_version := st_vmlist_version s + 1\<rparr>"

definition increment_path_version :: "string \<Rightarrow> Status \<Rightarrow> Status" where
  "increment_path_version path s =
     (case hm_get (st_path_versions s) path of
        None \<Rightarrow> s
      | Some counter \<Rightarrow> s\<lparr>st_path_versions := hm_insert path (counter + 1) (st_path_versions s)\<rparr>)"

definition get_path_version :: "string \<Rightarrow> Status \<Rightarrow> u64" where
  "get_path_version path s = (case hm_get (st_path_versions s) path of None \<Rightarrow> 0 | Some c \<Rightarrow> c)"

definition increment_all_path_versions :: "Status \<Rightarrow> Status" where
  "increment_all_path_versions s =
     s\<lparr>st_path_versions := map (\<lambda>(path, counter). (path, counter + 1)) (st_path_versions s)\<rparr>"

section \<open>Virtual machines\<close>

definition next_vm_version :: "Status \<Rightarrow> u32 \<times> Status" where
  "next_vm_version s =
     (ucast (st_vminfo_version_counter s + 1),
      s\<lparr>st_vminfo_version_counter := st_vminfo_version_counter s + 1\<rparr>)"

definition register_vm :: "u32 \<Rightarrow> VmType \<Rightarrow> string \<Rightarrow> Status \<Rightarrow> Status" where
  "register_vm vmid vmtype node s =
     (case next_vm_version s of (version, s1) \<Rightarrow>
        increment_vmlist_version
          (s1\<lparr>st_vmlist := hm_insert vmid
               \<lparr>vm_vmid = vmid, vm_vmtype = vmtype, vm_node = node, vm_version = version\<rparr> (st_vmlist s1)\<rparr>))"

definition delete_vm :: "u32 \<Rightarrow> Status \<Rightarrow> Status" where
  "delete_vm vmid s = increment_vmlist_version (s\<lparr>st_vmlist := hm_remove vmid (st_vmlist s)\<rparr>)"

definition vm_exists :: "u32 \<Rightarrow> Status \<Rightarrow> bool" where
  "vm_exists vmid s \<longleftrightarrow> hm_get (st_vmlist s) vmid \<noteq> None"

definition different_vm_exists :: "u32 \<Rightarrow> VmType \<Rightarrow> string \<Rightarrow> Status \<Rightarrow> bool" where
  "different_vm_exists vmid vmtype node s \<longleftrightarrow>
     (case hm_get (st_vmlist s) vmid of
        Some entry \<Rightarrow> vm_vmtype entry \<noteq> vmtype \<or> vm_node entry \<noteq> node
      | None \<Rightarrow> False)"

definition scan_one :: "Status \<Rightarrow> u32 \<times> VmEntry \<Rightarrow> Status" where
  "scan_one s kv =
     (case kv of (vmid, new_vm) \<Rightarrow>
        (case hm_get (st_vmlist s) vmid of
           Some existing \<Rightarrow>
             if vm_vmtype existing \<noteq> vm_vmtype new_vm \<or> vm_node existing \<noteq> vm_node new_vm then
               (case next_vm_version s of (version, s1) \<Rightarrow>
                  s1\<lparr>st_vmlist := hm_insert vmid
                      \<lparr>vm_vmid = vmid, vm_vmtype = vm_vmtype new_vm, vm_node = vm_node new_vm,
                       vm_version = version\<rparr> (st_vmlist s1)\<rparr>)
             else s
         | None \<Rightarrow>
             (case next_vm_version s of (version, s1) \<Rightarrow>
                s1\<lparr>st_vmlist := hm_insert vmid
                    \<lparr>vm_vmid = vmid, vm_vmtype = vm_vmtype new_vm, vm_node = vm_node new_vm,
                     vm_version = version\<rparr> (st_vmlist s1)\<rparr>)))"

definition scan_vmlist :: "'db MemDb \<Rightarrow> Status \<Rightarrow> Status" where
  "scan_vmlist m s =
     (case recreate_vmlist m of
        Ok new_vmlist \<Rightarrow>
          let s1 = foldl scan_one s new_vmlist;
              s2 = s1\<lparr>st_vmlist := filter (\<lambda>(vmid, _). hm_get new_vmlist vmid \<noteq> None) (st_vmlist s1)\<rparr>
          in increment_vmlist_version s2
      | _ \<Rightarrow> s)"

section \<open>Key-value data of the nodes\<close>

definition strip_nul :: "string \<Rightarrow> string" where
  "strip_nul s = (if s \<noteq> [] \<and> last s = char_of (0 :: nat) then butlast s else s)"

definition set_node_kv :: "u32 \<Rightarrow> string \<Rightarrow> byte list \<Rightarrow> Status \<Rightarrow> Status" where
  "set_node_kv nodeid key val s =
     (case st_cluster_info s of
        None \<Rightarrow> s
      | Some info \<Rightarrow>
          (case hm_get (ci_nodes_by_id info) nodeid of
             None \<Rightarrow> s
           | Some node \<Rightarrow>
               if starts_with key ''rrd/'' then s
               else if key = ''nodeip'' then
                 (case from_utf8 val of
                    None \<Rightarrow> s
                  | Some str \<Rightarrow>
                      let ip_str = strip_nul str; nodename = cn_name node in
                      if hm_get (st_node_ips s) nodename \<noteq> Some ip_str
                      then increment_cluster_version (s\<lparr>st_node_ips := hm_insert nodename ip_str (st_node_ips s)\<rparr>)
                      else s)
               else
                 let node_kv = (case hm_get (st_kvstore s) nodeid of None \<Rightarrow> [] | Some kv \<Rightarrow> kv);
                     node_kv' = (if val = [] then hm_remove key node_kv
                                 else hm_insert key
                                        (val, case hm_get node_kv key of None \<Rightarrow> 1 | Some (_, version) \<Rightarrow> version + 1)
                                        node_kv)
                 in s\<lparr>st_kvstore := hm_insert nodeid node_kv' (st_kvstore s)\<rparr>))"

definition get_node_kv :: "u32 \<Rightarrow> string \<Rightarrow> Status \<Rightarrow> byte list option" where
  "get_node_kv nodeid key s =
     Option.bind (hm_get (st_kvstore s) nodeid) (\<lambda>kv. map_option fst (hm_get kv key))"

section \<open>Status data of the local node\<close>

definition CFS_MAX_STATUS_SIZE :: nat where "CFS_MAX_STATUS_SIZE = 32 * 1024"

datatype status_error = StatusTooLarge | InvalidRrdText | InvalidNodeIp

definition set_rrd_data :: "u64 \<Rightarrow> string \<Rightarrow> string \<Rightarrow> Status \<Rightarrow> Status" where
  "set_rrd_data now key data s =
     s\<lparr>st_rrd_data := hm_insert key \<lparr>rrd_key = key, rrd_data = data, rrd_timestamp = now\<rparr> (st_rrd_data s)\<rparr>"

definition set_node_status :: "u64 \<Rightarrow> string \<Rightarrow> byte list \<Rightarrow> Status \<Rightarrow> (status_error, unit) res \<times> Status" where
  "set_node_status now name data s =
     (if length data > CFS_MAX_STATUS_SIZE then (Err StatusTooLarge, s)
      else case strip_prefix name ''rrd/'' of
        Some key \<Rightarrow>
          (case from_utf8 data of
             None \<Rightarrow> (Err InvalidRrdText, s)
           | Some str \<Rightarrow> (Ok (), set_rrd_data now key (strip_nul str) s))
      | None \<Rightarrow>
          if name = ''nodeip'' then
            (case from_utf8 data of
               None \<Rightarrow> (Err InvalidNodeIp, s)
             | Some str \<Rightarrow>
                 let ip_str = strip_nul str; nodename = st_nodename s in
                 if hm_get (st_node_ips s) nodename \<noteq> Some ip_str
                 then (Ok (), increment_cluster_version (s\<lparr>st_node_ips := hm_insert nodename ip_str (st_node_ips s)\<rparr>))
                 else (Ok (), s))
          else (Ok (), s\<lparr>st_node_status := hm_insert name \<lparr>ns_name = name, ns_data = data, ns_timestamp = now\<rparr>
                          (st_node_status s)\<rparr>))"

definition get_node_status :: "string \<Rightarrow> Status \<Rightarrow> NodeStatus option" where
  "get_node_status name s = hm_get (st_node_status s) name"

definition remove_old_rrd_data :: "u64 \<Rightarrow> Status \<Rightarrow> Status" where
  "remove_old_rrd_data now s =
     s\<lparr>st_rrd_data := filter (\<lambda>(_, entry). u64_saturating_sub now (rrd_timestamp entry) < 60 * 5) (st_rrd_data s)\<rparr>"

definition rrd_dump :: "(string, RrdEntry) hmap \<Rightarrow> string" where
  "rrd_dump rrd = concat (map (\<lambda>e. rrd_key e @ '':'' @ rrd_data e @ [char_of (10 :: nat)]) (hm_values rrd)) @ [char_of (0 :: nat)]"

definition get_rrd_dump :: "u64 \<Rightarrow> Status \<Rightarrow> string \<times> Status" where
  "get_rrd_dump now s =
     (case st_rrd_dump_cache s of
        Some (cache_time, cached_dump) \<Rightarrow>
          if u64_saturating_sub now cache_time < 2 then (cached_dump, s)
          else (let s1 = remove_old_rrd_data now s; result = rrd_dump (st_rrd_data s1)
                in (result, s1\<lparr>st_rrd_dump_cache := Some (now, result)\<rparr>))
      | None \<Rightarrow>
          (let s1 = remove_old_rrd_data now s; result = rrd_dump (st_rrd_data s1)
           in (result, s1\<lparr>st_rrd_dump_cache := Some (now, result)\<rparr>)))"

section \<open>Cluster log\<close>

record ClusterLogEntry =
  ce_uid :: u32
  ce_timestamp :: u64
  ce_priority :: u8
  ce_tag :: string
  ce_pid :: u32
  ce_node :: string
  ce_ident :: string
  ce_message :: string

definition status_log_add ::
  "string \<Rightarrow> string \<Rightarrow> string \<Rightarrow> u32 \<Rightarrow> u8 \<Rightarrow> u32 \<Rightarrow> string \<Rightarrow> Status \<Rightarrow> (log_error, unit) res \<times> Status" where
  "status_log_add node ident tag pid priority time msg s =
     (case log_add node ident tag pid priority time msg (st_cluster_log s, st_uid_counter s) of
        (r, l, uid) \<Rightarrow> (r, s\<lparr>st_cluster_log := l, st_uid_counter := uid\<rparr>))"

definition add_log_entry :: "ClusterLogEntry \<Rightarrow> Status \<Rightarrow> Status" where
  "add_log_entry entry s =
     snd (status_log_add (ce_node entry) (ce_ident entry) (ce_tag entry) 0 (ce_priority entry)
            (ucast (ce_timestamp entry)) (ce_message entry) s)"

definition to_cluster_log_entry :: "LogEntry \<Rightarrow> ClusterLogEntry" where
  "to_cluster_log_entry e =
     \<lparr>ce_uid = le_uid e, ce_timestamp = ucast (le_time e), ce_priority = le_priority e, ce_tag = le_tag e,
      ce_pid = le_pid e, ce_node = le_node e, ce_ident = le_ident e, ce_message = le_message e\<rparr>"

definition get_log_entries :: "nat \<Rightarrow> Status \<Rightarrow> ClusterLogEntry list" where
  "get_log_entries max_entries s = map to_cluster_log_entry (get_entries max_entries (st_cluster_log s))"

definition get_log_entries_filtered :: "nat \<Rightarrow> string \<Rightarrow> Status \<Rightarrow> ClusterLogEntry list" where
  "get_log_entries_filtered max_entries user s =
     (if user = [] then get_log_entries max_entries s
      else map to_cluster_log_entry (take max_entries
             (filter (\<lambda>e. le_ident e = user) (get_entries (2 ^ 64 - 1) (st_cluster_log s)))))"

definition clear_cluster_log :: "Status \<Rightarrow> Status" where
  "clear_cluster_log s = s\<lparr>st_cluster_log := log_clear (st_cluster_log s)\<rparr>"

definition add_cluster_log :: "u32 \<Rightarrow> u8 \<Rightarrow> string \<Rightarrow> string \<Rightarrow> string \<Rightarrow> Status \<Rightarrow> Status" where
  "add_cluster_log timestamp priority tag node msg s =
     add_log_entry \<lparr>ce_uid = 0, ce_timestamp = ucast timestamp, ce_priority = priority, ce_tag = tag, ce_pid = 0,
       ce_node = node, ce_ident = [], ce_message = msg\<rparr> s"

definition get_cluster_log_state :: "Status \<Rightarrow> (unit, byte list) res" where
  "get_cluster_log_state s = log_get_state (st_cluster_log s)"

definition readable_states :: "NodeSyncInfo list \<Rightarrow> RingBuffer list" where
  "readable_states states =
     concat (map (\<lambda>info. case ni_state info of
         None \<Rightarrow> []
       | Some data \<Rightarrow> if data = [] then []
                      else (case log_deserialize_state data of Ok b \<Rightarrow> [b] | _ \<Rightarrow> [])) states)"

definition merge_cluster_log_states :: "NodeSyncInfo list \<Rightarrow> Status \<Rightarrow> Status" where
  "merge_cluster_log_states states s =
     (let remote_logs = readable_states states in
      if remote_logs \<noteq> [] then s\<lparr>st_cluster_log := log_merge remote_logs True (st_cluster_log s)\<rparr> else s)"

definition add_remote_cluster_log ::
  "u32 \<Rightarrow> u8 \<Rightarrow> string \<Rightarrow> string \<Rightarrow> string \<Rightarrow> string \<Rightarrow> Status \<Rightarrow> (log_error, unit) res \<times> Status" where
  "add_remote_cluster_log time priority node ident tag msg s = status_log_add node ident tag 0 priority time msg s"

section \<open>Nodes online are the members\<close>

lemma hm_get_map_value: "hm_get (map (\<lambda>(k, v). (k, f v)) m) k = map_option f (hm_get m k)"
  by (induction m) (auto simp: hm_get_def)

lemma hm_get_mark_online:
  "hm_get (mark_online i nodes) j =
     map_option (\<lambda>n. n\<lparr>cn_online := cn_online n \<or> j = i\<rparr>) (hm_get nodes j)"
  by (cases "j = i"; cases "hm_get nodes j") (auto simp: mark_online_def split: option.splits)

lemma hm_get_fold_mark_online:
  "hm_get (fold mark_online ids nodes) j =
     map_option (\<lambda>n. n\<lparr>cn_online := cn_online n \<or> j \<in> set ids\<rparr>) (hm_get nodes j)"
  by (induction ids arbitrary: nodes)
    (auto simp: hm_get_mark_online option.map_comp o_def disj_ac option.map_ident)

lemma refresh_online_get:
  "hm_get (ci_nodes_by_id (refresh_online ids info)) i =
     map_option (\<lambda>n. n\<lparr>cn_online := i \<in> set ids\<rparr>) (hm_get (ci_nodes_by_id info) i)"
  by (simp add: refresh_online_def hm_get_fold_mark_online hm_get_map_value option.map_comp o_def)

section \<open>Key-value data\<close>

lemma hm_get_filter_key: "hm_get (filter (\<lambda>(k, _). P k) m) k = (if P k then hm_get m k else None)"
  by (induction m) (auto simp: hm_get_def)

definition known_node :: "u32 \<Rightarrow> Status \<Rightarrow> bool" where
  "known_node nodeid s \<longleftrightarrow>
     (case st_cluster_info s of None \<Rightarrow> False | Some info \<Rightarrow> hm_get (ci_nodes_by_id info) nodeid \<noteq> None)"

definition regular_key :: "string \<Rightarrow> bool" where
  "regular_key key \<longleftrightarrow> \<not> starts_with key ''rrd/'' \<and> key \<noteq> ''nodeip''"

lemma set_node_kv_get:
  "get_node_kv n k (set_node_kv nodeid key val s) =
     (if known_node nodeid s \<and> regular_key key \<and> n = nodeid \<and> k = key
      then if val = [] then None else Some val
      else get_node_kv n k s)"
proof (cases "known_node nodeid s \<and> regular_key key")
  case True
  then obtain info node where "st_cluster_info s = Some info" "hm_get (ci_nodes_by_id info) nodeid = Some node"
    by (auto simp: known_node_def split: option.splits)
  then show ?thesis
    using True
    by (cases "hm_get (st_kvstore s) nodeid")
      (simp_all add: set_node_kv_def get_node_kv_def regular_key_def Let_def)
next
  case False
  then have "st_kvstore (set_node_kv nodeid key val s) = st_kvstore s"
    by (auto simp: set_node_kv_def known_node_def regular_key_def increment_cluster_version_def Let_def
        split: option.splits)
  then show ?thesis using False by (auto simp: get_node_kv_def)
qed

lemma update_cluster_info_kv:
  "get_node_kv n k (update_cluster_info name v nodes s) =
     (if known_node n (update_cluster_info name v nodes s) then get_node_kv n k s else None)"
  by (simp add: update_cluster_info_def get_node_kv_def known_node_def increment_cluster_version_def Let_def
      hm_get_filter_key)

section \<open>The registry follows the tree\<close>

lemma next_vm_version_vmlist [simp]: "st_vmlist (snd (next_vm_version s)) = st_vmlist s"
  by (simp add: next_vm_version_def)

text \<open>What one step does to the entry of a machine.\<close>

definition same_place :: "VmEntry \<Rightarrow> VmEntry \<Rightarrow> bool" where
  "same_place a b \<longleftrightarrow> vm_vmtype a = vm_vmtype b \<and> vm_node a = vm_node b"

lemma scan_one_get:
  "hm_get (st_vmlist (scan_one s (vmid, new))) v =
     (if v \<noteq> vmid then hm_get (st_vmlist s) v
      else case hm_get (st_vmlist s) vmid of
        Some old \<Rightarrow> if same_place old new then Some old
                    else Some \<lparr>vm_vmid = vmid, vm_vmtype = vm_vmtype new, vm_node = vm_node new,
                               vm_version = fst (next_vm_version s)\<rparr>
      | None \<Rightarrow> Some \<lparr>vm_vmid = vmid, vm_vmtype = vm_vmtype new, vm_node = vm_node new,
                      vm_version = fst (next_vm_version s)\<rparr>)"
  by (auto simp: scan_one_def next_vm_version_def same_place_def split: option.splits)

text \<open>The entry after a scan step is where the tree has it; an entry that was there already is kept.\<close>

lemma scan_fold_get:
  "distinct (map fst kvs) \<Longrightarrow>
   (case map_of kvs v of
      None \<Rightarrow> hm_get (st_vmlist (foldl scan_one s kvs)) v = hm_get (st_vmlist s) v
    | Some new \<Rightarrow> \<exists>vm. hm_get (st_vmlist (foldl scan_one s kvs)) v = Some vm \<and> same_place vm new \<and>
        (\<forall>old. hm_get (st_vmlist s) v = Some old \<longrightarrow> same_place old new \<longrightarrow> vm = old))"
proof (induction kvs arbitrary: s)
  case Nil
  then show ?case by simp
next
  case (Cons kv kvs)
  obtain k new where kv: "kv = (k, new)" by (cases kv)
  show ?case
  proof (cases "v = k")
    case True
    then have "map_of kvs v = None" using Cons.prems kv by (simp add: map_of_eq_None_iff)
    then have "hm_get (st_vmlist (foldl scan_one (scan_one s kv) kvs)) v = hm_get (st_vmlist (scan_one s kv)) v"
      using Cons.IH [of "scan_one s kv"] Cons.prems by simp
    then show ?thesis
      using True by (auto simp: kv scan_one_get same_place_def split: option.splits)
  next
    case False
    then have "hm_get (st_vmlist (scan_one s kv)) v = hm_get (st_vmlist s) v" by (simp add: kv scan_one_get)
    moreover have "map_of (kv # kvs) v = map_of kvs v" using False kv by simp
    ultimately show ?thesis using Cons.IH [of "scan_one s kv"] Cons.prems
      by (cases "map_of kvs v") (simp_all del: map_of.simps map_of_eq_Some_iff)
  qed
qed

lemma scan_vmlist_get:
  assumes "recreate_vmlist m = Ok vl" and "hm_ok vl"
  shows "case hm_get vl v of
      None \<Rightarrow> hm_get (st_vmlist (scan_vmlist m s)) v = None
    | Some new \<Rightarrow> \<exists>vm. hm_get (st_vmlist (scan_vmlist m s)) v = Some vm \<and> same_place vm new \<and>
        (\<forall>old. hm_get (st_vmlist s) v = Some old \<longrightarrow> same_place old new \<longrightarrow> vm = old)"
proof -
  have "st_vmlist (scan_vmlist m s) =
      filter (\<lambda>(vmid, _). hm_get vl vmid \<noteq> None) (st_vmlist (foldl scan_one s vl))"
    using assms(1) by (simp add: scan_vmlist_def increment_vmlist_version_def Let_def)
  then have "hm_get (st_vmlist (scan_vmlist m s)) v =
      (if hm_get vl v \<noteq> None then hm_get (st_vmlist (foldl scan_one s vl)) v else None)"
    by (simp only: hm_get_filter_key)
  then show ?thesis
    using scan_fold_get [of vl s v, folded hm_get_def] assms(2)
    by (cases "hm_get vl v") (simp_all add: hm_ok_def)
qed

end
