(* ===== verification/Dfsm_Props.thy ===== *)
theory Dfsm_Props
  imports Dfsm_Machine "HOL-Library.Code_Target_Numeral"
begin

text \<open>
  Properties of the replicated state machine. What holds for every application is proved from the
  law of the locale \<open>app\<close>: a callback may multicast and draw message numbers, and leaves the rest of
  the machine alone.
\<close>

section \<open>The application interface\<close>

text \<open>The machine except what a callback may change: the multicast log and the message counter.\<close>

definition same_core :: "'m Dfsm \<Rightarrow> 'm Dfsm \<Rightarrow> bool" where
  "same_core d d' \<longleftrightarrow> d' = d\<lparr>d_net := d_net d', d_msg_counter := d_msg_counter d'\<rparr>"

lemma same_coreD:
  assumes "same_core d d'"
  shows "d_mode d' = d_mode d" "d_sync_nodes d' = d_sync_nodes d" "d_msg_queue d' = d_msg_queue d"
    "d_sync_queue d' = d_sync_queue d" "d_sync_epoch d' = d_sync_epoch d" "d_nodeid d' = d_nodeid d"
    "d_pid d' = d_pid d" "d_lowest_nodeid d' = d_lowest_nodeid d" "d_joined d' = d_joined d"
    "d_checksum_counter d' = d_checksum_counter d" "d_checksum_id d' = d_checksum_id d"
    "d_checksum_epoch d' = d_checksum_epoch d" "d_waiting d' = d_waiting d" "d_results d' = d_results d"
    "d_local_epoch_counter d' = d_local_epoch_counter d" "d_checksum d' = d_checksum d"
  by (subst assms [unfolded same_core_def], simp)+

lemma same_core_refl [simp]: "same_core d d"
  by (simp add: same_core_def)

text \<open>Delivering a list of queued messages in order.\<close>

definition deliver_all :: "('m, 's) Callbacks \<Rightarrow> (u64 \<times> 'm QueuedMessage) list \<Rightarrow> 'm Dfsm \<times> 's \<Rightarrow> 'm Dfsm \<times> 's" where
  "deliver_all cb kvs ds =
     fold (\<lambda>(count, qm). deliver_one cb (qm_nodeid qm) (qm_pid qm) (qm_message qm) (qm_timestamp qm) count) kvs ds"

definition from_synced :: "NodeSyncInfo list \<Rightarrow> u64 \<times> 'm QueuedMessage \<Rightarrow> bool" where
  "from_synced nodes kv \<longleftrightarrow>
     (case find_node (qm_nodeid (snd kv)) (qm_pid (snd kv)) nodes of None \<Rightarrow> False | Some n \<Rightarrow> ni_synced n)"

definition from_member :: "NodeSyncInfo list \<Rightarrow> u64 \<times> 'm QueuedMessage \<Rightarrow> bool" where
  "from_member nodes kv \<longleftrightarrow> find_node (qm_nodeid (snd kv)) (qm_pid (snd kv)) nodes \<noteq> None"

text \<open>The queue is an ordered map from message counts to the messages with that count, and bounded.\<close>

definition queue_inv :: "'m Dfsm \<Rightarrow> bool" where
  "queue_inv d \<longleftrightarrow> bt_ok (d_msg_queue d) \<and> length (d_msg_queue d) \<le> MAX_QUEUE_LEN \<and>
     (\<forall>(c, qm) \<in> set (d_msg_queue d). qm_msg_count qm = c)"

lemma queue_inv_updates [simp]:
  "queue_inv (set_mode md d) \<longleftrightarrow> queue_inv d"
  "queue_inv (d\<lparr>d_sync_nodes := ns\<rparr>) \<longleftrightarrow> queue_inv d"
  "queue_inv (d\<lparr>d_sync_epoch := e\<rparr>) \<longleftrightarrow> queue_inv d"
  "queue_inv (d\<lparr>d_sync_queue := q\<rparr>) \<longleftrightarrow> queue_inv d"
  "queue_inv (d\<lparr>d_net := ms\<rparr>) \<longleftrightarrow> queue_inv d"
  "queue_inv (d\<lparr>d_msg_counter := k\<rparr>) \<longleftrightarrow> queue_inv d"
  "queue_inv (d\<lparr>d_waiting := w\<rparr>) \<longleftrightarrow> queue_inv d"
  "queue_inv (d\<lparr>d_checksum_counter := k\<rparr>) \<longleftrightarrow> queue_inv d"
  "queue_inv (d\<lparr>d_checksum := c, d_checksum_epoch := e, d_checksum_id := k\<rparr>) \<longleftrightarrow> queue_inv d"
  by (simp_all add: queue_inv_def set_mode_def Let_def)

lemma set_bt_insert: "bt_ok m \<Longrightarrow> set (bt_insert k v m) = insert (k, v) {kv \<in> set m. fst kv \<noteq> k}"
proof (induction k v m rule: bt_insert.induct)
  case (1 k v)
  then show ?case by simp
next
  case (2 k v k' v' m)
  then show ?case by (auto simp: bt_ok_Cons)
qed

lemma queue_message_inv: "queue_inv d \<Longrightarrow> queue_inv (queue_message nodeid pid c m t d)"
proof -
  assume inv: "queue_inv d"
  let ?q = "if length (d_msg_queue d) \<ge> MAX_QUEUE_LEN
            then (case d_msg_queue d of [] \<Rightarrow> [] | (k, _) # _ \<Rightarrow> bt_remove k (d_msg_queue d)) else d_msg_queue d"
  let ?qm = "\<lparr>qm_nodeid = nodeid, qm_pid = pid, qm_msg_count = c, qm_message = m, qm_timestamp = t\<rparr>"
  have "\<exists>P. ?q = filter P (d_msg_queue d)"
  proof (cases "d_msg_queue d")
    case Nil
    then show ?thesis by simp
  next
    case (Cons kv q)
    show ?thesis
    proof (cases "length (d_msg_queue d) \<ge> MAX_QUEUE_LEN")
      case True
      then have "?q = filter (\<lambda>x. fst x \<noteq> fst kv) (d_msg_queue d)"
        using Cons by (cases kv) (simp add: bt_remove_def)
      then show ?thesis by (rule exI [of _ "\<lambda>x. fst x \<noteq> fst kv"])
    next
      case False
      have "d_msg_queue d = filter (\<lambda>_. True) (d_msg_queue d)" by simp
      then show ?thesis using False by metis
    qed
  qed
  then obtain P where P: "?q = filter P (d_msg_queue d)" by blast
  have "length ?q < MAX_QUEUE_LEN"
  proof (cases "d_msg_queue d")
    case Nil
    then show ?thesis by (simp add: MAX_QUEUE_LEN_def)
  next
    case (Cons kv q)
    show ?thesis
      using inv Cons
      by (cases kv) (auto simp: queue_inv_def bt_remove_def intro: le_less_trans [OF length_filter_le])
  qed
  then have "queue_inv (d\<lparr>d_msg_queue := bt_insert c ?qm ?q\<rparr>)"
    using inv length_bt_insert_le [of c ?qm ?q] unfolding P
    by (auto simp: queue_inv_def bt_ok_insert bt_ok_filter set_bt_insert)
  then show ?thesis using inv by (simp add: queue_message_def Let_def)
qed

lemma send_dfsm_inv:
  "send_dfsm_message en now msg d = (r, d') \<Longrightarrow> queue_inv d' \<longleftrightarrow> queue_inv d"
  by (auto simp: send_dfsm_message_def split: option.splits if_splits)

lemma send_state_inv:
  "send_state en cb now (d, s) = (r, d', s') \<Longrightarrow> queue_inv d' \<longleftrightarrow> queue_inv d"
  by (auto simp: send_state_def send_dfsm_inv split: res.splits prod.splits)

text \<open>
  The runs of a node: messages from the network, membership changes (one that deadlocks does not
  return), and the calls of local clients.
\<close>

inductive dfsm_step ::
  "'m env \<Rightarrow> ('m, 's) Callbacks \<Rightarrow> 'm Dfsm \<times> 's \<Rightarrow> 'm Dfsm \<times> 's \<Rightarrow> bool" for en cb where
  Message: "handle_dfsm_message en cb now nodeid pid msg ds = (r, ds') \<Longrightarrow> dfsm_step en cb ds ds'"
| Membership: "handle_membership_change en cb now members ds = (r, ds') \<Longrightarrow> r \<noteq> Deadlock \<Longrightarrow>
    dfsm_step en cb ds ds'"
| Call: "send_message_sync_begin en now m d = (r, c, d') \<Longrightarrow> dfsm_step en cb (d, s) (d', s)"
| Return: "dfsm_step en cb (d, s) (send_message_sync_end c d, s)"
| Broadcast: "broadcast en now m d = (r, d') \<Longrightarrow> dfsm_step en cb (d, s) (d', s)"
| Request: "verify_request en now d = (r, d') \<Longrightarrow> dfsm_step en cb (d, s) (d', s)"

inductive_cases dfsm_stepE: "dfsm_step en cb ds ds'"

section \<open>Collecting the states\<close>

abbreviation node_key :: "NodeSyncInfo \<Rightarrow> u32 \<times> u32" where
  "node_key n \<equiv> (ni_node_id n, ni_pid n)"

text \<open>The members whose state has not arrived.\<close>

definition missing :: "NodeSyncInfo list \<Rightarrow> (u32 \<times> u32) set" where
  "missing nodes = {node_key n | n. n \<in> set nodes \<and> ni_state n = None}"

lemma missing_append: "missing (xs @ ys) = missing xs \<union> missing ys"
  by (auto simp: missing_def)

lemma missing_Cons: "missing (n # ns) = (if ni_state n = None then {node_key n} else {}) \<union> missing ns"
  by (auto simp: missing_def)

lemma missing_keys: "missing ns \<subseteq> node_key ` set ns"
  by (auto simp: missing_def)

fun collect :: "('m, 's) Callbacks \<Rightarrow> ((u32 \<times> u32) \<times> byte list) list \<Rightarrow> 'm Dfsm \<times> 's \<Rightarrow> dfsm_result \<times> 'm Dfsm \<times> 's" where
  "collect cb [] ds = (Done, ds)"
| "collect cb (((nodeid, pid), bs) # xs) ds =
    (case process_state cb nodeid pid bs ds of
       (Done, ds') \<Rightarrow> collect cb xs ds'
     | r \<Rightarrow> r)"

lemma mark_first_split:
  assumes "xs = as @ x # bs" and "P x" and "\<forall>y \<in> set as. \<not> P y"
  shows "mark_first P f xs = as @ f x # bs"
proof -
  have "dropWhile (\<lambda>n. \<not> P n) xs = x # bs" "takeWhile (\<lambda>n. \<not> P n) xs = as"
    using assms by (simp_all add: dropWhile_append3 takeWhile_append2)
  then show ?thesis by (simp add: mark_first_def)
qed

lemma find_node_split:
  assumes "find_node i p nodes = Some n"
  obtains as bs where "nodes = as @ n # bs" and "node_key n = (i, p)" and "\<forall>y \<in> set as. node_key y \<noteq> (i, p)"
proof -
  obtain k where k: "k < length nodes" "ni_node_id (nodes ! k) = i \<and> ni_pid (nodes ! k) = p" "n = nodes ! k"
      "\<forall>j < k. \<not> (ni_node_id (nodes ! j) = i \<and> ni_pid (nodes ! j) = p)"
    using assms by (auto simp: find_node_def find_Some_iff)
  show ?thesis
  proof (rule that)
    show "nodes = take k nodes @ n # drop (Suc k) nodes" using id_take_nth_drop [OF k(1)] k(3) by simp
    show "\<forall>y \<in> set (take k nodes). node_key y \<noteq> (i, p)"
    proof
      fix y
      assume "y \<in> set (take k nodes)"
      then obtain j where "j < k" "y = nodes ! j" using k(1) by (auto simp: in_set_conv_nth)
      with k(4) show "node_key y \<noteq> (i, p)" by simp
    qed
  qed (use k in auto)
qed

text \<open>The state of a missing member is stored; the last one starts the comparison.\<close>

lemma process_state_stores:
  assumes dist: "distinct (map node_key (d_sync_nodes d))" and mem: "(i, p) \<in> missing (d_sync_nodes d)"
  obtains nodes' where "missing nodes' = missing (d_sync_nodes d) - {(i, p)}"
    and "map node_key nodes' = map node_key (d_sync_nodes d)"
    and "process_state cb i p bs (d, s) =
      (if missing nodes' = {} then process_state_sync cb (d\<lparr>d_sync_nodes := nodes'\<rparr>, s)
       else (Done, d\<lparr>d_sync_nodes := nodes'\<rparr>, s))"
proof -
  let ?ns = "d_sync_nodes d"
  obtain n0 where n0: "n0 \<in> set ?ns" "node_key n0 = (i, p)" "ni_state n0 = None"
    using mem by (auto simp: missing_def)
  then have "find_node i p ?ns \<noteq> None" by (auto simp: find_node_def find_None_iff)
  then obtain n where n: "find_node i p ?ns = Some n" by blast
  then obtain as bs' where sp: "?ns = as @ n # bs'" "node_key n = (i, p)" "\<forall>y \<in> set as. node_key y \<noteq> (i, p)"
    by (rule find_node_split)
  have "n0 = n" using dist n0 sp(1,2) by (auto simp: distinct_map dest: inj_onD)
  then have st: "ni_state n = None" using n0 by simp
  define nodes' where "nodes' = mark_first (\<lambda>x. ni_node_id x = i \<and> ni_pid x = p) (\<lambda>x. x\<lparr>ni_state := Some bs\<rparr>) ?ns"
  have nodes': "nodes' = as @ n\<lparr>ni_state := Some bs\<rparr> # bs'"
    unfolding nodes'_def using sp by (intro mark_first_split) auto
  have "(i, p) \<notin> node_key ` set (as @ bs')" using dist sp by auto
  then have miss: "missing nodes' = missing ?ns - {(i, p)}"
    using sp(1,2) st missing_keys [of as] missing_keys [of bs'] by (auto simp: nodes' missing_append missing_Cons)
  have all: "(\<forall>x \<in> set nodes'. ni_state x \<noteq> None) \<longleftrightarrow> missing nodes' = {}" by (auto simp: missing_def)
  show ?thesis
  proof (rule that [OF miss])
    show "map node_key nodes' = map node_key ?ns" by (simp add: nodes' sp(1))
    show "process_state cb i p bs (d, s) =
      (if missing nodes' = {} then process_state_sync cb (d\<lparr>d_sync_nodes := nodes'\<rparr>, s)
       else (Done, d\<lparr>d_sync_nodes := nodes'\<rparr>, s))"
      using n st all by (simp add: process_state_def nodes'_def Let_def)
  qed
qed

lemma collect_reaches_sync:
  "distinct (map node_key (d_sync_nodes d)) \<Longrightarrow> distinct (map fst xs) \<Longrightarrow>
   fst ` set xs = missing (d_sync_nodes d) \<Longrightarrow> xs \<noteq> [] \<Longrightarrow>
   \<exists>nodes'. missing nodes' = {} \<and> map node_key nodes' = map node_key (d_sync_nodes d) \<and>
     collect cb xs (d, s) = process_state_sync cb (d\<lparr>d_sync_nodes := nodes'\<rparr>, s)"
proof (induction xs arbitrary: d)
  case Nil
  then show ?case by simp
next
  case (Cons x xs)
  obtain i p bs where x: "x = ((i, p), bs)" by (metis prod.exhaust)
  have "(i, p) \<in> missing (d_sync_nodes d)" using Cons.prems(3) x by auto
  then obtain nodes' where step: "missing nodes' = missing (d_sync_nodes d) - {(i, p)}"
      "map node_key nodes' = map node_key (d_sync_nodes d)"
      "process_state cb i p bs (d, s) =
        (if missing nodes' = {} then process_state_sync cb (d\<lparr>d_sync_nodes := nodes'\<rparr>, s)
         else (Done, d\<lparr>d_sync_nodes := nodes'\<rparr>, s))"
    by (rule process_state_stores [OF Cons.prems(1), of i p cb bs s]) blast
  have rest: "fst ` set xs = missing nodes'" using Cons.prems(2,3) x step(1) by auto
  show ?case
  proof (cases "xs = []")
    case True
    then have "missing nodes' = {}" using rest by simp
    moreover have "collect cb (x # xs) (d, s) = process_state_sync cb (d\<lparr>d_sync_nodes := nodes'\<rparr>, s)"
      using True x step(3) \<open>missing nodes' = {}\<close> by (simp split: prod.splits dfsm_result.splits)
    ultimately show ?thesis using step(2) by blast
  next
    case False
    then have "missing nodes' \<noteq> {}" using rest by (metis image_is_empty set_empty)
    then have "collect cb (x # xs) (d, s) = collect cb xs (d\<lparr>d_sync_nodes := nodes'\<rparr>, s)"
      using x step(3) by simp
    moreover have "\<exists>nodes''. missing nodes'' = {} \<and> map node_key nodes'' = map node_key nodes' \<and>
        collect cb xs (d\<lparr>d_sync_nodes := nodes'\<rparr>, s) = process_state_sync cb (d\<lparr>d_sync_nodes := nodes''\<rparr>, s)"
      using Cons.IH [of "d\<lparr>d_sync_nodes := nodes'\<rparr>"] Cons.prems(1,2) rest False step(2) by simp
    ultimately show ?thesis using step(2) by auto
  qed
qed

locale app =
  fixes cb :: "('m, 's) Callbacks"
  assumes deliver_core: "cb_deliver cb nodeid pid app_msg t (d, s) = (r, d', s') \<Longrightarrow> same_core d d'"
    and state_core: "cb_process_state_update cb nodes (d, s) = (r1, d', s') \<Longrightarrow> same_core d d'"
    and update_core: "cb_process_update cb nodeid pid bs (d, s) = (r2, d', s') \<Longrightarrow> same_core d d'"
    and synced_core: "cb_on_synced cb (d, s) = (d', s') \<Longrightarrow> same_core d d'"
    and cleanup_core: "cb_cleanup cb nodes (d, s) = (d', s') \<Longrightarrow> same_core d d'"
    and membership_core: "cb_membership cb members (d, s) = (d', s') \<Longrightarrow> same_core d d'"
begin

lemma record_queues [simp]:
  "d_mode (record_message_result c r p d) = d_mode d"
  "d_sync_nodes (record_message_result c r p d) = d_sync_nodes d"
  "d_msg_queue (record_message_result c r p d) = d_msg_queue d"
  "d_sync_queue (record_message_result c r p d) = d_sync_queue d"
  "d_sync_epoch (record_message_result c r p d) = d_sync_epoch d"
  by (simp_all add: record_message_result_def Let_def split: option.splits)

lemma deliver_one_queues:
  assumes "deliver_one cb nodeid pid app_msg t c (d, s) = (d', s')"
  shows "d_mode d' = d_mode d" "d_sync_nodes d' = d_sync_nodes d" "d_msg_queue d' = d_msg_queue d"
    "d_sync_queue d' = d_sync_queue d" "d_sync_epoch d' = d_sync_epoch d"
proof -
  obtain r d1 s1 where cb: "cb_deliver cb nodeid pid app_msg t (d, s) = (r, d1, s1)"
    by (metis prod_cases3)
  note core = same_coreD [OF deliver_core [OF cb]]
  obtain r' p' where "d' = record_message_result c r' p' d1"
    using assms cb by (cases r) (auto simp: deliver_one_def)
  then show "d_mode d' = d_mode d" "d_sync_nodes d' = d_sync_nodes d" "d_msg_queue d' = d_msg_queue d"
    "d_sync_queue d' = d_sync_queue d" "d_sync_epoch d' = d_sync_epoch d"
    by (simp_all add: core)
qed

lemma deliver_all_queues:
  "deliver_all cb kvs (d, s) = (d', s') \<Longrightarrow>
     d_mode d' = d_mode d \<and> d_sync_nodes d' = d_sync_nodes d \<and> d_msg_queue d' = d_msg_queue d \<and>
     d_sync_queue d' = d_sync_queue d \<and> d_sync_epoch d' = d_sync_epoch d"
proof (induction kvs arbitrary: d s)
  case Nil
  then show ?case by (simp add: deliver_all_def)
next
  case (Cons kv kvs)
  obtain count qm where kv: "kv = (count, qm)" by (cases kv)
  obtain d1 s1 where one: "deliver_one cb (qm_nodeid qm) (qm_pid qm) (qm_message qm) (qm_timestamp qm) count (d, s) = (d1, s1)"
    by (metis surj_pair)
  then have "deliver_all cb kvs (d1, s1) = (d', s')" using Cons.prems kv by (simp add: deliver_all_def)
  from Cons.IH [OF this] deliver_one_queues [OF one] show ?case by simp
qed

lemma deliver_fold:
  "foldl (deliver_queue_step cb mode nodes) ((R, S), ds) kvs =
     ((R @ map fst (filter (\<lambda>kv. \<not> from_member nodes kv \<or> (mode \<in> {Synced, ModeUpdate} \<and> from_synced nodes kv)) kvs),
       S @ (if mode = ModeUpdate then map snd (filter (from_synced nodes) kvs) else [])),
      if mode = Synced then deliver_all cb (filter (from_synced nodes) kvs) ds else ds)"
proof (induction kvs arbitrary: R S ds)
  case Nil
  then show ?case by (simp add: deliver_all_def)
next
  case (Cons kv kvs)
  obtain count qm where kv: "kv = (count, qm)" by (cases kv)
  show ?case
  proof (cases "find_node (qm_nodeid qm) (qm_pid qm) nodes")
    case None
    then show ?thesis
      using Cons.IH by (simp add: kv deliver_queue_step_def from_member_def from_synced_def)
  next
    case (Some n)
    then show ?thesis
      using Cons.IH
      by (cases mode; cases "ni_synced n")
        (simp_all add: kv deliver_queue_step_def from_member_def from_synced_def deliver_all_def)
  qed
qed

lemma deliver_queue_spec:
  assumes "bt_ok (d_msg_queue d)" and "deliver_message_queue cb (d, s) = (d', s')"
  defines "synced \<equiv> from_synced (d_sync_nodes d)" and "member \<equiv> from_member (d_sync_nodes d)"
  shows "d_mode d = Synced \<Longrightarrow>
      (\<exists>d1. deliver_all cb (filter synced (d_msg_queue d)) (d, s) = (d1, s') \<and>
            d' = d1\<lparr>d_msg_queue := filter (\<lambda>kv. member kv \<and> \<not> synced kv) (d_msg_queue d)\<rparr>)"
    and "d_mode d = ModeUpdate \<Longrightarrow>
      s' = s \<and> d' = d\<lparr>d_msg_queue := filter (\<lambda>kv. member kv \<and> \<not> synced kv) (d_msg_queue d),
                     d_sync_queue := d_sync_queue d @ map snd (filter synced (d_msg_queue d))\<rparr>"
proof -
  let ?q = "d_msg_queue d"
  note dist = bt_ok_distinct [OF assms(1)]
  have rest: "filter (\<lambda>kv. fst kv \<notin> fst ` {kv \<in> set ?q. member kv \<longrightarrow> synced kv}) ?q =
      filter (\<lambda>kv. member kv \<and> \<not> synced kv) ?q"
    using filter_keys [OF dist, of "\<lambda>kv. \<not> member kv \<or> synced kv"] by simp
  show "\<exists>d1. deliver_all cb (filter synced ?q) (d, s) = (d1, s') \<and>
            d' = d1\<lparr>d_msg_queue := filter (\<lambda>kv. member kv \<and> \<not> synced kv) ?q\<rparr>" if mode: "d_mode d = Synced"
  proof -
    obtain d1 s1 where all: "deliver_all cb (filter synced ?q) (d, s) = (d1, s1)" by (metis surj_pair)
    note frame = deliver_all_queues [OF all]
    show ?thesis
    proof (cases "?q = []")
      case True
      then show ?thesis using assms(2) all by (auto simp: deliver_message_queue_def deliver_all_def)
    next
      case False
      then show ?thesis
        using assms(2) all mode frame rest
        by (auto simp: deliver_message_queue_def deliver_fold fold_bt_remove synced_def member_def)
    qed
  qed
  show "s' = s \<and> d' = d\<lparr>d_msg_queue := filter (\<lambda>kv. member kv \<and> \<not> synced kv) ?q,
                     d_sync_queue := d_sync_queue d @ map snd (filter synced ?q)\<rparr>" if mode: "d_mode d = ModeUpdate"
  proof (cases "?q = []")
    case True
    then show ?thesis using assms(2) by (simp add: deliver_message_queue_def)
  next
    case False
    then show ?thesis
      using assms(2) mode rest
      by (simp add: deliver_message_queue_def deliver_fold fold_bt_remove synced_def member_def)
  qed
qed


text \<open>\<open>deliver_sync_queue\<close> delivers the whole queue in order and leaves it empty.\<close>

lemma deliver_sync_loop_all:
  "deliver_sync_loop cb q ds = deliver_all cb (map (\<lambda>qm. (qm_msg_count qm, qm)) q) ds"
  by (induction q arbitrary: ds) (simp_all add: deliver_all_def)

section \<open>The queues stay ordered and bounded\<close>

lemma deliver_queue_mode:
  assumes "deliver_message_queue cb (d, s) = (d', s')"
  shows "d_mode d' = d_mode d"
proof (cases "d_msg_queue d = []")
  case True
  then show ?thesis using assms by (simp add: deliver_message_queue_def)
next
  case False
  obtain R S d1 s1 where fold: "foldl (deliver_queue_step cb (d_mode d) (d_sync_nodes d)) (([], []), d, s) (d_msg_queue d)
      = ((R, S), d1, s1)" by (metis surj_pair)
  have "d_mode d1 = d_mode d"
    using fold deliver_all_queues [of "filter (from_synced (d_sync_nodes d)) (d_msg_queue d)" d s d1 s1]
    by (auto simp: deliver_fold split: if_splits)
  then show ?thesis using assms False fold by (auto simp: deliver_message_queue_def)
qed

lemma set_mode_normal [simp]: "\<not> is_error_mode m \<Longrightarrow> d_mode (set_mode m d) = m"
  by (simp add: set_mode_def Let_def)

lemma process_state_sync_mode:
  assumes "process_state_sync cb (d, s) = (r, d', s')" and "r \<noteq> Panicked"
  shows "d_mode d' \<in> {Synced, ModeUpdate, ModeError}"
proof -
  have norm: "\<not> is_error_mode Synced" "\<not> is_error_mode ModeUpdate" by (simp_all add: is_error_mode_def)
  have err: "d_mode (set_mode ModeError x) = ModeError" for x :: "'m Dfsm"
    by (cases "d_mode x") (simp_all add: set_mode_def is_error_mode_def)
  obtain r1 d1 s1 where cb: "cb_process_state_update cb (d_sync_nodes d) (d, s) = (r1, d1, s1)"
    by (metis prod_cases3)
  show ?thesis
  proof (cases r1)
    case (Ok b)
    show ?thesis
    proof (cases b)
      case True
      let ?d2 = "d1\<lparr>d_sync_nodes := mark_first (\<lambda>n. ni_node_id n = d_nodeid d1 \<and> ni_pid n = d_pid d1)
                    (\<lambda>n. n\<lparr>ni_synced := True\<rparr>) (d_sync_nodes d1)\<rparr>"
      obtain d3 s3 where sy: "cb_on_synced cb (set_mode Synced ?d2, s1) = (d3, s3)"
        by (cases "cb_on_synced cb (set_mode Synced ?d2, s1)")
      have "d_mode d3 = Synced" using same_coreD(1) [OF synced_core [OF sy]] norm(1) by simp
      then show ?thesis
        using assms(1) cb Ok True sy deliver_queue_mode [of d3 s3 d' s']
        by (simp add: process_state_sync_def Let_def)
    next
      case False
      then show ?thesis
        using assms(1) cb Ok norm(2) deliver_queue_mode [of "set_mode ModeUpdate d1" s1 d' s']
        by (simp add: process_state_sync_def)
    qed
  next
    case (Err e)
    then show ?thesis using assms(1) cb err by (auto simp: process_state_sync_def)
  next
    case Panic
    then show ?thesis using assms cb by (auto simp: process_state_sync_def)
  qed
qed

lemma deliver_queue_inv:
  assumes "queue_inv d" and "deliver_message_queue cb (d, s) = (d', s')"
  shows "queue_inv d'"
proof -
  have "deliver_message_queue cb (d, s) = (d', s') \<Longrightarrow>
      \<exists>P. d_msg_queue d' = filter P (d_msg_queue d)"
  proof (cases "d_msg_queue d = []")
    case True
    then show "deliver_message_queue cb (d, s) = (d', s') \<Longrightarrow> ?thesis" by (simp add: deliver_message_queue_def)
  next
    case False
    assume del: "deliver_message_queue cb (d, s) = (d', s')"
    obtain R S d1 s1 where fold: "foldl (deliver_queue_step cb (d_mode d) (d_sync_nodes d)) (([], []), d, s) (d_msg_queue d)
        = ((R, S), d1, s1)" by (metis surj_pair)
    have "d_msg_queue d1 = d_msg_queue d"
      using fold deliver_all_queues [of "filter (from_synced (d_sync_nodes d)) (d_msg_queue d)" d s d1 s1]
      by (auto simp: deliver_fold split: if_splits)
    then show ?thesis using del False fold by (auto simp: deliver_message_queue_def fold_bt_remove)
  qed
  then obtain P where "d_msg_queue d' = filter P (d_msg_queue d)" using assms(2) by blast
  then show ?thesis
    using assms(1) order_trans [OF length_filter_le [of P "d_msg_queue d"]]
    by (auto simp: queue_inv_def bt_ok_filter)
qed

lemma core_inv:
  assumes "same_core d d'" and "queue_inv d"
  shows "queue_inv d'"
  using assms(2) by (simp add: queue_inv_def same_coreD(3) [OF assms(1)])

lemma deliver_one_inv:
  assumes "deliver_one cb nodeid pid m t c (d, s) = (d', s')" and "queue_inv d"
  shows "queue_inv d'"
  using deliver_one_queues(3) [OF assms(1)] assms(2) by (simp add: queue_inv_def)

lemma process_state_sync_inv:
  assumes "process_state_sync cb (d, s) = (r, d', s')" and "queue_inv d"
  shows "queue_inv d'"
proof -
  obtain r1 d1 s1 where cb: "cb_process_state_update cb (d_sync_nodes d) (d, s) = (r1, d1, s1)"
    by (metis prod_cases3)
  have q1: "queue_inv d1" using core_inv [OF state_core [OF cb] assms(2)] .
  show ?thesis
  proof (cases r1)
    case (Ok b)
    show ?thesis
    proof (cases b)
      case True
      let ?d2 = "d1\<lparr>d_sync_nodes := mark_first (\<lambda>n. ni_node_id n = d_nodeid d1 \<and> ni_pid n = d_pid d1)
                    (\<lambda>n. n\<lparr>ni_synced := True\<rparr>) (d_sync_nodes d1)\<rparr>"
      obtain d3 s3 where sy: "cb_on_synced cb (set_mode Synced ?d2, s1) = (d3, s3)"
        by (cases "cb_on_synced cb (set_mode Synced ?d2, s1)")
      have "queue_inv (set_mode Synced ?d2)" using q1 by simp
      then have "queue_inv d3" using core_inv [OF synced_core [OF sy]] by blast
      then show ?thesis
        using assms(1) cb Ok True sy deliver_queue_inv [of d3 s3 d' s']
        by (simp add: process_state_sync_def Let_def)
    next
      case False
      then show ?thesis
        using assms(1) cb Ok q1 deliver_queue_inv [of "set_mode ModeUpdate d1" s1 d' s']
        by (simp add: process_state_sync_def)
    qed
  next
    case (Err e)
    then show ?thesis using assms(1) cb q1 by (auto simp: process_state_sync_def)
  next
    case Panic
    then show ?thesis using assms(1) cb q1 by (auto simp: process_state_sync_def)
  qed
qed

lemma process_state_inv:
  assumes "process_state cb nodeid pid bs (d, s) = (r, d', s')" and "queue_inv d"
  shows "queue_inv d'"
  using assms
  by (auto simp: process_state_def Let_def split: option.splits if_splits intro: process_state_sync_inv)

lemma sync_queue_inv:
  assumes "deliver_sync_queue cb (d, s) = (d', s')" and "queue_inv d"
  shows "queue_inv d'"
proof -
  obtain d1 s1 where all: "deliver_all cb (map (\<lambda>qm. (qm_msg_count qm, qm)) (d_sync_queue d)) (d, s) = (d1, s1)"
    by (cases "deliver_all cb (map (\<lambda>qm. (qm_msg_count qm, qm)) (d_sync_queue d)) (d, s)")
  then have "d_msg_queue d1 = d_msg_queue d" using deliver_all_queues by blast
  then show ?thesis
    using assms all unfolding deliver_sync_queue_def deliver_sync_loop_all by (auto simp: queue_inv_def)
qed

lemma update_complete_inv:
  assumes "handle_update_complete cb (d, s) = (d', s')" and "queue_inv d"
  shows "queue_inv d'"
proof -
  obtain d1 s1 where sq: "deliver_sync_queue cb (d, s) = (d1, s1)" by (metis surj_pair)
  have "queue_inv (set_mode Synced d1)" using sync_queue_inv [OF sq assms(2)] by simp
  moreover have "cb_on_synced cb (set_mode Synced d1, s1) = (d', s')"
    using assms(1) sq by (simp add: handle_update_complete_def)
  ultimately show ?thesis using core_inv [OF synced_core] by blast
qed

lemma handle_message_inv:
  assumes "handle_dfsm_message en cb now nodeid pid msg (d, s) = (r, d', s')" and "queue_inv d"
  shows "queue_inv d'"
proof (cases "message_epoch msg \<noteq> None \<and> message_epoch msg \<noteq> Some (d_sync_epoch d)")
  case True
  then show ?thesis using assms by (simp add: handle_dfsm_message_def)
next
  case False
  note handle = handle_dfsm_message_def
  show ?thesis
  proof (cases msg)
    case (Normal c t v m)
    then show ?thesis
      using assms deliver_one_inv [of nodeid pid m "ucast t" c d s d' s']
      by (auto simp: handle handle_normal_message_def queue_message_inv split: if_splits)
  next
    case (SyncStart e)
    then show ?thesis
      using assms by (auto simp: handle handle_sync_start_def Let_def send_state_inv split: if_splits)
  next
    case (StateMsg e bs)
    then show ?thesis using assms False process_state_inv by (auto simp: handle)
  next
    case (UpdateMsg e t)
    then have "(d', s') = snd (cb_process_update cb nodeid pid (serialize_for_update t) (d, s))"
      using assms False by (simp add: handle handle_update_def)
    then show ?thesis
      using update_core assms(2) core_inv by (metis prod.collapse)
  next
    case (UpdateComplete e)
    then show ?thesis using assms False update_complete_inv by (auto simp: handle)
  next
    case (VerifyRequest e n)
    then show ?thesis
      using assms False
      by (auto simp: handle handle_verify_request_def Let_def send_dfsm_inv split: option.splits prod.splits)
  next
    case (Verify e n c)
    then show ?thesis
      using assms False by (auto simp: handle handle_verify_def split: if_splits prod.splits)
  qed
qed

lemma membership_change_inv:
  assumes "handle_membership_change en cb now members (d, s) = (r, d', s')" and "queue_inv d"
  shows "queue_inv d'"
proof -
  let ?d1 = "enter_epoch now members d"
  have q1: "queue_inv ?d1"
    using assms(2) by (simp add: enter_epoch_def invalidate_checksum_def Let_def queue_inv_def)
  obtain d2 s2 where 2: "(if d_sync_nodes ?d1 \<noteq> [] then cb_cleanup cb (d_sync_nodes ?d1) (?d1, s) else (?d1, s)) = (d2, s2)"
    by (cases "if d_sync_nodes ?d1 \<noteq> [] then cb_cleanup cb (d_sync_nodes ?d1) (?d1, s) else (?d1, s)")
  have q2: "queue_inv d2"
    using 2 q1 core_inv [OF cleanup_core, of "d_sync_nodes ?d1" ?d1 s d2 s2] by (auto split: if_splits)
  let ?d3 = "d2\<lparr>d_sync_nodes := map fresh_node members, d_sync_queue := []\<rparr>"
  obtain d4 s4 where 4: "cb_membership cb members (?d3, s2) = (d4, s4)"
    by (cases "cb_membership cb members (?d3, s2)")
  have "queue_inv ?d3" using q2 by (simp add: queue_inv_def)
  then have q4: "queue_inv d4" using core_inv [OF membership_core [OF 4]] by blast
  show ?thesis
  proof (cases "length members = 1")
    case True
    then show ?thesis
      using assms(1) 2 4 q4 by (auto simp: handle_membership_change_def Let_def split: if_splits)
  next
    case False
    obtain r6 d6 where 6: "send_sync_start en now (set_mode StartSync d4) = (r6, d6)"
      by (cases "send_sync_start en now (set_mode StartSync d4)")
    have q6: "queue_inv d6" using send_dfsm_inv [OF 6 [unfolded send_sync_start_def]] q4 by simp
    have "queue_inv d'" if "send_state en cb now (d6, s4) = (r, d', s')"
      using send_state_inv [OF that] q6 by simp
    then show ?thesis
      using False assms(1) 2 4 6 q4 q6
      by (cases r6) (auto simp: handle_membership_change_def Let_def split: if_splits)
  qed
qed

lemma dfsm_step_inv:
  assumes "dfsm_step en cb ds ds'" and "queue_inv (fst ds)"
  shows "queue_inv (fst ds')"
  using assms
proof (cases rule: dfsm_step.cases)
  case (Message now nodeid pid msg r)
  then show ?thesis
    using assms(2) handle_message_inv [of en now nodeid pid msg "fst ds" "snd ds" r "fst ds'" "snd ds'"] by simp
next
  case (Membership now members r)
  then show ?thesis
    using assms(2) membership_change_inv [of en now members "fst ds" "snd ds" r "fst ds'" "snd ds'"] by simp
next
  case (Call now m d r c d' s)
  obtain r1 d1 where "send_dfsm_message en now (from_message now (d_msg_counter d + 1) m (d_protocol_version d))
      (d\<lparr>d_msg_counter := d_msg_counter d + 1, d_waiting := hm_insert (d_msg_counter d + 1) () (d_waiting d)\<rparr>) = (r1, d1)"
    by fastforce
  with Call assms(2) send_dfsm_inv [OF this] show ?thesis
    by (auto simp: send_message_sync_begin_def Let_def queue_inv_def split: dfsm_result.splits)
next
  case (Return d s c)
  then show ?thesis using assms(2) by (simp add: send_message_sync_end_def)
next
  case (Broadcast now m d r d' s)
  then show ?thesis
    using assms(2)
    by (auto simp: broadcast_def send_message_def Let_def send_dfsm_inv split: if_splits prod.splits)
next
  case (Request now d r d' s)
  then show ?thesis
    using assms(2) by (auto simp: verify_request_def Let_def send_dfsm_inv split: if_splits)
qed

lemma dfsm_run_inv:
  assumes "(dfsm_step en cb)\<^sup>*\<^sup>* ds ds'" and "queue_inv (fst ds)"
  shows "queue_inv (fst ds')"
  using assms by (induction rule: rtranclp_induct) (auto intro: dfsm_step_inv)

end

end
