(* ===== verification/Mem_Callbacks.thy ===== *)
theory Mem_Callbacks
  imports Mem_Sync Cluster_Status Dfsm_Props
begin

text \<open>
  The application of the replicated state machine (\<open>pmxcfs/src/memdb_callbacks.rs\<close>): delivered
  messages become operations on the database, and state synchronization elects the node with the
  highest index, which then sends the entries that the others lack.

  The operations of the database never panic and \<open>exists\<close> never fails, so the error branches that
  only such a failure reaches have no counterpart here. The order in which a \<open>HashSet\<close> of inodes is
  traversed is the order of insertion.
\<close>

section \<open>State and environment\<close>

record 'db MemDbCallbacks =
  mc_memdb :: "'db MemDb"
  mc_status :: Status
  mc_dfsm :: bool \<comment> \<open>\<open>set_dfsm\<close> was called\<close>

text \<open>SQLite, SHA-256, \<open>bincode\<close>, the clock in seconds and the environment of the state machine.\<close>

record 'db mem_env =
  me_sq :: "'db sqlite"
  me_sha :: "byte list \<Rightarrow> byte list"
  me_bincode :: "TreeEntry list \<Rightarrow> byte list option"
  me_now :: u64
  me_env :: "FuseMessage env"

abbreviation now32 :: "'db mem_env \<Rightarrow> u32" where
  "now32 me \<equiv> ucast (me_now me)"

definition libc_EACCES :: int where "libc_EACCES = 13"
definition libc_ENOENT :: int where "libc_ENOENT = 2"

section \<open>Delivery\<close>

definition update_version_counters :: "string \<Rightarrow> Status \<Rightarrow> Status" where
  "update_version_counters path s =
     (let p = trim_start_matches (CHR ''/'') path;
          s1 = increment_path_version p s
      in if starts_with p ''qemu-server/'' \<or> starts_with p ''lxc/'' then increment_vmlist_version s1 else s1)"

abbreviation bump_path :: "string \<Rightarrow> 'db MemDbCallbacks \<Rightarrow> 'db MemDbCallbacks" where
  "bump_path path a \<equiv> a\<lparr>mc_status := update_version_counters path (mc_status a)\<rparr>"

definition handle_create ::
  "'db mem_env \<Rightarrow> string \<Rightarrow> u32 \<Rightarrow> 'db MemDbCallbacks \<Rightarrow> int \<times> 'db MemDbCallbacks" where
  "handle_create me path mtime a =
     (case create (me_sq me) (me_sha me) (me_now me) path 0 0 mtime (mc_memdb a) of
        (Ok _, m) \<Rightarrow> (0, bump_path path (a\<lparr>mc_memdb := m\<rparr>))
      | (_, m) \<Rightarrow> (- libc_EACCES, a\<lparr>mc_memdb := m\<rparr>))"

definition handle_mkdir ::
  "'db mem_env \<Rightarrow> string \<Rightarrow> u32 \<Rightarrow> 'db MemDbCallbacks \<Rightarrow> int \<times> 'db MemDbCallbacks" where
  "handle_mkdir me path mtime a =
     (case create (me_sq me) (me_sha me) (me_now me) path S_IFDIR 0 mtime (mc_memdb a) of
        (Ok _, m) \<Rightarrow> (0, bump_path path (a\<lparr>mc_memdb := m\<rparr>))
      | (_, m) \<Rightarrow> (- libc_EACCES, a\<lparr>mc_memdb := m\<rparr>))"

definition handle_write ::
  "'db mem_env \<Rightarrow> string \<Rightarrow> u64 \<Rightarrow> byte list \<Rightarrow> u32 \<Rightarrow> 'db MemDbCallbacks \<Rightarrow> int \<times> 'db MemDbCallbacks" where
  "handle_write me path offset data mtime a =
     (case (if \<not> path_exists (mc_memdb a) path
            then create (me_sq me) (me_sha me) (me_now me) path 0 0 mtime (mc_memdb a)
            else (Ok (), mc_memdb a)) of
        (Ok _, m) \<Rightarrow>
          if data \<noteq> [] then
            (case write_op (me_sq me) path offset 0 mtime data False m of
               (Ok _, m1) \<Rightarrow> (0, bump_path path (a\<lparr>mc_memdb := m1\<rparr>))
             | (_, m1) \<Rightarrow> (- libc_EACCES, a\<lparr>mc_memdb := m1\<rparr>))
          else (0, a\<lparr>mc_memdb := m\<rparr>)
      | (_, m) \<Rightarrow> (- libc_EACCES, a\<lparr>mc_memdb := m\<rparr>))"

definition handle_delete ::
  "'db mem_env \<Rightarrow> string \<Rightarrow> 'db MemDbCallbacks \<Rightarrow> int \<times> 'db MemDbCallbacks" where
  "handle_delete me path a =
     (if path_exists (mc_memdb a) path then
        (case delete (me_sq me) path 0 (now32 me) (mc_memdb a) of
           (Ok _, m) \<Rightarrow> (0, bump_path path (a\<lparr>mc_memdb := m\<rparr>))
         | (_, m) \<Rightarrow> (- libc_EACCES, a\<lparr>mc_memdb := m\<rparr>))
      else (0, a))"

definition handle_rename ::
  "'db mem_env \<Rightarrow> string \<Rightarrow> string \<Rightarrow> 'db MemDbCallbacks \<Rightarrow> int \<times> 'db MemDbCallbacks" where
  "handle_rename me from to a =
     (if path_exists (mc_memdb a) from then
        (case rename (me_sq me) from to 0 (now32 me) (mc_memdb a) of
           (Ok _, m) \<Rightarrow> (0, bump_path to (bump_path from (a\<lparr>mc_memdb := m\<rparr>)))
         | (_, m) \<Rightarrow> (- libc_EACCES, a\<lparr>mc_memdb := m\<rparr>))
      else (- libc_ENOENT, a))"

definition handle_mtime ::
  "'db mem_env \<Rightarrow> string \<Rightarrow> u32 \<Rightarrow> u32 \<Rightarrow> 'db MemDbCallbacks \<Rightarrow> int \<times> 'db MemDbCallbacks" where
  "handle_mtime me path nodeid mtime a =
     (if path_exists (mc_memdb a) path then
        (case set_mtime (me_sq me) (me_sha me) (me_now me) path nodeid mtime (mc_memdb a) of
           (Ok _, m) \<Rightarrow> (0, bump_path path (a\<lparr>mc_memdb := m\<rparr>))
         | (_, m) \<Rightarrow> (- libc_EACCES, a\<lparr>mc_memdb := m\<rparr>))
      else (- libc_ENOENT, a))"

definition handle_unlock_request ::
  "'db mem_env \<Rightarrow> string \<Rightarrow> FuseMessage Dfsm \<times> 'db MemDbCallbacks \<Rightarrow> FuseMessage Dfsm \<times> 'db MemDbCallbacks" where
  "handle_unlock_request me path da =
     (case da of (d, a) \<Rightarrow>
        if \<not> mc_dfsm a \<or> \<not> is_leader d then (d, a)
        else (case lookup_path (mc_memdb a) path of
                None \<Rightarrow> (d, a)
              | Some entry \<Rightarrow>
                  if is_dir entry \<and> is_lock_path path then
                    (case lock_expired (me_now me) path (compute_checksum (me_sha me) entry) (mc_memdb a) of
                       (expired, m) \<Rightarrow>
                         (if expired then snd (broadcast (me_env me) (now32 me) (FUnlock path) d) else d,
                          a\<lparr>mc_memdb := m\<rparr>))
                  else (d, a)))"

definition handle_unlock :: "'db mem_env \<Rightarrow> string \<Rightarrow> 'db MemDbCallbacks \<Rightarrow> 'db MemDbCallbacks" where
  "handle_unlock me path a =
     (case delete (me_sq me) path 0 (now32 me) (mc_memdb a) of
        (Ok _, m) \<Rightarrow> bump_path path (a\<lparr>mc_memdb := m\<rparr>)
      | (_, m) \<Rightarrow> a\<lparr>mc_memdb := m\<rparr>)"

definition mem_deliver_message ::
  "'db mem_env \<Rightarrow> u32 \<Rightarrow> u32 \<Rightarrow> FuseMessage \<Rightarrow> u64 \<Rightarrow> FuseMessage Dfsm \<times> 'db MemDbCallbacks
   \<Rightarrow> (int \<times> bool) option \<times> FuseMessage Dfsm \<times> 'db MemDbCallbacks" where
  "mem_deliver_message me nodeid pid fuse_message timestamp da =
     (let mtime = (ucast timestamp :: u32);
          reply = (\<lambda>(result, a). (Some (result, result \<ge> 0), fst da, a))
      in case fuse_message of
           FCreate path \<Rightarrow> reply (handle_create me path mtime (snd da))
         | FMkdir path \<Rightarrow> reply (handle_mkdir me path mtime (snd da))
         | FWrite path offset data \<Rightarrow> reply (handle_write me path offset data mtime (snd da))
         | FDelete path \<Rightarrow> reply (handle_delete me path (snd da))
         | FRename from to \<Rightarrow> reply (handle_rename me from to (snd da))
         | FMtime path msg_mtime \<Rightarrow> reply (handle_mtime me path nodeid msg_mtime (snd da))
         | FUnlockRequest path \<Rightarrow> (Some (0, True), handle_unlock_request me path da)
         | FUnlock path \<Rightarrow> (Some (0, True), fst da, handle_unlock me path (snd da)))"

section \<open>State\<close>

definition mem_compute_checksum :: "'db mem_env \<Rightarrow> 'db MemDbCallbacks \<Rightarrow> byte list option" where
  "mem_compute_checksum me a = compute_database_checksum (me_bincode me) (me_sha me) (mc_memdb a)"

definition mem_get_state :: "'db mem_env \<Rightarrow> 'db MemDbCallbacks \<Rightarrow> (unit, byte list) res \<times> 'db MemDbCallbacks" where
  "mem_get_state me a =
     (case encode_index (me_sq me) (me_sha me) (mc_memdb a) of
        (Ok index, m) \<Rightarrow> (Ok (index_serialize index), a\<lparr>mc_memdb := m\<rparr>)
      | (Err _, m) \<Rightarrow> (Err (), a\<lparr>mc_memdb := m\<rparr>)
      | (Panic, m) \<Rightarrow> (Panic, a\<lparr>mc_memdb := m\<rparr>))"

text \<open>The indices of the nodes; a state that cannot be parsed is skipped.\<close>

fun parse_indices :: "NodeSyncInfo list \<Rightarrow> (unit, (u32 \<times> u32 \<times> MemDbIndex) list) res" where
  "parse_indices [] = Ok []"
| "parse_indices (node # nodes) =
    (case ni_state node of
       None \<Rightarrow> parse_indices nodes
     | Some state_data \<Rightarrow>
         (case index_deserialize state_data of
            Panic \<Rightarrow> Panic
          | Err _ \<Rightarrow> parse_indices nodes
          | Ok index \<Rightarrow>
              (case parse_indices nodes of
                 Ok rest \<Rightarrow> Ok ((ni_node_id node, ni_pid node, index) # rest)
               | r \<Rightarrow> r)))"

text \<open>\<open>leader_loop indices i leader_idx\<close>: the loop \<open>for i in 1..indices.len()\<close>.\<close>

function leader_loop :: "(u32 \<times> u32 \<times> MemDbIndex) list \<Rightarrow> nat \<Rightarrow> nat \<Rightarrow> nat" where
  "leader_loop indices i leader_idx =
     (if i < length indices then
        leader_loop indices (i + 1)
          (if index_cmp (snd (snd (indices ! i))) (snd (snd (indices ! leader_idx))) = Greater
           then i else leader_idx)
      else leader_idx)"
  by pat_completeness auto
termination by (relation "measure (\<lambda>(xs, i, _). length xs - i)") auto

declare leader_loop.simps [simp del]

definition same_index :: "MemDbIndex \<Rightarrow> MemDbIndex \<Rightarrow> bool" where
  "same_index index leader \<longleftrightarrow>
     ix_version index = ix_version leader \<and> ix_mtime index = ix_mtime leader \<and>
     ix_size index = ix_size leader \<and> length (ix_entries index) = length (ix_entries leader) \<and>
     list_all (\<lambda>(a, b). ie_inode a = ie_inode b \<and> ie_digest a = ie_digest b)
       (zip (ix_entries index) (ix_entries leader))"

definition same_header :: "MemDbIndex \<Rightarrow> MemDbIndex \<Rightarrow> bool" where
  "same_header index leader \<longleftrightarrow>
     ix_version index = ix_version leader \<and> ix_mtime index = ix_mtime leader \<and>
     ix_size index = ix_size leader \<and> length (ix_entries index) = length (ix_entries leader)"

text \<open>\<open>send_updates_to_followers\<close>: the inodes, then one message each, then the completion.\<close>

definition inodes_to_update :: "MemDbIndex \<Rightarrow> (u32 \<times> u32 \<times> MemDbIndex) list \<Rightarrow> (u64, unit) hmap" where
  "inodes_to_update leader_index all_indices =
     fold (\<lambda>i. hm_insert i ())
       (concat (map (\<lambda>(_, _, follower). if same_header follower leader_index then []
                                         else find_differences leader_index follower) all_indices)) []"

definition send_one_update :: "'db mem_env \<Rightarrow> 'db MemDb \<Rightarrow> u64 \<Rightarrow> FuseMessage Dfsm \<Rightarrow> FuseMessage Dfsm" where
  "send_one_update me m inode d =
     (if inode = ROOT_INODE then d
      else case get_entry_by_inode m inode of
        None \<Rightarrow> d
      | Some tree_entry \<Rightarrow> snd (send_update (me_env me) (now32 me) tree_entry d))"

definition send_updates_to_followers ::
  "'db mem_env \<Rightarrow> 'db MemDb \<Rightarrow> MemDbIndex \<Rightarrow> (u32 \<times> u32 \<times> MemDbIndex) list \<Rightarrow> FuseMessage Dfsm
   \<Rightarrow> dfsm_result \<times> FuseMessage Dfsm" where
  "send_updates_to_followers me m leader_index all_indices d =
     (let any_follower_needs_updates = (\<exists>(_, _, f) \<in> set all_indices. \<not> same_header f leader_index) in
      if \<not> any_follower_needs_updates then send_update_complete (me_env me) (now32 me) d
      else send_update_complete (me_env me) (now32 me)
             (fold (send_one_update me m) (hm_keys (inodes_to_update leader_index all_indices)) d))"

definition mem_process_state_update ::
  "'db mem_env \<Rightarrow> NodeSyncInfo list \<Rightarrow> FuseMessage Dfsm \<times> 'db MemDbCallbacks
   \<Rightarrow> (unit, bool) res \<times> FuseMessage Dfsm \<times> 'db MemDbCallbacks" where
  "mem_process_state_update me states da =
     (case parse_indices states of
        Panic \<Rightarrow> (Panic, da)
      | Err e \<Rightarrow> (Err e, da)
      | Ok indices \<Rightarrow>
          if indices = [] then (Ok True, da)
          else
            let (d, a) = da;
                (leader_nodeid, leader_pid, leader_index) = indices ! leader_loop indices 1 0;
                synced_nodes = map (\<lambda>(n, p, _). (n, p)) (filter (\<lambda>(_, _, ix). same_index ix leader_index) indices);
                we_are_leader = (mc_dfsm a \<and> d_nodeid d = leader_nodeid \<and> d_pid d = leader_pid);
                we_are_synced = (mc_dfsm a \<and> (d_nodeid d, d_pid d) \<in> set synced_nodes)
            in if we_are_leader then
                 (case send_updates_to_followers me (mc_memdb a) leader_index indices d of
                    (Done, d') \<Rightarrow> (Ok True, d', a)
                  | (_, d') \<Rightarrow> (Err (), d', a))
               else if we_are_synced then (Ok True, d, a)
               else (Ok False, d, a))"

definition mem_process_update ::
  "'db mem_env \<Rightarrow> u32 \<Rightarrow> u32 \<Rightarrow> byte list \<Rightarrow> FuseMessage Dfsm \<times> 'db MemDbCallbacks
   \<Rightarrow> bool \<times> FuseMessage Dfsm \<times> 'db MemDbCallbacks" where
  "mem_process_update me nodeid pid data da =
     (case deserialize_from_update data of
        Ok tree_entry \<Rightarrow>
          (case apply_tree_entry (me_sq me) tree_entry (mc_memdb (snd da)) of
             (r, m) \<Rightarrow> (is_ok r, fst da, (snd da)\<lparr>mc_memdb := m\<rparr>))
      | _ \<Rightarrow> (False, da))"

definition commit_state :: "'db MemDbCallbacks \<Rightarrow> 'db MemDbCallbacks" where
  "commit_state a =
     a\<lparr>mc_status := scan_vmlist (mc_memdb a) (increment_all_path_versions (mc_status a))\<rparr>"

definition mem_callbacks :: "'db mem_env \<Rightarrow> (FuseMessage, 'db MemDbCallbacks) Callbacks" where
  "mem_callbacks me =
     \<lparr>cb_deliver = mem_deliver_message me, cb_checksum = mem_compute_checksum me,
      cb_get_state = mem_get_state me, cb_process_state_update = mem_process_state_update me,
      cb_process_update = mem_process_update me, cb_on_synced = id,
      cb_cleanup = (\<lambda>_. id), cb_membership = (\<lambda>_. id)\<rparr>"

end
