(* ===== verification/Mem_Replica.thy ===== *)
theory Mem_Replica
  imports Mem_Callbacks
begin

text \<open>
  Replication: what two nodes have in common after delivering the same messages, who is elected
  when states are compared, and what the elected node sends.
\<close>

section \<open>Replicas\<close>

text \<open>
  Two databases with the same contents. The order of the hash maps, the connection and the cache of
  lock times are local to a node.
\<close>

definition same_data :: "'db MemDb \<Rightarrow> 'db MemDb \<Rightarrow> bool" where
  "same_data m n \<longleftrightarrow>
     db_version m = db_version n \<and> db_root_inode m = db_root_inode n \<and>
     (\<forall>i. hm_get (db_index m) i = hm_get (db_index n) i) \<and>
     (\<forall>p c. child (db_tree m) p c = child (db_tree n) p c)"

lemma same_dataI:
  assumes "db_version m = db_version n" and "db_root_inode m = db_root_inode n"
    and "\<And>i. hm_get (db_index m) i = hm_get (db_index n) i"
    and "\<And>p c. child (db_tree m) p c = child (db_tree n) p c"
  shows "same_data m n"
  using assms by (simp add: same_data_def)

lemma same_dataD:
  assumes "same_data m n"
  shows "db_version n = db_version m" and "db_root_inode n = db_root_inode m"
    and "hm_get (db_index n) i = hm_get (db_index m) i"
    and "child (db_tree n) p c = child (db_tree m) p c"
  using assms by (simp_all add: same_data_def)

lemma walk_same:
  assumes "\<And>p c. child t p c = child t' p c"
  shows "walk t ps i = walk t' ps i"
  by (induction ps arbitrary: i)
    (auto simp: walk_Cons assms simp del: walk.simps(2) intro: Option.bind_cong)

lemma lookup_same: "same_data m n \<Longrightarrow> lookup_path n p = lookup_path m p"
  using walk_same [of "db_tree n" "db_tree m"] same_dataD [of m n]
  by (simp add: lookup_path_view fs_view_def cong: Option.bind_cong)

lemma abs_same: "same_data m n \<Longrightarrow> abs_fs n = abs_fs m"
  using walk_same [of "db_tree n" "db_tree m"] same_dataD [of m n]
  by (simp add: fun_eq_iff abs_fs_def fs_view_def cong: Option.bind_cong)

lemma exists_same: "same_data m n \<Longrightarrow> path_exists n p = path_exists m p"
  by (simp add: path_exists_def lookup_same)

lemma stamp_root_same:
  assumes "same_data m n"
  shows "hm_get (db_index (stamp_root v w t db1 m)) i = hm_get (db_index (stamp_root v w t db2 n)) i"
  using same_dataD [OF assms] by (simp add: stamp_root_get)

lemma create_same:
  assumes same: "same_data m n"
    and 1: "create sq1 sha1 now1 path mode writer mtime m = (Ok (), m')"
    and 2: "create sq2 sha2 now2 path mode writer mtime n = (Ok (), n')"
  shows "same_data m' n'"
  using 1
proof (cases rule: create_cases)
  case (2 d b pe v db1)
  note one = this
  show ?thesis
    using assms(3)
  proof (cases rule: create_cases)
    case (2 d' b' pe' v' db2)
    have eq: "d' = d" "b' = b" "pe' = pe" "v' = v"
      using one 2 lookup_same [OF same, of d] same_dataD(1) [OF same] by simp_all
    show ?thesis
      using one(13) 2(13) eq same_dataD [OF same]
      by (intro same_dataI) (simp_all add: stamp_root_same [OF same])
  qed simp
qed simp

lemma write_same:
  assumes same: "same_data m n"
    and 1: "write_op sq1 path offset writer mtime data trunc m = (Ok k1, m')"
    and 2: "write_op sq2 path offset writer mtime data trunc n = (Ok k2, n')"
  shows "same_data m' n'"
  using 1
proof (cases rule: write_cases)
  case (2 e d v db1)
  note one = this
  show ?thesis
    using assms(3)
  proof (cases rule: write_cases)
    case (2 e' d' v' db2)
    have eq: "e' = e" "v' = v" "d' = d"
      using one 2 lookup_same [OF same, of path] same_dataD(1) [OF same] by simp_all
    show ?thesis
      using one(10) 2(10) eq same_dataD [OF same]
      by (intro same_dataI) (simp_all add: stamp_root_same [OF same])
  qed simp
qed simp

lemma set_mtime_same:
  assumes same: "same_data m n"
    and 1: "set_mtime sq1 sha1 now1 path writer mtime m = (Ok (), m')"
    and 2: "set_mtime sq2 sha2 now2 path writer mtime n = (Ok (), n')"
  shows "same_data m' n'"
  using 1
proof (cases rule: set_mtime_cases)
  case (2 e d b v db1 lk1)
  note one = this
  show ?thesis
    using assms(3)
  proof (cases rule: set_mtime_cases)
    case (2 e' d' b' v' db2 lk2)
    have eq: "e' = e" "v' = v"
      using one 2 lookup_same [OF same, of path] same_dataD(1) [OF same] by simp_all
    show ?thesis
      using one(9) 2(9) eq same_dataD [OF same]
      by (intro same_dataI) (simp_all add: stamp_root_same [OF same])
  qed simp
qed simp

lemma delete_same:
  assumes same: "same_data m n"
    and 1: "delete sq1 path writer mtime m = (Ok (), m')"
    and 2: "delete sq2 path writer mtime n = (Ok (), n')"
  shows "same_data m' n'"
  using 1
proof (cases rule: delete_cases)
  case (2 e v db1 lk1)
  note one = this
  show ?thesis
    using assms(3)
  proof (cases rule: delete_cases)
    case (2 e' v' db2 lk2)
    have eq: "e' = e" "v' = v"
      using one 2 lookup_same [OF same, of path] same_dataD(1) [OF same] by simp_all
    show ?thesis
      using one(8) 2(8) eq same_dataD [OF same]
      by (intro same_dataI) (simp_all add: stamp_root_same [OF same])
  qed simp
qed simp

lemma rename_same:
  assumes same: "same_data m n"
    and 1: "rename sq1 old_path new_path writer mtime m = (Ok (), m')"
    and 2: "rename sq2 old_path new_path writer mtime n = (Ok (), n')"
  shows "same_data m' n'"
  using 1
proof (cases rule: rename_cases)
  case (2 e d b np v db1 tgt)
  note one = this
  show ?thesis
    using assms(3)
  proof (cases rule: rename_cases)
    case (2 e' d' b' np' v' db2 tgt')
    have eq: "e' = e" "d' = d" "b' = b" "np' = np" "v' = v" "tgt' = tgt"
      using one 2 lookup_same [OF same] same_dataD(1) [OF same] by simp_all
    show ?thesis
      using one(12) 2(12) eq same_dataD [OF same]
      by (intro same_dataI) (simp_all add: stamp_root_same [OF same])
  qed simp
qed simp

text \<open>
  Messages whose effect is the same on every node: the handlers of deletion and renaming stamp the
  root entry with the local clock, so these two need equal clocks. A failing deletion is not reported for
  an unlock message, so that message is left out.
\<close>

fun replayable :: "bool \<Rightarrow> FuseMessage \<Rightarrow> bool" where
  "replayable same_clock (FDelete _) = same_clock"
| "replayable same_clock (FRename _ _) = same_clock"
| "replayable same_clock (FUnlock _) = False"
| "replayable same_clock _ = True"

lemma reply_accepted:
  fixes r :: int
  assumes "(case x of (result, a) \<Rightarrow> (Some (result, 0 \<le> result), d, a)) = (Some (r, True), d', a')"
  shows "x = (r, a') \<and> 0 \<le> r \<and> d' = d"
  using assms by (cases x) simp

lemma errno_negative [simp]: "\<not> libc_EACCES \<le> 0" "\<not> libc_ENOENT \<le> 0"
  by (simp_all add: libc_EACCES_def libc_ENOENT_def)

lemma handle_create_ok:
  assumes "handle_create me path mtime a = (r, a')" and "0 \<le> r"
  shows "create (me_sq me) (me_sha me) (me_now me) path 0 0 mtime (mc_memdb a) = (Ok (), mc_memdb a')"
  using assms by (auto simp: handle_create_def split: prod.splits res.splits)

lemma handle_mkdir_ok:
  assumes "handle_mkdir me path mtime a = (r, a')" and "0 \<le> r"
  shows "create (me_sq me) (me_sha me) (me_now me) path S_IFDIR 0 mtime (mc_memdb a) = (Ok (), mc_memdb a')"
  using assms by (auto simp: handle_mkdir_def split: prod.splits res.splits)

lemma handle_mtime_ok:
  assumes "handle_mtime me path nodeid mtime a = (r, a')" and "0 \<le> r"
  shows "set_mtime (me_sq me) (me_sha me) (me_now me) path nodeid mtime (mc_memdb a) = (Ok (), mc_memdb a')"
  using assms by (auto simp: handle_mtime_def split: prod.splits res.splits if_splits)

lemma handle_rename_ok:
  assumes "handle_rename me from to a = (r, a')" and "0 \<le> r"
  shows "rename (me_sq me) from to 0 (now32 me) (mc_memdb a) = (Ok (), mc_memdb a')"
  using assms by (auto simp: handle_rename_def split: prod.splits res.splits if_splits)

lemma handle_delete_ok:
  assumes "handle_delete me path a = (r, a')" and "0 \<le> r"
  shows "if path_exists (mc_memdb a) path
         then delete (me_sq me) path 0 (now32 me) (mc_memdb a) = (Ok (), mc_memdb a')
         else a' = a"
  using assms by (auto simp: handle_delete_def split: prod.splits res.splits if_splits)

lemma handle_write_ok:
  assumes "handle_write me path offset data mtime a = (r, a')" and "0 \<le> r"
  shows "\<exists>m1. (if path_exists (mc_memdb a) path then m1 = mc_memdb a
               else create (me_sq me) (me_sha me) (me_now me) path 0 0 mtime (mc_memdb a) = (Ok (), m1)) \<and>
              (if data = [] then mc_memdb a' = m1
               else \<exists>k. write_op (me_sq me) path offset 0 mtime data False m1 = (Ok k, mc_memdb a'))"
  using assms by (auto simp: handle_write_def split: prod.splits res.splits if_splits)

lemma handle_write_same:
  assumes same: "same_data (mc_memdb a) (mc_memdb b)"
    and "handle_write me path offset data mtime a = (r, a')" and "0 \<le> r"
    and "handle_write me' path offset data mtime b = (r', b')" and "0 \<le> r'"
  shows "same_data (mc_memdb a') (mc_memdb b')"
proof -
  obtain m1 where m1: "if path_exists (mc_memdb a) path then m1 = mc_memdb a
               else create (me_sq me) (me_sha me) (me_now me) path 0 0 mtime (mc_memdb a) = (Ok (), m1)"
      "if data = [] then mc_memdb a' = m1
               else \<exists>k. write_op (me_sq me) path offset 0 mtime data False m1 = (Ok k, mc_memdb a')"
    using handle_write_ok [OF assms(2,3)] by blast
  obtain n1 where n1: "if path_exists (mc_memdb b) path then n1 = mc_memdb b
               else create (me_sq me') (me_sha me') (me_now me') path 0 0 mtime (mc_memdb b) = (Ok (), n1)"
      "if data = [] then mc_memdb b' = n1
               else \<exists>k. write_op (me_sq me') path offset 0 mtime data False n1 = (Ok k, mc_memdb b')"
    using handle_write_ok [OF assms(4,5)] by blast
  have "same_data m1 n1"
    using m1(1) n1(1) same exists_same [OF same, of path] create_same [OF same] by (auto split: if_splits)
  then show ?thesis using m1(2) n1(2) write_same by (auto split: if_splits)
qed

lemma same_data_refl [simp]: "same_data m m"
  by (simp add: same_data_def)

lemma lock_expired_same: "lock_expired now path csum m = (b, m') \<Longrightarrow> same_data m m'"
  by (auto simp: lock_expired_def Let_def same_data_def split: option.splits if_splits)

lemma unlock_request_same: "same_data (mc_memdb a) (mc_memdb (snd (handle_unlock_request me path (d, a))))"
  by (auto simp: handle_unlock_request_def split: option.splits prod.splits intro: lock_expired_same)

lemma same_data_trans: "same_data m n \<Longrightarrow> same_data n k \<Longrightarrow> same_data m k"
  by (simp add: same_data_def)

lemma same_data_sym: "same_data m n \<Longrightarrow> same_data n m"
  by (simp add: same_data_def)

lemma deliver_same:
  assumes same: "same_data (mc_memdb a) (mc_memdb b)"
    and "replayable (now32 me = now32 me') msg"
    and "mem_deliver_message me nodeid pid msg ts (d, a) = (Some (r, True), d', a')"
    and "mem_deliver_message me' nodeid pid msg ts (e, b) = (Some (r', True), e', b')"
  shows "same_data (mc_memdb a') (mc_memdb b')"
proof (cases msg)
  case (FCreate path)
  then show ?thesis
    using assms(3,4) create_same [OF same] by (auto simp: mem_deliver_message_def dest!: reply_accepted handle_create_ok)
next
  case (FMkdir path)
  then show ?thesis
    using assms(3,4) create_same [OF same] by (auto simp: mem_deliver_message_def dest!: reply_accepted handle_mkdir_ok)
next
  case (FWrite path offset data)
  then show ?thesis
    using assms(3,4) handle_write_same [OF same] by (auto simp: mem_deliver_message_def dest!: reply_accepted)
next
  case (FDelete path)
  then show ?thesis
    using assms(2-4) delete_same [OF same] exists_same [OF same, of path] same
    by (auto simp: mem_deliver_message_def dest!: reply_accepted handle_delete_ok split: if_splits)
next
  case (FRename p q)
  then show ?thesis
    using assms(2-4) rename_same [OF same]
    by (auto simp: mem_deliver_message_def dest!: reply_accepted handle_rename_ok)
next
  case (FMtime path t)
  then show ?thesis
    using assms(3,4) set_mtime_same [OF same] by (auto simp: mem_deliver_message_def dest!: reply_accepted handle_mtime_ok)
next
  case (FUnlockRequest path)
  then have "a' = snd (handle_unlock_request me path (d, a))" "b' = snd (handle_unlock_request me' path (e, b))"
    using assms(3,4) by (auto simp: mem_deliver_message_def Let_def)
  then show ?thesis
    using unlock_request_same same same_data_trans same_data_sym by metis
next
  case (FUnlock path)
  then show ?thesis using assms(2) by simp
qed

text \<open>
  A log of deliveries: the environment of the node at that moment (its clock), the sender, the
  message and its timestamp. \<open>deliver_log\<close> is defined while every message is accepted.
\<close>

type_synonym 'db delivery = "'db mem_env \<times> u32 \<times> u32 \<times> FuseMessage \<times> u64"

fun deliver_log ::
  "'db delivery list \<Rightarrow> FuseMessage Dfsm \<times> 'db MemDbCallbacks \<Rightarrow> (FuseMessage Dfsm \<times> 'db MemDbCallbacks) option" where
  "deliver_log [] da = Some da"
| "deliver_log ((me, nodeid, pid, msg, ts) # es) da =
    (case mem_deliver_message me nodeid pid msg ts da of
       (Some (r, True), da') \<Rightarrow> deliver_log es da'
     | _ \<Rightarrow> None)"

definition same_delivery :: "'db delivery \<Rightarrow> 'db delivery \<Rightarrow> bool" where
  "same_delivery x y \<longleftrightarrow>
     (case (x, y) of ((me, n, p, msg, t), (me', n', p', msg', t')) \<Rightarrow>
        n' = n \<and> p' = p \<and> msg' = msg \<and> t' = t \<and> replayable (now32 me = now32 me') msg)"

lemma deliver_log_ConsE:
  assumes "deliver_log ((me, nodeid, pid, msg, ts) # es) da = Some da'"
  obtains r da1 where "mem_deliver_message me nodeid pid msg ts da = (Some (r, True), da1)"
    and "deliver_log es da1 = Some da'"
  using assms by (auto split: prod.splits option.splits bool.splits)

lemma deliver_log_same:
  "list_all2 same_delivery es fs \<Longrightarrow> same_data (mc_memdb a) (mc_memdb b) \<Longrightarrow>
   deliver_log es (d, a) = Some (d', a') \<Longrightarrow> deliver_log fs (e, b) = Some (e', b') \<Longrightarrow>
   same_data (mc_memdb a') (mc_memdb b')"
proof (induction es fs arbitrary: d a e b rule: list_all2_induct)
  case Nil
  then show ?case by simp
next
  case (Cons x es y fs)
  obtain me nodeid pid msg ts where x: "x = (me, nodeid, pid, msg, ts)" by (metis prod.exhaust)
  then obtain me' where y: "y = (me', nodeid, pid, msg, ts)" and rep: "replayable (now32 me = now32 me') msg"
    using Cons.hyps(1) by (cases y) (auto simp: same_delivery_def)
  obtain r d1 a1 where 1: "mem_deliver_message me nodeid pid msg ts (d, a) = (Some (r, True), d1, a1)"
      "deliver_log es (d1, a1) = Some (d', a')"
    using Cons.prems(2) unfolding x by (rule deliver_log_ConsE) auto
  obtain r' e1 b1 where 2: "mem_deliver_message me' nodeid pid msg ts (e, b) = (Some (r', True), e1, b1)"
      "deliver_log fs (e1, b1) = Some (e', b')"
    using Cons.prems(3) unfolding y by (rule deliver_log_ConsE) auto
  show ?case
    using Cons.IH [OF deliver_same [OF Cons.prems(1) rep 1(1) 2(1)] 1(2) 2(2)] .
qed

text \<open>Databases with the same data have the same checksum.\<close>

lemma same_data_checksum:
  assumes "same_data m n" and "memdb_inv m" and "memdb_inv n"
  shows "compute_database_checksum bincode sha m = compute_database_checksum bincode sha n"
  using sorted_entries_canonical [OF assms(2,3)] same_dataD(3) [OF assms(1)]
  by (simp add: compute_database_checksum_def encode_database_def)

section \<open>The callbacks and the state machine\<close>

lemma same_core_net [simp]: "same_core d (d\<lparr>d_net := x\<rparr>)"
  by (simp add: same_core_def)

lemma same_core_trans:
  assumes "same_core d d'" and "same_core d' d''"
  shows "same_core d d''"
proof -
  have "d'' = d\<lparr>d_net := d_net d', d_msg_counter := d_msg_counter d'\<rparr>\<lparr>d_net := d_net d'', d_msg_counter := d_msg_counter d''\<rparr>"
    using assms unfolding same_core_def by metis
  then show ?thesis unfolding same_core_def by simp
qed

lemma send_dfsm_message_core: "send_dfsm_message en now msg d = (r, d') \<Longrightarrow> same_core d d'"
  by (auto simp: send_dfsm_message_def split: option.splits if_splits)

lemma broadcast_core: "same_core d (snd (broadcast en now msg d))"
proof -
  have "same_core d (d\<lparr>d_msg_counter := c\<rparr>)" for c by (simp add: same_core_def)
  then show ?thesis
    by (auto simp: broadcast_def send_message_def Let_def split: prod.splits
        intro: same_core_trans send_dfsm_message_core)
qed

lemma send_one_update_core: "same_core d (send_one_update me m i d)"
  by (auto simp: send_one_update_def send_update_def split: option.splits
      intro: send_dfsm_message_core [OF prod.collapse [symmetric]])

lemma fold_send_core: "same_core d (fold (send_one_update me m) is d)"
  by (induction "is" arbitrary: d) (auto intro: same_core_trans send_one_update_core)

lemma send_updates_core:
  assumes "send_updates_to_followers me m ix ixs d = (r, d')"
  shows "same_core d d'"
  using assms
  by (auto simp: send_updates_to_followers_def send_update_complete_def Let_def split: if_splits
      intro: send_dfsm_message_core same_core_trans [OF fold_send_core])

lemma mem_deliver_core:
  assumes "mem_deliver_message me nodeid pid msg t (d, a) = (r, d', a')"
  shows "same_core d d'"
  using assms
  by (cases msg)
    (auto simp: mem_deliver_message_def handle_unlock_request_def Let_def broadcast_core
      split: prod.splits option.splits if_splits)

lemma mem_state_core:
  assumes "mem_process_state_update me nodes (d, a) = (r, d', a')"
  shows "same_core d d'"
  using assms
  by (auto simp: mem_process_state_update_def Let_def
      split: prod.splits res.splits if_splits dfsm_result.splits dest: send_updates_core)

interpretation mem_app: app "mem_callbacks me" for me :: "'db mem_env"
proof unfold_locales
  fix nodeid pid msg t d s r d' s'
  assume "cb_deliver (mem_callbacks me) nodeid pid msg t (d, s) = (r, d', s')"
  then show "same_core d d'" by (simp add: mem_callbacks_def mem_deliver_core)
next
  fix nodes d s r d' s'
  assume "cb_process_state_update (mem_callbacks me) nodes (d, s) = (r, d', s')"
  then show "same_core d d'" by (simp add: mem_callbacks_def mem_state_core)
next
  fix nodeid pid bs d s r d' s'
  assume "cb_process_update (mem_callbacks me) nodeid pid bs (d, s) = (r, d', s')"
  then show "same_core d d'"
    by (auto simp: mem_callbacks_def mem_process_update_def split: res.splits prod.splits)
qed (auto simp: mem_callbacks_def)

section \<open>Election\<close>

abbreviation key_at :: "(u32 \<times> u32 \<times> MemDbIndex) list \<Rightarrow> nat \<Rightarrow> nat" where
  "key_at indices i \<equiv> index_key (snd (snd (indices ! i)))"

text \<open>The loop ends at the first index with the highest version and modification time.\<close>

lemma leader_loop_first_max:
  assumes "l < i" and "i \<le> length indices"
    and "\<And>j. j < i \<Longrightarrow> key_at indices j \<le> key_at indices l"
    and "\<And>j. j < l \<Longrightarrow> key_at indices j < key_at indices l"
  shows "leader_loop indices i l < length indices \<and>
    (\<forall>j < length indices. key_at indices j \<le> key_at indices (leader_loop indices i l)) \<and>
    (\<forall>j < leader_loop indices i l. key_at indices j < key_at indices (leader_loop indices i l))"
  using assms
proof (induction indices i l rule: leader_loop.induct)
  case (1 indices i l)
  show ?case
  proof (cases "i < length indices")
    case True
    let ?l = "if index_cmp (snd (snd (indices ! i))) (snd (snd (indices ! l))) = Greater then i else l"
    have gt: "index_cmp (snd (snd (indices ! i))) (snd (snd (indices ! l))) = Greater \<longleftrightarrow>
        key_at indices l < key_at indices i"
      by (simp add: index_cmp_key)
    have max: "key_at indices j \<le> key_at indices ?l" if "j < i + 1" for j
      using that 1(4) [of j] gt by (cases "j = i") (auto simp: not_less intro: order_trans less_imp_le)
    have first: "key_at indices j < key_at indices ?l" if "j < ?l" for j
      using that 1(4) [of j] 1(5) [of j] gt by (auto split: if_splits)
    have "?l < i + 1" using 1(2) by simp
    from 1(1) [OF True this _ max first] True show ?thesis
      by (simp add: leader_loop.simps [of indices i l])
  next
    case False
    then have "leader_loop indices i l = l" by (simp add: leader_loop.simps [of indices i l])
    then show ?thesis using False 1(2-5) by simp
  qed
qed

lemma elected_first_max:
  assumes "indices \<noteq> []"
  defines "l \<equiv> leader_loop indices 1 0"
  shows "l < length indices" and "j < length indices \<Longrightarrow> key_at indices j \<le> key_at indices l"
    and "j < l \<Longrightarrow> key_at indices j < key_at indices l"
  using leader_loop_first_max [of 0 1 indices] assms(1) by (auto simp: l_def Suc_le_eq)

section \<open>Transfer of entries\<close>

lemma hm_keys_fold_insert: "set (hm_keys (fold (\<lambda>i. hm_insert i ()) xs m)) = set xs \<union> set (hm_keys m)"
proof (induction xs arbitrary: m)
  case Nil
  then show ?case by simp
next
  case (Cons x xs)
  have "set (hm_keys (hm_insert x () m)) = insert x (set (hm_keys m))"
    by (auto simp: hm_keys_iff split: if_splits)
  then show ?case using Cons.IH [of "hm_insert x () m"] by auto
qed

lemma inodes_to_update_set:
  "set (hm_keys (inodes_to_update leader indices)) =
     (\<Union>(_, _, follower) \<in> {x \<in> set indices. \<not> same_header (snd (snd x)) leader}.
        set (find_differences leader follower))"
proof -
  have "set (hm_keys ([] :: (u64, unit) hmap)) = {}" by (simp add: hm_keys_def)
  then show ?thesis
    unfolding inodes_to_update_def hm_keys_fold_insert by (fastforce split: if_splits)
qed

lemma apply_entry_get:
  assumes "apply_tree_entry sq e m = (Ok (), m')" and "te_inode e \<noteq> ROOT_INODE"
    and "db_root_inode m = ROOT_INODE" and "i \<noteq> ROOT_INODE"
  shows "hm_get (db_index m') i = (if i = te_inode e then Some e else hm_get (db_index m) i)"
    and "db_root_inode m' = ROOT_INODE"
proof -
  obtain tx1 db' where m': "db_index m' = update_root_metadata (db_root_inode m) (te_version e) (te_writer e)
        (te_mtime e) (hm_insert (te_inode e) e (db_index m))" "db_root_inode m' = db_root_inode m"
    using assms(1-3) by (auto simp: apply_tree_entry_def Let_def split: option.splits)
  then show "hm_get (db_index m') i = (if i = te_inode e then Some e else hm_get (db_index m) i)"
    and "db_root_inode m' = ROOT_INODE"
    using assms(3,4) by (simp_all add: update_root_metadata_get)
qed

text \<open>The updates a follower applies, in the order they arrive.\<close>

fun apply_updates :: "'db sqlite \<Rightarrow> TreeEntry list \<Rightarrow> 'db MemDb \<Rightarrow> ('db, unit) memop" where
  "apply_updates sq [] m = (Ok (), m)"
| "apply_updates sq (e # es) m =
    (case apply_tree_entry sq e m of
       (Ok _, m1) \<Rightarrow> apply_updates sq es m1
     | (r, m1) \<Rightarrow> (r, m1))"

lemma apply_updates_get:
  "apply_updates sq es m = (Ok (), m') \<Longrightarrow> ROOT_INODE \<notin> te_inode ` set es \<Longrightarrow>
   db_root_inode m = ROOT_INODE \<Longrightarrow> i \<noteq> ROOT_INODE \<Longrightarrow>
   hm_get (db_index m') i =
     (case map_of (rev (map (\<lambda>e. (te_inode e, e)) es)) i of Some e \<Rightarrow> Some e | None \<Rightarrow> hm_get (db_index m) i)"
proof (induction es arbitrary: m)
  case Nil
  then show ?case by simp
next
  case (Cons e es)
  obtain m1 where m1: "apply_tree_entry sq e m = (Ok (), m1)" "apply_updates sq es m1 = (Ok (), m')"
    using Cons.prems(1) by (auto split: prod.splits res.splits)
  note step = apply_entry_get [OF m1(1) _ Cons.prems(3,4)]
  have "te_inode e \<noteq> ROOT_INODE" using Cons.prems(2) by auto
  then show ?case
    using Cons.IH [OF m1(2) _ step(2) Cons.prems(4)] Cons.prems(2) step(1)
    by (auto split: option.splits)
qed

text \<open>
  The entries that the leader sends to bring a follower up to date: those whose digest the follower
  does not have. A follower that applies them holds every entry of the leader.
\<close>

lemma map_of_inodes:
  assumes "\<And>e. e \<in> set es \<Longrightarrow> hm_get idx (te_inode e) = Some e"
  shows "map_of (rev (map (\<lambda>e. (te_inode e, e)) es)) i =
    (if i \<in> te_inode ` set es then hm_get idx i else None)"
proof (cases "map_of (rev (map (\<lambda>e. (te_inode e, e)) es)) i")
  case None
  then have "i \<notin> te_inode ` set es" by (simp add: map_of_eq_None_iff image_image)
  with None show ?thesis by simp
next
  case (Some e)
  then have "e \<in> set es" "te_inode e = i" using map_of_SomeD [OF Some] by auto
  then show ?thesis using Some assms [of e] by auto
qed

lemma transfer_complete:
  assumes inv: "memdb_inv leader" "memdb_inv follower"
    and wf: "entries_wf leader" "entries_wf follower" and coll: "no_collision sha leader follower"
    and ixl: "ix_entries ixl = map (index_entry_of sha) (sorted_entries leader)"
    and ixf: "ix_entries ixf = map (index_entry_of sha) (sorted_entries follower)"
    and sent: "te_inode ` set es = set (find_differences ixl ixf) - {ROOT_INODE}"
    and src: "\<And>e. e \<in> set es \<Longrightarrow> hm_get (db_index leader) (te_inode e) = Some e"
    and upd: "apply_updates sq es follower = (Ok (), follower')"
    and i: "hm_get (db_index leader) i = Some entry" "i \<noteq> ROOT_INODE"
  shows "hm_get (db_index follower') i = Some entry"
proof -
  let ?get = "hm_get (db_index follower')"
  have inodes: "map ie_inode (ix_entries ixl) = map te_inode (sorted_entries leader)"
    "map ie_inode (ix_entries ixf) = map te_inode (sorted_entries follower)"
    by (simp_all add: ixl ixf index_entry_of_def)
  have diff: "find_differences ixl ixf =
      map ie_inode (filter (\<lambda>m. m \<notin> set (ix_entries ixf)) (ix_entries ixl))"
    unfolding find_differences_def
    by (rule diff_loop_spec)
      (simp_all only: inodes sorted_entries_distinct [OF inv(1)] sorted_entries_distinct [OF inv(2)],
       simp add: diff_inv_def)
  have te: "te_inode entry = i" using index_invD(2) [OF inv_parts(1) [OF inv(1)] i(1)] .
  then have mem: "entry \<in> set (sorted_entries leader)" using set_sorted_entries [OF inv(1)] i(1) by simp
  have "db_root_inode follower = ROOT_INODE" using inv(2) by (simp add: memdb_inv_def)
  then have get: "?get i = (if i \<in> te_inode ` set es then hm_get (db_index leader) i else hm_get (db_index follower) i)"
    using apply_updates_get [OF upd _ _ i(2)] sent map_of_inodes [of es "db_index leader" i, OF src] i(1)
    by auto
  show ?thesis
  proof (cases "i \<in> te_inode ` set es")
    case True
    then show ?thesis using get i(1) by simp
  next
    case False
    then have "i \<notin> set (find_differences ixl ixf)" using sent i(2) by simp
    moreover have "ie_inode (index_entry_of sha entry) = i" using te by (simp add: index_entry_of_def)
    ultimately have "index_entry_of sha entry \<in> set (ix_entries ixf)"
      using mem by (force simp: diff ixl)
    then obtain e' where e': "e' \<in> set (sorted_entries follower)" "index_entry_of sha entry = index_entry_of sha e'"
      by (auto simp: ixf)
    then have "entry = e'" using index_entry_inject [OF inv wf coll mem] by blast
    then show ?thesis using get False e'(1) te set_sorted_entries [OF inv(2)] by simp
  qed
qed

lemma transfer_keeps_extra:
  assumes "memdb_inv follower" and src: "\<And>e. e \<in> set es \<Longrightarrow> hm_get (db_index leader) (te_inode e) = Some e"
    and root: "ROOT_INODE \<notin> te_inode ` set es"
    and upd: "apply_updates sq es follower = (Ok (), follower')"
    and i: "hm_get (db_index leader) i = None" "i \<noteq> ROOT_INODE"
  shows "hm_get (db_index follower') i = hm_get (db_index follower) i"
proof -
  have "i \<notin> te_inode ` set es" using src i(1) by fastforce
  then show ?thesis
    using apply_updates_get [OF upd root _ i(2)] assms(1) map_of_inodes [of es "db_index leader" i, OF src]
    by (simp add: memdb_inv_def)
qed

text \<open>The indices of two nodes agree only if their entries do.\<close>

lemma same_index_entries:
  assumes "same_index ix ix'"
  shows "ix_entries ix = ix_entries ix'"
proof (rule nth_equalityI)
  show len: "length (ix_entries ix) = length (ix_entries ix')" using assms by (simp add: same_index_def)
  fix k
  assume k: "k < length (ix_entries ix)"
  then have "(ix_entries ix ! k, ix_entries ix' ! k) \<in> set (zip (ix_entries ix) (ix_entries ix'))"
    using len by (auto simp: in_set_zip)
  then have "ie_inode (ix_entries ix ! k) = ie_inode (ix_entries ix' ! k)"
    "ie_digest (ix_entries ix ! k) = ie_digest (ix_entries ix' ! k)"
    using assms by (auto simp: same_index_def list_all_iff)
  then show "ix_entries ix ! k = ix_entries ix' ! k" by simp
qed

lemma encode_index_inv:
  assumes "memdb_inv m" and "encode_index sq sha m = (Ok ix, m1)"
  shows "memdb_inv m1"
  by (rule encode_index_Ok [OF assms])

section \<open>What the elected node multicasts\<close>

definition reliable :: "'m env \<Rightarrow> 'm Dfsm \<Rightarrow> bool" where
  "reliable en d \<longleftrightarrow> d_joined d \<and> en_mcast en = (\<lambda>_ _. True)"

definition wire :: "'db mem_env \<Rightarrow> FuseMessage DfsmMessage \<Rightarrow> byte list" where
  "wire me msg = the (dfsm_serialize (en_mtype (me_env me)) (en_ser (me_env me)) (now32 me) msg)"

lemma send_reliable:
  assumes "reliable (me_env me) d" and "dfsm_serialize (en_mtype (me_env me)) (en_ser (me_env me)) (now32 me) msg \<noteq> None"
  shows "send_dfsm_message (me_env me) (now32 me) msg d = (Done, d\<lparr>d_net := d_net d @ [wire me msg]\<rparr>)"
  using assms by (auto simp: send_dfsm_message_def reliable_def wire_def)

lemma update_serializes:
  "dfsm_serialize mt ser now (UpdateMsg e t) \<noteq> None" "dfsm_serialize mt ser now (UpdateComplete e) \<noteq> None"
  by (simp_all add: dfsm_serialize_def serialize_state_message_def)

lemma reliable_net [simp]: "reliable en (d\<lparr>d_net := x\<rparr>) = reliable en d"
  by (simp add: reliable_def)

definition updates_for :: "'db MemDb \<Rightarrow> u64 list \<Rightarrow> TreeEntry list" where
  "updates_for m inodes = List.map_filter (hm_get (db_index m)) (filter (\<lambda>i. i \<noteq> ROOT_INODE) inodes)"

lemma fold_send_reliable:
  "reliable (me_env me) d \<Longrightarrow>
   fold (send_one_update me m) inodes d =
     d\<lparr>d_net := d_net d @ map (\<lambda>e. wire me (UpdateMsg (d_sync_epoch d) e)) (updates_for m inodes)\<rparr>"
proof (induction inodes arbitrary: d)
  case Nil
  then show ?case by (simp add: updates_for_def map_filter_simps)
next
  case (Cons i inodes)
  show ?case
  proof (cases "i = ROOT_INODE \<or> hm_get (db_index m) i = None")
    case True
    then have "send_one_update me m i d = d" by (auto simp: send_one_update_def get_entry_by_inode_def)
    moreover have "updates_for m (i # inodes) = updates_for m inodes"
      using True by (auto simp: updates_for_def map_filter_simps)
    ultimately show ?thesis using Cons by simp
  next
    case False
    then obtain e where e: "i \<noteq> ROOT_INODE" "hm_get (db_index m) i = Some e" by auto
    then have "send_one_update me m i d = d\<lparr>d_net := d_net d @ [wire me (UpdateMsg (d_sync_epoch d) e)]\<rparr>"
      using send_reliable [OF Cons.prems update_serializes(1)]
      by (simp add: send_one_update_def get_entry_by_inode_def send_update_def from_tree_entry_def)
    moreover have "updates_for m (i # inodes) = e # updates_for m inodes"
      using e by (simp add: updates_for_def map_filter_simps)
    ultimately show ?thesis using Cons.IH [of "d\<lparr>d_net := d_net d @ [wire me (UpdateMsg (d_sync_epoch d) e)]\<rparr>"] Cons.prems
      by simp
  qed
qed

lemma send_updates_reliable:
  assumes "reliable (me_env me) d"
  shows "send_updates_to_followers me m leader indices d =
    (Done, d\<lparr>d_net := d_net d @ map (\<lambda>e. wire me (UpdateMsg (d_sync_epoch d) e))
        (updates_for m (hm_keys (inodes_to_update leader indices))) @ [wire me (UpdateComplete (d_sync_epoch d))]\<rparr>)"
proof (cases "\<exists>(_, _, f) \<in> set indices. \<not> same_header f leader")
  case True
  then show ?thesis
    using assms send_reliable [of me, OF _ update_serializes(2)]
    by (simp add: send_updates_to_followers_def send_update_complete_def fold_send_reliable)
next
  case False
  then have "concat (map (\<lambda>(_, _, follower). if same_header follower leader then []
      else find_differences leader follower) indices) = []" by (auto split: prod.splits)
  then have "inodes_to_update leader indices = []"
    unfolding inodes_to_update_def by (simp only: fold_simps id_apply)
  then show ?thesis
    using False assms send_reliable [of me, OF _ update_serializes(2)]
    by (simp add: send_updates_to_followers_def send_update_complete_def updates_for_def hm_keys_def map_filter_simps)
qed

section \<open>Deletion stamps the local clock\<close>

lemma delete_root_mtime:
  assumes inv: "memdb_inv m" and op: "delete sq path w t m = (Ok (), m')"
  shows "\<exists>root. hm_get (db_index m') ROOT_INODE = Some root \<and> te_mtime root = t"
  using op
proof (cases rule: delete_cases)
  case (2 e v db' lk)
  obtain root where "hm_get (db_index m) ROOT_INODE = Some root"
    using inv by (auto simp: memdb_inv_def index_inv_def)
  then show ?thesis
    using 2 inv by (simp add: stamp_root_get memdb_inv_def touched_entry_def)
qed simp

section \<open>A follower receives updates\<close>

text \<open>SQLite accepts the statements of an update.\<close>

definition accepts_updates :: "'db sqlite \<Rightarrow> bool" where
  "accepts_updates sq \<longleftrightarrow>
     (\<forall>db. sq_begin sq db \<noteq> None \<and> sq_commit sq db \<noteq> None \<and>
        (\<forall>r. sq_exec sq (ReplaceRow r) db \<noteq> None) \<and>
        (\<forall>v w t i. sq_exec sq (UpdateMeta v w t i) db \<noteq> None))"

lemma apply_accepted:
  assumes "accepts_updates sq"
  shows "fst (apply_tree_entry sq e m) = Ok ()"
proof -
  obtain tx where tx: "sq_begin sq (db_conn m) = Some tx"
    using assms unfolding accepts_updates_def by blast
  have "exec_all sq (ReplaceRow r # (if te_inode e \<noteq> ROOT_INODE then [UpdateMeta v w t ROOT_INODE] else [])) tx \<noteq> None"
    for r v w t
  proof -
    have "sq_exec sq (UpdateMeta v w t ROOT_INODE) db \<noteq> None" "sq_exec sq (ReplaceRow r) db \<noteq> None" for db
      using assms by (simp_all add: accepts_updates_def)
    then show ?thesis by (simp split: option.splits) (metis option.distinct(1))
  qed
  then obtain tx1 where tx1: "exec_all sq
      (ReplaceRow ((row_of_entry e)\<lparr>r_name := if te_inode e = db_root_inode m then VERSION_FILENAME else te_name e\<rparr>) #
       (if te_inode e \<noteq> ROOT_INODE then [UpdateMeta (te_version e) (te_writer e) (te_mtime e) ROOT_INODE] else [])) tx
      = Some tx1" by blast
  obtain db' where "sq_commit sq tx1 = Some db'" using assms unfolding accepts_updates_def by blast
  then show ?thesis unfolding apply_tree_entry_def Let_def tx option.case tx1 by simp
qed

definition receive_updates ::
  "'db mem_env \<Rightarrow> u32 \<Rightarrow> u32 \<Rightarrow> TreeEntry list \<Rightarrow> FuseMessage Dfsm \<times> 'db MemDbCallbacks
   \<Rightarrow> FuseMessage Dfsm \<times> 'db MemDbCallbacks" where
  "receive_updates me nodeid pid es = fold (handle_update (mem_callbacks me) nodeid pid) es"

lemma handle_update_apply:
  assumes "te_wf e"
  shows "handle_update (mem_callbacks me) nodeid pid e (d, b) =
    (d, b\<lparr>mc_memdb := snd (apply_tree_entry (me_sq me) e (mc_memdb b))\<rparr>)"
  using update_decode_encode [OF assms, of "[]"]
  by (simp add: handle_update_def mem_callbacks_def mem_process_update_def split: prod.splits)

lemma receive_updates_apply:
  assumes "accepts_updates (me_sq me)"
  shows "list_all te_wf es \<Longrightarrow>
    \<exists>m. receive_updates me nodeid pid es (d, b) = (d, b\<lparr>mc_memdb := m\<rparr>) \<and>
        apply_updates (me_sq me) es (mc_memdb b) = (Ok (), m)"
proof (induction es arbitrary: b)
  case Nil
  have "b = b\<lparr>mc_memdb := mc_memdb b\<rparr>" by simp
  then show ?case by (auto simp: receive_updates_def)
next
  case (Cons e es)
  obtain m1 where m1: "apply_tree_entry (me_sq me) e (mc_memdb b) = (Ok (), m1)"
    using apply_accepted [OF assms, of e "mc_memdb b"] by (metis prod.collapse)
  then have "receive_updates me nodeid pid (e # es) (d, b) = receive_updates me nodeid pid es (d, b\<lparr>mc_memdb := m1\<rparr>)"
    using handle_update_apply [of e me nodeid pid d b] Cons.prems by (simp add: receive_updates_def)
  then show ?case using Cons.IH [of "b\<lparr>mc_memdb := m1\<rparr>"] Cons.prems m1 by auto
qed

lemma updates_for_entries:
  assumes "memdb_inv m" and "set inodes \<subseteq> set (hm_keys (db_index m))"
  shows "te_inode ` set (updates_for m inodes) = set inodes - {ROOT_INODE}"
    and "e \<in> set (updates_for m inodes) \<Longrightarrow> hm_get (db_index m) (te_inode e) = Some e"
proof -
  have mem: "e \<in> set (updates_for m inodes) \<longleftrightarrow>
      (\<exists>i \<in> set inodes. i \<noteq> ROOT_INODE \<and> hm_get (db_index m) i = Some e)" for e
    by (auto simp: updates_for_def set_map_filter)
  note te = index_invD(2) [OF inv_parts(1) [OF assms(1)]]
  show "te_inode ` set (updates_for m inodes) = set inodes - {ROOT_INODE}"
  proof
    show "te_inode ` set (updates_for m inodes) \<subseteq> set inodes - {ROOT_INODE}" using mem te by auto
    show "set inodes - {ROOT_INODE} \<subseteq> te_inode ` set (updates_for m inodes)"
    proof
      fix i
      assume i: "i \<in> set inodes - {ROOT_INODE}"
      then have "hm_get (db_index m) i \<noteq> None" using assms(2) unfolding hm_keys_iff [symmetric] by blast
      then obtain e where "hm_get (db_index m) i = Some e" by blast
      then show "i \<in> te_inode ` set (updates_for m inodes)" using i mem te by (auto intro!: image_eqI [of _ _ e])
    qed
  qed
  show "e \<in> set (updates_for m inodes) \<Longrightarrow> hm_get (db_index m) (te_inode e) = Some e" using mem te by auto
qed

text \<open>From the index of the follower to its database after the updates.\<close>

lemma state_transfer:
  assumes lead: "memdb_inv m" "encode_index sq sha m = (Ok ixl, leader)" "entries_wf leader"
    and foll: "memdb_inv n" "encode_index sq' sha n = (Ok ixf, mc_memdb b)" "entries_wf (mc_memdb b)"
    and coll: "no_collision sha leader (mc_memdb b)" and acc: "accepts_updates (me_sq me)"
    and recv: "receive_updates me nodeid pid (updates_for leader (find_differences ixl ixf)) (d, b) = (d', b')"
    and i: "i \<noteq> ROOT_INODE"
  shows "hm_get (db_index (mc_memdb b')) i =
    (case hm_get (db_index leader) i of Some e \<Rightarrow> Some e | None \<Rightarrow> hm_get (db_index (mc_memdb b)) i)"
proof -
  let ?es = "updates_for leader (find_differences ixl ixf)"
  note invl = encode_index_inv [OF lead(1,2)] and invf = encode_index_inv [OF foll(1,2)]
  note entl = encode_index_sorted(3) [OF lead(1,2)] and entf = encode_index_sorted(3) [OF foll(1,2)]
  have "set (find_differences ixl ixf) \<subseteq> ie_inode ` set (ix_entries ixl)"
    unfolding find_differences_def
    by (subst diff_loop_spec)
      (use encode_index_sorted [OF lead(1,2)] encode_index_sorted [OF foll(1,2)] in \<open>auto simp: diff_inv_def\<close>)
  also have "\<dots> \<subseteq> set (hm_keys (db_index leader))"
    using set_sorted_entries [OF invl] by (auto simp: entl index_entry_of_def hm_keys_iff)
  finally have sub: "set (find_differences ixl ixf) \<subseteq> set (hm_keys (db_index leader))" .
  note src = updates_for_entries [OF invl sub]
  have "list_all te_wf ?es" using src(2) lead(3) by (auto simp: list_all_iff entries_wf_def)
  then obtain m' where m': "b' = b\<lparr>mc_memdb := m'\<rparr>" "apply_updates (me_sq me) ?es (mc_memdb b) = (Ok (), m')"
    using receive_updates_apply [OF acc, of ?es nodeid pid d b] recv by auto
  show ?thesis
  proof (cases "hm_get (db_index leader) i")
    case None
    then show ?thesis
      using transfer_keeps_extra [OF invf src(2) _ m'(2) None i] src(1) m'(1) by simp
  next
    case (Some e)
    then show ?thesis
      using transfer_complete [OF invl invf lead(3) foll(3) coll entl entf src(1) src(2) m'(2) Some i] m'(1) by simp
  qed
qed

end
