(* ===== verification/Replica_Props.thy ===== *)
theory Replica_Props
  imports Mem_Replica Mem_Sample
begin

text \<open>
  The properties of replication: the state machine of a node together with the database as its
  application, and of the registry and status that go with it. The witnesses run on the sample
  databases with a network that accepts every multicast.
\<close>

section \<open>Samples\<close>

definition sample_env :: "FuseMessage env" where
  "sample_env = \<lparr>en_mtype = fuse_message_type, en_ser = fuse_serialize, en_deser = fuse_deserialize,
                 en_mcast = (\<lambda>_ _. True)\<rparr>"

definition sample_me :: "u64 \<Rightarrow> row list mem_env" where
  "sample_me now = \<lparr>me_sq = list_sqlite, me_sha = sample_sha, me_bincode = (\<lambda>es. Some (concat (map digest_bytes es))),
                    me_now = now, me_env = sample_env\<rparr>"

definition sample_app :: "row list MemDb \<Rightarrow> row list MemDbCallbacks" where
  "sample_app m = \<lparr>mc_memdb = m, mc_status = (status_new ''n'' 0), mc_dfsm = True\<rparr>"

definition sample_machine :: "FuseMessage Dfsm" where
  "sample_machine = (new_with_protocol_version 5 10 1)\<lparr>d_joined := True, d_nodeid := 1\<rparr>"

section \<open>Replicas\<close>


definition sample_log :: "u64 \<Rightarrow> row list delivery list" where
  "sample_log now =
     [(sample_me now, 1, 10, FMkdir ''/x'', 50), (sample_me (now + 9), 2, 11, FWrite ''/x/f'' 1 [7], 51)]"

lemma sample_log_runs:
  "(case deliver_log (sample_log 100) (sample_machine, sample_app sample_dir) of
      None \<Rightarrow> False | Some (_, a) \<Rightarrow> (case read (mc_memdb a) ''x/f'' 0 9 of Ok bs \<Rightarrow> bs = [0, 7] | _ \<Rightarrow> False))"
  "(case deliver_log (sample_log 200) (sample_machine, sample_app sample_dir) of None \<Rightarrow> False | Some _ \<Rightarrow> True)"
  by code_simp+


text \<open>
  Deletion is not deterministic across nodes: the handler stamps the root entry with the clock
  of the node that runs it, so two nodes with the same contents whose clocks show different seconds
  have different entries afterwards, and the checksums that verification compares are computed from
  different data.
\<close>

theorem deletion_diverges:
  assumes "memdb_inv (mc_memdb a)" and "memdb_inv (mc_memdb b)"
    and "path_exists (mc_memdb a) path" and "path_exists (mc_memdb b) path"
    and "handle_delete me path a = (0, a')" and "handle_delete me' path b = (0, b')"
    and "now32 me \<noteq> now32 me'"
  shows "\<not> same_data (mc_memdb a') (mc_memdb b')"
proof -
  have "delete (me_sq me) path 0 (now32 me) (mc_memdb a) = (Ok (), mc_memdb a')"
    "delete (me_sq me') path 0 (now32 me') (mc_memdb b) = (Ok (), mc_memdb b')"
    using handle_delete_ok [OF assms(5)] handle_delete_ok [OF assms(6)] assms(3,4) by simp_all
  then show ?thesis
    using delete_root_mtime [OF assms(1)] delete_root_mtime [OF assms(2)] assms(7)
      same_dataD(3) [of "mc_memdb a'" "mc_memdb b'" ROOT_INODE] by fastforce
qed

lemma sample_delete:
  "path_exists sample_full ''/priv/f''"
  "fst (handle_delete (sample_me 100) ''/priv/f'' (sample_app sample_full)) = 0"
  "fst (handle_delete (sample_me 101) ''/priv/f'' (sample_app sample_full)) = 0"
  by code_simp+

theorem deletion_diverges_witness:
  "\<not> same_data (mc_memdb (snd (handle_delete (sample_me 100) ''/priv/f'' (sample_app sample_full))))
     (mc_memdb (snd (handle_delete (sample_me 101) ''/priv/f'' (sample_app sample_full))))"
proof -
  have "now32 (sample_me 100) \<noteq> now32 (sample_me 101)" by (simp add: sample_me_def)
  then show ?thesis
    using deletion_diverges [of "sample_app sample_full" "sample_app sample_full" "''/priv/f''" "sample_me 100" _ "sample_me 101"]
      sample_delete by (simp add: sample_app_def prod_eq_iff)
qed

section \<open>State synchronization\<close>

text \<open>
  C15. A node that counts as synchronized is synchronized: if the index of a node passes the
  comparison with the index of the leader (same version, time, number of entries, and the same
  inode and digest at every position), then both databases have the same entry for every inode,
  provided that SHA-256 has no collision among the digests of the two databases.
\<close>

theorem synced_means_equal:
  assumes "memdb_inv m" and "encode_index sq sha m = (Ok ix, m1)" and "entries_wf m1"
    and "memdb_inv n" and "encode_index sq' sha n = (Ok ix', n1)" and "entries_wf n1"
    and "no_collision sha m1 n1" and "same_index ix ix'"
  shows "hm_get (db_index m1) i = hm_get (db_index n1) i"
proof -
  have "map (index_entry_of sha) (sorted_entries m1) = map (index_entry_of sha) (sorted_entries n1)"
    using encode_index_sorted(3) [OF assms(1,2)] encode_index_sorted(3) [OF assms(4,5)]
      same_index_entries [OF assms(8)] by simp
  then show ?thesis
    using equal_indices_equal_entries [OF encode_index_inv [OF assms(1,2)] encode_index_inv [OF assms(4,5)] assms(3,6,7)]
    by blast
qed

lemma entries_wf_check:
  assumes "memdb_inv m" and "list_all te_wf (hm_values (db_index m))"
  shows "entries_wf m"
  using assms hm_values_iff [OF index_invD(1) [OF inv_parts(1) [OF assms(1)]]]
  by (auto simp: entries_wf_def list_all_iff)

lemma sample_encode:
  "encode_index list_sqlite id sample_full =
     (Ok (case fst (encode_index list_sqlite id sample_full) of Ok ix \<Rightarrow> ix), snd (encode_index list_sqlite id sample_full))"
  "encode_index list_sqlite id sample_dir =
     (Ok (case fst (encode_index list_sqlite id sample_dir) of Ok ix \<Rightarrow> ix), snd (encode_index list_sqlite id sample_dir))"
proof -
  have "is_ok (fst (encode_index list_sqlite id sample_full))" "is_ok (fst (encode_index list_sqlite id sample_dir))"
    by code_simp+
  then show "encode_index list_sqlite id sample_full =
     (Ok (case fst (encode_index list_sqlite id sample_full) of Ok ix \<Rightarrow> ix), snd (encode_index list_sqlite id sample_full))"
  "encode_index list_sqlite id sample_dir =
     (Ok (case fst (encode_index list_sqlite id sample_dir) of Ok ix \<Rightarrow> ix), snd (encode_index list_sqlite id sample_dir))"
    by (auto simp: is_ok_iff prod_eq_iff)
qed

definition sample_leader :: "row list MemDb" where
  "sample_leader = snd (encode_index list_sqlite id sample_full)"

definition sample_follower :: "row list MemDb" where
  "sample_follower = snd (encode_index list_sqlite id sample_dir)"

definition leader_ix :: MemDbIndex where
  "leader_ix = (case fst (encode_index list_sqlite id sample_full) of Ok ix \<Rightarrow> ix)"

definition follower_ix :: MemDbIndex where
  "follower_ix = (case fst (encode_index list_sqlite id sample_dir) of Ok ix \<Rightarrow> ix)"

lemmas sample_encoded = sample_encode [folded sample_leader_def leader_ix_def sample_follower_def follower_ix_def]

lemma sample_indices:
  "list_all te_wf (hm_values (db_index sample_leader))" "list_all te_wf (hm_values (db_index sample_follower))"
  "find_differences leader_ix follower_ix = [0, 3]" "same_index leader_ix leader_ix"
  by code_simp+

lemma sample_encoded_wf: "entries_wf sample_leader" "entries_wf sample_follower"
  using entries_wf_check sample_indices encode_index_inv [OF sample_inv(4) sample_encoded(1)]
    encode_index_inv [OF sample_inv(2) sample_encoded(2)] by blast+

theorem synced_means_equal_witness:
  "same_index leader_ix leader_ix \<and>
   hm_get (db_index sample_leader) 3 = hm_get (db_index sample_leader) 3"
  using synced_means_equal [OF sample_inv(4) sample_encoded(1) sample_encoded_wf(1) sample_inv(4) sample_encoded(1)
      sample_encoded_wf(1) _ sample_indices(4)] sample_indices(4)
  by (simp add: no_collision_def)

text \<open>
  C14. The election: every node that receives the same states picks the same leader, the first node
  whose index has the highest version and, among those, the latest modification time. A node that
  is not the leader multicasts nothing and reports that it is synchronized exactly if its own index
  equals that of the leader; the leader sends the updates and then counts as synchronized.
\<close>

theorem election_picks_highest_index:
  assumes "parse_indices states = Ok indices" and "indices \<noteq> []" and "mc_dfsm a"
  shows "\<exists>l < length indices.
    (\<forall>j < length indices. key_at indices j \<le> key_at indices l) \<and>
    (\<forall>j < l. key_at indices j < key_at indices l) \<and>
    (case indices ! l of (n, p, ix) \<Rightarrow>
       if (d_nodeid d, d_pid d) = (n, p)
       then mem_process_state_update me states (d, a) =
              (case send_updates_to_followers me (mc_memdb a) ix indices d of
                 (Done, d') \<Rightarrow> (Ok True, d', a) | (_, d') \<Rightarrow> (Err (), d', a))
       else mem_process_state_update me states (d, a) =
              (Ok (\<exists>ix'. (d_nodeid d, d_pid d, ix') \<in> set indices \<and> same_index ix' ix), d, a))"
proof -
  define l where "l = leader_loop indices 1 0"
  obtain n p ix where leader: "indices ! l = (n, p, ix)" by (metis prod_cases3)
  have "(d_nodeid d, d_pid d) \<in> set (map (\<lambda>(n, p, _). (n, p)) (filter (\<lambda>(_, _, x). same_index x ix) indices)) \<longleftrightarrow>
      (\<exists>ix'. (d_nodeid d, d_pid d, ix') \<in> set indices \<and> same_index ix' ix)"
    by force
  then have "if (d_nodeid d, d_pid d) = (n, p)
       then mem_process_state_update me states (d, a) =
              (case send_updates_to_followers me (mc_memdb a) ix indices d of
                 (Done, d') \<Rightarrow> (Ok True, d', a) | (_, d') \<Rightarrow> (Err (), d', a))
       else mem_process_state_update me states (d, a) =
              (Ok (\<exists>ix'. (d_nodeid d, d_pid d, ix') \<in> set indices \<and> same_index ix' ix), d, a)"
    using assms leader by (auto simp: mem_process_state_update_def Let_def l_def)
  then show ?thesis
    using elected_first_max [OF assms(2)] leader by (intro exI [of _ l]) (auto simp: l_def)
qed

definition sample_states :: "NodeSyncInfo list" where
  "sample_states =
     [\<lparr>ni_node_id = 1, ni_pid = 10, ni_state = Some (index_serialize sample_slave), ni_synced = False\<rparr>,
      \<lparr>ni_node_id = 2, ni_pid = 11, ni_state = Some (index_serialize sample_index), ni_synced = False\<rparr>]"

lemma sample_states_parse: "parse_indices sample_states = Ok [(1, 10, sample_slave), (2, 11, sample_index)]"
proof -
  have "ix_wf sample_slave" unfolding sample_slave_def by (rule index_new_wf) (simp_all add: ie_wf_def)
  then show ?thesis by (simp add: sample_states_def index_decode_encode [THEN conjunct1] sample_index_wf)
qed

lemma sample_election:
  assumes "d_nodeid d = 1" and "d_pid d = 10" and "mc_dfsm a"
  shows "mem_process_state_update me sample_states (d, a) = (Ok False, d, a)"
proof -
  let ?ixs = "[(1 :: u32, 10 :: u32, sample_slave), (2, 11, sample_index)]"
  have "index_cmp sample_index sample_slave = Greater"
    by (simp add: index_cmp_key index_key_def sample_slave_def sample_index_def index_new_def Let_def)
  then have "leader_loop ?ixs 1 0 = 1" by (simp add: leader_loop.simps)
  moreover have "\<not> same_index sample_slave sample_index"
    by (simp add: same_index_def sample_slave_def sample_index_def index_new_def Let_def)
  ultimately show ?thesis
    using assms by (simp add: mem_process_state_update_def sample_states_parse)
qed

theorem election_picks_highest_index_witness:
  "mem_process_state_update (sample_me 0) sample_states (sample_machine, sample_app sample_db) =
     (Ok False, sample_machine, sample_app sample_db)"
proof -
  let ?ixs = "[(1 :: u32, 10 :: u32, sample_slave), (2, 11, sample_index)]"
  have keys: "key_at ?ixs 0 < key_at ?ixs 1"
    by (simp add: index_key_def sample_slave_def sample_index_def index_new_def Let_def)
  have neq: "\<not> same_index sample_slave sample_index"
    by (simp add: same_index_def sample_slave_def sample_index_def index_new_def Let_def)
  obtain l where l: "l < 2" "\<forall>j < 2. key_at ?ixs j \<le> key_at ?ixs l"
    and res: "case ?ixs ! l of (n, p, ix) \<Rightarrow>
       if (d_nodeid sample_machine, d_pid sample_machine) = (n, p)
       then mem_process_state_update (sample_me 0) sample_states (sample_machine, sample_app sample_db) =
              (case send_updates_to_followers (sample_me 0) (mc_memdb (sample_app sample_db)) ix ?ixs sample_machine of
                 (Done, d') \<Rightarrow> (Ok True, d', sample_app sample_db) | (_, d') \<Rightarrow> (Err (), d', sample_app sample_db))
       else mem_process_state_update (sample_me 0) sample_states (sample_machine, sample_app sample_db) =
              (Ok (\<exists>ix'. (d_nodeid sample_machine, d_pid sample_machine, ix') \<in> set ?ixs \<and> same_index ix' ix),
               sample_machine, sample_app sample_db)"
    using election_picks_highest_index [OF sample_states_parse, of "sample_app sample_db" sample_machine "sample_me 0"]
    by (auto simp: sample_app_def numeral_2_eq_2)
  have "l = 1" using l keys by (cases l) (auto simp: numeral_2_eq_2)
  then show ?thesis
    using res neq by (simp add: sample_machine_def new_with_protocol_version_def)
qed

text \<open>
  C13. State transfer: a follower that receives the entries which the leader computed from the two
  indices (serialized by the leader, parsed and applied by the follower) afterwards holds every
  entry of the leader except the root entry, whose stamp is local. Entries that only the follower
  has are kept: the protocol never removes them. SQLite accepts the statements of the updates, and
  SHA-256 has no collision among the digests of the two databases.
\<close>

theorem state_transfer_complete:
  assumes "memdb_inv m" and "encode_index sq sha m = (Ok ixl, leader)" and "entries_wf leader"
    and "memdb_inv n" and "encode_index sq' sha n = (Ok ixf, mc_memdb b)" and "entries_wf (mc_memdb b)"
    and "no_collision sha leader (mc_memdb b)" and "accepts_updates (me_sq me)"
    and "receive_updates me nodeid pid (updates_for leader (find_differences ixl ixf)) (d, b) = (d', b')"
    and "i \<noteq> ROOT_INODE"
  shows "hm_get (db_index (mc_memdb b')) i =
    (case hm_get (db_index leader) i of Some e \<Rightarrow> Some e | None \<Rightarrow> hm_get (db_index (mc_memdb b)) i)"
  using assms by (rule state_transfer)

lemma list_sqlite_accepts: "accepts_updates list_sqlite"
  by (simp add: accepts_updates_def list_sqlite_def)

lemma sample_collision_free: "no_collision id sample_leader sample_follower"
  by (simp add: no_collision_def)

definition sample_received :: "FuseMessage Dfsm \<times> row list MemDbCallbacks" where
  "sample_received = receive_updates (sample_me 0) 2 11 (updates_for sample_leader (find_differences leader_ix follower_ix))
     (sample_machine, sample_app sample_follower)"

theorem state_transfer_complete_witness:
  "lookup_path sample_dir ''/priv/f'' = None \<and>
   hm_get (db_index (mc_memdb (snd sample_received))) 3 = hm_get (db_index sample_leader) 3 \<and>
   hm_get (db_index sample_leader) 3 \<noteq> None"
proof -
  have none: "lookup_path sample_dir ''/priv/f'' = None" by code_simp
  have three: "hm_get (db_index sample_leader) 3 \<noteq> None" by code_simp
  have "hm_get (db_index (mc_memdb (snd sample_received))) 3 =
      (case hm_get (db_index sample_leader) 3 of Some e \<Rightarrow> Some e
       | None \<Rightarrow> hm_get (db_index (mc_memdb (sample_app sample_follower))) 3)"
    using state_transfer_complete [OF sample_inv(4) sample_encoded(1) sample_encoded_wf(1) sample_inv(2), of
        list_sqlite follower_ix "sample_app sample_follower" "sample_me 0" 2 11 sample_machine
        "fst sample_received" "snd sample_received" 3]
      sample_encoded(2) sample_encoded_wf(2) sample_collision_free list_sqlite_accepts
    by (simp add: sample_app_def sample_me_def sample_received_def ROOT_INODE_def)
  with three have "hm_get (db_index (mc_memdb (snd sample_received))) 3 = hm_get (db_index sample_leader) 3"
    by (auto split: option.splits)
  with none three show ?thesis by blast
qed

text \<open>
  What the leader multicasts, when no multicast fails: one update for each entry (the root
  excepted) that some node lacks, where a node whose index header equals the leader's is skipped,
  and after all of them one completion message; all carry the current epoch.
\<close>

theorem leader_sends_updates:
  assumes "reliable (me_env me) d"
    and "send_updates_to_followers me m leader indices d = (r, d')"
  shows "r = Done \<and>
    d_net d' = d_net d @ map (\<lambda>e. wire me (UpdateMsg (d_sync_epoch d) e))
      (updates_for m (hm_keys (inodes_to_update leader indices))) @ [wire me (UpdateComplete (d_sync_epoch d))] \<and>
    set (hm_keys (inodes_to_update leader indices)) =
      (\<Union>(_, _, follower) \<in> {x \<in> set indices. \<not> same_header (snd (snd x)) leader}.
         set (find_differences leader follower))"
proof -
  have r: "r = Done" and d': "d' = d\<lparr>d_net := d_net d @ map (\<lambda>e. wire me (UpdateMsg (d_sync_epoch d) e))
      (updates_for m (hm_keys (inodes_to_update leader indices))) @ [wire me (UpdateComplete (d_sync_epoch d))]\<rparr>"
    using send_updates_reliable [OF assms(1), of m leader indices] assms(2) by simp_all
  have "d_net d' = d_net d @ map (\<lambda>e. wire me (UpdateMsg (d_sync_epoch d) e))
      (updates_for m (hm_keys (inodes_to_update leader indices))) @ [wire me (UpdateComplete (d_sync_epoch d))]"
    by (simp add: d')
  then show ?thesis using r inodes_to_update_set by blast
qed

theorem leader_sends_updates_witness:
  "length (d_net (snd (send_updates_to_followers (sample_me 0) sample_leader leader_ix
     [(1, 10, leader_ix), (2, 11, follower_ix)] sample_machine))) = 2"
proof -
  let ?ixs = "[(1 :: u32, 10 :: u32, leader_ix), (2, 11, follower_ix)]"
  have rel: "reliable (me_env (sample_me 0)) sample_machine"
    by (simp add: reliable_def sample_me_def sample_env_def sample_machine_def)
  have "length (updates_for sample_leader (hm_keys (inodes_to_update leader_ix ?ixs))) = 1" by code_simp
  moreover have "d_net sample_machine = []" by (simp add: sample_machine_def new_with_protocol_version_def)
  ultimately show ?thesis
    using leader_sends_updates [OF rel prod.collapse [symmetric], of sample_leader leader_ix ?ixs] by simp
qed

end
