(* ===== verification/Dfsm_Claims.thy ===== *)
theory Dfsm_Claims
  imports Replica_Props
begin

text \<open>
  The properties of the replicated state machine, stated for the database as its application:
  queues, delivery order, collection of states, membership, results of synchronous calls, and the
  cases in which messages get lost or a handler does not return.
\<close>

section \<open>Queues and delivery\<close>

text \<open>
  C16. However messages, membership changes and local calls interleave, the queue of messages that
  wait for synchronization is an ordered map: ascending message counts, each message under its own
  count, and never more than \<open>MAX_QUEUE_LEN\<close> entries.
\<close>

theorem queue_stays_ordered_and_bounded:
  assumes "(dfsm_step en (mem_callbacks me))\<^sup>*\<^sup>* (new_with_protocol_version now pid version, a) (d, a')"
  shows "sorted_wrt (<) (map fst (d_msg_queue d)) \<and> length (d_msg_queue d) \<le> 500 \<and>
         (\<forall>(c, qm) \<in> set (d_msg_queue d). qm_msg_count qm = c)"
proof -
  have "queue_inv (new_with_protocol_version now pid version :: FuseMessage Dfsm)"
    by (simp add: queue_inv_def new_with_protocol_version_def)
  then show ?thesis
    using mem_app.dfsm_run_inv [OF assms] by (simp add: queue_inv_def bt_ok_def MAX_QUEUE_LEN_def)
qed

definition sample_new :: "FuseMessage Dfsm" where
  "sample_new = new_with_protocol_version 5 10 1"

definition sample_queued :: "FuseMessage Dfsm" where
  "sample_queued = queue_message 2 20 7 (FMkdir ''/b'') 9 (queue_message 1 10 3 (FMkdir ''/a'') 8 sample_new)"

theorem queue_stays_ordered_and_bounded_witness:
  "map fst (d_msg_queue sample_queued) = [3, 7] \<and> sorted_wrt (<) (map fst (d_msg_queue sample_queued))"
proof -
  let ?a = "sample_app sample_db" and ?d1 = "queue_message 1 10 3 (FMkdir ''/a'') 8 sample_new"
  have mode: "d_mode sample_new = ModeStart" "d_mode ?d1 = ModeStart"
    by (simp_all add: sample_new_def new_with_protocol_version_def queue_message_def Let_def)
  have "dfsm_step sample_env (mem_callbacks (sample_me 0)) (sample_new, ?a) (?d1, ?a)"
    by (rule dfsm_step.Message [of _ _ 0 1 10 "Normal 3 8 1 (FMkdir ''/a'')" _ Done])
      (simp add: handle_dfsm_message_def handle_normal_message_def mode)
  moreover have "dfsm_step sample_env (mem_callbacks (sample_me 0)) (?d1, ?a) (sample_queued, ?a)"
    unfolding sample_queued_def
    by (rule dfsm_step.Message [of _ _ 0 2 20 "Normal 7 9 1 (FMkdir ''/b'')" _ Done])
      (simp add: handle_dfsm_message_def handle_normal_message_def mode)
  ultimately have "(dfsm_step sample_env (mem_callbacks (sample_me 0)))\<^sup>*\<^sup>*
      (new_with_protocol_version 5 10 1, ?a) (sample_queued, ?a)"
    unfolding sample_new_def by (meson rtranclp.rtrancl_refl rtranclp.rtrancl_into_rtrancl)
  from queue_stays_ordered_and_bounded [OF this]
  show ?thesis
    by (simp add: sample_queued_def queue_message_def sample_new_def new_with_protocol_version_def Let_def
        find_node_def MAX_QUEUE_LEN_def)
qed

text \<open>
  C17. When the node becomes synchronized, the queued messages whose sender counts as synchronized
  are delivered to the database one after the other in ascending order of their counts, each exactly
  once; messages of senders that left are dropped and messages of other members stay queued. In
  update mode nothing is delivered: these messages move to the end of the second queue.
\<close>

theorem queued_messages_delivered_in_order:
  assumes "queue_inv d" and "deliver_message_queue (mem_callbacks me) (d, a) = (d', a')"
  defines "ready \<equiv> filter (from_synced (d_sync_nodes d)) (d_msg_queue d)"
    and "rest \<equiv> filter (\<lambda>kv. from_member (d_sync_nodes d) kv \<and> \<not> from_synced (d_sync_nodes d) kv) (d_msg_queue d)"
  shows "sorted_wrt (<) (map fst ready) \<and>
    (d_mode d = Synced \<longrightarrow>
       (\<exists>d1. deliver_all (mem_callbacks me) ready (d, a) = (d1, a') \<and> d' = d1\<lparr>d_msg_queue := rest\<rparr>)) \<and>
    (d_mode d = ModeUpdate \<longrightarrow>
       a' = a \<and> d' = d\<lparr>d_msg_queue := rest, d_sync_queue := d_sync_queue d @ map snd ready\<rparr>)"
proof -
  have ok: "bt_ok (d_msg_queue d)" using assms(1) by (simp add: queue_inv_def)
  have "sorted_wrt (<) (map fst ready)" using bt_ok_filter [OF ok] by (simp add: ready_def bt_ok_def)
  then show ?thesis
    using mem_app.deliver_queue_spec [OF ok assms(2)] by (auto simp: ready_def rest_def)
qed

definition sample_node :: "u32 \<Rightarrow> u32 \<Rightarrow> bool \<Rightarrow> NodeSyncInfo" where
  "sample_node i p synced = \<lparr>ni_node_id = i, ni_pid = p, ni_state = None, ni_synced = synced\<rparr>"

definition sample_ready :: "FuseMessage Dfsm" where
  "sample_ready = sample_queued\<lparr>d_mode := Synced, d_sync_nodes := [sample_node 1 10 True, sample_node 2 20 False]\<rparr>"

lemma sample_queue:
  "d_msg_queue sample_ready =
    [(3, \<lparr>qm_nodeid = 1, qm_pid = 10, qm_msg_count = 3, qm_message = FMkdir ''/a'', qm_timestamp = 8\<rparr>),
     (7, \<lparr>qm_nodeid = 2, qm_pid = 20, qm_msg_count = 7, qm_message = FMkdir ''/b'', qm_timestamp = 9\<rparr>)]"
  by (simp add: sample_ready_def sample_queued_def queue_message_def sample_new_def
      new_with_protocol_version_def Let_def find_node_def MAX_QUEUE_LEN_def)

theorem queued_messages_delivered_in_order_witness:
  "queue_inv sample_ready \<and>
   map fst (d_msg_queue (fst (deliver_message_queue (mem_callbacks (sample_me 0)) (sample_ready, sample_app sample_db)))) = [7]"
proof -
  let ?cb = "mem_callbacks (sample_me 0)"
  have inv: "queue_inv sample_ready" by (simp add: queue_inv_def sample_queue bt_ok_def MAX_QUEUE_LEN_def)
  obtain d' a' where del: "deliver_message_queue ?cb (sample_ready, sample_app sample_db) = (d', a')"
    by (cases "deliver_message_queue ?cb (sample_ready, sample_app sample_db)")
  have "d_mode sample_ready = Synced" "d_sync_nodes sample_ready = [sample_node 1 10 True, sample_node 2 20 False]"
    by (simp_all add: sample_ready_def)
  with queued_messages_delivered_in_order [OF inv del] obtain d1 where
    "d' = d1\<lparr>d_msg_queue := filter (\<lambda>kv. from_member [sample_node 1 10 True, sample_node 2 20 False] kv \<and>
       \<not> from_synced [sample_node 1 10 True, sample_node 2 20 False] kv) (d_msg_queue sample_ready)\<rparr>"
    by auto
  then show ?thesis
    using inv del by (simp add: sample_queue from_member_def from_synced_def find_node_def sample_node_def)
qed

section \<open>Synchronization\<close>

text \<open>
  C18. Progress of synchronization: once every member has sent its state, in whatever order the
  states arrive, the node has compared them and left the start mode: it is synchronized, waits for
  updates, or reports an error. The comparison runs exactly when the last state arrives. The only
  other outcome is a panic of the index decoder.
\<close>

theorem state_collection_completes:
  assumes "distinct (map node_key (d_sync_nodes d))" and "missing (d_sync_nodes d) \<noteq> {}"
    and "distinct (map fst states)" and "fst ` set states = missing (d_sync_nodes d)"
    and "collect (mem_callbacks me) states (d, a) = (r, d', a')" and "r \<noteq> Panicked"
  shows "d_mode d' \<in> {Synced, ModeUpdate, ModeError} \<and>
    (\<exists>nodes. missing nodes = {} \<and> map node_key nodes = map node_key (d_sync_nodes d) \<and>
       process_state_sync (mem_callbacks me) (d\<lparr>d_sync_nodes := nodes\<rparr>, a) = (r, d', a'))"
proof -
  have "states \<noteq> []" using assms(2,4) by auto
  from collect_reaches_sync [OF assms(1,3,4) this, of "mem_callbacks me" a] assms(5)
  obtain nodes where "missing nodes = {}" "map node_key nodes = map node_key (d_sync_nodes d)"
      and sync: "process_state_sync (mem_callbacks me) (d\<lparr>d_sync_nodes := nodes\<rparr>, a) = (r, d', a')"
    by auto
  then show ?thesis using mem_app.process_state_sync_mode [OF sync assms(6)] by blast
qed

lemma sync_no_panic:
  assumes "parse_indices (d_sync_nodes d) \<noteq> Panic"
  shows "fst (process_state_sync (mem_callbacks me) (d, a)) \<noteq> Panicked"
proof -
  have "fst (mem_process_state_update me (d_sync_nodes d) (d, a)) \<noteq> Panic"
    using assms
    by (auto simp: mem_process_state_update_def Let_def split: res.splits prod.splits dfsm_result.splits)
  then show ?thesis
    by (auto simp: process_state_sync_def mem_callbacks_def Let_def split: prod.splits res.splits bool.splits)
qed

definition sample_waiting :: "FuseMessage Dfsm" where
  "sample_waiting = sample_machine\<lparr>d_mode := StartSync, d_sync_nodes := [sample_node 1 10 False, sample_node 2 11 False]\<rparr>"

theorem state_collection_completes_witness:
  "d_mode (fst (snd (collect (mem_callbacks (sample_me 0))
      [((2, 11), index_serialize sample_index), ((1, 10), index_serialize sample_slave)]
      (sample_waiting, sample_app sample_db)))) \<in> {Synced, ModeUpdate, ModeError}"
proof -
  let ?xs = "[((2 :: u32, 11 :: u32), index_serialize sample_index), ((1, 10), index_serialize sample_slave)]"
  obtain r d' a' where res: "collect (mem_callbacks (sample_me 0)) ?xs (sample_waiting, sample_app sample_db) = (r, d', a')"
    by (metis prod_cases3)
  have "collect (mem_callbacks (sample_me 0)) ?xs (sample_waiting, sample_app sample_db) =
      process_state_sync (mem_callbacks (sample_me 0)) (sample_waiting\<lparr>d_sync_nodes := sample_states\<rparr>, sample_app sample_db)"
    by (simp add: process_state_def find_node_def mark_first_def sample_waiting_def sample_node_def sample_states_def
        split: prod.splits dfsm_result.splits)
  then have "r \<noteq> Panicked"
    using sync_no_panic [of "sample_waiting\<lparr>d_sync_nodes := sample_states\<rparr>" "sample_me 0" "sample_app sample_db"]
      res sample_states_parse by simp
  moreover have "d_sync_nodes sample_waiting = [sample_node 1 10 False, sample_node 2 11 False]"
    by (simp add: sample_waiting_def)
  then have "distinct (map node_key (d_sync_nodes sample_waiting))" "missing (d_sync_nodes sample_waiting) = {(1, 10), (2, 11)}"
    by (auto simp: sample_node_def missing_Cons missing_def [of "[]"])
  ultimately have "d_mode d' \<in> {Synced, ModeUpdate, ModeError}"
    using state_collection_completes [OF _ _ _ _ res] by auto
  then show ?thesis by (simp only: res fst_conv snd_conv)
qed

text \<open>
  A membership change starts a new epoch on every node: the local epoch counter advances, the
  nodes to synchronize are exactly the members (in their order, without state), and exactly the
  node with the lowest number is the leader. A node alone is synchronized at once, all others start
  to synchronize. (A call that does not deadlock, see below.)
\<close>

theorem membership_change_starts_epoch:
  assumes "handle_membership_change en (mem_callbacks me) now members (d, a) = (r, d', a')"
    and "members \<noteq> []" and "\<forall>m \<in> set members. mi_node_id m > 0"
  shows "(is_leader d' \<longleftrightarrow> d_nodeid d = Min (mi_node_id ` set members)) \<and>
    se_epoch (d_sync_epoch d') = d_local_epoch_counter d + 1 \<and>
    d_local_epoch_counter d' = d_local_epoch_counter d + 1 \<and>
    map node_key (d_sync_nodes d') = map (\<lambda>m. (mi_node_id m, mi_pid m)) members \<and>
    d_mode d' = (if length members = 1 then Synced else StartSync) \<and> d_sync_queue d' = []"
proof -
  have low: "lowest_node members = Min (mi_node_id ` set members)"
  proof -
    obtain m ms where ms: "members = m # ms" using assms(2) by (cases members) auto
    then show ?thesis by (simp add: lowest_node_def Min.set_eq_fold [symmetric])
  qed
  have pos: "Min (mi_node_id ` set members) > 0" using assms(2,3) by simp
  have norm: "\<not> is_error_mode Synced" "\<not> is_error_mode StartSync" by (simp_all add: is_error_mode_def word_le_nat_alt)
  define d4 where "d4 = (enter_epoch now members d)\<lparr>d_sync_nodes := map fresh_node members, d_sync_queue := []\<rparr>"
  have d4: "d_nodeid d4 = d_nodeid d" "d_lowest_nodeid d4 = lowest_node members"
      "se_epoch (d_sync_epoch d4) = d_local_epoch_counter d + 1"
      "d_local_epoch_counter d4 = d_local_epoch_counter d + 1" "d_sync_nodes d4 = map fresh_node members"
      "d_sync_queue d4 = []"
    by (simp_all add: d4_def enter_epoch_def invalidate_checksum_def Let_def)
  have mode_frame: "d_nodeid (set_mode x e) = d_nodeid e" "d_lowest_nodeid (set_mode x e) = d_lowest_nodeid e"
      "d_sync_epoch (set_mode x e) = d_sync_epoch e" "d_local_epoch_counter (set_mode x e) = d_local_epoch_counter e"
      "d_sync_nodes (set_mode x e) = d_sync_nodes e" "d_sync_queue (set_mode x e) = d_sync_queue e"
    for x and e :: "FuseMessage Dfsm" by (simp_all add: set_mode_def Let_def)
  have keys: "map node_key (map fresh_node members) = map (\<lambda>m. (mi_node_id m, mi_pid m)) members"
    by (simp add: fresh_node_def)
  show ?thesis
  proof (cases "length members = 1")
    case True
    then obtain m where m: "members = [m]" by (auto simp: length_Suc_conv)
    have "d' = (set_mode Synced d4)\<lparr>d_sync_nodes := [(fresh_node m)\<lparr>ni_synced := True\<rparr>]\<rparr>"
      using assms(1) True m
      by (auto simp: handle_membership_change_def Let_def mem_callbacks_def d4_def mode_frame split: if_splits)
    then show ?thesis
      using d4 low pos norm m keys by (auto simp: is_leader_def mode_frame mem_app.set_mode_normal)
  next
    case False
    let ?d5 = "set_mode StartSync d4"
    have five: "d_mode ?d5 = StartSync" using norm(2) by (rule mem_app.set_mode_normal)
    have send: "same_core ?d5 d'"
      using assms(1) False
      by (auto simp: handle_membership_change_def Let_def mem_callbacks_def d4_def [symmetric]
          send_sync_start_def send_state_def
          split: if_splits prod.splits dfsm_result.splits res.splits
          intro: send_dfsm_message_core same_core_trans)
    show ?thesis
      using False same_coreD [OF send] five d4 low pos keys by (auto simp: is_leader_def mode_frame)
  qed
qed

definition sample_member :: "u32 \<Rightarrow> u32 \<Rightarrow> MemberInfo" where
  "sample_member i p = \<lparr>mi_node_id = i, mi_pid = p, mi_joined_at = 0\<rparr>"

theorem membership_change_starts_epoch_witness:
  "is_leader (fst (snd (handle_membership_change sample_env (mem_callbacks (sample_me 0)) 5
      [sample_member 2 20, sample_member 1 10] (sample_machine, sample_app sample_db))))"
proof -
  let ?ms = "[sample_member 2 20, sample_member 1 10]"
  obtain r d' a' where res: "handle_membership_change sample_env (mem_callbacks (sample_me 0)) 5 ?ms
      (sample_machine, sample_app sample_db) = (r, d', a')" by (metis prod_cases3)
  from membership_change_starts_epoch [OF this] have "is_leader d'"
    by (simp add: sample_member_def sample_machine_def)
  then show ?thesis by (simp only: res fst_conv snd_conv)
qed

section \<open>Messages and results that get lost\<close>

lemma queue_message_first_queue:
  assumes "queue_inv x"
    and "d_mode x = ModeUpdate \<Longrightarrow> \<forall>n \<in> set (d_sync_nodes x). \<not> ni_synced n"
  obtains q where "queue_message i p c m u x = x\<lparr>d_msg_queue := bt_insert c
        \<lparr>qm_nodeid = i, qm_pid = p, qm_msg_count = c, qm_message = m, qm_timestamp = u\<rparr> q\<rparr>" and "bt_ok q"
proof -
  let ?q = "if length (d_msg_queue x) \<ge> MAX_QUEUE_LEN
            then (case d_msg_queue x of [] \<Rightarrow> [] | (k, _) # _ \<Rightarrow> bt_remove k (d_msg_queue x)) else d_msg_queue x"
  have "\<not> (d_mode x = ModeUpdate \<and> (case find_node i p (d_sync_nodes x) of None \<Rightarrow> False | Some n \<Rightarrow> ni_synced n))"
    using assms(2) by (auto simp: find_node_def find_Some_iff split: option.splits)
  moreover have "bt_ok ?q"
    using assms(1) by (auto simp: queue_inv_def bt_remove_def bt_ok_filter bt_ok_Cons split: list.splits)
  ultimately show ?thesis using that [of ?q] by (simp only: queue_message_def Let_def if_False)
qed

lemma from_synced_none: "\<forall>n \<in> set nodes. \<not> ni_synced n \<Longrightarrow> filter (from_synced nodes) q = []"
  by (auto simp: filter_empty_conv from_synced_def find_node_def find_Some_iff split: option.splits)

lemma update_mode_queue:
  assumes inv: "queue_inv d0" and none: "\<forall>n \<in> set (d_sync_nodes d0). \<not> ni_synced n" and "d_sync_queue d0 = []"
    and sync: "process_state_sync (mem_callbacks me) (d0, a0) = (Done, d, a)" and mode: "d_mode d = ModeUpdate"
  shows "queue_inv d \<and> d_sync_nodes d = d_sync_nodes d0 \<and> d_sync_queue d = []"
proof -
  let ?cb = "mem_callbacks me"
  obtain r1 d1 a1 where cb: "cb_process_state_update ?cb (d_sync_nodes d0) (d0, a0) = (r1, d1, a1)"
    by (metis prod_cases3)
  note core = same_coreD [OF mem_app.state_core [OF cb]]
  have q1: "queue_inv d1" using mem_app.core_inv [OF mem_app.state_core [OF cb] inv] .
  have norm: "\<not> is_error_mode ModeUpdate" "\<not> is_error_mode Synced" by (simp_all add: is_error_mode_def)
  have synced: "d_mode e = Synced" if "deliver_message_queue ?cb (set_mode Synced x, a1) = (e, y)" for x e y
    using mem_app.deliver_queue_mode [OF that] norm(2) by (simp add: mem_app.set_mode_normal)
  have "r1 = Ok False"
  proof (cases r1)
    case (Ok b)
    have on_synced: "cb_on_synced ?cb = id" by (simp add: mem_callbacks_def)
    show ?thesis using Ok sync cb mode synced by (cases b) (auto simp: process_state_sync_def Let_def on_synced)
  qed (use sync cb in \<open>auto simp: process_state_sync_def\<close>)
  then have del: "deliver_message_queue ?cb (set_mode ModeUpdate d1, a1) = (d, a)"
    using sync cb by (simp add: process_state_sync_def)
  let ?u = "set_mode ModeUpdate d1"
  have u: "queue_inv ?u" "d_mode ?u = ModeUpdate" "d_sync_nodes ?u = d_sync_nodes d0" "d_sync_queue ?u = []"
    using q1 core assms(3) norm by (simp_all add: mem_app.set_mode_normal) (simp_all add: set_mode_def Let_def core)
  have "bt_ok (d_msg_queue ?u)" using u(1) by (simp add: queue_inv_def)
  from mem_app.deliver_queue_spec(2) [OF this del u(2)] u mem_app.deliver_queue_inv [OF u(1) del] from_synced_none [OF none]
  show ?thesis by simp
qed

text \<open>
  Messages that arrive while a node waits for updates are not delivered when the updates are
  complete: only the node's own flag is ever set to synchronized, so in update mode no sender counts
  as synchronized, the message goes to the first queue, and the completion message delivers only the
  second queue. The node reports that it is synchronized, its database has not seen the message and
  the message is still queued.
\<close>

theorem messages_during_update_stay_queued:
  assumes "queue_inv d0" and "\<forall>n \<in> set (d_sync_nodes d0). \<not> ni_synced n" and "d_sync_queue d0 = []"
    and "process_state_sync (mem_callbacks me) (d0, a0) = (Done, d, a)" and "d_mode d = ModeUpdate"
    and "handle_dfsm_message en (mem_callbacks me) now nodeid pid (Normal c t v msg) (d, a) = (r1, d1, a1)"
    and "handle_dfsm_message en (mem_callbacks me) now' nodeid' pid' (UpdateComplete (d_sync_epoch d1)) (d1, a1) = (r2, d2, a2)"
  shows "d_mode d2 = Synced \<and> a2 = a \<and>
    map_of (d_msg_queue d2) c = Some \<lparr>qm_nodeid = nodeid, qm_pid = pid, qm_msg_count = c, qm_message = msg,
                                       qm_timestamp = ucast t\<rparr>"
proof -
  let ?qm = "\<lparr>qm_nodeid = nodeid, qm_pid = pid, qm_msg_count = c, qm_message = msg, qm_timestamp = ucast t\<rparr>"
  have d: "queue_inv d" "d_sync_nodes d = d_sync_nodes d0" "d_sync_queue d = []"
    using update_mode_queue [OF assms(1-5)] by simp_all
  have d1: "d1 = queue_message nodeid pid c msg (ucast t) d" "a1 = a"
    using assms(5,6) by (auto simp: handle_dfsm_message_def handle_normal_message_def)
  obtain q where q: "d1 = d\<lparr>d_msg_queue := bt_insert c ?qm q\<rparr>" "bt_ok q"
    using queue_message_first_queue [OF d(1), of nodeid pid c msg "ucast t"] assms(2) d(2) d1(1) by auto
  have "d_sync_queue d1 = []" using q(1) d(3) by simp
  then have "d2 = set_mode Synced (d1\<lparr>d_sync_queue := []\<rparr>)" "a2 = a"
    using assms(7) d1(2)
    by (auto simp: handle_dfsm_message_def handle_update_complete_def deliver_sync_queue_def mem_callbacks_def)
  moreover have "\<not> is_error_mode Synced" by (simp add: is_error_mode_def)
  moreover have "d_msg_queue (set_mode Synced x) = d_msg_queue x" for x :: "FuseMessage Dfsm"
    by (simp add: set_mode_def Let_def)
  ultimately show ?thesis
    using q map_of_bt_insert [OF q(2)] by (simp add: mem_app.set_mode_normal)
qed

definition sample_full_states :: "FuseMessage Dfsm" where
  "sample_full_states = sample_machine\<lparr>d_mode := StartSync, d_sync_nodes := sample_states\<rparr>"

theorem messages_during_update_stay_queued_witness:
  "\<exists>d1 a1 r2 d2. handle_dfsm_message sample_env (mem_callbacks (sample_me 0)) 0 2 11 (Normal 5 6 1 (FMkdir ''/n''))
       (set_mode ModeUpdate sample_full_states, sample_app sample_db) = (Done, d1, a1) \<and>
     handle_dfsm_message sample_env (mem_callbacks (sample_me 0)) 0 2 11 (UpdateComplete (d_sync_epoch d1)) (d1, a1) =
       (r2, d2, sample_app sample_db) \<and> d_mode d2 = Synced \<and> map_of (d_msg_queue d2) 5 \<noteq> None"
proof -
  let ?cb = "mem_callbacks (sample_me 0)" and ?a = "sample_app sample_db" and ?u = "set_mode ModeUpdate sample_full_states"
  have fields: "d_sync_nodes sample_full_states = sample_states" "d_msg_queue ?u = []" "d_sync_queue sample_full_states = []"
      "d_msg_queue sample_full_states = []" "d_nodeid sample_full_states = 1" "d_pid sample_full_states = 10" "d_mode ?u = ModeUpdate"
    by (simp_all add: sample_full_states_def sample_machine_def new_with_protocol_version_def set_mode_def is_error_mode_def)
  have inv: "queue_inv sample_full_states" by (simp add: queue_inv_def fields)
  have unsynced: "\<forall>n \<in> set (d_sync_nodes sample_full_states). \<not> ni_synced n" by (simp add: fields sample_states_def)
  have "mem_process_state_update (sample_me 0) sample_states (sample_full_states, ?a) = (Ok False, sample_full_states, ?a)"
    using sample_election [of sample_full_states ?a] fields by (simp add: sample_app_def)
  then have sync: "process_state_sync ?cb (sample_full_states, ?a) = (Done, ?u, ?a)"
    using fields by (simp add: process_state_sync_def mem_callbacks_def deliver_message_queue_def)
  obtain r1 d1 a1 where 1: "handle_dfsm_message sample_env ?cb 0 2 11 (Normal 5 6 1 (FMkdir ''/n'')) (?u, ?a) = (r1, d1, a1)"
    by (metis prod_cases3)
  then have "r1 = Done" by (auto simp: handle_dfsm_message_def)
  obtain r2 d2 a2 where 2: "handle_dfsm_message sample_env ?cb 0 2 11 (UpdateComplete (d_sync_epoch d1)) (d1, a1) = (r2, d2, a2)"
    by (metis prod_cases3)
  from messages_during_update_stay_queued [OF inv unsynced fields(3) sync fields(7) 1 2] 1 2 \<open>r1 = Done\<close>
  show ?thesis by (metis option.distinct(1))
qed

text \<open>
  A synchronous call can get the result of somebody else's message: results are matched by
  message count only, and every node counts its messages from one. A message of another node whose
  count equals that of a waiting local call ends the wait with the result of the foreign message;
  the result of the caller's own message is then dropped.
\<close>

theorem foreign_message_ends_wait:
  assumes "d_mode d = Synced" and "hm_get (d_waiting d) c = Some ()" and "nodeid \<noteq> d_nodeid d"
    and "mem_deliver_message me nodeid pid msg (ucast t) (d, a) = (Some (result, processed), d1, a1)"
    and "handle_dfsm_message en (mem_callbacks me) now nodeid pid (Normal c t v msg) (d, a) = (r, d', a')"
  shows "d_results d' = d_results d @ [\<lparr>mr_msgcount = c, mr_result = result, mr_processed = processed\<rparr>] \<and>
         hm_get (d_waiting d') c = None"
proof -
  note core = same_coreD [OF mem_deliver_core [OF assms(4)]]
  have "d' = record_message_result c result processed d1"
    using assms(1,4,5)
    by (auto simp: handle_dfsm_message_def handle_normal_message_def deliver_one_def mem_callbacks_def)
  then show ?thesis using assms(2) by (simp add: record_message_result_def core)
qed

definition sample_caller :: "FuseMessage Dfsm" where
  "sample_caller = sample_machine\<lparr>d_mode := Synced, d_msg_counter := 1, d_waiting := [(1, ())]\<rparr>"

theorem foreign_message_ends_wait_witness:
  "map mr_result (d_results (fst (snd (handle_dfsm_message sample_env (mem_callbacks (sample_me 0)) 0 2 20
     (Normal 1 6 1 (FRename ''/no'' ''/where'')) (sample_caller, sample_app sample_db))))) = [-2]"
proof -
  let ?a = "sample_app sample_db" and ?msg = "FRename ''/no'' ''/where''"
  have "\<not> path_exists sample_db ''/no''" by code_simp
  then have del: "mem_deliver_message (sample_me 0) 2 20 ?msg (ucast (6 :: u32)) (sample_caller, ?a) =
      (Some (-2, False), sample_caller, ?a)"
    by (simp add: mem_deliver_message_def handle_rename_def sample_app_def libc_ENOENT_def)
  obtain r d' a' where res: "handle_dfsm_message sample_env (mem_callbacks (sample_me 0)) 0 2 20
      (Normal 1 6 1 ?msg) (sample_caller, ?a) = (r, d', a')" by (metis prod_cases3)
  have caller: "d_mode sample_caller = Synced" "hm_get (d_waiting sample_caller) 1 = Some ()" "2 \<noteq> d_nodeid sample_caller"
      "d_results sample_caller = []"
    by (simp_all add: sample_caller_def sample_machine_def new_with_protocol_version_def hm_get_def)
  have "map mr_result (d_results d') = [-2]"
    using foreign_message_ends_wait [OF caller(1-3) del res] caller(4) by simp
  then show ?thesis by (simp only: res fst_conv snd_conv)
qed

text \<open>
  A membership change that leaves the node alone while messages are queued never returns: the
  handler still holds the write lock of the node list when the delivery of the queue asks for the
  read lock.
\<close>

theorem single_member_deadlock:
  assumes "length members = 1" and "d_msg_queue d \<noteq> []"
  shows "fst (handle_membership_change en (mem_callbacks me) now members (d, a)) = Deadlock"
proof -
  have "d_msg_queue (set_mode Synced x) = d_msg_queue x" for x :: "FuseMessage Dfsm"
    by (simp add: set_mode_def Let_def)
  then show ?thesis
    using assms
    by (simp add: handle_membership_change_def Let_def mem_callbacks_def enter_epoch_def invalidate_checksum_def)
qed

theorem single_member_deadlock_witness:
  "fst (handle_membership_change sample_env (mem_callbacks (sample_me 0)) 5 [sample_member 1 10]
     (sample_queued, sample_app sample_db)) = Deadlock"
proof -
  have "d_msg_queue sample_queued \<noteq> []" using sample_queue by (simp add: sample_ready_def)
  then show ?thesis by (intro single_member_deadlock) simp_all
qed

text \<open>
  Queued messages of different nodes with the same count replace each other: the queue is keyed
  by the count alone, and each node counts its own messages. After the second message arrived the
  queue holds no message of the first node with that count.
\<close>

theorem equal_counts_lose_a_message:
  assumes "queue_inv d" and "d_mode d = StartSync" and "nodeid \<noteq> nodeid'"
    and "handle_dfsm_message en (mem_callbacks me) now nodeid pid (Normal c t v msg) (d, a) = (r1, d1, a1)"
    and "handle_dfsm_message en (mem_callbacks me) now' nodeid' pid' (Normal c t' v' msg') (d1, a1) = (r2, d2, a2)"
  shows "map_of (d_msg_queue d1) c = Some \<lparr>qm_nodeid = nodeid, qm_pid = pid, qm_msg_count = c, qm_message = msg,
                                            qm_timestamp = ucast t\<rparr> \<and>
    (\<forall>qm. (c, qm) \<in> set (d_msg_queue d2) \<longrightarrow> qm_nodeid qm \<noteq> nodeid)"
proof -
  have d1: "d1 = queue_message nodeid pid c msg (ucast t) d"
    using assms(2,4) by (auto simp: handle_dfsm_message_def handle_normal_message_def)
  obtain q where q: "d1 = d\<lparr>d_msg_queue := bt_insert c \<lparr>qm_nodeid = nodeid, qm_pid = pid,
      qm_msg_count = c, qm_message = msg, qm_timestamp = ucast t\<rparr> q\<rparr>" "bt_ok q"
    using queue_message_first_queue [OF assms(1), of nodeid pid c msg "ucast t"] assms(2) d1 by auto
  have inv1: "queue_inv d1" using queue_message_inv [OF assms(1)] d1 by simp
  have mode1: "d_mode d1 = StartSync" using q(1) assms(2) by simp
  have d2: "d2 = queue_message nodeid' pid' c msg' (ucast t') d1"
    using mode1 assms(5) by (auto simp: handle_dfsm_message_def handle_normal_message_def)
  obtain q' where q': "d2 = d1\<lparr>d_msg_queue := bt_insert c \<lparr>qm_nodeid = nodeid', qm_pid = pid',
      qm_msg_count = c, qm_message = msg', qm_timestamp = ucast t'\<rparr> q'\<rparr>" "bt_ok q'"
    using queue_message_first_queue [OF inv1, of nodeid' pid' c msg' "ucast t'"] mode1 d2 by auto
  have "map_of (d_msg_queue d1) c = Some \<lparr>qm_nodeid = nodeid, qm_pid = pid, qm_msg_count = c, qm_message = msg,
      qm_timestamp = ucast t\<rparr>" using q map_of_bt_insert [OF q(2)] by simp
  moreover have "qm_nodeid qm \<noteq> nodeid" if "(c, qm) \<in> set (d_msg_queue d2)" for qm
    using that q' assms(3) by (auto simp: set_bt_insert)
  ultimately show ?thesis by blast
qed

theorem equal_counts_lose_a_message_witness:
  "\<exists>d1 a1 d2 a2. handle_dfsm_message sample_env (mem_callbacks (sample_me 0)) 0 1 10 (Normal 1 6 1 (FMkdir ''/a''))
       (sample_waiting, sample_app sample_db) = (Done, d1, a1) \<and>
     handle_dfsm_message sample_env (mem_callbacks (sample_me 0)) 0 2 11 (Normal 1 7 1 (FMkdir ''/b'')) (d1, a1) = (Done, d2, a2) \<and>
     (\<forall>qm. (1, qm) \<in> set (d_msg_queue d2) \<longrightarrow> qm_nodeid qm \<noteq> 1)"
proof -
  let ?cb = "mem_callbacks (sample_me 0)" and ?a = "sample_app sample_db"
  have w: "queue_inv sample_waiting" "d_mode sample_waiting = StartSync"
    by (simp_all add: queue_inv_def sample_waiting_def sample_machine_def new_with_protocol_version_def)
  obtain r1 d1 a1 where 1: "handle_dfsm_message sample_env ?cb 0 1 10 (Normal 1 6 1 (FMkdir ''/a'')) (sample_waiting, ?a) = (r1, d1, a1)"
    by (metis prod_cases3)
  obtain r2 d2 a2 where 2: "handle_dfsm_message sample_env ?cb 0 2 11 (Normal 1 7 1 (FMkdir ''/b'')) (d1, a1) = (r2, d2, a2)"
    by (metis prod_cases3)
  have "r1 = Done" "r2 = Done" using 1 2 by (auto simp: handle_dfsm_message_def)
  with equal_counts_lose_a_message [OF w _ 1 2] 1 2 show ?thesis by auto
qed

end
