(* ===== verification/Status_Props.thy ===== *)
theory Status_Props
  imports Mem_Callbacks Mem_Sample
begin

text \<open>
  The properties of the status of the cluster: the registry of virtual machines follows the
  configuration tree, online nodes are the members, the key-value data of a node is what the node
  sent last.
\<close>

section \<open>The registry of virtual machines\<close>

text \<open>
  The scan of the tree registers a machine number exactly if some node directory with a valid
  name has a configuration file with that number in \<open>qemu-server\<close> or \<open>lxc\<close>. The entry carries
  number, type and node of such a file and the low half of its version; with two files for one
  number one of them is registered.
\<close>

theorem vmlist_lists_configs:
  assumes "memdb_inv m"
  shows "\<exists>vl. recreate_vmlist m = Ok vl \<and>
    (\<forall>v. hm_get vl v \<noteq> None \<longleftrightarrow>
       (\<exists>node ty name e. vm_config m node ty name e \<and> parse_vm_config_name name = Some v)) \<and>
    (\<forall>v vm. hm_get vl v = Some vm \<longrightarrow> vm_vmid vm = v \<and>
       (\<exists>name e. vm_config m (vm_node vm) (vm_vmtype vm) name e \<and> parse_vm_config_name name = Some v \<and>
          vm_version vm = ucast (te_version e)))"
proof -
  have name: "te_name e = nm" if "vm_config m node ty nm e" for node ty nm e
    using view_name [OF assms, of "[''nodes'', node, config_dir ty]" nm e] that by (simp add: vm_config_def)
  obtain vl where vl: "recreate_vmlist m = Ok vl" "covers {(ty, node, e). \<exists>name. vm_config m node ty name e} vl"
    using vmlist_covers [OF assms] by blast
  note cov = covers_mono_sound [OF vl(2)]
  have found: "vm_vmid vm = v \<and> (\<exists>name e. vm_config m (vm_node vm) (vm_vmtype vm) name e \<and>
      parse_vm_config_name name = Some v \<and> vm_version vm = ucast (te_version e))" if "hm_get vl v = Some vm" for v vm
    using cov(2) [OF that] cov(3) [OF that] name by fastforce
  have "hm_get vl v \<noteq> None" if "vm_config m node ty nm e" "parse_vm_config_name nm = Some v" for node ty nm e v
    using cov(4) [of ty node e v] that name [OF that(1)] by blast
  then have "hm_get vl v \<noteq> None \<longleftrightarrow>
      (\<exists>node ty name e. vm_config m node ty name e \<and> parse_vm_config_name name = Some v)" for v
    using found by blast
  then show ?thesis using vl(1) found by blast
qed

fun apply_ops :: "(string \<times> u32) list \<Rightarrow> row list MemDb \<Rightarrow> row list MemDb" where
  "apply_ops [] m = m"
| "apply_ops ((path, mode) # ops) m = apply_ops ops (snd (create list_sqlite sample_sha 0 path mode 1 2 m))"

definition sample_vms :: "row list MemDb" where
  "sample_vms = apply_ops [(''/nodes'', S_IFDIR), (''/nodes/n1'', S_IFDIR), (''/nodes/n1/lxc'', S_IFDIR),
     (''/nodes/n1/lxc/100.conf'', S_IFREG)] sample_db"

lemma sample_vms_inv: "memdb_inv sample_vms"
proof -
  have keep: "memdb_inv (snd (create list_sqlite sample_sha 0 path mode 1 2 m)) \<and>
      unat (db_version (snd (create list_sqlite sample_sha 0 path mode 1 2 m))) \<le> unat (db_version m) + 1"
    if "memdb_inv m" "unat (db_version m) + 1 < 2 ^ 64" for path mode and m :: "row list MemDb"
  proof -
    let ?c = "create list_sqlite sample_sha 0 path mode 1 2 m"
    have "mem_steps list_sqlite sample_sha m [is_ok (fst ?c)] (snd ?c)"
      by (intro mem_steps.Step [OF _ mem_steps.Done] mem_step.Create [OF prod.collapse [symmetric]])
    from mem_steps_inv [OF this that(1)] that(2) show ?thesis by simp
  qed
  have all: "memdb_inv (apply_ops ops m)"
    if "memdb_inv m" "unat (db_version m) + length ops < 2 ^ 64" for ops and m :: "row list MemDb"
    using that
  proof (induction ops m rule: apply_ops.induct)
    case (1 m)
    then show ?case by simp
  next
    case (2 path mode ops m)
    have "unat (db_version m) + 1 < 2 ^ 64" using 2(3) by simp
    from keep [OF 2(2) this, of path mode] 2 show ?case by simp
  qed
  show ?thesis
    unfolding sample_vms_def by (rule all) (simp_all add: sample_versions del: apply_ops.simps)
qed

theorem vmlist_lists_configs_witness:
  "\<exists>vl vm. recreate_vmlist sample_vms = Ok vl \<and> hm_get vl 100 = Some vm \<and> vm_vmid vm = 100 \<and>
     (\<exists>name e. vm_config sample_vms (vm_node vm) (vm_vmtype vm) name e \<and> parse_vm_config_name name = Some 100)"
proof -
  obtain vl where vl: "recreate_vmlist sample_vms = Ok vl"
      "\<And>v vm. hm_get vl v = Some vm \<Longrightarrow> vm_vmid vm = v \<and>
         (\<exists>name e. vm_config sample_vms (vm_node vm) (vm_vmtype vm) name e \<and>
            parse_vm_config_name name = Some v \<and> vm_version vm = ucast (te_version e))"
    using vmlist_lists_configs [OF sample_vms_inv] by blast
  have "(case recreate_vmlist sample_vms of Ok vl \<Rightarrow> hm_get vl 100 \<noteq> None | _ \<Rightarrow> False)" by code_simp
  then obtain vm where "hm_get vl 100 = Some vm" using vl(1) by auto
  then show ?thesis using vl(1) vl(2) [of 100 vm] by blast
qed

text \<open>
  After the scan the status has exactly the machines of the tree, each with the type and the
  node that the tree gives it; an entry that has not moved keeps its version, and the version of the
  registry has advanced.
\<close>

theorem scan_follows_tree:
  assumes "memdb_inv m"
  shows "\<exists>vl. recreate_vmlist m = Ok vl \<and>
    st_vmlist_version (scan_vmlist m s) = st_vmlist_version s + 1 \<and>
    (\<forall>v. case hm_get vl v of
       None \<Rightarrow> hm_get (st_vmlist (scan_vmlist m s)) v = None
     | Some new \<Rightarrow> \<exists>vm. hm_get (st_vmlist (scan_vmlist m s)) v = Some vm \<and> same_place vm new \<and>
         (\<forall>old. hm_get (st_vmlist s) v = Some old \<longrightarrow> same_place old new \<longrightarrow> vm = old))"
proof -
  obtain vl where vl: "recreate_vmlist m = Ok vl" "hm_ok vl"
    using vmlist_covers [OF assms] covers_mono_sound(1) by blast
  have "st_vmlist_version (scan_one s kv) = st_vmlist_version s" for s kv
    by (auto simp: scan_one_def next_vm_version_def split: option.splits prod.splits)
  then have "st_vmlist_version (foldl scan_one s kvs) = st_vmlist_version s" for s kvs
    by (induction kvs arbitrary: s) simp_all
  then have "st_vmlist_version (scan_vmlist m s) = st_vmlist_version s + 1"
    using vl(1) by (simp add: scan_vmlist_def Let_def increment_vmlist_version_def)
  then show ?thesis using vl(1) scan_vmlist_get [OF vl] by blast
qed

theorem scan_follows_tree_witness:
  "\<exists>vm. hm_get (st_vmlist (scan_vmlist sample_vms (status_new ''n'' 0))) 100 = Some vm \<and>
        st_vmlist_version (scan_vmlist sample_vms (status_new ''n'' 0)) = 1"
proof -
  obtain vl where vl: "recreate_vmlist sample_vms = Ok vl"
      "st_vmlist_version (scan_vmlist sample_vms (status_new ''n'' 0)) = st_vmlist_version (status_new ''n'' 0) + 1"
      "\<forall>v. case hm_get vl v of
         None \<Rightarrow> hm_get (st_vmlist (scan_vmlist sample_vms (status_new ''n'' 0))) v = None
       | Some new \<Rightarrow> \<exists>vm. hm_get (st_vmlist (scan_vmlist sample_vms (status_new ''n'' 0))) v = Some vm \<and> same_place vm new \<and>
           (\<forall>old. hm_get (st_vmlist (status_new ''n'' 0)) v = Some old \<longrightarrow> same_place old new \<longrightarrow> vm = old)"
    using scan_follows_tree [OF sample_vms_inv, of "status_new ''n'' 0"] by blast
  have "(case recreate_vmlist sample_vms of Ok vl \<Rightarrow> hm_get vl 100 \<noteq> None | _ \<Rightarrow> False)" by code_simp
  then have "hm_get vl 100 \<noteq> None" using vl(1) by simp
  then show ?thesis using vl(2) spec [OF vl(3), of 100] by (auto simp: status_new_def)
qed


text \<open>
  A path built from the name of a node, the type and the number of a machine is parsed back to
  exactly these, for every machine number from 1 to the largest 32-bit number.
\<close>

theorem vm_path_roundtrip:
  assumes "is_valid_nodename node" and "0 < vmid"
  shows "parse_vm_config_path (''/nodes/'' @ node @ ''/'' @ config_dir ty @ ''/'' @ decimal (unat vmid) @ ''.conf'')
         = Some (node, ty, vmid)"
proof -
  have "CHR ''/'' \<notin> set (decimal (unat vmid) @ ''.conf'')"
    using decimal_digits [of "CHR ''/''" "unat vmid"] by (auto simp: is_ascii_alphanumeric_def)
  from parse_config_path [OF assms(1) this, of ty]
  show ?thesis
    using parse_name_decimal [of "unat vmid"] assms(2) unsigned_less [of vmid]
    by (simp add: unat_gt_0 word_gt_0)
qed

theorem vm_path_roundtrip_witness:
  "parse_vm_config_path (''/nodes/'' @ ''n1'' @ ''/'' @ config_dir Lxc @ ''/'' @ decimal (unat (100 :: u32)) @ ''.conf'')
     = Some (''n1'', Lxc, 100)"
  by (rule vm_path_roundtrip) code_simp+

lemma split_on_hd: "\<exists>t rest. s = hd (split_on c s) @ t \<and> split_on c s = hd (split_on c s) # rest"
proof (induction s)
  case Nil
  then show ?case by simp
next
  case (Cons x xs)
  then show ?case by (cases "split_on c xs") auto
qed

text \<open>
  A delivered change of the configuration file of a machine never advances the version of the
  registry of machines: the test for \<open>qemu-server/\<close> and \<open>lxc/\<close> looks at the start of the path, where
  such a file has \<open>nodes/\<close>.
\<close>

theorem vm_change_keeps_vmlist_version:
  assumes "parse_vm_config_path path = Some vm"
  shows "st_vmlist_version (update_version_counters path s) = st_vmlist_version s"
proof -
  let ?p = "trim_start_matches (CHR ''/'') path"
  have "hd (split_on (CHR ''/'') ?p) = ''nodes''"
    using assms by (auto simp: parse_vm_config_path_def Let_def split: list.splits if_splits)
  then obtain t where "?p = ''nodes'' @ t"
    using split_on_hd [of ?p "CHR ''/''"] by auto
  then have "\<not> starts_with ?p ''qemu-server/''" "\<not> starts_with ?p ''lxc/''"
    by (simp_all add: starts_with_def)
  then show ?thesis
    by (simp add: update_version_counters_def Let_def increment_path_version_def split: option.splits)
qed

theorem vm_change_keeps_vmlist_version_witness:
  "st_vmlist_version (update_version_counters ''/nodes/n1/lxc/100.conf'' (status_new ''n'' 0)) = 0"
proof -
  have "parse_vm_config_path ''/nodes/n1/lxc/100.conf'' = Some (''n1'', Lxc, 100)" by code_simp
  from vm_change_keeps_vmlist_version [OF this] show ?thesis by (simp add: status_new_def)
qed

section \<open>Nodes\<close>

text \<open>
  After a change of the membership exactly the registered nodes that are members are online; no
  node is added, removed or changed otherwise.
\<close>

theorem online_nodes_are_members:
  assumes "st_cluster_info s = Some info"
  shows "\<exists>info'. st_cluster_info (update_members members s) = Some info' \<and>
    st_members (update_members members s) = members \<and>
    (\<forall>i. hm_get (ci_nodes_by_id info') i =
       map_option (\<lambda>n. n\<lparr>cn_online := i \<in> mi_node_id ` set members\<rparr>) (hm_get (ci_nodes_by_id info) i))"
  using assms
  by (simp add: update_members_def Let_def increment_cluster_version_def refresh_online_get)

definition sample_status :: Status where
  "sample_status = register_node 2 ''b'' ''10.0.0.2'' (register_node 1 ''a'' ''10.0.0.1'' (init_cluster ''c'' (status_new ''n'' 0)))"

lemma sample_info:
  "st_cluster_info sample_status =
     Some (add_node \<lparr>cn_name = ''b'', cn_node_id = 2, cn_ip = ''10.0.0.2'', cn_online = False\<rparr>
       (add_node \<lparr>cn_name = ''a'', cn_node_id = 1, cn_ip = ''10.0.0.1'', cn_online = False\<rparr>
         (cluster_info_new ''c'' 0)))"
  by (simp add: sample_status_def register_node_def init_cluster_def increment_cluster_version_def)

theorem online_nodes_are_members_witness:
  "\<exists>info' n. st_cluster_info (update_members [\<lparr>mi_node_id = 2, mi_pid = 5, mi_joined_at = 0\<rparr>] sample_status) = Some info' \<and>
     hm_get (ci_nodes_by_id info') 2 = Some n \<and> cn_online n"
proof -
  obtain info n where info: "st_cluster_info sample_status = Some info" "hm_get (ci_nodes_by_id info) 2 = Some n"
    by (simp add: sample_info add_node_def)
  from online_nodes_are_members [OF info(1), of "[\<lparr>mi_node_id = 2, mi_pid = 5, mi_joined_at = 0\<rparr>]"] info(2)
  show ?thesis by auto
qed

section \<open>Key-value data\<close>

lemma set_node_kv_known [simp]: "known_node n (set_node_kv i key val s) = known_node n s"
proof -
  have "st_cluster_info (set_node_kv i key val s) = st_cluster_info s"
    by (auto simp: set_node_kv_def increment_cluster_version_def Let_def split: option.splits)
  then show ?thesis by (simp add: known_node_def)
qed

definition receive_kv :: "(u32 \<times> string \<times> byte list) list \<Rightarrow> Status \<Rightarrow> Status" where
  "receive_kv = fold (\<lambda>(i, key, val). set_node_kv i key val)"

definition last_sent :: "u32 \<Rightarrow> string \<Rightarrow> (u32 \<times> string \<times> byte list) list \<Rightarrow> byte list option" where
  "last_sent n k updates =
     (case rev (filter (\<lambda>(i, key, _). i = n \<and> key = k) updates) of [] \<Rightarrow> None | (_, _, val) # _ \<Rightarrow> Some val)"

text \<open>
  The data of a registered node under a key is what the node sent last under this key, whatever
  other nodes sent and whatever came under other keys; a node that sent an empty value last has no
  data under the key, and one that sent nothing keeps what was there.
\<close>

theorem kv_data_is_last_sent:
  assumes "known_node n s" and "regular_key k"
  shows "get_node_kv n k (receive_kv updates s) =
    (case last_sent n k updates of
       None \<Rightarrow> get_node_kv n k s
     | Some val \<Rightarrow> if val = [] then None else Some val)"
proof (induction updates rule: rev_induct)
  case Nil
  then show ?case by (simp add: receive_kv_def last_sent_def)
next
  case (snoc u us)
  obtain i key val where u: "u = (i, key, val)" by (cases u)
  have "known_node n (receive_kv us s)"
    unfolding receive_kv_def using assms(1) by (induction us arbitrary: s) auto
  then show ?case
    using snoc assms(2) u
    by (auto simp: receive_kv_def last_sent_def set_node_kv_get)
qed

theorem kv_data_is_last_sent_witness:
  "get_node_kv 1 ''k'' (receive_kv [(1, ''k'', [7]), (2, ''k'', [8]), (1, ''j'', [])] sample_status) = Some [7]"
proof -
  have "known_node 1 sample_status" "regular_key ''k''"
    by (simp_all add: known_node_def sample_info add_node_def regular_key_def starts_with_def)
  from kv_data_is_last_sent [OF this] show ?thesis by (simp add: last_sent_def)
qed

text \<open>
  A change of the configuration of the cluster drops the data of exactly the nodes that are no
  longer registered.
\<close>

theorem reconfiguration_drops_data_of_removed_nodes:
  "get_node_kv n k (update_cluster_info name v nodes s) =
     (if n \<in> fst ` set nodes then get_node_kv n k s else None)"
proof -
  have "hm_get (ci_nodes_by_id (fold (\<lambda>(i, nm, ip). add_node \<lparr>cn_name = nm, cn_node_id = i, cn_ip = ip, cn_online = f i\<rparr>)
      nodes info)) n \<noteq> None \<longleftrightarrow> n \<in> fst ` set nodes \<or> hm_get (ci_nodes_by_id info) n \<noteq> None" for info f
    by (induction nodes arbitrary: info) (auto simp: add_node_def split: if_splits)
  then have "known_node n (update_cluster_info name v nodes s) \<longleftrightarrow> n \<in> fst ` set nodes"
    by (simp add: known_node_def update_cluster_info_def increment_cluster_version_def Let_def hm_get_def)
  then show ?thesis by (simp add: update_cluster_info_kv)
qed

end
