(* ===== verification/Status_Callbacks.thy ===== *)
theory Status_Callbacks
  imports Cluster_Status Dfsm_Props
begin

text \<open>
  The application of the status group (\<open>pmxcfs/src/status_callbacks.rs\<close>): key-value updates and log
  messages of the nodes go to the status, and the state of a node is its cluster log, which the nodes
  merge when they synchronize. A state that cannot be read is skipped; reading never panics
  (\<open>rb_deserialize_bounded\<close>), so the merge has no such outcome.
\<close>

definition status_deliver_message ::
  "u32 \<Rightarrow> u32 \<Rightarrow> KvStoreMessage \<Rightarrow> u64 \<Rightarrow> Status \<Rightarrow> (int \<times> bool) option \<times> Status" where
  "status_deliver_message nodeid pid kvstore_message timestamp s =
     (case kvstore_message of
        KUpdate key val \<Rightarrow> (Some (0, True), set_node_kv nodeid key val s)
      | KLog time priority node ident tag msg \<Rightarrow>
          (Some (0, True), snd (add_remote_cluster_log time priority node ident tag msg s))
      | KUpdateComplete \<Rightarrow> (Some (0, True), s))"

definition status_compute_checksum :: "Status \<Rightarrow> byte list option" where
  "status_compute_checksum s = Some (replicate 32 0)"

definition status_get_state :: "Status \<Rightarrow> (unit, byte list) res \<times> Status" where
  "status_get_state s = (get_cluster_log_state s, s)"

definition status_process_state_update :: "NodeSyncInfo list \<Rightarrow> Status \<Rightarrow> (unit, bool) res \<times> Status" where
  "status_process_state_update states s =
     (if states = [] then (Ok True, s) else (Ok True, merge_cluster_log_states states s))"

definition status_callbacks :: "(KvStoreMessage, Status) Callbacks" where
  "status_callbacks =
     \<lparr>cb_deliver = (\<lambda>nodeid pid m t ds. case status_deliver_message nodeid pid m t (snd ds) of
                      (r, s) \<Rightarrow> (r, fst ds, s)),
      cb_checksum = status_compute_checksum, cb_get_state = status_get_state,
      cb_process_state_update = (\<lambda>states ds. case status_process_state_update states (snd ds) of
                      (r, s) \<Rightarrow> (r, fst ds, s)),
      cb_process_update = (\<lambda>_ _ _ ds. (True, ds)), cb_on_synced = id,
      cb_cleanup = (\<lambda>_. id), cb_membership = (\<lambda>_. id)\<rparr>"

interpretation status_app: app status_callbacks
  by unfold_locales (auto simp: status_callbacks_def split: prod.splits)

end
