(* ===== verification/Log_Props.thy ===== *)
theory Log_Props
  imports Status_Callbacks
begin

text \<open>
  The properties of the cluster log: no duplicates in any history, what a merge contains and that it
  does not depend on the order of the logs, the binary form, its decoder on arbitrary input, and the
  two ways in which replication of the log goes wrong.
\<close>

section \<open>Duplicates and merging\<close>

text \<open>
  C29. However entries arrive, from local calls, from other nodes, or by merging any buffers, the log
  never holds two entries with the same time, node and number, and the entries of each node are in
  strictly descending order. An entry that is not newer than one the log holds of the same node is
  refused.
\<close>

theorem log_never_holds_duplicates:
  assumes "log_history l"
  shows "distinct (map log_key (rb_entries (cl_buffer l))) \<and>
    (\<forall>n. sorted_wrt (>) (map stamp (of_node n (rb_entries (cl_buffer l))))) \<and>
    (\<forall>e f. f \<in> set (rb_entries (cl_buffer l)) \<longrightarrow> le_node_digest f = le_node_digest e \<longrightarrow> stamp e \<le> stamp f \<longrightarrow>
       cl_buffer (log_insert e l) = cl_buffer l)"
proof -
  note inv = log_history_inv [OF assms]
  have "cl_buffer (log_insert e l) = cl_buffer l"
    if f: "f \<in> set (rb_entries (cl_buffer l))" "le_node_digest f = le_node_digest e" "stamp e \<le> stamp f" for e f
  proof -
    obtain s where "last_stamp (cl_dedup l) (le_node_digest e) = Some s" "stamp f \<le> s"
      using log_invD(3) [OF inv f(1)] f(2) by auto
    then have "\<not> fst (is_not_duplicate (cl_dedup l) e)"
      using f(3) by (auto simp: is_not_duplicate_fst)
    then show ?thesis by (simp add: log_insert_def case_prod_beta)
  qed
  then show ?thesis using log_inv_distinct [OF inv] log_invD(2) [OF inv] by blast
qed

definition sample_entry :: "u32 \<Rightarrow> u32 \<Rightarrow> LogEntry" where
  "sample_entry time uid =
     \<lparr>le_uid = uid, le_time = time, le_node_digest = 7, le_ident_digest = 8, le_pid = 0, le_priority = 6,
      le_node = ''a'', le_ident = [], le_tag = [], le_message = ''m''\<rparr>"

definition sample_history :: ClusterLog where
  "sample_history = log_insert (sample_entry 5 2) (log_insert (sample_entry 5 1) (log_with_capacity 50000))"

lemma sample_history_entries: "rb_entries (cl_buffer sample_history) = [sample_entry 5 2, sample_entry 5 1]"
  by code_simp

theorem log_never_holds_duplicates_witness:
  "log_history sample_history \<and> cl_buffer (log_insert (sample_entry 5 1) sample_history) = cl_buffer sample_history"
proof -
  have h: "log_history sample_history"
    unfolding sample_history_def by (intro log_history.intros)
  have "cl_buffer (log_insert (sample_entry 5 1) sample_history) = cl_buffer sample_history"
  proof -
    have "sample_entry 5 1 \<in> set (rb_entries (cl_buffer sample_history))"
      by (simp add: sample_history_entries)
    then show ?thesis using log_never_holds_duplicates [OF h] by blast
  qed
  with h show ?thesis ..
qed

text \<open>
  C30. What a merge keeps: the entries of all logs, newest first in strictly descending order of time,
  node and number, one for each key (the first that the merge meets), cut off where the next older
  one would exceed the capacity; and the record of each node becomes its newest entry in any of the
  logs. The entries are not larger than the capacity.
\<close>

theorem merge_keeps_newest_of_all:
  assumes "\<forall>e \<in> set (merged_entries remote_logs include_local l).
      aligned_size e \<le> merged_capacity remote_logs include_local l"
  shows "\<exists>es k. sorted_wrt (\<lambda>a b. log_key a > log_key b) es \<and>
    log_key ` set es = log_key ` set (merged_entries remote_logs include_local l) \<and>
    (\<forall>e. e \<in> set es \<longleftrightarrow>
       find (\<lambda>f. log_key f = log_key e) (merged_entries remote_logs include_local l) = Some e) \<and>
    rb_entries (cl_buffer (log_merge remote_logs include_local l)) = take k es \<and>
    total_size (take k es) \<le> merged_capacity remote_logs include_local l \<and>
    (k < length es \<longrightarrow> merged_capacity remote_logs include_local l < total_size (take (Suc k) es)) \<and>
    (\<forall>n. last_stamp (cl_dedup (log_merge remote_logs include_local l)) n =
       newest n (merged_entries remote_logs include_local l))"
proof -
  let ?all = "merged_entries remote_logs include_local l"
  let ?cap = "merged_capacity remote_logs include_local l"
  let ?es = "merge_result ?all"
  define k where "k = length (fitting ?cap ?es)"
  obtain rest where rest: "?es = fitting ?cap ?es @ rest" using fitting_prefix by blast
  then have k: "take k ?es = fitting ?cap ?es" by (metis append_eq_conv_conj k_def)
  have "?cap < total_size (take (Suc k) ?es)" if "k < length ?es"
  proof -
    from that rest obtain e rest' where "rest = e # rest'" by (cases rest) (auto simp: k_def)
    with rest have es: "?es = fitting ?cap ?es @ e # rest'" by simp
    have "take (Suc k) (fitting ?cap ?es @ e # rest') = fitting ?cap ?es @ [e]" by (simp add: k_def)
    then have "take (Suc k) ?es = fitting ?cap ?es @ [e]" using es by metis
    then show ?thesis using fitting_maximal [OF es] by simp
  qed
  moreover have "rb_entries (cl_buffer (log_merge remote_logs include_local l)) = take k ?es"
    using log_merge_parts(5) [OF assms] k by simp
  ultimately show ?thesis
    using merge_result_spec merge_result_keys log_merge_parts(4) fitting_size [of ?cap ?es] k by metis
qed

abbreviation sample_remote :: RingBuffer where
  "sample_remote \<equiv> add_entry (sample_entry 9 4) (add_entry (sample_entry 5 2) (rb_new 50000))"

lemma sample_merged: "merged_entries [sample_remote] True sample_history =
    [sample_entry 5 2, sample_entry 5 1, sample_entry 9 4, sample_entry 5 2]"
  by code_simp

theorem merge_keeps_newest_of_all_witness:
  "\<exists>es k. log_key ` set es = log_key ` {sample_entry 5 1, sample_entry 5 2, sample_entry 9 4} \<and>
     rb_entries (cl_buffer (log_merge [sample_remote] True sample_history)) = take k es"
proof -
  have "\<forall>e \<in> set (merged_entries [sample_remote] True sample_history).
      aligned_size e \<le> merged_capacity [sample_remote] True sample_history"
    unfolding sample_merged by code_simp
  moreover have "set (merged_entries [sample_remote] True sample_history) =
      {sample_entry 5 1, sample_entry 5 2, sample_entry 9 4}" unfolding sample_merged by auto
  ultimately show ?thesis using merge_keeps_newest_of_all by metis
qed

text \<open>
  C31. The nodes agree after merging: whichever logs they merge and in whichever order, if the logs hold
  the same entries, the capacities have the same maximum and no two different entries have the same
  time, node and number, then the merged buffers are equal, and so are the records of all nodes.
\<close>

theorem merge_converges:
  assumes "set (merged_entries rs il l) = set (merged_entries rs' il' l')"
    and "inj_on log_key (set (merged_entries rs il l))"
    and "merged_capacity rs il l = merged_capacity rs' il' l'"
    and "\<forall>e \<in> set (merged_entries rs il l). aligned_size e \<le> merged_capacity rs il l"
  shows "cl_buffer (log_merge rs il l) = cl_buffer (log_merge rs' il' l') \<and>
    (\<forall>n. last_stamp (cl_dedup (log_merge rs il l)) n = last_stamp (cl_dedup (log_merge rs' il' l')) n)"
proof -
  let ?es = "merge_result (merged_entries rs il l)" and ?es' = "merge_result (merged_entries rs' il' l')"
  have sorted: "sorted_wrt (<) (map log_key (rev (merge_result xs)))" for xs
    using merge_result_spec(1) [of xs] by (simp add: sorted_wrt_map sorted_wrt_rev rev_map)
  have "map log_key (rev ?es) = map log_key (rev ?es')"
  proof (rule sorted_distinct_set_unique)
    show "sorted (map log_key (rev ?es))" "sorted (map log_key (rev ?es'))"
        "distinct (map log_key (rev ?es))" "distinct (map log_key (rev ?es'))"
      using sorted strict_sorted_iff by blast+
    show "set (map log_key (rev ?es)) = set (map log_key (rev ?es'))"
      using merge_result_keys assms(1) by (metis set_map set_rev)
  qed
  then have "map log_key ?es = map log_key ?es'" by (metis rev_map rev_rev_ident)
  moreover have "inj_on log_key (set ?es \<union> set ?es')"
    using inj_on_subset [OF assms(2)] merge_result_subset assms(1) by (metis Un_least)
  ultimately have es: "?es = ?es'" by (simp add: inj_on_map_eq_map)
  have B: "rb_entries (cl_buffer (log_merge rs il l)) = rb_entries (cl_buffer (log_merge rs' il' l'))"
    using log_merge_parts(5) assms es by metis
  moreover have "rb_current_size (cl_buffer (log_merge rs il l)) = rb_current_size (cl_buffer (log_merge rs' il' l'))"
    using B log_merge_parts(1) by (metis rb_inv_def)
  moreover have "rb_capacity (cl_buffer (log_merge rs il l)) = rb_capacity (cl_buffer (log_merge rs' il' l'))"
    using log_merge_parts(2) assms(3) by metis
  moreover have "set (of_node n (merged_entries rs il l)) = set (of_node n (merged_entries rs' il' l'))" for n
    using assms(1) by (auto simp: in_of_node)
  then have "newest n (merged_entries rs il l) = newest n (merged_entries rs' il' l')" for n
    unfolding newest_def by (metis set_empty)
  ultimately show ?thesis using log_merge_parts(4) by simp
qed

theorem merge_converges_witness:
  "cl_buffer (log_merge [sample_remote] True sample_history) =
   cl_buffer (log_merge [cl_buffer sample_history] True \<lparr>cl_buffer = sample_remote, cl_dedup = []\<rparr>)"
proof -
  have m: "merged_entries [cl_buffer sample_history] True \<lparr>cl_buffer = sample_remote, cl_dedup = []\<rparr> =
      [sample_entry 9 4, sample_entry 5 2, sample_entry 5 2, sample_entry 5 1]" by code_simp
  have "merged_capacity [sample_remote] True sample_history =
      merged_capacity [cl_buffer sample_history] True \<lparr>cl_buffer = sample_remote, cl_dedup = []\<rparr>" by code_simp
  moreover have "\<forall>e \<in> set (merged_entries [sample_remote] True sample_history).
      aligned_size e \<le> merged_capacity [sample_remote] True sample_history"
    unfolding sample_merged by code_simp
  moreover have "inj_on log_key (set (merged_entries [sample_remote] True sample_history))"
    unfolding sample_merged by (auto simp: inj_on_def log_key_def sample_entry_def)
  moreover have "set (merged_entries [sample_remote] True sample_history) =
      set (merged_entries [cl_buffer sample_history] True \<lparr>cl_buffer = sample_remote, cl_dedup = []\<rparr>)"
    unfolding sample_merged m by auto
  ultimately show ?thesis using merge_converges by metis
qed


section \<open>Binary form\<close>

type_synonym log_message = "string \<times> string \<times> string \<times> u32 \<times> u8 \<times> u32 \<times> string"

text \<open>A log to which a list of messages (node, ident, tag, process, priority, time, text) is added.\<close>

definition add_message :: "log_message \<Rightarrow> ClusterLog \<times> u32 \<Rightarrow> ClusterLog \<times> u32" where
  "add_message msg lu =
     (case msg of (node, ident, tag, pid, priority, time, body) \<Rightarrow> snd (log_add node ident tag pid priority time body lu))"

definition c_text_message :: "log_message \<Rightarrow> bool" where
  "c_text_message msg \<longleftrightarrow>
     (case msg of (node, ident, tag, _) \<Rightarrow>
        list_all (\<lambda>s. valid_str s \<and> char_of (0 :: nat) \<notin> set s) [node, ident, tag])"

definition packed :: "LogEntry \<Rightarrow> bool" where
  "packed e \<longleftrightarrow> log_entry_ok e \<and> entry_size e \<le> CLOG_MAX_ENTRY_SIZE"

lemma packed_aligned: "packed e \<Longrightarrow> aligned_size e \<le> CLOG_MAX_ENTRY_SIZE"
  using div_le_mono [of "entry_size e + 7" 4103 8] by (simp add: packed_def aligned_size_def CLOG_MAX_ENTRY_SIZE_def)

text \<open>A log of packed entries in a buffer of the default size.\<close>

definition packed_log :: "ClusterLog \<Rightarrow> bool" where
  "packed_log l \<longleftrightarrow> rb_inv (cl_buffer l) \<and> (\<forall>e \<in> set (rb_entries (cl_buffer l)). packed e) \<and>
     rb_capacity (cl_buffer l) = CLOG_DEFAULT_SIZE"

lemma log_insert_packed:
  assumes "packed_log l" and "packed e"
  shows "packed_log (log_insert e l)"
proof -
  let ?b = "cl_buffer l"
  have inv: "rb_inv ?b" and le: "aligned_size e \<le> rb_capacity ?b"
    using packed_aligned [OF assms(2)] assms(1) by (simp_all add: packed_log_def rb_inv_def)
  have "set (fitting (rb_capacity ?b - aligned_size e) (rb_entries ?b)) \<subseteq> set (rb_entries ?b)"
    using fitting_prefix by (metis Un_upper1 set_append)
  then show ?thesis
    using add_entry_fitting [OF inv le] assms by (auto simp: packed_log_def log_insert_def case_prod_beta)
qed

lemma add_messages_packed: "list_all c_text_message msgs \<Longrightarrow> packed_log (fst (fold add_message msgs (log_new, u)))"
proof (induction msgs rule: rev_induct)
  case Nil
  then show ?case
    by (simp add: log_new_def log_with_capacity_def packed_log_def)
      (simp add: rb_new_def CLOG_DEFAULT_SIZE_def CLOG_MAX_ENTRY_SIZE_def)
next
  case (snoc msg msgs)
  obtain l v where lu: "fold add_message msgs (log_new, u) = (l, v)" by (cases "fold add_message msgs (log_new, u)")
  obtain node ident tag pid priority time body where msg: "msg = (node, ident, tag, pid, priority, time, body)"
    by (cases msg)
  obtain r v' where r: "pack node ident tag pid time priority body v = (r, v')"
    by (cases "pack node ident tag pid time priority body v")
  have step: "fst (fold add_message (msgs @ [msg]) (log_new, u)) = (case r of Ok e \<Rightarrow> log_insert e l | _ \<Rightarrow> l)"
    using lu msg r by (auto simp: add_message_def log_add_def split: res.splits)
  have IH: "packed_log l" using snoc lu by simp
  show ?case
    unfolding step
  proof (cases r)
    case (Ok e)
    then have "packed e"
      using pack_ok [of node ident tag pid time priority body v e v'] r snoc.prems msg
      by (auto simp: packed_def c_text_message_def)
    with IH Ok show "packed_log (case r of Ok e \<Rightarrow> log_insert e l | _ \<Rightarrow> l)" by (simp add: log_insert_packed)
  qed (use IH in simp_all)
qed

text \<open>
  C32. Synchronization of the log: the state that a node sends is decoded to the node's own entries,
  in order of time, node and number, whatever messages were logged: quotes, control characters and
  text beyond ASCII are escaped, long names and messages are cut, and no entry exceeds the limit. The
  buffer must leave room for the eight bytes of the header.
\<close>

theorem log_state_roundtrip:
  assumes "list_all c_text_message msgs" and "fold add_message msgs (log_new, uid) = (l, uid')"
    and "8 + total_size (rb_entries (cl_buffer l)) \<le> rb_capacity (cl_buffer l)"
  shows "\<exists>bs b. log_get_state l = Ok bs \<and> log_deserialize_state bs = Ok b \<and>
    rb_entries b = rev (sort_key log_key (rb_entries (cl_buffer l))) \<and>
    (\<forall>e \<in> set (rb_entries b). entry_size e \<le> CLOG_MAX_ENTRY_SIZE)"
proof -
  have l: "rb_inv (cl_buffer l)" "\<forall>e \<in> set (rb_entries (cl_buffer l)). packed e"
      "rb_capacity (cl_buffer l) = CLOG_DEFAULT_SIZE"
    using add_messages_packed [OF assms(1), of uid] assms(2) by (simp_all add: packed_log_def)
  note s = rb_sort_entries [OF l(1)]
  let ?b = "log_sort l"
  have b: "rb_inv ?b" "rb_capacity ?b = CLOG_DEFAULT_SIZE"
      "rb_entries ?b = rev (sort_key log_key (rb_entries (cl_buffer l)))"
    using s assms(3) l(3) by (simp_all add: log_sort_def)
  have "total_size (rb_entries ?b) = total_size (rb_entries (cl_buffer l))"
    unfolding b(3) by (simp add: total_size_sort sum_list_rev flip: rev_map)
  then have "8 + total_size (rb_entries ?b) \<le> rb_capacity ?b" "rb_capacity ?b < 2 ^ 32"
    using assms(3) l(3) b(2) by (simp_all add: CLOG_DEFAULT_SIZE_def)
  moreover have "\<forall>e \<in> set (rb_entries ?b). packed e" using l(2) b(3) by simp
  ultimately obtain bs where "rb_serialize ?b = Ok bs" "rb_deserialize bs = Ok ?b"
    using rb_roundtrip [OF b(1)] by (auto simp: packed_def)
  then show ?thesis
    using b(3) \<open>\<forall>e \<in> set (rb_entries ?b). packed e\<close>
    by (auto simp: log_get_state_def log_deserialize_state_def packed_def)
qed

abbreviation sample_messages :: "log_message list" where
  "sample_messages \<equiv> [(''a'', ''root'', ''t'', 1, 6, 5, ''hi''), (''b'', [], ''t'', 1, 6, 4, [char_of (7 :: nat)])]"

theorem log_state_roundtrip_witness:
  "\<exists>l uid' bs b. fold add_message sample_messages (log_new, 0) = (l, uid') \<and>
     log_get_state l = Ok bs \<and> log_deserialize_state bs = Ok b \<and>
     map le_message (rb_entries b) = [''hi'', ''#007'']"
proof -
  obtain l uid' where l: "fold add_message sample_messages (log_new, 0) = (l, uid')"
    by (cases "fold add_message sample_messages (log_new, 0)")
  have "list_all c_text_message sample_messages" by code_simp
  moreover have "8 + total_size (rb_entries (cl_buffer (fst (fold add_message sample_messages (log_new, 0))))) \<le>
      rb_capacity (cl_buffer (fst (fold add_message sample_messages (log_new, 0))))" by code_simp
  moreover have "map le_message (rev (sort_key log_key (rb_entries (cl_buffer
      (fst (fold add_message sample_messages (log_new, 0))))))) = [''hi'', ''#007'']" by code_simp
  ultimately show ?thesis using log_state_roundtrip [OF _ l] unfolding l fst_conv by metis
qed

text \<open>
  A buffer that is filled to its capacity cannot be sent: the size accounting does not reserve the
  eight bytes of the header, the last entry gets no offset and the lookup of its offset panics.
\<close>

theorem full_log_panics:
  assumes "log_history l" and "rb_entries (cl_buffer l) \<noteq> []"
    and "rb_capacity (cl_buffer l) < 8 + rb_current_size (cl_buffer l)"
    and "rb_current_size (cl_buffer l) \<le> rb_capacity (cl_buffer l)"
  shows "status_get_state (s\<lparr>st_cluster_log := l\<rparr>) = (Panic, s\<lparr>st_cluster_log := l\<rparr>)"
proof -
  have inv: "rb_inv (cl_buffer l)" using log_history_inv [OF assms(1)] log_invD(1) by blast
  then have size: "rb_current_size (cl_buffer l) = total_size (rb_entries (cl_buffer l))" by (simp add: rb_inv_def)
  note s = rb_sort_entries [OF inv]
  have "rb_serialize (log_sort l) = Panic"
  proof (rule rb_serialize_panics)
    show "rb_entries (log_sort l) \<noteq> []"
      using s(3) assms(2,4) size by (metis log_sort_def rev_is_Nil_conv sort_key_simps(1) length_0_conv length_sort length_rev)
    show "rb_capacity (log_sort l) < 8 + total_size (rb_entries (log_sort l))"
      using s assms(3,4) size by (simp add: log_sort_def total_size_sort sum_list_rev flip: rev_map)
  qed
  then show ?thesis by (simp add: status_get_state_def get_cluster_log_state_def log_get_state_def)
qed


text \<open>A message that fills a tenth of the smallest buffer.\<close>

definition big_entry :: "u32 \<Rightarrow> LogEntry" where
  "big_entry uid =
     \<lparr>le_uid = uid, le_time = 5, le_node_digest = 7, le_ident_digest = 8, le_pid = 0, le_priority = 6,
      le_node = [], le_ident = [], le_tag = [], le_message = replicate 4048 CHR ''x''\<rparr>"

primrec big_log :: "nat \<Rightarrow> ClusterLog" where
  "big_log 0 = log_with_capacity 40960"
| "big_log (Suc n) = log_insert (big_entry (of_nat (Suc n))) (big_log n)"

lemma aligned_size_big: "aligned_size (big_entry uid) = 4096"
  by (simp add: aligned_size_def entry_size_def big_entry_def)

lemma log_insert_big:
  assumes "last_stamp (cl_dedup l) 7 = None \<or> last_stamp (cl_dedup l) 7 = Some (5, v) \<and> v < u"
    and "rb_current_size (cl_buffer l) + 4096 \<le> rb_capacity (cl_buffer l)"
  shows "rb_current_size (cl_buffer (log_insert (big_entry u) l)) = rb_current_size (cl_buffer l) + 4096"
    "rb_entries (cl_buffer (log_insert (big_entry u) l)) = big_entry u # rb_entries (cl_buffer l)"
    "rb_capacity (cl_buffer (log_insert (big_entry u) l)) = rb_capacity (cl_buffer l)"
    "last_stamp (cl_dedup (log_insert (big_entry u) l)) 7 = Some (5, u)"
proof -
  have big: "le_node_digest (big_entry u) = 7" "stamp (big_entry u) = (5, u)" by (simp_all add: big_entry_def stamp_def)
  have new: "fst (is_not_duplicate (cl_dedup l) (big_entry u))"
    using assms(1) by (auto simp: is_not_duplicate_fst big)
  have "make_room (rb_capacity (cl_buffer l)) 4096 (rb_current_size (cl_buffer l)) (rb_entries (cl_buffer l)) =
      (rb_current_size (cl_buffer l), rb_entries (cl_buffer l))"
    using assms(2) by (subst make_room.simps) simp
  moreover have "last_stamp (snd (is_not_duplicate (cl_dedup l) (big_entry u))) 7 = Some (5, u)"
    using assms(1) by (auto simp: is_not_duplicate_snd big max_def)
  ultimately show "rb_current_size (cl_buffer (log_insert (big_entry u) l)) = rb_current_size (cl_buffer l) + 4096"
    "rb_entries (cl_buffer (log_insert (big_entry u) l)) = big_entry u # rb_entries (cl_buffer l)"
    "rb_capacity (cl_buffer (log_insert (big_entry u) l)) = rb_capacity (cl_buffer l)"
    "last_stamp (cl_dedup (log_insert (big_entry u) l)) 7 = Some (5, u)"
    using new by (simp_all add: log_insert_def case_prod_beta add_entry_def aligned_size_big)
qed

lemma big_log_props:
  "n \<le> 10 \<Longrightarrow> log_history (big_log n) \<and> rb_current_size (cl_buffer (big_log n)) = 4096 * n \<and>
     rb_capacity (cl_buffer (big_log n)) = 40960 \<and> length (rb_entries (cl_buffer (big_log n))) = n \<and>
     last_stamp (cl_dedup (big_log n)) 7 = (if n = 0 then None else Some (5, of_nat n))"
proof (induction n)
  case 0
  then show ?case
    by (auto simp: log_with_capacity_def rb_new_def CLOG_MAX_ENTRY_SIZE_def last_stamp_def
        intro: Created [of 40960, unfolded log_with_capacity_def rb_new_def CLOG_MAX_ENTRY_SIZE_def, simplified])
next
  case (Suc n)
  let ?u = "of_nat (Suc n) :: u32"
  have IH: "log_history (big_log n)" "rb_current_size (cl_buffer (big_log n)) = 4096 * n"
      "rb_capacity (cl_buffer (big_log n)) = 40960" "length (rb_entries (cl_buffer (big_log n))) = n"
      "last_stamp (cl_dedup (big_log n)) 7 = (if n = 0 then None else Some (5, of_nat n))"
    using Suc by simp_all
  have "of_nat n < ?u" using Suc.prems by (simp add: word_less_nat_alt unat_of_nat del: of_nat_Suc)
  then have 1: "last_stamp (cl_dedup (big_log n)) 7 = None \<or>
      last_stamp (cl_dedup (big_log n)) 7 = Some (5, of_nat n) \<and> of_nat n < ?u"
    using IH(5) by simp
  have 2: "rb_current_size (cl_buffer (big_log n)) + 4096 \<le> rb_capacity (cl_buffer (big_log n))"
    using IH(2,3) Suc.prems by simp
  show ?case
    using log_insert_big [OF 1 2] IH Inserted [OF IH(1)] by (simp del: of_nat_Suc)
qed

theorem full_log_panics_witness:
  "fst (status_get_state ((status_new ''n'' 0)\<lparr>st_cluster_log := big_log 10\<rparr>)) = Panic"
proof -
  have b: "log_history (big_log 10)" "rb_current_size (cl_buffer (big_log 10)) = 40960"
      "rb_capacity (cl_buffer (big_log 10)) = 40960" "length (rb_entries (cl_buffer (big_log 10))) = 10"
    using big_log_props [of 10] by simp_all
  then have "rb_entries (cl_buffer (big_log 10)) \<noteq> []" by auto
  then show ?thesis using full_log_panics [OF b(1), of "status_new ''n'' 0"] b(2,3) by simp
qed

text \<open>
  Whatever bytes another node sends as its log, decoding ends with a log or an error: it does not
  panic, it does not follow a cycle of offsets, and the number of entries is at most the number of
  bytes. A state that cannot be decoded is skipped and the synchronization goes on.
\<close>

theorem log_decoding_is_total:
  "(case log_deserialize_state data of
      Ok b \<Rightarrow> rb_inv b \<and> length (rb_entries b) \<le> length data
    | Err _ \<Rightarrow> readable_states [\<lparr>ni_node_id = n, ni_pid = p, ni_state = Some data, ni_synced = sy\<rparr>] = []
    | Panic \<Rightarrow> False)"
  using rb_deserialize_bounded [of data]
  by (auto simp: log_deserialize_state_def readable_states_def split: res.splits)

section \<open>Replication of messages\<close>

text \<open>
  A log message is replicated as text and every node gives it a number from its own counter. Two
  nodes whose counters differ therefore store the same message under different keys, and after they
  merged their logs the message is there twice.
\<close>

theorem replicated_message_is_doubled:
  assumes "u \<noteq> v" and "add_message msg (log_new, u) = (la, u')" and "add_message msg (log_new, v) = (lb, v')"
    and "c_text_message msg" and "rb_entries (cl_buffer la) \<noteq> []"
  shows "\<exists>e. rb_entries (cl_buffer la) = [e] \<and> rb_entries (cl_buffer lb) = [e\<lparr>le_uid := v + 1\<rparr>] \<and>
    le_uid e = u + 1 \<and>
    set (rb_entries (cl_buffer (log_merge [cl_buffer lb] True la))) = {e, e\<lparr>le_uid := v + 1\<rparr>} \<and>
    length (rb_entries (cl_buffer (log_merge [cl_buffer lb] True la))) = 2"
proof -
  obtain node ident tag pid priority time body where msg: "msg = (node, ident, tag, pid, priority, time, body)"
    by (cases msg)
  obtain ra where ra: "pack node ident tag pid time priority body u = (ra, u')"
      "la = (case ra of Ok e \<Rightarrow> log_insert e log_new | _ \<Rightarrow> log_new)"
    using assms(2) msg by (auto simp: add_message_def log_add_def split: prod.splits res.splits)
  have empty: "rb_entries (cl_buffer log_new) = []" "cl_dedup log_new = []"
    by (simp_all add: log_new_def log_with_capacity_def)
  then obtain e where e: "ra = Ok e" using ra(2) assms(5) by (cases ra) auto
  define f where "f = e\<lparr>le_uid := v + 1\<rparr>"
  have pb: "pack node ident tag pid time priority body v = (Ok f, v + 1)" "le_uid e = u + 1"
    using ra(1) e by (auto simp: f_def pack_def Let_def split: if_splits option.splits)
  then have lb: "lb = log_insert f log_new" "la = log_insert e log_new"
    using assms(3) msg ra(2) e by (simp_all add: add_message_def log_add_def)
  have packed: "packed e" "packed f"
    using pack_ok [of node ident tag pid time priority body u e u'] ra(1) e assms(4) msg
      pack_ok [OF pb(1)] by (auto simp: packed_def c_text_message_def)
  have one: "rb_entries (cl_buffer (log_insert g log_new)) = [g]" for g
    using empty by (simp add: log_insert_def is_not_duplicate_def Let_def add_entry_def make_room.simps)
  have "packed_log log_new" using add_messages_packed [of "[]"] by simp
  then have "packed_log la" "packed_log lb"
    unfolding lb using log_insert_packed packed by blast+
  then have "rb_capacity (cl_buffer la) = CLOG_DEFAULT_SIZE" "rb_capacity (cl_buffer lb) = CLOG_DEFAULT_SIZE"
    by (simp_all add: packed_log_def)
  then have cap: "merged_capacity [cl_buffer lb] True la = CLOG_DEFAULT_SIZE"
    by (simp add: merged_capacity_def max_or_default_def rb_new_def CLOG_DEFAULT_SIZE_def CLOG_MAX_ENTRY_SIZE_def)
  have all: "merged_entries [cl_buffer lb] True la = [e, f]" by (simp add: merged_entries_def lb one)
  have keys: "log_key e \<noteq> log_key f" using assms(1) pb(2) by (simp add: log_key_def f_def)
  have sizes: "aligned_size e + aligned_size f \<le> CLOG_DEFAULT_SIZE"
    using packed_aligned [OF packed(1)] packed_aligned [OF packed(2)]
    by (simp add: CLOG_DEFAULT_SIZE_def CLOG_MAX_ENTRY_SIZE_def)
  have res: "merge_result [e, f] = [e, f] \<or> merge_result [e, f] = [f, e]"
    using keys by (auto simp: merge_result_def merge_insert_def)
  then have "fitting CLOG_DEFAULT_SIZE (merge_result [e, f]) = merge_result [e, f]"
    using sizes by (intro fitting_all) auto
  then have "rb_entries (cl_buffer (log_merge [cl_buffer lb] True la)) = merge_result [e, f]"
    using log_merge_parts(5) [of "[cl_buffer lb]" True la] sizes unfolding all cap by simp
  then show ?thesis using res pb(2) by (auto simp: lb one f_def)
qed

theorem replicated_message_is_doubled_witness:
  "\<exists>la lb. add_message (''a'', [], [], 0, 6, 5, ''m'') (log_new, 0) = (la, 1) \<and>
     add_message (''a'', [], [], 0, 6, 5, ''m'') (log_new, 3) = (lb, 4) \<and>
     length (rb_entries (cl_buffer (log_merge [cl_buffer lb] True la))) = 2"
proof -
  let ?m = "(''a'', [], [], 0, 6, 5, ''m'') :: log_message"
  obtain la u where a: "add_message ?m (log_new, 0) = (la, u)" by (cases "add_message ?m (log_new, 0)")
  obtain lb v where b: "add_message ?m (log_new, 3) = (lb, v)" by (cases "add_message ?m (log_new, 3)")
  have "c_text_message ?m" "snd (add_message ?m (log_new, 0)) = 1" "snd (add_message ?m (log_new, 3)) = 4"
      "rb_entries (cl_buffer (fst (add_message ?m (log_new, 0)))) \<noteq> []" by code_simp+
  then have m: "c_text_message ?m" "u = 1" "v = 4" "rb_entries (cl_buffer la) \<noteq> []" using a b by simp_all
  have "(0 :: u32) \<noteq> 3" by simp
  from replicated_message_is_doubled [OF this a b m(1,4)] show ?thesis using a b m(2,3) by blast
qed

end
