(* ===== verification/Mem_Rooted.thy ===== *)
theory Mem_Rooted
  imports Mem_Spec
begin

text \<open>
  Every entry of the database can be reached from the root. This is not part of the invariant of the
  database: renaming a directory into its own subtree, which \<open>rename\<close> does not refuse, cuts the
  subtree off. Every other mutation keeps all entries reachable, whatever its outcome.
\<close>

definition rooted :: "'db MemDb \<Rightarrow> bool" where
  "rooted m \<longleftrightarrow>
     (\<forall>i. hm_get (db_index m) i \<noteq> None \<longrightarrow> (\<exists>ps. walk (db_tree m) ps ROOT_INODE = Some i))"

lemma rootedI:
  assumes "\<And>i e. hm_get (db_index m) i = Some e \<Longrightarrow> \<exists>ps. walk (db_tree m) ps ROOT_INODE = Some i"
  shows "rooted m"
  using assms by (auto simp: rooted_def)

lemma rootedE:
  assumes "rooted m" and "hm_get (db_index m) i \<noteq> None"
  obtains ps where "walk (db_tree m) ps ROOT_INODE = Some i"
  using assms by (auto simp: rooted_def)

lemma stamp_root_dom [simp]:
  "hm_get (db_index (stamp_root v w t db' m)) i = None \<longleftrightarrow> hm_get (db_index m) i = None"
  by (simp add: stamp_root_get)

lemma rooted_same_tree:
  assumes "rooted m" and "db_tree m' = db_tree m"
    and "\<And>i. hm_get (db_index m') i \<noteq> None \<Longrightarrow> hm_get (db_index m) i \<noteq> None"
  shows "rooted m'"
  using assms by (simp add: rooted_def)

lemma rooted_bumped: "m' = m \<or> \<not> db_errors m \<and> bumped m m' \<Longrightarrow> rooted m \<Longrightarrow> rooted m'"
  by (auto simp: bumped_fields intro: rooted_same_tree)

lemma create_rooted:
  assumes inv: "memdb_inv m" and nw: "no_wrap m" and ro: "rooted m"
    and op: "create sq sha now path mode writer mtime m = (r, m')"
  shows "rooted m'"
  using op
proof (cases rule: create_cases)
  case (1 e)
  then show ?thesis using rooted_bumped ro by blast
next
  case (2 d b pe v db')
  note w = create_walk [OF inv nw op [unfolded 2(1)]]
  show ?thesis
  proof (rule rootedI)
    fix i e assume e: "hm_get (db_index m') i = Some e"
    show "\<exists>ps. walk (db_tree m') ps ROOT_INODE = Some i"
    proof (cases "i = v")
      case True
      then show ?thesis using w [of "path_parts path"] 2(11) by auto
    next
      case False
      then have i: "hm_get (db_index m) i \<noteq> None" using e 2(13) by (auto simp: stamp_root_get split: if_splits)
      then obtain ps where ps: "walk (db_tree m) ps ROOT_INODE = Some i" by (rule rootedE [OF ro])
      then have "path_parts path \<noteq> ps"
        using 2(3) i inv view_root [OF inv]
        by (auto simp: path_exists_def lookup_path_view fs_view_def split: if_splits)
      then show ?thesis using w [of ps] ps by auto
    qed
  qed
qed

lemma write_rooted:
  assumes inv: "memdb_inv m" and ro: "rooted m"
    and op: "write_op sq path offset writer mtime data trunc m = (r, m')"
  shows "rooted m'"
  using op
proof (cases rule: write_cases)
  case (1 e)
  then show ?thesis using rooted_bumped ro by blast
next
  case (2 e d v db')
  show ?thesis
    by (rule rooted_same_tree [OF ro]) (use 2(10) lookup_index [OF inv 2(3)] in \<open>auto simp: stamp_root_get split: if_splits\<close>)
qed

lemma set_mtime_rooted:
  assumes inv: "memdb_inv m" and ro: "rooted m"
    and op: "set_mtime sq sha now path writer mtime m = (r, m')"
  shows "rooted m'"
  using op
proof (cases rule: set_mtime_cases)
  case (1 e)
  then show ?thesis using rooted_bumped ro by blast
next
  case (2 e d b v db' lk)
  show ?thesis
    by (rule rooted_same_tree [OF ro]) (use 2(9) lookup_index [OF inv 2(3)] in \<open>auto simp: stamp_root_get split: if_splits\<close>)
qed

lemma delete_rooted:
  assumes inv: "memdb_inv m" and ro: "rooted m" and op: "delete sq path writer mtime m = (r, m')"
  shows "rooted m'"
  using op
proof (cases rule: delete_cases)
  case (1 e)
  then show ?thesis using rooted_bumped ro by blast
next
  case (2 e v db' lk)
  note w = delete_walk [OF inv op [unfolded 2(1)] 2(3)]
  show ?thesis
  proof (rule rootedI)
    fix i x assume x: "hm_get (db_index m') i = Some x"
    then have i: "i \<noteq> te_inode e" "hm_get (db_index m) i \<noteq> None"
      using 2(8) by (auto simp: stamp_root_get split: if_splits)
    obtain ps where "walk (db_tree m) ps ROOT_INODE = Some i" by (rule rootedE [OF ro i(2)])
    then show "\<exists>ps. walk (db_tree m') ps ROOT_INODE = Some i" using w [of ps] i(1) by auto
  qed
qed

lemma rename_rooted:
  assumes inv: "memdb_inv m" and ro: "rooted m" and safe: "rename_safe m old_path new_path"
    and down: "\<not> strict_prefix (path_parts old_path) (path_parts new_path)"
    and op: "rename sq old_path new_path writer mtime m = (r, m')"
  shows "rooted m'"
  using op
proof (cases rule: rename_cases)
  case (1 e)
  then show ?thesis using rooted_bumped ro by blast
next
  case (2 e d b np v db' target)
  let ?old = "path_parts old_path" and ?new = "path_parts new_path"
  have wold: "walk (db_tree m) ?old ROOT_INODE = Some (te_inode e)"
    and target: "target = walk (db_tree m) ?new ROOT_INODE"
    and w: "\<And>ps. walk (db_tree m') ps ROOT_INODE =
      (if prefix ?new ps then walk (db_tree m) (?old @ drop (length ?new) ps) ROOT_INODE
       else if prefix ?old ps then None else walk (db_tree m) ps ROOT_INODE)"
    using rename_walk [OF inv safe down op [unfolded 2(1)] 2(3)] 2(9) by metis+
  have moved: "walk (db_tree m') (?new @ qs) ROOT_INODE = walk (db_tree m) (?old @ qs) ROOT_INODE" for qs
    by (simp add: w)
  show ?thesis
  proof (rule rootedI)
    fix i x assume x: "hm_get (db_index m') i = Some x"
    show "\<exists>ps. walk (db_tree m') ps ROOT_INODE = Some i"
    proof (cases "i = te_inode e")
      case True
      then show ?thesis using moved [of "[]"] wold by auto
    next
      case False
      then have i: "target \<noteq> Some i" "hm_get (db_index m) i \<noteq> None"
        using x 2(12) by (auto simp: stamp_root_get split: if_splits)
      then obtain ps where ps: "walk (db_tree m) ps ROOT_INODE = Some i" using rootedE [OF ro] by blast
      show ?thesis
      proof (cases "prefix ?old ps")
        case True
        then obtain qs where "ps = ?old @ qs" by (auto simp: prefix_def)
        then show ?thesis using moved [of qs] ps by auto
      next
        case False
        have "\<not> prefix ?new ps"
        proof
          assume "prefix ?new ps"
          then obtain qs where qs: "ps = ?new @ qs" by (auto simp: prefix_def)
          then obtain t where t: "walk (db_tree m) ?new ROOT_INODE = Some t" "walk (db_tree m) qs t = Some i"
            using ps by (auto simp: walk_append bind_eq_Some_conv)
          then have "qs \<noteq> []" using i(1) target by auto
          then have "child (db_tree m) t (hd qs) \<noteq> None" using t(2) by (cases qs) (auto simp: walk_Cons bind_eq_Some_conv)
          moreover have "child (db_tree m) t n = None" for n
          proof -
            obtain te where te: "lookup_path m new_path = Some te" "te_inode te = t"
              using t(1) target 2(9) by auto
            have "\<not> is_dir te"
              using safe te(1) 2(3) t(1) wold te(2) False qs walk_unique [OF inv_parts(2) [OF inv] wold, of ?new]
              by (auto simp: rename_safe_def)
            then show ?thesis
              using leaf_has_no_children [OF inv_parts(2) [OF inv], of t] lookup_index [OF inv te(1)] te(2) by auto
          qed
          ultimately show False by simp
        qed
        then show ?thesis using w [of ps] ps False by auto
      qed
    qed
  qed
qed

end
