(* ===== verification/Rust_Text.thy ===== *)
theory Rust_Text
  imports Log_Entry
begin

text \<open>
  More string functions of Rust's standard library, for the front ends: \<open>find\<close>, \<open>lines\<close>, \<open>trim\<close>,
  \<open>join\<close>, \<open>CStr\<close> and \<open>PathBuf::push\<close>.
\<close>

section \<open>Definitions\<close>

fun str_find :: "char \<Rightarrow> string \<Rightarrow> nat option" where
  "str_find c [] = None"
| "str_find c (x # xs) = (if x = c then Some 0 else map_option Suc (str_find c xs))"

fun join_with :: "string \<Rightarrow> string list \<Rightarrow> string" where
  "join_with s [] = []"
| "join_with s [x] = x"
| "join_with s (x # y # zs) = x @ s @ join_with s (y # zs)"

text \<open>\<open>lines\<close>: pieces that end with a line feed, or the last one without; a carriage return before
  the line feed belongs to the end of the line.\<close>

abbreviation LF :: char where "LF \<equiv> char_of (10 :: nat)"
abbreviation CR :: char where "CR \<equiv> char_of (13 :: nat)"

definition strip_cr :: "string \<Rightarrow> string" where
  "strip_cr s = (if s \<noteq> [] \<and> last s = CR then butlast s else s)"

definition str_lines :: "string \<Rightarrow> string list" where
  "str_lines s =
     (let pieces = split_on LF s
      in map strip_cr (butlast pieces) @ (if last pieces = [] then [] else [last pieces]))"

text \<open>\<open>trim\<close>: the characters with the property \<open>White_Space\<close>, as UTF-8.\<close>

definition whitespace_forms :: "nat list list" where
  "whitespace_forms =
     map (\<lambda>b. [b]) [9, 10, 11, 12, 13, 32] @
     [[0xC2, 0x85], [0xC2, 0xA0], [0xE1, 0x9A, 0x80], [0xE2, 0x80, 0xA8], [0xE2, 0x80, 0xA9],
      [0xE2, 0x80, 0xAF], [0xE2, 0x81, 0x9F], [0xE3, 0x80, 0x80]] @
     map (\<lambda>b. [0xE2, 0x80, b]) [0x80, 0x81, 0x82, 0x83, 0x84, 0x85, 0x86, 0x87, 0x88, 0x89, 0x8A]"

definition whitespace_prefix :: "nat list list \<Rightarrow> string \<Rightarrow> nat" where
  "whitespace_prefix forms s =
     (case find (\<lambda>f. take (length f) (map of_char s) = f) forms of None \<Rightarrow> 0 | Some f \<Rightarrow> length f)"

function trim_forms :: "nat list list \<Rightarrow> string \<Rightarrow> string" where
  "trim_forms forms s =
     (let n = whitespace_prefix forms s in if n = 0 \<or> s = [] then s else trim_forms forms (drop n s))"
  by pat_completeness auto
termination by (relation "measure (\<lambda>(_, s). length s)") auto

declare trim_forms.simps [simp del]

definition str_trim :: "string \<Rightarrow> string" where
  "str_trim s =
     rev (trim_forms (map rev whitespace_forms) (rev (trim_forms whitespace_forms s)))"

text \<open>\<open>CStr::from_bytes_until_nul\<close> and \<open>from_bytes_with_nul\<close>, then \<open>to_str\<close>.\<close>

definition bytes_until_nul :: "byte list \<Rightarrow> byte list option" where
  "bytes_until_nul data = (if 0 \<in> set data then Some (takeWhile (\<lambda>b. b \<noteq> 0) data) else None)"

definition bytes_with_nul :: "byte list \<Rightarrow> byte list option" where
  "bytes_with_nul data =
     (if data \<noteq> [] \<and> last data = 0 \<and> 0 \<notin> set (butlast data) then Some (butlast data) else None)"

definition cstr_until_nul :: "byte list \<Rightarrow> string option" where
  "cstr_until_nul data = Option.bind (bytes_until_nul data) from_utf8"

definition cstr_with_nul :: "byte list \<Rightarrow> string option" where
  "cstr_with_nul data = Option.bind (bytes_with_nul data) from_utf8"

definition path_push :: "string \<Rightarrow> string \<Rightarrow> string" where
  "path_push p name =
     (if starts_with name ''/'' then name
      else p @ (if p \<noteq> [] \<and> last p \<noteq> CHR ''/'' then ''/'' else []) @ name)"

section \<open>Facts\<close>

lemma str_find_None: "str_find c s = None \<longleftrightarrow> c \<notin> set s"
  by (induction s) auto

lemma str_find_append: "c \<notin> set p \<Longrightarrow> str_find c (p @ c # q) = Some (length p)"
  by (induction p) auto

lemma str_find_Some:
  "str_find c s = Some i \<Longrightarrow> i < length s \<and> s ! i = c \<and> c \<notin> set (take i s)"
  by (induction s arbitrary: i) (auto split: if_splits)

lemma join_with_Cons: "xs \<noteq> [] \<Longrightarrow> join_with s (x # xs) = x @ s @ join_with s xs"
  by (cases xs) auto

text \<open>A C string in front of further bytes is read back.\<close>

lemma cstr_until_nul_append [simp]:
  "valid_str s \<Longrightarrow> 0 \<notin> set (as_bytes s) \<Longrightarrow> cstr_until_nul (as_bytes s @ 0 # rest) = Some s"
proof -
  assume "valid_str s" and nz: "0 \<notin> set (as_bytes s)"
  have "takeWhile (\<lambda>b. b \<noteq> 0) (as_bytes s @ 0 # rest) = as_bytes s"
    using nz by (subst takeWhile_tail) (auto simp: takeWhile_eq_all_conv)
  then show ?thesis using \<open>valid_str s\<close> by (simp add: cstr_until_nul_def bytes_until_nul_def)
qed

lemma cstr_with_nul_append [simp]:
  "valid_str s \<Longrightarrow> 0 \<notin> set (as_bytes s) \<Longrightarrow> cstr_with_nul (as_bytes s @ [0]) = Some s"
  by (simp add: cstr_with_nul_def bytes_with_nul_def)

lemma cstr_until_nulD:
  assumes "cstr_until_nul data = Some s"
  shows "valid_str s" and "0 \<notin> set (as_bytes s)" and "\<exists>rest. data = as_bytes s @ 0 # rest"
proof -
  have s: "0 \<in> set data" "from_utf8 (takeWhile (\<lambda>b. b \<noteq> 0) data) = Some s"
    using assms by (auto simp: cstr_until_nul_def bytes_until_nul_def split: if_splits)
  then have b: "as_bytes s = takeWhile (\<lambda>b. b \<noteq> 0) data" "valid_str s" using from_utf8_Some by blast+
  then show "valid_str s" "0 \<notin> set (as_bytes s)" by (auto dest: set_takeWhileD)
  have "dropWhile (\<lambda>b. b \<noteq> 0) data \<noteq> []" using s(1) by (simp add: dropWhile_eq_Nil_conv)
  then have "data = takeWhile (\<lambda>b. b \<noteq> 0) data @ 0 # tl (dropWhile (\<lambda>b. b \<noteq> 0) data)"
    using hd_dropWhile [of "\<lambda>b. b \<noteq> 0" data] takeWhile_dropWhile_id [of "\<lambda>b. b \<noteq> 0" data]
    by (metis list.collapse)
  then show "\<exists>rest. data = as_bytes s @ 0 # rest" using b(1) by metis
qed

end
