(* ===== verification/Fuse_Path.thy ===== *)
theory Fuse_Path
  imports Mem_Rooted Rust_Text
begin

text \<open>
  Inode numbers, paths and attributes of the FUSE front end (\<open>pmxcfs/src/fuse/filesystem.rs\<close>). The
  kernel names files by node identifiers; the front end turns them into inodes and walks up the tree
  to the path that the database understands. The walk is a loop without a bound: \<open>None\<close> stands for a
  call that does not return.

  Sums and differences of \<open>u64\<close> wrap around, as in the release build; the node identifier 0, for which
  a debug build panics, is not a valid one.
\<close>

section \<open>Node identifiers\<close>

definition PLUGIN_INODE_OFFSET :: u64 where "PLUGIN_INODE_OFFSET = 1000000"

definition fuse_to_inode :: "u64 \<Rightarrow> u64" where
  "fuse_to_inode fuse_nodeid =
     (if fuse_nodeid \<ge> PLUGIN_INODE_OFFSET then fuse_nodeid else fuse_nodeid - 1)"

definition inode_to_fuse :: "u64 \<Rightarrow> u64" where
  "inode_to_fuse inode = (if inode \<ge> PLUGIN_INODE_OFFSET then inode else inode + 1)"

section \<open>Paths\<close>

definition is_private_path :: "string \<Rightarrow> bool" where
  "is_private_path path0 \<longleftrightarrow>
     (let path = trim_start_matches (CHR ''/'') path0 in
      if starts_with path ''priv'' \<and> (length path = 4 \<or> path ! 4 = CHR ''/'') then True
      else case strip_prefix path ''nodes/'' of
        None \<Rightarrow> False
      | Some after_nodes \<Rightarrow>
          (case str_find (CHR ''/'') after_nodes of
             None \<Rightarrow> False
           | Some slash_pos \<Rightarrow>
               let after_nodename = drop slash_pos after_nodes in
               if starts_with after_nodename ''/priv'' then
                 let priv_end = slash_pos + 5 in
                 length after_nodes = priv_end \<or> after_nodes ! priv_end = CHR ''/''
               else False))"

text \<open>The loop of \<open>get_path_for_inode\<close>; the result is \<open>None\<close> where an entry is missing.\<close>

partial_function (option) path_up ::
  "(u64, TreeEntry) hmap \<Rightarrow> u64 \<Rightarrow> string list \<Rightarrow> string list option option" where
  "path_up idx current components =
     (if current = ROOT_INODE then Some (Some components)
      else case hm_get idx current of
        None \<Rightarrow> Some None
      | Some entry \<Rightarrow> path_up idx (te_parent entry) (te_name entry # components))"

definition get_path_for_inode :: "'db MemDb \<Rightarrow> u64 \<Rightarrow> string option" where
  "get_path_for_inode m inode =
     (if inode = ROOT_INODE then Some ''/''
      else case path_up (db_index m) inode [] of
        None \<Rightarrow> None
      | Some None \<Rightarrow> Some ''/''
      | Some (Some components) \<Rightarrow>
          Some (if components = [] then ''/'' else ''/'' @ join_with ''/'' components))"

text \<open>\<open>join_path\<close>; both arguments are valid strings, so the result always is one.\<close>

definition join_path :: "string \<Rightarrow> string \<Rightarrow> string" where
  "join_path parent_path name = path_push parent_path name"

section \<open>Node identifiers of small inodes\<close>

lemma fuse_to_inode_to_fuse:
  assumes "inode < PLUGIN_INODE_OFFSET - 1"
  shows "fuse_to_inode (inode_to_fuse inode) = inode" and "inode_to_fuse inode < PLUGIN_INODE_OFFSET"
    and "inode_to_fuse inode \<noteq> 0"
proof -
  have i: "unat inode < 999999" using assms by (simp add: PLUGIN_INODE_OFFSET_def word_less_nat_alt)
  have u: "unat (inode + 1) = Suc (unat inode)"
    using i by (simp add: unat_word_ariths)
  have f: "inode_to_fuse inode = inode + 1"
    using i by (simp add: inode_to_fuse_def PLUGIN_INODE_OFFSET_def word_le_nat_alt)
  show "inode_to_fuse inode < PLUGIN_INODE_OFFSET"
    using i u by (simp add: f PLUGIN_INODE_OFFSET_def word_less_nat_alt)
  then show "fuse_to_inode (inode_to_fuse inode) = inode" by (simp add: fuse_to_inode_def f)
  show "inode_to_fuse inode \<noteq> 0" unfolding f using u by (metis nat.distinct(1) unat_0)
qed

section \<open>The path of a reachable inode\<close>

lemma path_up_walk:
  assumes "tree_inv idx t"
  shows "walk t ps ROOT_INODE = Some i \<Longrightarrow> path_up idx i acc = Some (Some (ps @ acc))"
proof (induction ps arbitrary: i acc rule: rev_induct)
  case Nil
  then show ?case by (simp add: path_up.simps)
next
  case (snoc n ps)
  then obtain p where p: "walk t ps ROOT_INODE = Some p" "child t p n = Some i"
    by (auto simp: walk_snoc bind_eq_Some_conv)
  then obtain e where "i \<noteq> ROOT_INODE" "hm_get idx i = Some e" "te_parent e = p" "te_name e = n"
    using tree_invD(2) [OF assms] by blast
  then show ?case using snoc.IH [OF p(1), of "n # acc"] by (simp add: path_up.simps [of idx i])
qed

lemma get_path_walk:
  assumes "memdb_inv m" and "walk (db_tree m) ps ROOT_INODE = Some i"
  shows "get_path_for_inode m i = Some (''/'' @ join_with ''/'' ps)"
proof (cases "i = ROOT_INODE")
  case True
  then have "ps = []" using walk_to_root [OF inv_parts(2) [OF assms(1)]] assms(2) by blast
  then show ?thesis using True by (simp add: get_path_for_inode_def)
next
  case False
  then show ?thesis
    using path_up_walk [OF inv_parts(2) [OF assms(1)] assms(2), of "[]"]
    by (simp add: get_path_for_inode_def)
qed

text \<open>Names along a path are neither empty nor contain a separator.\<close>

definition names_ok :: "string list \<Rightarrow> bool" where
  "names_ok ps \<longleftrightarrow> (\<forall>n \<in> set ps. n \<noteq> [] \<and> sep \<notin> set n)"

lemma names_ok_simps [simp]:
  "names_ok []" "names_ok (n # ps) \<longleftrightarrow> n \<noteq> [] \<and> sep \<notin> set n \<and> names_ok ps"
  "names_ok (ps @ qs) \<longleftrightarrow> names_ok ps \<and> names_ok qs"
  by (auto simp: names_ok_def)

lemma walk_names_ok:
  assumes "memdb_inv m"
  shows "walk (db_tree m) ps ROOT_INODE = Some i \<Longrightarrow> names_ok ps"
proof (induction ps arbitrary: i rule: rev_induct)
  case (snoc n ps)
  then obtain p where p: "walk (db_tree m) ps ROOT_INODE = Some p" "child (db_tree m) p n = Some i"
    by (auto simp: walk_snoc bind_eq_Some_conv)
  then obtain e where "i \<noteq> ROOT_INODE" "hm_get (db_index m) i = Some e" "te_name e = n"
    using tree_invD(2) [OF inv_parts(2) [OF assms]] by blast
  then have "n \<noteq> [] \<and> sep \<notin> set n"
    using index_invD(4) [OF inv_parts(1) [OF assms]] by (auto simp: name_ok_def)
  then show ?case using snoc.IH [OF p(1)] by simp
qed simp

lemma path_parts_join: "names_ok ps \<Longrightarrow> path_parts (join_with ''/'' ps) = ps"
proof (induction ps)
  case (Cons n ps)
  then show ?case
    by (cases "ps = []") (simp_all add: join_with_Cons path_parts_append_sep path_parts_no_sep)
qed simp

lemma path_parts_push:
  assumes "name \<noteq> []" and "sep \<notin> set name"
  shows "path_parts (join_path p name) = path_parts p @ [name]"
proof -
  have n: "path_parts name = [name]" using assms by (simp add: path_parts_no_sep)
  have "\<not> starts_with name ''/''" using assms by (cases name) (auto simp: starts_with_def)
  moreover have "path_parts (p @ name) = path_parts p @ [name]" if "p \<noteq> []" "last p = sep"
  proof -
    obtain q where q: "p = q @ [sep]" using \<open>p \<noteq> []\<close> \<open>last p = sep\<close> by (metis append_butlast_last_id)
    then show ?thesis using path_parts_append_sep [of q name] path_parts_append_sep [of q "[]"] n by simp
  qed
  ultimately show ?thesis
    using n path_parts_append_sep [of p name]
    by (cases "p = []") (auto simp: join_path_def path_push_def)
qed

text \<open>
  The path of an inode that can be reached from the root is found and leads back to the inode; the
  parts of the path below it are those of the tree.
\<close>

lemma get_path_rooted:
  assumes inv: "memdb_inv m" and ro: "rooted m" and e: "hm_get (db_index m) i = Some e"
  obtains path where "get_path_for_inode m i = Some path" and "lookup_path m path = Some e"
    and "walk (db_tree m) (path_parts path) ROOT_INODE = Some i" and "names_ok (path_parts path)"
    and "path = ''/'' @ join_with ''/'' (path_parts path)"
proof -
  obtain ps where ps: "walk (db_tree m) ps ROOT_INODE = Some i" using rootedE [OF ro, of i] e by auto
  let ?p = "''/'' @ join_with ''/'' ps"
  have ok: "names_ok ps" using walk_names_ok [OF inv ps] .
  then have parts: "path_parts ?p = ps" by (simp add: path_parts_join)
  have "lookup_path m ?p = Some e" using ps e inv parts by (simp add: lookup_path_view fs_view_def)
  then show thesis using that [of ?p] get_path_walk [OF inv ps] ps ok parts by metis
qed

lemma get_path_missing:
  assumes "hm_get (db_index m) i = None"
  shows "get_path_for_inode m i = Some ''/''"
  using assms by (simp add: get_path_for_inode_def path_up.simps [of _ i])

text \<open>On a cycle of parents the loop does not end.\<close>

lemma path_up_cycle:
  assumes "ROOT_INODE \<notin> C" and "\<And>i. i \<in> C \<Longrightarrow> \<exists>e. hm_get idx i = Some e \<and> te_parent e \<in> C"
    and "i \<in> C"
  shows "path_up idx i acc = None"
proof (rule ccontr)
  assume "path_up idx i acc \<noteq> None"
  then obtain r where ret: "path_up idx i acc = Some r" by auto
  have "idx = idx \<longrightarrow> i \<notin> C"
  proof (rule path_up.raw_induct [where P = "\<lambda>idx' i acc r. idx' = idx \<longrightarrow> i \<notin> C", OF _ ret])
    fix f idx' j a r
    assume IH: "\<And>idx' i acc r. f idx' i acc = Some r \<Longrightarrow> idx' = idx \<longrightarrow> i \<notin> C"
      and eq: "(if j = ROOT_INODE then Some (Some a)
        else case hm_get idx' j of None \<Rightarrow> Some None
          | Some entry \<Rightarrow> f idx' (te_parent entry) (te_name entry # a)) = Some r"
    show "idx' = idx \<longrightarrow> j \<notin> C"
    proof (intro impI notI)
      assume idx: "idx' = idx" and j: "j \<in> C"
      then obtain e where e: "hm_get idx j = Some e" "te_parent e \<in> C" using assms(2) by blast
      have "j \<noteq> ROOT_INODE" using j assms(1) by auto
      then have "f idx (te_parent e) (te_name e # a) = Some r" using eq idx e(1) by simp
      then show False using IH e(2) by blast
    qed
  qed
  then show False using assms(3) by simp
qed

section \<open>Private paths\<close>

definition private_parts :: "string list \<Rightarrow> bool" where
  "private_parts ps \<longleftrightarrow>
     (\<exists>qs. ps = ''priv'' # qs) \<or> (\<exists>node qs. ps = ''nodes'' # node # ''priv'' # qs)"

lemma starts_with_append [simp]: "starts_with (p @ q) p"
  by (simp add: starts_with_def)

lemma starts_with_iff: "starts_with s p \<longleftrightarrow> (\<exists>q. s = p @ q)"
  by (metis append_eq_conv_conj append_take_drop_id starts_with_def)

lemma join_with_first:
  "ps \<noteq> [] \<Longrightarrow> join_with s ps = hd ps @ (if tl ps = [] then [] else s @ join_with s (tl ps))"
  by (cases ps) (auto simp: join_with_Cons)

text \<open>A path that starts with the given name, up to a separator or the end.\<close>

definition sep_or_end :: "string \<Rightarrow> bool" where
  "sep_or_end rest \<longleftrightarrow> rest = [] \<or> hd rest = sep"

definition first_is :: "string \<Rightarrow> string \<Rightarrow> bool" where
  "first_is w s \<longleftrightarrow> starts_with s w \<and> (length s = length w \<or> s ! length w = sep)"

lemma first_name:
  assumes "sep \<notin> set n" and "sep_or_end rest"
  shows "takeWhile (\<lambda>c. c \<noteq> sep) (n @ rest) = n"
  using assms by (cases rest) (auto simp: sep_or_end_def takeWhile_eq_all_conv takeWhile_tail)

lemma first_is_name:
  assumes "sep \<notin> set n" and "sep \<notin> set w" and "sep_or_end rest"
  shows "first_is w (n @ rest) \<longleftrightarrow> n = w"
proof
  assume *: "first_is w (n @ rest)"
  then obtain q where q: "n @ rest = w @ q" by (auto simp: starts_with_iff first_is_def)
  then have "sep_or_end q"
    using * by (cases q) (auto simp: sep_or_end_def nth_append first_is_def)
  then have "takeWhile (\<lambda>c. c \<noteq> sep) (n @ rest) = w" using first_name [OF assms(2)] q by simp
  then show "n = w" using first_name [OF assms(1,3)] by simp
next
  assume "n = w"
  then show "first_is w (n @ rest)"
    using assms(3) by (cases rest) (auto simp: sep_or_end_def first_is_def starts_with_def)
qed

lemma is_private_path_alt:
  "is_private_path path0 \<longleftrightarrow>
     (let path = trim_start_matches sep path0 in
      first_is ''priv'' path \<or>
      (\<exists>after pos. strip_prefix path ''nodes/'' = Some after \<and> str_find sep after = Some pos \<and>
         first_is ''/priv'' (drop pos after)))"
proof -
  have "first_is ''priv'' s \<longleftrightarrow> starts_with s ''priv'' \<and> (length s = 4 \<or> s ! 4 = sep)" for s
    by (simp add: first_is_def eval_nat_numeral)
  moreover have "first_is ''/priv'' (drop pos s) \<longleftrightarrow>
      starts_with (drop pos s) ''/priv'' \<and> (length s = pos + 5 \<or> s ! (pos + 5) = sep)"
    if "str_find sep s = Some pos" for s pos
    using str_find_Some [OF that] by (auto simp: first_is_def eval_nat_numeral)
  ultimately show ?thesis
    by (auto simp: is_private_path_def Let_def split: option.splits)
qed

definition below :: "string list \<Rightarrow> string" where
  "below ps = (if ps = [] then [] else ''/'' @ join_with ''/'' ps)"

lemma below_simps: "sep_or_end (below ps)" "join_with ''/'' (n # ps) = n @ below ps"
  "below (n # ps) = sep # n @ below ps"
  by (simp_all add: below_def sep_or_end_def join_with_Cons)

lemma trim_canonical:
  assumes "names_ok ps"
  shows "trim_start_matches sep (''/'' @ join_with ''/'' ps) = join_with ''/'' ps"
proof (cases ps)
  case (Cons n qs)
  then obtain c cs where "n = c # cs" "c \<noteq> sep" using assms by (cases n) auto
  then show ?thesis using Cons by (simp add: trim_start_matches_def below_simps)
qed (simp add: trim_start_matches_def)

lemma strip_nodes:
  assumes "sep \<notin> set n"
  shows "strip_prefix (n @ below ps) ''nodes/'' =
    (if n = ''nodes'' \<and> ps \<noteq> [] then Some (join_with ''/'' ps) else None)"
proof -
  have "starts_with (n @ below ps) ''nodes/'' \<longleftrightarrow> n = ''nodes'' \<and> ps \<noteq> []"
  proof
    assume "starts_with (n @ below ps) ''nodes/''"
    then obtain q where q: "n @ below ps = ''nodes'' @ (sep # q)" by (auto simp: starts_with_iff)
    have "takeWhile (\<lambda>c. c \<noteq> sep) (''nodes'' @ (sep # q)) = ''nodes''"
      by (rule first_name) (simp_all add: sep_or_end_def)
    then have "n = ''nodes''" using first_name [OF assms below_simps(1)] q by metis
    then show "n = ''nodes'' \<and> ps \<noteq> []" using q by (auto simp: below_def)
  qed (auto simp: starts_with_def below_def)
  then show ?thesis by (auto simp: strip_prefix_def below_def)
qed

lemma is_private_canonical:
  assumes "names_ok ps"
  shows "is_private_path (''/'' @ join_with ''/'' ps) \<longleftrightarrow> private_parts ps"
proof (cases ps)
  case Nil
  then show ?thesis
    by (simp add: is_private_path_alt trim_start_matches_def private_parts_def starts_with_def
        strip_prefix_def first_is_def)
next
  case (Cons n qs)
  have n: "sep \<notin> set n" using assms Cons by simp
  have first: "first_is ''priv'' (n @ below qs) \<longleftrightarrow> n = ''priv''"
    using first_is_name [OF n _ below_simps(1)] by simp
  have second: "(\<exists>pos. str_find sep (k @ below rs) = Some pos \<and> first_is ''/priv'' (drop pos (k @ below rs))) \<longleftrightarrow>
      (\<exists>ts. rs = ''priv'' # ts)" if qs: "qs = k # rs" for k rs
  proof (cases rs)
    case Nil
    then show ?thesis using assms Cons qs str_find_None [of sep k] by (simp add: below_def)
  next
    case (Cons l ts)
    have k: "sep \<notin> set k" and l: "sep \<notin> set l" using assms \<open>ps = n # qs\<close> qs Cons by simp_all
    have "first_is ''/priv'' (sep # l @ below ts) \<longleftrightarrow> first_is ''priv'' (l @ below ts)"
      by (simp add: first_is_def starts_with_def)
    also have "\<dots> \<longleftrightarrow> l = ''priv''" using first_is_name [OF l _ below_simps(1)] by simp
    finally show ?thesis using str_find_append [OF k] Cons by (simp add: below_simps)
  qed
  show ?thesis
    unfolding is_private_path_alt trim_canonical [OF assms] Let_def
    unfolding Cons below_simps(2) first strip_nodes [OF n]
    using second by (cases qs) (auto simp: private_parts_def below_simps)
qed

section \<open>Renaming into the own subtree\<close>

lemma rename_cycle:
  assumes inv: "memdb_inv m" and safe: "rename_safe m old_path new_path"
    and down: "strict_prefix (path_parts old_path) (path_parts new_path)"
    and op: "rename sq old_path new_path writer mtime m = (Ok (), m')"
    and e: "lookup_path m old_path = Some e"
  shows "get_path_for_inode m' (te_inode e) = None"
  using op
proof (cases rule: rename_cases)
  case (2 e' d b np v db' target)
  let ?t = "db_tree m" and ?O = "path_parts old_path" and ?D = "path_parts d"
  note tinv = inv_parts(2) [OF inv]
  have ee: "e' = e" using 2(3) e by simp
  have ne: "te_inode e \<noteq> ROOT_INODE" using 2(4) inv by (simp add: ee)
  have b: "b \<noteq> []" using rename_base_nonempty [OF inv safe 2(6) e ne] .
  have new: "path_parts new_path = ?D @ [b]" by (rule split_path_parts(1) [OF 2(6) b])
  have wO: "walk ?t ?O ROOT_INODE = Some (te_inode e)"
    using walk_lookup [OF inv e] not_dot_if_not_root [OF inv e ne] by simp
  have wD: "walk ?t ?D ROOT_INODE = Some (te_inode np)"
    using view_index(2) [OF inv lookup_target(2) [OF inv 2(6) b 2(7)]] .
  have OD: "prefix ?O ?D" using down by (auto simp: new strict_prefix_def prefix_snoc)
  have target: "target = Some i \<Longrightarrow> walk ?t (?D @ [b]) ROOT_INODE = Some i" for i
    using lookup_target(1) [OF inv 2(6) b 2(7)] 2(9) wD by (simp add: walk_snoc)
  define C where "C = {i. \<exists>qs. prefix ?O qs \<and> prefix qs ?D \<and> walk ?t qs ROOT_INODE = Some i}"
  have root: "ROOT_INODE \<notin> C"
  proof
    assume "ROOT_INODE \<in> C"
    then obtain qs where "prefix ?O qs" "walk ?t qs ROOT_INODE = Some ROOT_INODE" by (auto simp: C_def)
    then have "?O = []" using walk_to_root [OF tinv, of qs] by simp
    then show False using wO ne by simp
  qed
  have closed: "\<exists>x. hm_get (db_index m') i = Some x \<and> te_parent x \<in> C" if i: "i \<in> C" for i
  proof (cases "i = te_inode e")
    case True
    then show ?thesis using 2(12) wD OD by (auto simp: ee C_def)
  next
    case False
    obtain qs where qs: "prefix ?O qs" "prefix qs ?D" "walk ?t qs ROOT_INODE = Some i" using i by (auto simp: C_def)
    then have "qs \<noteq> ?O" using wO False by auto
    then obtain rs n where rs: "qs = rs @ [n]" "prefix ?O rs"
      using qs(1) by (cases qs rule: rev_cases) (auto simp: prefix_snoc)
    then obtain p where p: "walk ?t rs ROOT_INODE = Some p" "child ?t p n = Some i"
      using qs(3) by (auto simp: walk_snoc bind_eq_Some_conv)
    obtain x where x: "i \<noteq> ROOT_INODE" "hm_get (db_index m) i = Some x" "te_parent x = p"
      using tree_invD(2) [OF tinv p(2)] by blast
    have "target \<noteq> Some i"
      using target [of i] walk_unique [OF tinv qs(3), of "?D @ [b]"] qs(2) by (auto dest: prefix_length_le)
    then have "hm_get (db_index m') i = Some x"
      using 2(12) False x inv by (simp add: ee stamp_root_get)
    moreover have "p \<in> C" using p(1) rs qs(2) by (auto simp: C_def dest: append_prefixD)
    ultimately show ?thesis using x(3) by auto
  qed
  have "te_inode e \<in> C" using wO OD by (auto simp: C_def)
  then have "path_up (db_index m') (te_inode e) [] = None" using path_up_cycle [OF root closed] by blast
  then show ?thesis using ne by (simp add: get_path_for_inode_def)
qed simp

end
