(* ===== verification/Plugins.thy ===== *)
theory Plugins
  imports Cluster_Status Rust_Text "HOL-Library.List_Lexorder" "HOL-Library.Char_ord"
begin

text \<open>
  The configuration of a node (\<open>pmxcfs-config/src/lib.rs\<close>) and the special files of the root directory
  (\<open>pmxcfs/src/plugins\<close>): files whose content is generated from the status, and symbolic links.

  The crate \<open>serde_json\<close> is a parameter: \<open>json\<close> is its type of values, whose objects are ordered by
  key, and \<open>json_env\<close> has the two functions that turn a value into text. Reloading the log filter,
  the other effect of writing to \<open>.debug\<close>, is left out; its failure is only logged.
\<close>

section \<open>Configuration\<close>

record Config =
  cf_nodename :: string
  cf_node_ip :: string
  cf_www_data_gid :: u32
  cf_local_mode :: bool
  cf_cluster_name :: string
  cf_debug_level :: u8

definition config_new :: "string \<Rightarrow> string \<Rightarrow> u32 \<Rightarrow> bool \<Rightarrow> bool \<Rightarrow> string \<Rightarrow> Config" where
  "config_new nodename node_ip www_data_gid debug local_mode cluster_name =
     \<lparr>cf_nodename = nodename, cf_node_ip = node_ip, cf_www_data_gid = www_data_gid,
      cf_local_mode = local_mode, cf_cluster_name = cluster_name, cf_debug_level = (if debug then 1 else 0)\<rparr>"

definition set_debug_level :: "u8 \<Rightarrow> Config \<Rightarrow> Config" where
  "set_debug_level level c = c\<lparr>cf_debug_level := level\<rparr>"

section \<open>JSON\<close>

datatype json = JNum nat | JStr string | JBool bool | JArr "json list" | JObj "(string \<times> json) list"

definition json_object :: "(string \<times> json) list \<Rightarrow> json" where
  "json_object members = JObj (fold (\<lambda>(k, v). bt_insert k v) members [])"

record json_env =
  js_string :: "json \<Rightarrow> string"
  js_pretty :: "json \<Rightarrow> string option"

definition jnum :: "'a :: len word \<Rightarrow> json" where "jnum w = JNum (unat w)"
definition jflag :: "bool \<Rightarrow> json" where "jflag b = JNum (if b then 1 else 0)"

section \<open>Plugins\<close>

datatype Plugin =
    VersionPlugin | MembersPlugin | VmlistPlugin | RrdPlugin | ClusterlogPlugin nat | DebugPlugin
  | LinkPlugin string string

datatype plugin_error = WriteNotSupported | PluginNotUtf8 | InvalidDebugLevel

fun plugin_name :: "Plugin \<Rightarrow> string" where
  "plugin_name VersionPlugin = ''.version''"
| "plugin_name MembersPlugin = ''.members''"
| "plugin_name VmlistPlugin = ''.vmlist''"
| "plugin_name RrdPlugin = ''.rrd''"
| "plugin_name (ClusterlogPlugin _) = ''.clusterlog''"
| "plugin_name DebugPlugin = ''.debug''"
| "plugin_name (LinkPlugin name _) = name"

fun plugin_mode :: "Plugin \<Rightarrow> u32" where
  "plugin_mode DebugPlugin = 0x1A0" \<comment> \<open>0640\<close>
| "plugin_mode (LinkPlugin _ _) = 0x1FF" \<comment> \<open>0777\<close>
| "plugin_mode _ = 0x120" \<comment> \<open>0440\<close>

fun is_symlink :: "Plugin \<Rightarrow> bool" where
  "is_symlink (LinkPlugin _ _) = True"
| "is_symlink _ = False"

definition unique_nodes :: "Status \<Rightarrow> u32 list" where
  "unique_nodes s = remdups (map mi_node_id (st_members s))"

definition CARGO_PKG_VERSION :: string where "CARGO_PKG_VERSION = ''9.0.6''"

definition version_content :: "json_env \<Rightarrow> Config \<Rightarrow> Status \<Rightarrow> string" where
  "version_content js c s =
     (let node_count = max (length (unique_nodes s)) 1;
          base = [(''version'', JStr CARGO_PKG_VERSION), (''api'', JNum 1),
                  (''starttime'', jnum (st_start_time s)), (''clinfo'', jnum (st_cluster_version s)),
                  (''vmlist'', jnum (st_vmlist_version s))];
          paths = map (\<lambda>(path, version). (path, jnum version))
                    (filter (\<lambda>(_, version). version > 0) (st_path_versions s));
          cluster = json_object [(''name'', JStr (cf_cluster_name c)), (''nodes'', JNum node_count),
                                 (''quorate'', jflag (st_quorate s))]
      in js_string js (json_object (base @ paths @ [(''cluster'', cluster)])))"

definition members_content :: "json_env \<Rightarrow> Config \<Rightarrow> Status \<Rightarrow> string" where
  "members_content js c s =
     (let online_nodes = unique_nodes s;
          response = (\<lambda>name nodes nodelist. js_string js (json_object
            [(''nodename'', JStr (cf_nodename c)), (''version'', jnum (st_cluster_version s)),
             (''cluster'', json_object [(''name'', JStr name), (''version'', JNum 1), (''nodes'', JNum nodes),
                                        (''quorate'', jflag (st_quorate s))]),
             (''nodelist'', json_object nodelist)]))
      in case st_cluster_info s of
           Some info \<Rightarrow>
             response (ci_cluster_name info) (max (length online_nodes) 1)
               (concat (map (\<lambda>(name, node_id). case hm_get (ci_nodes_by_id info) node_id of
                    None \<Rightarrow> []
                  | Some node \<Rightarrow>
                      [(name, json_object [(''id'', jnum (cn_node_id node)),
                                           (''online'', jflag (cn_node_id node \<in> set online_nodes)),
                                           (''ip'', JStr (cn_ip node))])]) (ci_nodes_by_name info)))
         | None \<Rightarrow>
             response (cf_cluster_name c) 1
               [(cf_nodename c, json_object [(''id'', JNum 0), (''online'', JNum 1), (''ip'', JStr (cf_node_ip c))])])"

definition vmtype_string :: "VmType \<Rightarrow> string" where
  "vmtype_string t = (case t of Qemu \<Rightarrow> ''qemu'' | Lxc \<Rightarrow> ''lxc'')"

definition vm_ids :: "Status \<Rightarrow> json" where
  "vm_ids s = json_object (map (\<lambda>(vmid, entry). (decimal (unat vmid),
     json_object [(''node'', JStr (vm_node entry)), (''type'', JStr (vmtype_string (vm_vmtype entry))),
                  (''version'', jnum (vm_version entry))])) (st_vmlist s))"

definition vmlist_content :: "json_env \<Rightarrow> Status \<Rightarrow> string" where
  "vmlist_content js s =
     js_string js (json_object [(''version'', jnum (st_vmlist_version s)), (''ids'', vm_ids s)])"

definition clusterlog_content :: "json_env \<Rightarrow> nat \<Rightarrow> Status \<Rightarrow> string" where
  "clusterlog_content js max_entries s =
     (let entries = get_log_entries max_entries s;
          data = map (\<lambda>(idx, entry). json_object
            [(''uid'', JNum (idx + 1)), (''time'', jnum (ce_timestamp entry)), (''pri'', jnum (ce_priority entry)),
             (''tag'', JStr (ce_tag entry)), (''pid'', JNum 0), (''node'', JStr (ce_node entry)),
             (''user'', JStr (ce_ident entry)), (''msg'', JStr (ce_message entry))]) (enumerate 0 entries)
      in case js_pretty js (json_object [(''data'', JArr data)]) of Some text \<Rightarrow> text | None \<Rightarrow> ''{}'')"

definition debug_content :: "Config \<Rightarrow> string" where
  "debug_content c = decimal (unat (cf_debug_level c)) @ [LF]"

text \<open>Reading never fails; reading \<open>.rrd\<close> refreshes the cache of the status.\<close>

fun plugin_read :: "json_env \<Rightarrow> u64 \<Rightarrow> Config \<Rightarrow> Plugin \<Rightarrow> Status \<Rightarrow> byte list \<times> Status" where
  "plugin_read js now c VersionPlugin s = (as_bytes (version_content js c s), s)"
| "plugin_read js now c MembersPlugin s = (as_bytes (members_content js c s), s)"
| "plugin_read js now c VmlistPlugin s = (as_bytes (vmlist_content js s), s)"
| "plugin_read js now c RrdPlugin s = (case get_rrd_dump now s of (dump, s') \<Rightarrow> (as_bytes dump, s'))"
| "plugin_read js now c (ClusterlogPlugin max_entries) s = (as_bytes (clusterlog_content js max_entries s), s)"
| "plugin_read js now c DebugPlugin s = (as_bytes (debug_content c), s)"
| "plugin_read js now c (LinkPlugin _ target) s = (as_bytes target, s)"

text \<open>\<open>str::parse::<u8>\<close>.\<close>

definition parse_u8 :: "string \<Rightarrow> u8 option" where
  "parse_u8 s = Option.bind (parse_u32 s) (\<lambda>w. if w < 256 then Some (ucast w) else None)"

definition debug_handle_write :: "string \<Rightarrow> Config \<Rightarrow> (plugin_error, unit) res \<times> Config" where
  "debug_handle_write data c =
     (case parse_u8 (str_trim data) of
        None \<Rightarrow> (Err InvalidDebugLevel, c)
      | Some level \<Rightarrow> (Ok (), set_debug_level level c))"

fun plugin_write :: "Plugin \<Rightarrow> byte list \<Rightarrow> Config \<Rightarrow> (plugin_error, unit) res \<times> Config" where
  "plugin_write DebugPlugin data c =
     (case from_utf8 data of
        None \<Rightarrow> (Err PluginNotUtf8, c)
      | Some text \<Rightarrow> debug_handle_write text c)"
| "plugin_write _ data c = (Err WriteNotSupported, c)"

section \<open>The registry\<close>

type_synonym PluginRegistry = "(string, Plugin) hmap"

definition register :: "Plugin \<Rightarrow> PluginRegistry \<Rightarrow> PluginRegistry" where
  "register p r = hm_insert (plugin_name p) p r"

definition registry_get :: "PluginRegistry \<Rightarrow> string \<Rightarrow> Plugin option" where
  "registry_get r name = hm_get r name"

definition registry_list :: "PluginRegistry \<Rightarrow> string list" where
  "registry_list r = hm_keys r"

definition init_plugins :: "Config \<Rightarrow> PluginRegistry" where
  "init_plugins c =
     (let nodename = cf_nodename c in
      fold register
        [VersionPlugin, MembersPlugin, VmlistPlugin, RrdPlugin, ClusterlogPlugin 50, DebugPlugin,
         LinkPlugin ''local'' (''nodes/'' @ nodename),
         LinkPlugin ''qemu-server'' (''nodes/'' @ nodename @ ''/qemu-server''),
         LinkPlugin ''openvz'' (''nodes/'' @ nodename @ ''/openvz''),
         LinkPlugin ''lxc'' (''nodes/'' @ nodename @ ''/lxc'')] [])"

section \<open>Facts\<close>

lemma plugin_read_status: "snd (plugin_read js now c p s) = (if p = RrdPlugin then snd (get_rrd_dump now s) else s)"
  by (cases p) (auto split: prod.splits)

lemma trim_forms_Nil [simp]: "trim_forms forms [] = []"
  by (simp add: trim_forms.simps Let_def)

lemma plugin_write_empty [simp]: "snd (plugin_write p [] c) = c"
  by (cases p) (simp_all add: from_utf8_def debug_handle_write_def str_trim_def parse_u8_def parse_u32_def)

text \<open>The registry finds plugins under their names.\<close>

definition registry_ok :: "PluginRegistry \<Rightarrow> bool" where
  "registry_ok r \<longleftrightarrow> hm_ok r \<and> (\<forall>name p. hm_get r name = Some p \<longrightarrow> plugin_name p = name)"

lemma registry_ok_register: "registry_ok r \<Longrightarrow> registry_ok (register p r)"
  by (auto simp: registry_ok_def register_def)

lemma registry_ok_init: "registry_ok (init_plugins c)"
proof -
  have "registry_ok r \<Longrightarrow> registry_ok (fold register ps r)" for ps r
    by (induction ps arbitrary: r) (simp_all add: registry_ok_register)
  moreover have "registry_ok []" by (simp add: registry_ok_def)
  ultimately show ?thesis unfolding init_plugins_def Let_def by blast
qed

lemma registry_list_get: "i < length (registry_list r) \<Longrightarrow> registry_get r (registry_list r ! i) \<noteq> None"
  using nth_mem [of i "registry_list r"] by (simp add: registry_list_def registry_get_def hm_keys_iff)

end
