(* ===== verification/Fuse_Fs.thy ===== *)
theory Fuse_Fs
  imports Fuse_Path Plugins Mem_Replica
begin

text \<open>
  The handlers of the FUSE front end (\<open>pmxcfs/src/fuse/filesystem.rs\<close>).

  \<^item> The state holds what the struct refers to: the database and the status, shared with the callbacks
    of the state machine, the state machine if there is a cluster, the plugins and the configuration.
  \<^item> With a cluster a change is multicast and the handler waits until the node has delivered the
    message. Meanwhile other tasks deliver messages: \<open>fe_wait\<close> gives, for the message and its number,
    the result that ended the wait (\<open>None\<close> after ten seconds) and the state at that time.
  \<^item> Errors are error numbers. A handler that does not return is \<open>None\<close>.
  \<^item> The reply buffer of the crate \<open>proxmox-fuse\<close> is the parameter \<open>fe_add_entry\<close>: whether the next entry
    of a directory fits after those already added, or the error number if adding it fails.
\<close>

section \<open>State and environment\<close>

record 'db Filesystem =
  fs_app :: "'db MemDbCallbacks"
  fs_dfsm :: "FuseMessage Dfsm option"
  fs_plugins :: PluginRegistry
  fs_config :: Config

abbreviation fs_memdb :: "'db Filesystem \<Rightarrow> 'db MemDb" where "fs_memdb f \<equiv> mc_memdb (fs_app f)"
abbreviation fs_status :: "'db Filesystem \<Rightarrow> Status" where "fs_status f \<equiv> mc_status (fs_app f)"

abbreviation set_memdb :: "'db MemDb \<Rightarrow> 'db Filesystem \<Rightarrow> 'db Filesystem" where
  "set_memdb m f \<equiv> f\<lparr>fs_app := (fs_app f)\<lparr>mc_memdb := m\<rparr>\<rparr>"
abbreviation set_status :: "Status \<Rightarrow> 'db Filesystem \<Rightarrow> 'db Filesystem" where
  "set_status s f \<equiv> f\<lparr>fs_app := (fs_app f)\<lparr>mc_status := s\<rparr>\<rparr>"

record stat =
  st_ino :: u64
  st_mode :: u32
  st_nlink :: u64
  st_uid :: u32
  st_gid :: u32
  st_size :: int
  st_blksize :: int
  st_blocks :: int
  st_atime :: int
  st_mtime :: int
  st_ctime :: int

record EntryParam =
  ep_inode :: u64
  ep_generation :: u64
  ep_attr :: stat

type_synonym dir_entry = "string \<times> stat \<times> nat"

record 'db fuse_env =
  fe_mem :: "'db mem_env"
  fe_js :: json_env
  fe_wait :: "FuseMessage \<Rightarrow> u64 \<Rightarrow> FuseMessage Dfsm \<times> 'db MemDbCallbacks \<Rightarrow> int option \<times> FuseMessage Dfsm \<times> 'db MemDbCallbacks"
  fe_add_entry :: "dir_entry list \<Rightarrow> dir_entry \<Rightarrow> (int, bool) res"

type_synonym ('db, 'a) fuseop = "((int, 'a) res \<times> 'db Filesystem) option"

abbreviation fe_now :: "'db fuse_env \<Rightarrow> u64" where "fe_now fe \<equiv> me_now (fe_mem fe)"

definition ENOENT :: int where "ENOENT = 2"
definition EPERM :: int where "EPERM = 1"
definition EACCES :: int where "EACCES = 13"
definition EISDIR :: int where "EISDIR = 21"
definition EINVAL :: int where "EINVAL = 22"

section \<open>Attributes\<close>

definition S_IFMT :: u32 where "S_IFMT = 0xF000"
definition S_IFLNK :: u32 where "S_IFLNK = 0xA000"

definition entry_to_stat_with_quorum :: "u32 \<Rightarrow> TreeEntry \<Rightarrow> string \<Rightarrow> bool \<Rightarrow> stat" where
  "entry_to_stat_with_quorum gid entry path quorate =
     (let mtime_secs = int (unat (te_mtime entry));
          base = (if is_dir entry
            then \<lparr>st_ino = inode_to_fuse (te_inode entry),
                  st_mode = S_IFDIR OR (if quorate then 0x1FF else 0x16D), st_nlink = 2, st_uid = 0, st_gid = gid,
                  st_size = 4096, st_blksize = 4096, st_blocks = 8,
                  st_atime = mtime_secs, st_mtime = mtime_secs, st_ctime = mtime_secs\<rparr>
            else \<lparr>st_ino = inode_to_fuse (te_inode entry),
                  st_mode = S_IFREG OR (if quorate then 0x1B6 else 0x124), st_nlink = 1, st_uid = 0, st_gid = gid,
                  st_size = int (te_size entry), st_blksize = 4096,
                  st_blocks = ((int (te_size entry) + 4095) div 4096) * 8,
                  st_atime = mtime_secs, st_mtime = mtime_secs, st_ctime = mtime_secs\<rparr>)
      in if is_private_path path then base\<lparr>st_mode := st_mode base AND 0x3FFC0\<rparr> \<comment> \<open>0777700\<close>
         else if st_mode base AND S_IFMT = S_IFDIR \<or> st_mode base AND S_IFMT = S_IFLNK
           then base\<lparr>st_mode := st_mode base AND 0x3FFED\<rparr> \<comment> \<open>0777755\<close>
         else base\<lparr>st_mode := st_mode base AND 0x3FFE8\<rparr>)" \<comment> \<open>0777750\<close>

definition entry_to_stat :: "'db Filesystem \<Rightarrow> TreeEntry \<Rightarrow> string \<Rightarrow> stat" where
  "entry_to_stat f entry path =
     entry_to_stat_with_quorum (cf_www_data_gid (fs_config f)) entry path (st_quorate (fs_status f))"

definition plugin_supports_write :: "Plugin \<Rightarrow> Config \<Rightarrow> bool" where
  "plugin_supports_write p c =
     (case fst (plugin_write p [] c) of Err e \<Rightarrow> e \<noteq> WriteNotSupported | _ \<Rightarrow> True)"

text \<open>Reading the plugin for its size may refresh the cache of the status.\<close>

definition plugin_to_stat :: "'db fuse_env \<Rightarrow> u64 \<Rightarrow> Plugin \<Rightarrow> 'db Filesystem \<Rightarrow> stat \<times> 'db Filesystem" where
  "plugin_to_stat fe inode p f =
     (let now = int (unat (fe_now fe)); c = fs_config f in
      case plugin_read (fe_js fe) (fe_now fe) c p (fs_status f) of
        (data, s) \<Rightarrow>
          let mode = (if is_symlink p then S_IFLNK OR (if st_quorate s then 0x1FF else 0x16D)
                      else S_IFREG OR (if plugin_supports_write p c then plugin_mode p
                                       else plugin_mode p AND NOT 0x92)) \<comment> \<open>0222\<close>
          in (\<lparr>st_ino = inode, st_mode = mode, st_nlink = 1, st_uid = 0, st_gid = cf_www_data_gid c,
               st_size = int (length data), st_blksize = 4096,
               st_blocks = ((int (length data) + 4095) div 4096) * 8,
               st_atime = now, st_mtime = now, st_ctime = now\<rparr>, set_status s f))"

section \<open>Looking up\<close>

fun list_position :: "'a \<Rightarrow> 'a list \<Rightarrow> nat option" where
  "list_position x [] = None"
| "list_position x (y # ys) = (if y = x then Some 0 else map_option Suc (list_position x ys))"

definition entry_param :: "'db Filesystem \<Rightarrow> TreeEntry \<Rightarrow> string \<Rightarrow> EntryParam" where
  "entry_param f entry full_path =
     \<lparr>ep_inode = inode_to_fuse (te_inode entry), ep_generation = 1, ep_attr = entry_to_stat f entry full_path\<rparr>"

text \<open>The plugin with the given node identifier, if it is one.\<close>

definition plugin_at :: "'db Filesystem \<Rightarrow> u64 \<Rightarrow> Plugin option" where
  "plugin_at f ino_fuse =
     (if ino_fuse \<ge> PLUGIN_INODE_OFFSET then
        let plugin_idx = unat (ino_fuse - PLUGIN_INODE_OFFSET); plugin_names = registry_list (fs_plugins f)
        in if plugin_idx < length plugin_names then registry_get (fs_plugins f) (plugin_names ! plugin_idx) else None
      else None)"

definition fuse_lookup :: "'db fuse_env \<Rightarrow> u64 \<Rightarrow> byte list \<Rightarrow> 'db Filesystem \<Rightarrow> ('db, EntryParam) fuseop" where
  "fuse_lookup fe parent_fuse name f =
     (let parent = fuse_to_inode parent_fuse;
          name_str = from_utf8_lossy name;
          found = (if parent = ROOT_INODE
                   then Option.bind (list_position name_str (registry_list (fs_plugins f)))
                          (\<lambda>idx. map_option (\<lambda>p. (idx, p)) (registry_get (fs_plugins f) name_str))
                   else None)
      in case found of
           Some (plugin_idx, p) \<Rightarrow>
             let plugin_inode = PLUGIN_INODE_OFFSET + of_nat plugin_idx in
             (case plugin_to_stat fe plugin_inode p f of
                (st, f') \<Rightarrow> Some (Ok \<lparr>ep_inode = plugin_inode, ep_generation = 1, ep_attr = st\<rparr>, f'))
         | None \<Rightarrow>
             (case get_entry_by_inode (fs_memdb f) parent of
                None \<Rightarrow> Some (Err ENOENT, f)
              | Some parent_entry \<Rightarrow>
                  Option.bind (get_path_for_inode (fs_memdb f) (te_inode parent_entry)) (\<lambda>parent_path.
                    let full_path = join_path parent_path name_str in
                    case lookup_path (fs_memdb f) full_path of
                      Some entry \<Rightarrow> Some (Ok (entry_param f entry full_path), f)
                    | None \<Rightarrow> Some (Err ENOENT, f))))"

definition fuse_getattr :: "'db fuse_env \<Rightarrow> u64 \<Rightarrow> 'db Filesystem \<Rightarrow> ('db, stat) fuseop" where
  "fuse_getattr fe ino_fuse f =
     (case plugin_at f ino_fuse of
        Some p \<Rightarrow> (case plugin_to_stat fe ino_fuse p f of (st, f') \<Rightarrow> Some (Ok st, f'))
      | None \<Rightarrow>
          let ino = fuse_to_inode ino_fuse in
          (case get_entry_by_inode (fs_memdb f) ino of
             None \<Rightarrow> Some (Err ENOENT, f)
           | Some entry \<Rightarrow>
               Option.bind (get_path_for_inode (fs_memdb f) ino)
                 (\<lambda>path. Some (Ok (entry_to_stat f entry path), f))))"

section \<open>Directories and reading\<close>

text \<open>All entries of a directory, before paging; the permissions shown are those without quorum.\<close>

fun plugin_entries ::
  "'db fuse_env \<Rightarrow> (nat \<times> string) list \<Rightarrow> 'db Filesystem \<Rightarrow> (u64 \<times> stat \<times> string) list \<times> 'db Filesystem" where
  "plugin_entries fe [] f = ([], f)"
| "plugin_entries fe ((idx, name) # rest) f =
    (case registry_get (fs_plugins f) name of
       None \<Rightarrow> plugin_entries fe rest f
     | Some p \<Rightarrow>
         let plugin_inode = PLUGIN_INODE_OFFSET + of_nat idx in
         (case plugin_to_stat fe plugin_inode p f of
            (st, f1) \<Rightarrow> (case plugin_entries fe rest f1 of
               (es, f2) \<Rightarrow> ((plugin_inode, st, name) # es, f2))))"

definition dir_listing ::
  "'db fuse_env \<Rightarrow> u64 \<Rightarrow> string \<Rightarrow> TreeEntry list \<Rightarrow> 'db Filesystem
   \<Rightarrow> (u64 \<times> stat \<times> string) list \<times> 'db Filesystem" where
  "dir_listing fe ino_fuse path entries f =
     (let ino = fuse_to_inode ino_fuse; gid = cf_www_data_gid (fs_config f);
          dots = (case get_entry_by_inode (fs_memdb f) ino of
                    None \<Rightarrow> []
                  | Some dir_entry \<Rightarrow>
                      let dir_stat = entry_to_stat_with_quorum gid dir_entry path False
                      in [(ino_fuse, dir_stat, ''.''), (ino_fuse, dir_stat, ''..'')]);
          (plugins, f1) = (if ino = ROOT_INODE
                           then plugin_entries fe (enumerate 0 (registry_list (fs_plugins f))) f else ([], f));
          files = map (\<lambda>entry. (inode_to_fuse (te_inode entry),
                     entry_to_stat_with_quorum gid entry (join_path path (te_name entry)) False, te_name entry)) entries
      in (dots @ plugins @ files, f1))"

text \<open>The reply is filled until it is full or adding an entry fails.\<close>

fun fill_reply :: "(dir_entry list \<Rightarrow> dir_entry \<Rightarrow> (int, bool) res) \<Rightarrow> nat \<Rightarrow> (u64 \<times> stat \<times> string) list
    \<Rightarrow> dir_entry list \<Rightarrow> (int, dir_entry list) res" where
  "fill_reply add next [] acc = Ok acc"
| "fill_reply add next ((_, st, name) # rest) acc =
    (case add acc (name, st, next + 1) of
       Ok True \<Rightarrow> fill_reply add (next + 1) rest (acc @ [(name, st, next + 1)])
     | Ok False \<Rightarrow> Ok acc
     | Err errno \<Rightarrow> Err errno
     | Panic \<Rightarrow> Panic)"

definition fuse_readdir :: "'db fuse_env \<Rightarrow> u64 \<Rightarrow> nat \<Rightarrow> 'db Filesystem \<Rightarrow> ('db, dir_entry list) fuseop" where
  "fuse_readdir fe ino_fuse offset f =
     Option.bind (get_path_for_inode (fs_memdb f) (fuse_to_inode ino_fuse)) (\<lambda>path.
       case readdir (fs_memdb f) path of
         Ok entries \<Rightarrow>
           (case dir_listing fe ino_fuse path entries f of
              (all_entries, f1) \<Rightarrow>
                Some (fill_reply (fe_add_entry fe) offset (drop offset all_entries) [], f1))
       | Err _ \<Rightarrow> Some (Err ENOENT, f)
       | Panic \<Rightarrow> Some (Panic, f))"

definition fuse_read :: "'db fuse_env \<Rightarrow> u64 \<Rightarrow> u64 \<Rightarrow> nat \<Rightarrow> 'db Filesystem \<Rightarrow> ('db, byte list) fuseop" where
  "fuse_read fe ino_fuse offset len f =
     (case plugin_at f ino_fuse of
        Some p \<Rightarrow>
          (case plugin_read (fe_js fe) (fe_now fe) (fs_config f) p (fs_status f) of
             (data, s) \<Rightarrow>
               Some (if unat offset \<ge> length data then Ok []
                     else if unat offset + len \<ge> 2 ^ 64 then Panic
                     else Ok (slice (unat offset) (min (unat offset + len) (length data)) data), set_status s f))
      | None \<Rightarrow>
          let ino = fuse_to_inode ino_fuse in
          Option.bind (get_path_for_inode (fs_memdb f) ino) (\<lambda>path.
            if ino = ROOT_INODE then Some (Err EISDIR, f)
            else Some (case read (fs_memdb f) path offset len of
                         Ok data \<Rightarrow> Ok data | Err _ \<Rightarrow> Err ENOENT | Panic \<Rightarrow> Panic, f)))"

definition fuse_readlink :: "'db fuse_env \<Rightarrow> u64 \<Rightarrow> 'db Filesystem \<Rightarrow> ('db, string) fuseop" where
  "fuse_readlink fe ino_fuse f =
     (case plugin_at f ino_fuse of
        Some p \<Rightarrow>
          (case plugin_read (fe_js fe) (fe_now fe) (fs_config f) p (fs_status f) of
             (data, s) \<Rightarrow> Some (case from_utf8 data of None \<Rightarrow> Err EIO | Some target \<Rightarrow> Ok target, set_status s f))
      | None \<Rightarrow> Some (Err EINVAL, f))"

definition fuse_statfs :: "'db Filesystem \<Rightarrow> nat \<times> nat \<times> nat \<times> nat \<times> nat \<times> nat \<times> nat" where
  "fuse_statfs f =
     (case statfs (fs_memdb f) of
        (blocks, bfree, bavail, files, ffree) \<Rightarrow> (4096, blocks, bfree, bavail, files, ffree, 255))"

section \<open>Changes\<close>

text \<open>Multicast, wait for the delivery, and take its result.\<close>

definition send_and_wait :: "'db fuse_env \<Rightarrow> FuseMessage \<Rightarrow> FuseMessage Dfsm \<Rightarrow> 'db Filesystem
    \<Rightarrow> (int, unit) res \<times> 'db Filesystem" where
  "send_and_wait fe msg d f =
     (let me = fe_mem fe in
      case send_message_sync_begin (me_env me) (now32 me) msg d of
        (Done, msg_count, d1) \<Rightarrow>
          (case fe_wait fe msg msg_count (d1, fs_app f) of
             (r, d2, a) \<Rightarrow>
               (case r of None \<Rightarrow> Err EIO | Some result \<Rightarrow> if result < 0 then Err (- result) else Ok (),
                f\<lparr>fs_dfsm := Some (send_message_sync_end msg_count d2), fs_app := a\<rparr>))
      | (_, _, d1) \<Rightarrow> (Err EIO, f\<lparr>fs_dfsm := Some d1\<rparr>))"

text \<open>The outcome of an operation of the database without a cluster.\<close>

definition local_result :: "(mem_error, 'a) res \<times> 'db MemDb \<Rightarrow> 'db Filesystem \<Rightarrow> (int, 'a) res \<times> 'db Filesystem" where
  "local_result rm f =
     (case rm of (r, m) \<Rightarrow> (case r of Ok x \<Rightarrow> Ok x | Err _ \<Rightarrow> Err EACCES | Panic \<Rightarrow> Panic, set_memdb m f))"

text \<open>The attributes of an entry that was just created.\<close>

definition created_entry :: "string \<Rightarrow> (int, unit) res \<times> 'db Filesystem \<Rightarrow> (int, EntryParam) res \<times> 'db Filesystem" where
  "created_entry full_path rf =
     (case rf of (r, f) \<Rightarrow>
        (case r of
           Ok _ \<Rightarrow> (case lookup_path (fs_memdb f) full_path of
               None \<Rightarrow> (Err EIO, f)
             | Some entry \<Rightarrow> (Ok (entry_param f entry full_path), f))
         | Err e \<Rightarrow> (Err e, f)
         | Panic \<Rightarrow> (Panic, f)))"

definition fuse_write :: "'db fuse_env \<Rightarrow> u64 \<Rightarrow> u64 \<Rightarrow> byte list \<Rightarrow> 'db Filesystem \<Rightarrow> ('db, nat) fuseop" where
  "fuse_write fe ino_fuse offset data f =
     (if ino_fuse \<ge> PLUGIN_INODE_OFFSET then
        (case plugin_at f ino_fuse of
           Some p \<Rightarrow>
             if offset \<noteq> 0 then Some (Err EIO, f)
             else (case plugin_write p data (fs_config f) of
                     (Ok _, c) \<Rightarrow> Some (Ok (length data), f\<lparr>fs_config := c\<rparr>)
                   | (_, c) \<Rightarrow> Some (Err EIO, f\<lparr>fs_config := c\<rparr>))
         | None \<Rightarrow> Some (Err ENOENT, f))
      else
        Option.bind (get_path_for_inode (fs_memdb f) (fuse_to_inode ino_fuse)) (\<lambda>path.
          case fs_dfsm f of
            Some d \<Rightarrow>
              (case send_and_wait fe (FWrite path offset data) d f of
                 (Ok _, f') \<Rightarrow> Some (Ok (length data), f')
               | (Err e, f') \<Rightarrow> Some (Err e, f')
               | (Panic, f') \<Rightarrow> Some (Panic, f'))
          | None \<Rightarrow>
              Some (local_result (write_op (me_sq (fe_mem fe)) path offset 0 (now32 (fe_mem fe)) data False
                                    (fs_memdb f)) f)))"

definition fuse_mkdir :: "'db fuse_env \<Rightarrow> u64 \<Rightarrow> byte list \<Rightarrow> u32 \<Rightarrow> 'db Filesystem \<Rightarrow> ('db, EntryParam) fuseop" where
  "fuse_mkdir fe parent_fuse name mode f =
     Option.bind (get_path_for_inode (fs_memdb f) (fuse_to_inode parent_fuse)) (\<lambda>parent_path.
       let full_path = join_path parent_path (from_utf8_lossy name); me = fe_mem fe in
       Some (created_entry full_path
         (case fs_dfsm f of
            Some d \<Rightarrow> send_and_wait fe (FMkdir full_path) d f
          | None \<Rightarrow> local_result (create (me_sq me) (me_sha me) (me_now me) full_path (mode OR S_IFDIR) 0
                                   (now32 me) (fs_memdb f)) f)))"

definition fuse_create :: "'db fuse_env \<Rightarrow> u64 \<Rightarrow> byte list \<Rightarrow> u32 \<Rightarrow> 'db Filesystem \<Rightarrow> ('db, EntryParam) fuseop" where
  "fuse_create fe parent_fuse name mode f =
     Option.bind (get_path_for_inode (fs_memdb f) (fuse_to_inode parent_fuse)) (\<lambda>parent_path.
       let full_path = join_path parent_path (from_utf8_lossy name); me = fe_mem fe in
       Some (created_entry full_path
         (case fs_dfsm f of
            Some d \<Rightarrow> send_and_wait fe (FCreate full_path) d f
          | None \<Rightarrow> local_result (create (me_sq me) (me_sha me) (me_now me) full_path (mode OR S_IFREG) 0
                                   (now32 me) (fs_memdb f)) f)))"

definition fuse_rmdir :: "'db fuse_env \<Rightarrow> u64 \<Rightarrow> byte list \<Rightarrow> 'db Filesystem \<Rightarrow> ('db, unit) fuseop" where
  "fuse_rmdir fe parent_fuse name f =
     Option.bind (get_path_for_inode (fs_memdb f) (fuse_to_inode parent_fuse)) (\<lambda>parent_path.
       let full_path = join_path parent_path (from_utf8_lossy name); me = fe_mem fe in
       Some (case fs_dfsm f of
               Some d \<Rightarrow> send_and_wait fe (FDelete full_path) d f
             | None \<Rightarrow> local_result (delete (me_sq me) full_path 0 (now32 me) (fs_memdb f)) f))"

definition fuse_unlink :: "'db fuse_env \<Rightarrow> u64 \<Rightarrow> byte list \<Rightarrow> 'db Filesystem \<Rightarrow> ('db, unit) fuseop" where
  "fuse_unlink fe parent_fuse name f =
     (let parent = fuse_to_inode parent_fuse; name_str = from_utf8_lossy name; me = fe_mem fe in
      if parent = ROOT_INODE \<and> name_str \<in> set (registry_list (fs_plugins f)) then Some (Err EACCES, f)
      else Option.bind (get_path_for_inode (fs_memdb f) parent) (\<lambda>parent_path.
        let full_path = join_path parent_path name_str in
        if (case lookup_path (fs_memdb f) full_path of Some entry \<Rightarrow> is_dir entry | None \<Rightarrow> False)
        then Some (Err EISDIR, f)
        else Some (case fs_dfsm f of
                     Some d \<Rightarrow> send_and_wait fe (FDelete full_path) d f
                   | None \<Rightarrow> local_result (delete (me_sq me) full_path 0 (now32 me) (fs_memdb f)) f)))"

definition fuse_rename :: "'db fuse_env \<Rightarrow> u64 \<Rightarrow> byte list \<Rightarrow> u64 \<Rightarrow> byte list \<Rightarrow> 'db Filesystem \<Rightarrow> ('db, unit) fuseop" where
  "fuse_rename fe parent_fuse name new_parent_fuse new_name f =
     Option.bind (get_path_for_inode (fs_memdb f) (fuse_to_inode parent_fuse)) (\<lambda>parent_path.
     Option.bind (get_path_for_inode (fs_memdb f) (fuse_to_inode new_parent_fuse)) (\<lambda>new_parent_path.
       let old_path = join_path parent_path (from_utf8_lossy name);
           new_path = join_path new_parent_path (from_utf8_lossy new_name); me = fe_mem fe in
       Some (case fs_dfsm f of
               Some d \<Rightarrow> send_and_wait fe (FRename old_path new_path) d f
             | None \<Rightarrow> local_result (rename (me_sq me) old_path new_path 0 (now32 me) (fs_memdb f)) f)))"

section \<open>Attributes and the lock protocol\<close>

definition chmod_allowed :: "string \<Rightarrow> u32 option \<Rightarrow> bool" where
  "chmod_allowed path mode =
     (case mode of
        None \<Rightarrow> True
      | Some new_mode \<Rightarrow>
          let mode_bits = new_mode AND 0x1FF in
          if is_private_path path then mode_bits = 0x180 else mode_bits = 0x1A0)" \<comment> \<open>0600, 0640\<close>

definition chown_allowed :: "Config \<Rightarrow> u32 option \<Rightarrow> u32 option \<Rightarrow> bool" where
  "chown_allowed c uid gid =
     ((case uid of None \<Rightarrow> True | Some u \<Rightarrow> u = 0 \<or> u = - 1) \<and>
      (case gid of None \<Rightarrow> True | Some g \<Rightarrow> g = cf_www_data_gid c \<or> g = - 1))"

definition truncate_file :: "'db fuse_env \<Rightarrow> string \<Rightarrow> u64 option \<Rightarrow> 'db Filesystem \<Rightarrow> (int, unit) res \<times> 'db Filesystem" where
  "truncate_file fe path size0 f =
     (case size0 of
        None \<Rightarrow> (Ok (), f)
      | Some new_size \<Rightarrow>
          (case local_result (write_op (me_sq (fe_mem fe)) path 0 0 (now32 (fe_mem fe))
                                (replicate (unat new_size) 0) True (fs_memdb f)) f of
             (Ok _, f') \<Rightarrow> (Ok (), f')
           | (Err e, f') \<Rightarrow> (Err e, f')
           | (Panic, f') \<Rightarrow> (Panic, f')))"

text \<open>The time 0 on a lock asks to release it.\<close>

definition unlock_if_requested ::
  "'db fuse_env \<Rightarrow> u64 \<Rightarrow> string \<Rightarrow> u32 \<Rightarrow> 'db Filesystem \<Rightarrow> (int, unit) res \<times> 'db Filesystem" where
  "unlock_if_requested fe ino path new_mtime f =
     (let me = fe_mem fe in
      case get_entry_by_inode (fs_memdb f) ino of
        Some entry \<Rightarrow>
          if is_lock_path path \<and> is_dir entry \<and> new_mtime = 0 then
            (case fs_dfsm f of
               Some d \<Rightarrow>
                 if is_synced d
                 then (Ok (), f\<lparr>fs_dfsm := Some (snd (broadcast (me_env me) (now32 me) (FUnlockRequest path) d))\<rparr>)
                 else (case lock_expired (me_now me) path (compute_checksum (me_sha me) entry) (fs_memdb f) of
                         (expired, m) \<Rightarrow>
                           if expired then local_result (delete (me_sq me) path 0 (now32 me) m) f
                           else (Ok (), set_memdb m f))
             | None \<Rightarrow>
                 (case lock_expired (me_now me) path (compute_checksum (me_sha me) entry) (fs_memdb f) of
                    (expired, m) \<Rightarrow>
                      if expired then local_result (delete (me_sq me) path 0 (now32 me) m) f
                      else (Ok (), set_memdb m f)))
          else (Ok (), f)
      | None \<Rightarrow> (Ok (), f))"

definition update_mtime ::
  "'db fuse_env \<Rightarrow> u64 \<Rightarrow> string \<Rightarrow> u32 option \<Rightarrow> 'db Filesystem \<Rightarrow> (int, unit) res \<times> 'db Filesystem" where
  "update_mtime fe ino path mtime f =
     (let me = fe_mem fe in
      case mtime of
        None \<Rightarrow> (Ok (), f)
      | Some new_mtime \<Rightarrow>
          (case unlock_if_requested fe ino path new_mtime f of
             (Ok _, f1) \<Rightarrow>
               (case fs_dfsm f1 of
                  Some d \<Rightarrow> send_and_wait fe (FMtime path new_mtime) d f1
                | None \<Rightarrow> local_result (set_mtime (me_sq me) (me_sha me) (me_now me) path 0 new_mtime (fs_memdb f1)) f1)
           | r \<Rightarrow> r))"

definition fuse_setattr ::
  "'db fuse_env \<Rightarrow> u64 \<Rightarrow> u64 option \<Rightarrow> u32 option \<Rightarrow> u32 option \<Rightarrow> u32 option \<Rightarrow> u32 option \<Rightarrow> 'db Filesystem
   \<Rightarrow> ('db, stat) fuseop" where
  "fuse_setattr fe ino_fuse size0 mtime mode uid gid f =
     (let ino = fuse_to_inode ino_fuse in
      Option.bind (get_path_for_inode (fs_memdb f) ino) (\<lambda>path.
        if \<not> chmod_allowed path mode \<or> \<not> chown_allowed (fs_config f) uid gid then Some (Err EPERM, f)
        else Some
          (case truncate_file fe path size0 f of
             (Ok _, f1) \<Rightarrow>
               (case update_mtime fe ino path mtime f1 of
                  (Ok _, f2) \<Rightarrow>
                    (case get_entry_by_inode (fs_memdb f2) ino of
                       Some entry \<Rightarrow> (Ok (entry_to_stat f2 entry path), f2)
                     | None \<Rightarrow> (Err ENOENT, f2))
                | (Err e, f2) \<Rightarrow> (Err e, f2)
                | (Panic, f2) \<Rightarrow> (Panic, f2))
           | (Err e, f1) \<Rightarrow> (Err e, f1)
           | (Panic, f1) \<Rightarrow> (Panic, f1))))"

section \<open>Requests\<close>

datatype FuseRequest =
    RLookup u64 "byte list" | RGetattr u64 | RReadlink u64 | RReaddir u64 nat | RRead u64 u64 nat
  | RWrite u64 u64 "byte list" | RMkdir u64 "byte list" u32 | RRmdir u64 "byte list"
  | RRename u64 "byte list" u64 "byte list" | RCreate u64 "byte list" u32 | RMknod u64 "byte list" u32
  | RUnlink u64 "byte list"
  | RSetattr u64 "u64 option" "u32 option" "u32 option" "u32 option" "u32 option"
  | ROpen u64 u32 | RRelease u64 | RForget u64 | RStatfs

datatype FuseReply =
    AEntry EntryParam | AStat stat | ATarget string | ADir "dir_entry list" | AData "byte list"
  | AWritten nat | AUnit | AStatfs "nat \<times> nat \<times> nat \<times> nat \<times> nat \<times> nat \<times> nat"

definition reply_with :: "('a \<Rightarrow> FuseReply) \<Rightarrow> ('db, 'a) fuseop \<Rightarrow> ('db, FuseReply) fuseop" where
  "reply_with k r =
     map_option (\<lambda>(x, f). (case x of Ok v \<Rightarrow> Ok (k v) | Err e \<Rightarrow> Err e | Panic \<Rightarrow> Panic, f)) r"

text \<open>A writable plugin has a write bit for its owner. Truncation of a regular file is a change of size.\<close>

definition fuse_open :: "'db fuse_env \<Rightarrow> u64 \<Rightarrow> u32 \<Rightarrow> 'db Filesystem \<Rightarrow> ('db, stat) fuseop" where
  "fuse_open fe ino_fuse flags f =
     (if ino_fuse \<ge> PLUGIN_INODE_OFFSET then
        (case plugin_at f ino_fuse of
           Some p \<Rightarrow> if flags AND 3 \<noteq> 0 \<and> plugin_mode p AND 0x80 = 0 then Some (Err EACCES, f)
                     else fuse_getattr fe ino_fuse f
         | None \<Rightarrow> fuse_getattr fe ino_fuse f)
      else if flags AND 0x200 \<noteq> 0 then fuse_setattr fe ino_fuse (Some 0) None None None None f
      else fuse_getattr fe ino_fuse f)"

fun fuse_request :: "'db fuse_env \<Rightarrow> FuseRequest \<Rightarrow> 'db Filesystem \<Rightarrow> ('db, FuseReply) fuseop" where
  "fuse_request fe (RLookup parent name) f = reply_with AEntry (fuse_lookup fe parent name f)"
| "fuse_request fe (RGetattr ino) f = reply_with AStat (fuse_getattr fe ino f)"
| "fuse_request fe (RReadlink ino) f = reply_with ATarget (fuse_readlink fe ino f)"
| "fuse_request fe (RReaddir ino offset) f = reply_with ADir (fuse_readdir fe ino offset f)"
| "fuse_request fe (RRead ino offset len) f = reply_with AData (fuse_read fe ino offset len f)"
| "fuse_request fe (RWrite ino offset data) f = reply_with AWritten (fuse_write fe ino offset data f)"
| "fuse_request fe (RMkdir parent name mode) f = reply_with AEntry (fuse_mkdir fe parent name mode f)"
| "fuse_request fe (RRmdir parent name) f = reply_with (\<lambda>_. AUnit) (fuse_rmdir fe parent name f)"
| "fuse_request fe (RRename parent name new_parent new_name) f =
     reply_with (\<lambda>_. AUnit) (fuse_rename fe parent name new_parent new_name f)"
| "fuse_request fe (RCreate parent name mode) f = reply_with AEntry (fuse_create fe parent name mode f)"
| "fuse_request fe (RMknod parent name mode) f = reply_with AEntry (fuse_create fe parent name mode f)"
| "fuse_request fe (RUnlink parent name) f = reply_with (\<lambda>_. AUnit) (fuse_unlink fe parent name f)"
| "fuse_request fe (RSetattr ino size0 mtime mode uid gid) f =
     reply_with AStat (fuse_setattr fe ino size0 mtime mode uid gid f)"
| "fuse_request fe (ROpen ino flags) f = reply_with (\<lambda>_. AUnit) (fuse_open fe ino flags f)"
| "fuse_request fe (RRelease _) f = Some (Ok AUnit, f)"
| "fuse_request fe (RForget _) f = Some (Ok AUnit, f)"
| "fuse_request fe RStatfs f = Some (Ok (AStatfs (fuse_statfs f)), f)"

end
