(* ===== verification/Fuse_Inv.thy ===== *)
theory Fuse_Inv
  imports Fuse_Fs
begin

text \<open>
  What the handlers of the front end need and keep: the invariant of the database, that every entry
  can be reached from the root, and room in the version counter. The locale \<open>safe_wait\<close> states what
  they rely on while they wait for the cluster; it is interpreted for the node whose own messages come
  back to it first.
\<close>

section \<open>The invariant of the front end\<close>

definition fs_ok :: "nat \<Rightarrow> 'db MemDb \<Rightarrow> bool" where
  "fs_ok k m \<longleftrightarrow> memdb_inv m \<and> rooted m \<and> unat (db_version m) + k < 2 ^ 64"

definition safe_rename :: "'db MemDb \<Rightarrow> string \<Rightarrow> string \<Rightarrow> bool" where
  "safe_rename m from to \<longleftrightarrow> rename_safe m from to \<and> \<not> strict_prefix (path_parts from) (path_parts to)"

fun safe_message :: "'db MemDb \<Rightarrow> FuseMessage \<Rightarrow> bool" where
  "safe_message m (FRename from to) = safe_rename m from to"
| "safe_message m _ = True"

lemma fs_okD: "fs_ok k m \<Longrightarrow> memdb_inv m" "fs_ok k m \<Longrightarrow> rooted m"
  by (simp_all add: fs_ok_def)

lemma fs_ok_less: "fs_ok k m \<Longrightarrow> j \<le> k \<Longrightarrow> fs_ok j m"
  by (simp add: fs_ok_def)

lemma fs_ok_no_wrap: "fs_ok (Suc k) m \<Longrightarrow> no_wrap m"
  by (simp add: fs_ok_def no_wrap_def unat_eq_0 [symmetric] unat_word_ariths)

lemma fs_ok_step:
  assumes "fs_ok (Suc k) m" and "mem_step sq sha m b m'" and "rooted m'"
  shows "fs_ok k m'"
proof -
  have "unat (db_version m + 1) = Suc (unat (db_version m))"
    using assms(1) by (simp add: fs_ok_def unat_word_ariths)
  then have "unat (db_version m') \<le> Suc (unat (db_version m))"
    using mem_step_version [OF assms(2)] by (cases b) (auto simp: version_step_def)
  moreover have "memdb_inv m'"
    using mem_step_inv [OF assms(2)] assms(1) fs_ok_no_wrap by (auto simp: fs_ok_def)
  ultimately show ?thesis using assms(1,3) by (simp add: fs_ok_def)
qed

lemma create_fs_ok:
  "fs_ok (Suc k) m \<Longrightarrow> create sq sha now path mode writer mtime m = (r, m') \<Longrightarrow> fs_ok k m'"
  by (meson create_rooted fs_okD fs_ok_no_wrap fs_ok_step mem_step.Create)

lemma write_fs_ok:
  "fs_ok (Suc k) m \<Longrightarrow> write_op sq path offset writer mtime data trunc m = (r, m') \<Longrightarrow> fs_ok k m'"
  by (meson write_rooted fs_okD fs_ok_step mem_step.Write)

lemma set_mtime_fs_ok:
  "fs_ok (Suc k) m \<Longrightarrow> set_mtime sq sha now path writer mtime m = (r, m') \<Longrightarrow> fs_ok k m'"
  by (meson set_mtime_rooted fs_okD fs_ok_step mem_step.Set_Mtime)

lemma delete_fs_ok:
  "fs_ok (Suc k) m \<Longrightarrow> delete sq path writer mtime m = (r, m') \<Longrightarrow> fs_ok k m'"
  by (meson delete_rooted fs_okD fs_ok_step mem_step.Delete)

lemma rename_fs_ok:
  "fs_ok (Suc k) m \<Longrightarrow> safe_rename m from to \<Longrightarrow> rename sq from to writer mtime m = (r, m') \<Longrightarrow> fs_ok k m'"
  unfolding safe_rename_def by (meson rename_rooted fs_okD fs_ok_step mem_step.Rename)

lemma lock_expired_fs_ok: "fs_ok k m \<Longrightarrow> lock_expired now path csum m = (b, m') \<Longrightarrow> fs_ok k m'"
  by (auto simp: lock_expired_def Let_def fs_ok_def memdb_inv_def rooted_def split: option.splits if_splits)

lemmas mem_fs_ok = create_fs_ok write_fs_ok set_mtime_fs_ok delete_fs_ok rename_fs_ok lock_expired_fs_ok

lemma fs_ok_one: "fs_ok 2 m \<Longrightarrow> fs_ok (Suc 0) m"
  by (simp add: fs_ok_def)

lemma mem_snd_fs_ok:
  assumes "fs_ok (Suc k) m"
  shows "fs_ok k (snd (create sq sha now path mode writer mtime m))"
    "fs_ok k (snd (write_op sq path offset writer mtime data trunc m))"
    "fs_ok k (snd (set_mtime sq sha now path writer mtime m))"
    "fs_ok k (snd (delete sq path writer mtime m))"
    "safe_rename m from to \<Longrightarrow> fs_ok k (snd (rename sq from to writer mtime m))"
  using mem_fs_ok [OF assms] by (metis prod.collapse)+

text \<open>The operations of the database do not panic.\<close>

lemma mem_ops_no_panic:
  "fst (create sq sha now path mode writer mtime m) \<noteq> Panic"
  "fst (write_op sq path offset writer mtime data trunc m) \<noteq> Panic"
  "fst (set_mtime sq sha now path writer mtime m) \<noteq> Panic"
  "fst (delete sq path writer mtime m) \<noteq> Panic"
  "fst (rename sq from to writer mtime m) \<noteq> Panic"
proof -
  show "fst (create sq sha now path mode writer mtime m) \<noteq> Panic"
    by (metis create_cases prod.collapse res.distinct(3) res.distinct(5))
  show "fst (write_op sq path offset writer mtime data trunc m) \<noteq> Panic"
    by (metis write_cases prod.collapse res.distinct(3) res.distinct(5))
  show "fst (set_mtime sq sha now path writer mtime m) \<noteq> Panic"
    by (metis set_mtime_cases prod.collapse res.distinct(3) res.distinct(5))
  show "fst (delete sq path writer mtime m) \<noteq> Panic"
    by (metis delete_cases prod.collapse res.distinct(3) res.distinct(5))
  show "fst (rename sq from to writer mtime m) \<noteq> Panic"
    by (metis rename_cases prod.collapse res.distinct(3) res.distinct(5))
qed

lemma get_path_returns:
  assumes "fs_ok k m"
  obtains path where "get_path_for_inode m i = Some path"
proof (cases "hm_get (db_index m) i")
  case None
  then show ?thesis using get_path_missing that by blast
next
  case (Some e)
  then show ?thesis using get_path_rooted [OF fs_okD [OF assms]] that by metis
qed

section \<open>Delivery\<close>

lemma handle_write_fs_ok:
  assumes "fs_ok (Suc (Suc k)) (mc_memdb a)"
  shows "fs_ok k (mc_memdb (snd (handle_write me path offset data mtime a)))"
proof -
  obtain r m where rm: "(if \<not> path_exists (mc_memdb a) path
      then create (me_sq me) (me_sha me) (me_now me) path 0 0 mtime (mc_memdb a)
      else (Ok (), mc_memdb a)) = (r, m)" by fastforce
  have m: "fs_ok (Suc k) m"
    using rm create_fs_ok [OF assms] fs_ok_less [OF assms, of "Suc k"] by (auto split: if_splits)
  obtain r1 m1 where w: "write_op (me_sq me) path offset 0 mtime data False m = (r1, m1)" by fastforce
  have "fs_ok k m1" using write_fs_ok [OF m w] .
  moreover have "fs_ok k m" using fs_ok_less [OF m] by simp
  ultimately show ?thesis
    unfolding handle_write_def rm by (cases r; cases r1) (simp_all add: w)
qed

lemma deliver_fs_ok:
  assumes ok: "fs_ok (Suc (Suc k)) (mc_memdb a)" and safe: "safe_message (mc_memdb a) msg"
    and op: "mem_deliver_message me nodeid pid msg ts (d, a) = (r, d', a')"
  shows "fs_ok k (mc_memdb a')"
proof -
  have 1: "fs_ok (Suc k) (mc_memdb a)" and 0: "fs_ok k (mc_memdb a)" using fs_ok_less [OF ok] by simp_all
  show ?thesis
  proof (cases msg)
    case (FWrite path offset data)
    then show ?thesis
      using op handle_write_fs_ok [OF ok, of me path offset data "ucast ts"]
      by (auto simp: mem_deliver_message_def Let_def split: prod.splits)
  qed (use op safe 0 mem_fs_ok [OF 1] lock_expired_fs_ok [OF 0] in
      \<open>auto simp: mem_deliver_message_def Let_def handle_create_def handle_mkdir_def handle_delete_def
        handle_rename_def handle_mtime_def handle_unlock_def handle_unlock_request_def
        split: prod.splits res.splits if_splits option.splits\<close>)
qed

section \<open>Handlers\<close>

text \<open>A request that is answered with an outcome, without a panic, and leaves a good state.\<close>

definition answered :: "('db, 'a) fuseop \<Rightarrow> bool" where
  "answered x \<longleftrightarrow> (\<exists>r f'. x = Some (r, f') \<and> r \<noteq> Panic \<and> fs_ok 0 (fs_memdb f'))"

definition good_outcome :: "nat \<Rightarrow> (int, 'a) res \<times> 'db Filesystem \<Rightarrow> bool" where
  "good_outcome k rf \<longleftrightarrow> fst rf \<noteq> Panic \<and> fs_ok k (fs_memdb (snd rf))"

lemma answeredI: "good_outcome 0 rf \<Longrightarrow> answered (Some rf)"
  by (cases rf) (auto simp: answered_def good_outcome_def)

lemma good_simps [simp]:
  "good_outcome k (Ok x, f) \<longleftrightarrow> fs_ok k (fs_memdb f)" "good_outcome k (Err e, f) \<longleftrightarrow> fs_ok k (fs_memdb f)"
  "\<not> good_outcome k (Panic, f)"
  by (simp_all add: good_outcome_def)

lemma good_less: "good_outcome k rf \<Longrightarrow> j \<le> k \<Longrightarrow> good_outcome j rf"
  by (auto simp: good_outcome_def intro: fs_ok_less)

lemma good_local:
  assumes "fst rm \<noteq> Panic" and "fs_ok k (snd rm)"
  shows "good_outcome k (local_result rm f)"
  using assms by (cases rm; cases "fst rm") (auto simp: local_result_def good_outcome_def)

lemma good_created: "good_outcome k rf \<Longrightarrow> good_outcome k (created_entry p rf)"
  by (cases rf; cases "fst rf") (auto simp: created_entry_def split: option.splits)

lemma answered_after:
  assumes "good_outcome 0 rf"
  shows "answered (case rf of
      (Ok _, f') \<Rightarrow> Some (Ok n, f') | (Err e, f') \<Rightarrow> Some (Err e, f') | (Panic, f') \<Rightarrow> Some (Panic, f'))"
  using assms by (cases rf; cases "fst rf") (auto intro: answeredI)

lemma answered_bind_path:
  assumes "fs_ok k m" and "\<And>path. get_path_for_inode m i = Some path \<Longrightarrow> answered (g path)"
  shows "answered (Option.bind (get_path_for_inode m i) g)"
  using get_path_returns [OF assms(1), of i] assms(2) by (metis bind.simps(2))

lemma answered_reply:
  assumes "answered x"
  shows "answered (reply_with k x)"
proof -
  obtain r f' where "x = Some (r, f')" "r \<noteq> Panic" "fs_ok 0 (fs_memdb f')"
    using assms by (auto simp: answered_def)
  then show ?thesis by (cases r) (auto simp: answered_def reply_with_def)
qed

lemma plugin_to_stat_memdb [simp]: "fs_memdb (snd (plugin_to_stat fe ino p f)) = fs_memdb f"
  by (simp add: plugin_to_stat_def Let_def split: prod.splits)

lemma plugin_entries_memdb [simp]: "fs_memdb (snd (plugin_entries fe ps f)) = fs_memdb f"
proof (induction fe ps f rule: plugin_entries.induct)
  case (2 fe idx name rest f)
  show ?case
  proof (cases "registry_get (fs_plugins f) name")
    case (Some p)
    obtain st f1 where 1: "plugin_to_stat fe (PLUGIN_INODE_OFFSET + of_nat idx) p f = (st, f1)" by fastforce
    obtain es f2 where 2: "plugin_entries fe rest f1 = (es, f2)" by fastforce
    have "fs_memdb f1 = fs_memdb f" using plugin_to_stat_memdb 1 by (metis snd_conv)
    moreover have "fs_memdb f2 = fs_memdb f1"
      using "2.IH"(2) [OF Some refl 1 [symmetric]] 2 by simp
    ultimately show ?thesis using Some by (simp add: 1 2)
  qed (simp add: "2.IH"(1))
qed simp

lemma dir_listing_memdb [simp]: "fs_memdb (snd (dir_listing fe ino path entries f)) = fs_memdb f"
  by (auto simp: dir_listing_def Let_def split: prod.splits)
    (metis plugin_entries_memdb snd_conv)

text \<open>Requests as the kernel sends them: a read that does not exceed the range of offsets, a reply
  buffer that does not panic, and a rename that is safe.\<close>

definition sane_request :: "'db fuse_env \<Rightarrow> FuseRequest \<Rightarrow> 'db Filesystem \<Rightarrow> bool" where
  "sane_request fe req f =
     (case req of
        RRead _ offset len \<Rightarrow> unat offset + len < 2 ^ 64
      | RReaddir _ _ \<Rightarrow> (\<forall>acc e. fe_add_entry fe acc e \<noteq> Panic)
      | RRename parent name new_parent new_name \<Rightarrow>
          (\<forall>p q. get_path_for_inode (fs_memdb f) (fuse_to_inode parent) = Some p \<longrightarrow>
                 get_path_for_inode (fs_memdb f) (fuse_to_inode new_parent) = Some q \<longrightarrow>
                 safe_rename (fs_memdb f) (join_path p (from_utf8_lossy name)) (join_path q (from_utf8_lossy new_name)))
      | _ \<Rightarrow> True)"

lemma getattr_answered: "fs_ok 0 (fs_memdb f) \<Longrightarrow> answered (fuse_getattr fe ino f)"
  by (auto simp: fuse_getattr_def Let_def split: option.splits prod.splits
      intro!: answeredI answered_bind_path dest: arg_cong [where f = "\<lambda>x. fs_memdb (snd x)"])

lemma lookup_answered: "fs_ok 0 (fs_memdb f) \<Longrightarrow> answered (fuse_lookup fe parent name f)"
  by (auto simp: fuse_lookup_def Let_def split: option.splits prod.splits
      intro!: answeredI answered_bind_path dest: arg_cong [where f = "\<lambda>x. fs_memdb (snd x)"])

lemma readlink_answered: "fs_ok 0 (fs_memdb f) \<Longrightarrow> answered (fuse_readlink fe ino f)"
  by (auto simp: fuse_readlink_def split: option.splits prod.splits intro!: answeredI)

lemma fill_reply_no_panic:
  "(\<And>acc e. add acc e \<noteq> Panic) \<Longrightarrow> fill_reply add n es acc \<noteq> Panic"
  by (induction add n es acc rule: fill_reply.induct) (auto split: res.splits bool.splits)

lemma readdir_answered:
  assumes ok: "fs_ok 0 (fs_memdb f)" and buf: "\<forall>acc e. fe_add_entry fe acc e \<noteq> Panic"
  shows "answered (fuse_readdir fe ino offset f)"
  unfolding fuse_readdir_def
proof (rule answered_bind_path [OF ok])
  fix path
  show "answered (case readdir (fs_memdb f) path of
         Ok entries \<Rightarrow>
           (case dir_listing fe ino path entries f of
              (all_entries, f1) \<Rightarrow>
                Some (fill_reply (fe_add_entry fe) offset (drop offset all_entries) [], f1))
       | Err _ \<Rightarrow> Some (Err ENOENT, f)
       | Panic \<Rightarrow> Some (Panic, f))"
  proof (cases "readdir (fs_memdb f) path")
    case (Ok entries)
    obtain es f1 where l: "dir_listing fe ino path entries f = (es, f1)" by fastforce
    then have "fs_memdb f1 = fs_memdb f" using dir_listing_memdb by (metis snd_conv)
    moreover have "fill_reply (fe_add_entry fe) offset (drop offset es) [] \<noteq> Panic"
      using buf by (intro fill_reply_no_panic) blast
    ultimately show ?thesis using ok by (simp add: Ok l answered_def)
  next
    case Panic
    then show ?thesis by (auto simp: readdir_def split: option.splits if_splits)
  qed (use ok in \<open>simp add: answered_def\<close>)
qed

lemma read_answered:
  assumes ok: "fs_ok 0 (fs_memdb f)" and len: "unat offset + len < 2 ^ 64"
  shows "answered (fuse_read fe ino offset len f)"
proof (cases "plugin_at f ino")
  case (Some p)
  then show ?thesis using ok len by (auto simp: fuse_read_def answered_def split: prod.splits)
next
  case None
  have "read (fs_memdb f) path offset len \<noteq> Panic" for path
    using len by (auto simp: read_def split: option.splits)
  then show ?thesis
    using None ok
    by (auto simp: fuse_read_def Let_def intro!: answered_bind_path answeredI split: res.splits)
qed

section \<open>Changes\<close>

locale safe_wait =
  fixes fe :: "'db fuse_env"
  assumes wait_keeps: "fs_ok 2 (mc_memdb a) \<Longrightarrow> safe_message (mc_memdb a) msg \<Longrightarrow>
    fe_wait fe msg n (d, a) = (r, d', a') \<Longrightarrow> fs_ok 0 (mc_memdb a')"
begin

lemma good_send:
  assumes "fs_ok 2 (fs_memdb f)" and "safe_message (fs_memdb f) msg"
  shows "good_outcome 0 (send_and_wait fe msg d f)"
proof -
  obtain r n d1 where b: "send_message_sync_begin (me_env (fe_mem fe)) (now32 (fe_mem fe)) msg d = (r, n, d1)"
    by (metis prod.exhaust)
  obtain r' d2 a where w: "fe_wait fe msg n (d1, fs_app f) = (r', d2, a)" by (metis prod.exhaust)
  have "fs_ok 0 (mc_memdb a)" using wait_keeps [OF assms w] .
  moreover have "fs_ok 0 (fs_memdb f)" using fs_ok_less [OF assms(1)] by simp
  ultimately show ?thesis
    by (cases r) (auto simp: send_and_wait_def b w good_outcome_def split: option.splits)
qed

text \<open>One change, through the cluster or to the database directly.\<close>

lemma good_change:
  assumes "fs_ok 2 (fs_memdb f)" and "safe_message (fs_memdb f) msg"
    and "fst rm \<noteq> Panic" and "fs_ok 0 (snd rm)"
  shows "good_outcome 0 (case fs_dfsm f of Some d \<Rightarrow> send_and_wait fe msg d f | None \<Rightarrow> local_result rm f)"
  using good_send [OF assms(1,2)] good_local [OF assms(3,4)] by (cases "fs_dfsm f") auto

lemma write_answered:
  assumes ok: "fs_ok 2 (fs_memdb f)"
  shows "answered (fuse_write fe ino offset data f)"
proof (cases "ino \<ge> PLUGIN_INODE_OFFSET")
  case True
  then show ?thesis
    using fs_ok_less [OF ok]
    by (auto simp: fuse_write_def intro!: answeredI split: option.splits prod.splits res.splits)
next
  case False
  let ?w = "\<lambda>path. write_op (me_sq (fe_mem fe)) path offset 0 (now32 (fe_mem fe)) data False (fs_memdb f)"
  have "good_outcome 0 (local_result (?w path) f)" for path
    by (intro good_local mem_ops_no_panic mem_snd_fs_ok fs_ok_one ok)
  moreover have "good_outcome 0 (send_and_wait fe (FWrite path offset data) d f)" for path d
    using good_send [OF ok] by simp
  ultimately have "answered (case fs_dfsm f of
      Some d \<Rightarrow> (case send_and_wait fe (FWrite path offset data) d f of
                 (Ok _, f') \<Rightarrow> Some (Ok (length data), f')
               | (Err e, f') \<Rightarrow> Some (Err e, f')
               | (Panic, f') \<Rightarrow> Some (Panic, f'))
    | None \<Rightarrow> Some (local_result (?w path) f))" for path
    by (cases "fs_dfsm f") (simp_all add: answeredI answered_after)
  then show ?thesis using False unfolding fuse_write_def by (auto intro!: answered_bind_path [OF ok])
qed

lemma create_answered:
  assumes ok: "fs_ok 2 (fs_memdb f)"
  shows "answered (fuse_mkdir fe parent name mode f)" and "answered (fuse_create fe parent name mode f)"
  unfolding fuse_mkdir_def fuse_create_def Let_def
  by (intro answered_bind_path [OF ok] answeredI good_created good_change [OF ok] mem_ops_no_panic
      mem_snd_fs_ok fs_ok_one [OF ok]; simp)+

lemma delete_answered:
  assumes ok: "fs_ok 2 (fs_memdb f)"
  shows "answered (fuse_rmdir fe parent name f)" and "answered (fuse_unlink fe parent name f)"
proof -
  let ?d = "\<lambda>path. delete (me_sq (fe_mem fe)) path 0 (now32 (fe_mem fe)) (fs_memdb f)"
  have good: "good_outcome 0 (case fs_dfsm f of
      Some d \<Rightarrow> send_and_wait fe (FDelete path) d f | None \<Rightarrow> local_result (?d path) f)" for path
    by (intro good_change [OF ok] mem_ops_no_panic mem_snd_fs_ok fs_ok_one [OF ok]) simp
  have "fs_ok 0 (fs_memdb f)" using fs_ok_less [OF ok] by simp
  with good show "answered (fuse_rmdir fe parent name f)" and "answered (fuse_unlink fe parent name f)"
    unfolding fuse_rmdir_def fuse_unlink_def Let_def
    by (auto intro!: answered_bind_path [OF ok] answeredI)
qed

lemma rename_answered:
  assumes ok: "fs_ok 2 (fs_memdb f)"
    and sane: "sane_request fe (RRename parent name new_parent new_name) f"
  shows "answered (fuse_rename fe parent name new_parent new_name f)"
  unfolding fuse_rename_def Let_def
proof (intro answered_bind_path [OF ok] answeredI good_change [OF ok] mem_ops_no_panic)
  fix p q
  assume "get_path_for_inode (fs_memdb f) (fuse_to_inode parent) = Some p"
    and "get_path_for_inode (fs_memdb f) (fuse_to_inode new_parent) = Some q"
  then have s: "safe_rename (fs_memdb f) (join_path p (from_utf8_lossy name)) (join_path q (from_utf8_lossy new_name))"
    using sane by (simp add: sane_request_def)
  then show "safe_message (fs_memdb f) (FRename (join_path p (from_utf8_lossy name)) (join_path q (from_utf8_lossy new_name)))"
    by simp
  show "fs_ok 0 (snd (rename (me_sq (fe_mem fe)) (join_path p (from_utf8_lossy name))
      (join_path q (from_utf8_lossy new_name)) 0 (now32 (fe_mem fe)) (fs_memdb f)))"
    by (rule mem_snd_fs_ok [OF fs_ok_one [OF ok]]) (rule s)
qed

lemma good_truncate:
  assumes ok: "fs_ok (Suc k) (fs_memdb f)"
  shows "good_outcome k (truncate_file fe path size0 f)"
proof (cases size0)
  case (Some n)
  let ?w = "write_op (me_sq (fe_mem fe)) path 0 0 (now32 (fe_mem fe)) (replicate (unat n) 0) True (fs_memdb f)"
  have "good_outcome k (local_result ?w f)" by (intro good_local mem_ops_no_panic mem_snd_fs_ok ok)
  then show ?thesis
    by (cases "local_result ?w f"; cases "fst (local_result ?w f)") (simp_all add: truncate_file_def Some)
qed (use fs_ok_less [OF ok] in \<open>simp add: truncate_file_def\<close>)

lemma good_unlock:
  assumes ok: "fs_ok (Suc k) (fs_memdb f)"
  shows "good_outcome k (unlock_if_requested fe ino path t f)"
proof -
  let ?me = "fe_mem fe"
  have k: "fs_ok k (fs_memdb f)" using fs_ok_less [OF ok] by simp
  have expire: "good_outcome k (case lock_expired (me_now ?me) path csum (fs_memdb f) of
      (expired, m) \<Rightarrow> if expired then local_result (delete (me_sq ?me) path 0 (now32 ?me) m) f
                       else (Ok (), set_memdb m f))" for csum
  proof -
    obtain b m where l: "lock_expired (me_now ?me) path csum (fs_memdb f) = (b, m)" by fastforce
    have "good_outcome k (local_result (delete (me_sq ?me) path 0 (now32 ?me) m) f)"
      by (intro good_local mem_ops_no_panic mem_snd_fs_ok lock_expired_fs_ok [OF ok l])
    then show ?thesis using lock_expired_fs_ok [OF k l] by (simp add: l)
  qed
  show ?thesis
    using expire k by (simp add: unlock_if_requested_def Let_def split: option.splits)
qed

lemma good_mtime:
  assumes ok: "fs_ok 3 (fs_memdb f)"
  shows "good_outcome 0 (update_mtime fe ino path mtime f)"
proof (cases mtime)
  case None
  then show ?thesis using fs_ok_less [OF ok] by (simp add: update_mtime_def)
next
  case (Some t)
  let ?me = "fe_mem fe"
  obtain r f1 where u: "unlock_if_requested fe ino path t f = (r, f1)" by fastforce
  have "good_outcome 2 (r, f1)" using good_unlock [of 2 f ino path t] ok by (simp add: u eval_nat_numeral)
  then have 1: "fs_ok 2 (fs_memdb f1)" "r \<noteq> Panic" by (simp_all add: good_outcome_def)
  have change: "good_outcome 0 (case fs_dfsm f1 of Some d \<Rightarrow> send_and_wait fe (FMtime path t) d f1
      | None \<Rightarrow> local_result (set_mtime (me_sq ?me) (me_sha ?me) (me_now ?me) path 0 t (fs_memdb f1)) f1)"
    by (intro good_change [OF 1(1)] mem_ops_no_panic mem_snd_fs_ok fs_ok_one [OF 1(1)]) simp
  show ?thesis
  proof (cases r)
    case (Ok x)
    then show ?thesis using change by (simp add: update_mtime_def Some u Let_def)
  next
    case (Err e)
    then show ?thesis using fs_ok_less [OF 1(1)] by (simp add: update_mtime_def Some u Let_def)
  qed (use 1 in simp)
qed

lemma setattr_answered:
  assumes ok: "fs_ok 4 (fs_memdb f)"
  shows "answered (fuse_setattr fe ino size0 mtime mode uid gid f)"
  unfolding fuse_setattr_def Let_def
proof (rule answered_bind_path [OF ok])
  fix path
  let ?ino = "fuse_to_inode ino"
  obtain r1 f1 where 1: "truncate_file fe path size0 f = (r1, f1)" by fastforce
  have t: "good_outcome 3 (r1, f1)" using good_truncate [of 3 f path size0] ok by (simp add: 1 eval_nat_numeral)
  then have ok1: "fs_ok 3 (fs_memdb f1)" "r1 \<noteq> Panic" by (simp_all add: good_outcome_def)
  obtain r2 f2 where 2: "update_mtime fe ?ino path mtime f1 = (r2, f2)" by fastforce
  have m: "good_outcome 0 (r2, f2)" using good_mtime [OF ok1(1), of ?ino path mtime] by (simp add: 2)
  have "fs_ok 0 (fs_memdb f)" "fs_ok 0 (fs_memdb f1)" using ok ok1(1) by (simp_all add: fs_ok_def)
  then show "answered (if \<not> chmod_allowed path mode \<or> \<not> chown_allowed (fs_config f) uid gid then Some (Err EPERM, f)
        else Some
          (case truncate_file fe path size0 f of
             (Ok _, f1) \<Rightarrow>
               (case update_mtime fe ?ino path mtime f1 of
                  (Ok _, f2) \<Rightarrow>
                    (case get_entry_by_inode (fs_memdb f2) ?ino of
                       Some entry \<Rightarrow> (Ok (entry_to_stat f2 entry path), f2)
                     | None \<Rightarrow> (Err ENOENT, f2))
                | (Err e, f2) \<Rightarrow> (Err e, f2)
                | (Panic, f2) \<Rightarrow> (Panic, f2))
           | (Err e, f1) \<Rightarrow> (Err e, f1)
           | (Panic, f1) \<Rightarrow> (Panic, f1)))"
    using t m ok1(2)
    by (cases r1; cases r2) (auto simp: 1 2 intro!: answeredI split: option.splits)
qed

lemma open_answered:
  assumes ok: "fs_ok 4 (fs_memdb f)"
  shows "answered (fuse_open fe ino flags f)"
proof -
  have 0: "fs_ok 0 (fs_memdb f)" using fs_ok_less [OF ok] by simp
  show ?thesis
    using getattr_answered [OF 0] setattr_answered [OF ok] 0
    by (simp add: fuse_open_def split: option.splits) (auto intro: answeredI)
qed

text \<open>Every request is answered and leaves a good state.\<close>

lemma request_answered:
  assumes ok: "fs_ok 4 (fs_memdb f)" and sane: "sane_request fe req f"
  shows "answered (fuse_request fe req f)"
proof -
  have 0: "fs_ok 0 (fs_memdb f)" and 2: "fs_ok 2 (fs_memdb f)" using fs_ok_less [OF ok] by simp_all
  show ?thesis
  proof (cases req)
    case (RReaddir ino offset)
    then show ?thesis using readdir_answered [OF 0] sane by (simp add: answered_reply sane_request_def)
  next
    case (RRead ino offset len)
    then show ?thesis using read_answered [OF 0] sane by (simp add: answered_reply sane_request_def)
  next
    case (RRename p n q k)
    then show ?thesis using rename_answered [OF 2] sane by (simp add: answered_reply)
  qed (simp_all add: answered_reply answeredI 0 lookup_answered [OF 0] getattr_answered [OF 0]
      readlink_answered [OF 0] write_answered [OF 2] create_answered [OF 2] delete_answered [OF 2]
      setattr_answered [OF ok] open_answered [OF ok])
qed

end

section \<open>Attributes\<close>

text \<open>The bits of group and others, of writing, and of others alone.\<close>

definition restricted :: "bool \<Rightarrow> bool \<Rightarrow> bool \<Rightarrow> stat \<Rightarrow> bool" where
  "restricted private dir quorate st \<longleftrightarrow>
     (private \<longrightarrow> st_mode st AND 0x3F = 0) \<and> st_mode st AND 0x12 = 0 \<and>
     (\<not> dir \<longrightarrow> st_mode st AND 7 = 0) \<and> (\<not> quorate \<longrightarrow> st_mode st AND 0x92 = 0) \<and> st_uid st = 0"

lemma entry_stat_restricted:
  "restricted (is_private_path path) (is_dir e) quorate (entry_to_stat_with_quorum gid e path quorate)"
  by (cases "is_dir e"; cases quorate; cases "is_private_path path")
    (simp_all add: restricted_def entry_to_stat_with_quorum_def Let_def S_IFDIR_def S_IFREG_def S_IFMT_def S_IFLNK_def)

lemma join_path_canonical:
  assumes "names_ok ps" and "name \<noteq> []" and "sep \<notin> set name"
  shows "join_path (''/'' @ join_with ''/'' ps) name = ''/'' @ join_with ''/'' (ps @ [name])"
proof -
  have n: "\<not> starts_with name ''/''" using assms(2,3) by (cases name) (auto simp: starts_with_def)
  have snoc: "join_with ''/'' (qs @ [name]) = (if qs = [] then [] else join_with ''/'' qs @ ''/'') @ name" for qs
    by (induction qs) (auto simp: join_with_Cons)
  have "ps \<noteq> [] \<Longrightarrow> join_with ''/'' ps \<noteq> [] \<and> last (join_with ''/'' ps) \<noteq> sep"
    using assms(1) by (induction ps) (auto simp: below_simps below_def dest: last_in_set)
  then show ?thesis
    using n snoc [of ps] by (cases "ps = []") (auto simp: join_path_def path_push_def)
qed

lemma found_or_missing:
  "(case x of Some e \<Rightarrow> Some (Ok (g e), f) | None \<Rightarrow> Some (Err k, f)) = Some (Ok ep, f') \<Longrightarrow>
   \<exists>e. x = Some e \<and> ep = g e \<and> f' = f"
  by (cases x) auto

text \<open>What a successful lookup of a name below a directory finds.\<close>

lemma lookup_found:
  assumes ok: "fs_ok 0 (fs_memdb f)" and w: "walk (db_tree (fs_memdb f)) ps ROOT_INODE = Some p"
    and p: "p < PLUGIN_INODE_OFFSET - 1"
    and name: "name_str = from_utf8_lossy name" "name_str \<noteq> []" "sep \<notin> set name_str"
    and not_plugin: "name_str \<notin> set (registry_list (fs_plugins f))"
    and res: "fuse_lookup fe (inode_to_fuse p) name f = Some (Ok ep, f')"
  obtains e where "f' = f" and "ep = entry_param f e (''/'' @ join_with ''/'' (ps @ [name_str]))"
    and "walk (db_tree (fs_memdb f)) (ps @ [name_str]) ROOT_INODE = Some (te_inode e)"
    and "hm_get (db_index (fs_memdb f)) (te_inode e) = Some e"
proof -
  let ?m = "fs_memdb f" and ?full = "''/'' @ join_with ''/'' (ps @ [name_str])"
  note inv = fs_okD(1) [OF ok]
  have names: "names_ok ps" by (rule walk_names_ok [OF inv w])
  have path: "get_path_for_inode ?m p = Some (''/'' @ join_with ''/'' ps)" by (rule get_path_walk [OF inv w])
  have full: "join_path (''/'' @ join_with ''/'' ps) name_str = ?full"
    by (rule join_path_canonical [OF names name(2,3)])
  have id: "fuse_to_inode (inode_to_fuse p) = p" by (rule fuse_to_inode_to_fuse [OF p])
  have np: "list_position name_str (registry_list (fs_plugins f)) = None"
  proof -
    have "x \<notin> set xs \<Longrightarrow> list_position x xs = None" for x and xs :: "string list" by (induction xs) auto
    then show ?thesis using not_plugin by blast
  qed
  have inode: "hm_get (db_index ?m) p = Some pe \<Longrightarrow> te_inode pe = p" for pe
    using index_invD(2) [OF inv_parts(1) [OF inv]] by blast
  obtain pe where pe: "hm_get (db_index ?m) p = Some pe"
    using res unfolding fuse_lookup_def id Let_def name(1) [symmetric] np get_entry_by_inode_def
    by (cases "hm_get (db_index ?m) p"; cases "p = ROOT_INODE") simp_all
  have "fuse_lookup fe (inode_to_fuse p) name f =
      (case lookup_path ?m full of
         Some entry \<Rightarrow> Some (Ok (entry_param f entry full), f) | None \<Rightarrow> Some (Err ENOENT, f))"
    if "get_path_for_inode ?m p = Some par" "join_path par name_str = full" for par full
    unfolding fuse_lookup_def id Let_def name(1) [symmetric] np get_entry_by_inode_def
    by (cases "p = ROOT_INODE") (use pe inode [OF pe] that in \<open>simp_all split: option.split\<close>)
  from found_or_missing [OF trans [OF this [OF path full, symmetric] res]]
  obtain e where e: "lookup_path ?m ?full = Some e" "ep = entry_param f e ?full" "f' = f" by blast
  have "path_parts ?full = ps @ [name_str]"
    using names name by (simp add: path_parts_join)
  then have "walk (db_tree ?m) (ps @ [name_str]) ROOT_INODE = Some (te_inode e)"
    using walk_lookup [OF inv e(1)] by simp
  then show thesis using that e lookup_index [OF inv e(1)] by blast
qed

section \<open>A message that comes back first\<close>

text \<open>
  The wait of a node whose own message is the next one that it delivers: the state machine handles
  it, and the wait ends with the result that was recorded, if there is one.
\<close>

definition loopback_wait :: "'db mem_env \<Rightarrow> FuseMessage \<Rightarrow> u64 \<Rightarrow> FuseMessage Dfsm \<times> 'db MemDbCallbacks
    \<Rightarrow> int option \<times> FuseMessage Dfsm \<times> 'db MemDbCallbacks" where
  "loopback_wait me msg msg_count da =
     (let d = fst da in
      case handle_dfsm_message (me_env me) (mem_callbacks me) (now32 me) (d_nodeid d) (d_pid d)
             (from_message (now32 me) msg_count msg (d_protocol_version d)) da of
        (_, d', a') \<Rightarrow> (map_option mr_result (find (\<lambda>r. mr_msgcount r = msg_count) (rev (d_results d'))), d', a'))"

definition loopback :: "'db mem_env \<Rightarrow> json_env \<Rightarrow> (dir_entry list \<Rightarrow> dir_entry \<Rightarrow> (int, bool) res) \<Rightarrow> 'db fuse_env" where
  "loopback me js add = \<lparr>fe_mem = me, fe_js = js, fe_wait = loopback_wait me, fe_add_entry = add\<rparr>"

lemma loopback_fs_ok:
  assumes ok: "fs_ok 2 (mc_memdb a)" and safe: "safe_message (mc_memdb a) msg"
    and w: "loopback_wait me msg n (d, a) = (r, d', a')"
  shows "fs_ok 0 (mc_memdb a')"
proof (cases "d_mode d = Synced")
  case True
  obtain r1 d1 a1 where m: "mem_deliver_message me (d_nodeid d) (d_pid d) msg (ucast (now32 me)) (d, a) = (r1, d1, a1)"
    by (metis prod.exhaust)
  have "fs_ok 0 (mc_memdb a1)" using deliver_fs_ok [OF _ safe m, of 0] ok by (simp add: eval_nat_numeral)
  moreover have "a' = a1"
    using w True m
    by (cases r1) (auto simp: loopback_wait_def Let_def handle_dfsm_message_def from_message_def
        handle_normal_message_def deliver_one_def mem_callbacks_def)
  ultimately show ?thesis by simp
next
  case False
  then have "a' = a"
    using w by (simp add: loopback_wait_def Let_def handle_dfsm_message_def from_message_def handle_normal_message_def)
  then show ?thesis using fs_ok_less [OF ok] by simp
qed

interpretation loop: safe_wait "loopback me js add" for me js add
  by unfold_locales (use loopback_fs_ok in \<open>fastforce simp: loopback_def\<close>)

end
