(* ===== verification/Fuse_Props.thy ===== *)
theory Fuse_Props
  imports Fuse_Inv Replica_Props
begin

text \<open>
  The properties of the FUSE front end. The witnesses run on the sample databases, without a cluster
  or with a cluster in which the messages of the node come back to it.
\<close>

section \<open>Samples\<close>

definition sample_js :: json_env where
  "sample_js = \<lparr>js_string = (\<lambda>_. ''{}''), js_pretty = (\<lambda>_. Some ''{}'')\<rparr>"

definition sample_config :: Config where
  "sample_config = config_new ''n'' ''10.0.0.1'' 33 False False ''c''"

definition sample_fuse :: "row list fuse_env" where
  "sample_fuse = loopback (sample_me 100) sample_js (\<lambda>_ _. Ok True)"

definition sample_fs :: "row list MemDb \<Rightarrow> row list Filesystem" where
  "sample_fs m = \<lparr>fs_app = sample_app m, fs_dfsm = None, fs_plugins = init_plugins sample_config,
                  fs_config = sample_config\<rparr>"

definition sample_cluster :: "row list MemDb \<Rightarrow> row list Filesystem" where
  "sample_cluster m = (sample_fs m)\<lparr>fs_dfsm := Some (sample_machine\<lparr>d_mode := Synced\<rparr>)\<rparr>"

lemma sample_memdb [simp]: "fs_memdb (sample_fs m) = m" "fs_memdb (sample_cluster m) = m"
  by (simp_all add: sample_fs_def sample_cluster_def sample_app_def)

lemma sample_rooted: "rooted sample_db" "rooted sample_dir" "rooted sample_empty" "rooted sample_full"
proof -
  have "map fst (db_index sample_db) = [ROOT_INODE]" by code_simp
  then have "hm_get (db_index sample_db) i \<noteq> None \<Longrightarrow> i = ROOT_INODE" for i
    by (auto simp: hm_get_def map_of_eq_None_iff simp flip: set_map)
  then show 0: "rooted sample_db" by (metis rooted_def walk.simps(1))
  show 1: "rooted sample_dir" using create_rooted [OF _ _ 0 sample_ops(1)] by simp
  show 2: "rooted sample_empty" using create_rooted [OF _ _ 1 sample_ops(2)] by simp
  show "rooted sample_full" using write_rooted [OF _ 2 sample_ops(3)] by simp
qed

lemma sample_fs_ok: "fs_ok 4 sample_full" "fs_ok 4 sample_dir"
  by (simp_all add: fs_ok_def sample_rooted sample_versions)

lemma sample_safe_wait: "safe_wait sample_fuse"
  unfolding sample_fuse_def by (rule loop.safe_wait_axioms)

section \<open>Requests\<close>



text \<open>
  C35. Renaming a directory into its own subtree is not refused by the database. Afterwards the parents
  of the directory form a cycle, the loop that computes the path of its inode does not end, and a
  request for its attributes is never answered.
\<close>

theorem rename_into_subtree_hangs:
  assumes "memdb_inv m" and "rename_safe m old_path new_path"
    and "strict_prefix (path_parts old_path) (path_parts new_path)"
    and "rename sq old_path new_path writer mtime m = (Ok (), fs_memdb f)"
    and "lookup_path m old_path = Some e" and "te_inode e < PLUGIN_INODE_OFFSET - 1"
  shows "get_path_for_inode (fs_memdb f) (te_inode e) = None \<and>
    fuse_getattr fe (inode_to_fuse (te_inode e)) f = None"
proof -
  have p: "get_path_for_inode (fs_memdb f) (te_inode e) = None" by (rule rename_cycle [OF assms(1-5)])
  then have "get_entry_by_inode (fs_memdb f) (te_inode e) \<noteq> None"
    using get_path_missing by (fastforce simp: get_entry_by_inode_def)
  then show ?thesis
    using p fuse_to_inode_to_fuse [OF assms(6)]
    by (auto simp: fuse_getattr_def plugin_at_def split: option.splits)
qed

theorem rename_into_subtree_hangs_witness:
  "fuse_getattr sample_fuse 3 (sample_fs (snd (rename list_sqlite ''/priv'' ''/priv/x'' 0 9 sample_dir))) = None"
proof -
  let ?f = "sample_fs (snd (rename list_sqlite ''/priv'' ''/priv/x'' 0 9 sample_dir))"
  have "fst (rename list_sqlite ''/priv'' ''/priv/x'' 0 9 sample_dir) = Ok ()" by code_simp
  then have op: "rename list_sqlite ''/priv'' ''/priv/x'' 0 9 sample_dir = (Ok (), fs_memdb ?f)"
    by (simp add: prod_eq_iff)
  have "map_option te_inode (lookup_path sample_dir ''/priv'') = Some 2" by code_simp
  then obtain e where e: "lookup_path sample_dir ''/priv'' = Some e" "te_inode e = 2" by auto
  have safe: "rename_safe sample_dir ''/priv'' ''/priv/x''" by code_simp
  have down: "strict_prefix (path_parts ''/priv'') (path_parts ''/priv/x'')" by code_simp
  have "te_inode e < PLUGIN_INODE_OFFSET - 1" "inode_to_fuse (te_inode e) = 3"
    by (simp_all add: e PLUGIN_INODE_OFFSET_def inode_to_fuse_def)
  then show ?thesis using rename_into_subtree_hangs [OF _ safe down op e(1)] by simp
qed

section \<open>Attributes and identifiers\<close>

lemma plugin_at_small:
  "i < PLUGIN_INODE_OFFSET - 1 \<Longrightarrow> plugin_at f (inode_to_fuse i) = None"
  using fuse_to_inode_to_fuse(2) [of i] by (simp add: plugin_at_def not_le [symmetric])

lemma small_inode:
  assumes "inode_to_fuse i < PLUGIN_INODE_OFFSET"
  shows "i < PLUGIN_INODE_OFFSET - 1"
proof -
  have i: "i < 1000000" "i + 1 < 1000000"
    using assms by (auto simp: inode_to_fuse_def PLUGIN_INODE_OFFSET_def split: if_splits)
  then have "unat (i + 1) = unat i + 1"
    by (simp add: unat_word_ariths word_less_nat_alt)
  then show ?thesis using i(2) by (simp add: PLUGIN_INODE_OFFSET_def word_less_nat_alt)
qed

lemma getattr_entry:
  assumes "i < PLUGIN_INODE_OFFSET - 1" and "hm_get (db_index (fs_memdb f)) i = Some e"
    and "get_path_for_inode (fs_memdb f) i = Some path"
  shows "fuse_getattr fe (inode_to_fuse i) f = Some (Ok (entry_to_stat f e path), f)"
  using plugin_at_small [OF assms(1), of f] fuse_to_inode_to_fuse(1) [OF assms(1)] assms(2,3)
  by (simp add: fuse_getattr_def get_entry_by_inode_def)



text \<open>
  Identifiers: the identifier that a lookup returns names the entry that was found, as long as its
  inode is below 999999: a request for its attributes returns those of the lookup, and reading it is
  reading the path in the database.
\<close>

theorem lookup_identifies_entry:
  assumes ok: "fs_ok 0 (fs_memdb f)" and w: "walk (db_tree (fs_memdb f)) ps ROOT_INODE = Some p"
    and p: "p < PLUGIN_INODE_OFFSET - 1"
    and name: "from_utf8_lossy name \<noteq> []" "sep \<notin> set (from_utf8_lossy name)"
    and not_plugin: "from_utf8_lossy name \<notin> set (registry_list (fs_plugins f))"
    and res: "fuse_lookup fe (inode_to_fuse p) name f = Some (Ok ep, f')"
    and small: "ep_inode ep < PLUGIN_INODE_OFFSET"
  shows "fuse_getattr fe (ep_inode ep) f = Some (Ok (ep_attr ep), f) \<and>
    fuse_read fe (ep_inode ep) offset len f =
      Some (case read (fs_memdb f) (''/'' @ join_with ''/'' (ps @ [from_utf8_lossy name])) offset len of
              Ok data \<Rightarrow> Ok data | Err _ \<Rightarrow> Err ENOENT | Panic \<Rightarrow> Panic, f)"
proof -
  let ?n = "from_utf8_lossy name"
  note inv = fs_okD(1) [OF ok]
  obtain e where e: "ep = entry_param f e (''/'' @ join_with ''/'' (ps @ [?n]))"
      "walk (db_tree (fs_memdb f)) (ps @ [?n]) ROOT_INODE = Some (te_inode e)"
      "hm_get (db_index (fs_memdb f)) (te_inode e) = Some e"
    by (rule lookup_found [OF ok w p refl name not_plugin res])
  have i: "te_inode e < PLUGIN_INODE_OFFSET - 1" by (rule small_inode) (use small e(1) in \<open>simp add: entry_param_def\<close>)
  note path = get_path_walk [OF inv e(2)]
  have "te_inode e \<noteq> ROOT_INODE" using walk_to_root [OF inv_parts(2) [OF inv], of "ps @ [?n]"] e(2) by auto
  then show ?thesis
    using getattr_entry [OF i e(3) path] path plugin_at_small [OF i, of f] fuse_to_inode_to_fuse(1) [OF i]
    by (simp add: e(1) entry_param_def fuse_read_def)
qed

theorem lookup_identifies_entry_witness:
  "\<exists>ep. fuse_lookup sample_fuse 3 [102] (sample_fs sample_full) = Some (Ok ep, sample_fs sample_full) \<and>
     fuse_getattr sample_fuse (ep_inode ep) (sample_fs sample_full) = Some (Ok (ep_attr ep), sample_fs sample_full) \<and>
     fuse_read sample_fuse (ep_inode ep) 1 5 (sample_fs sample_full) = Some (Ok [2, 3], sample_fs sample_full)"
proof -
  let ?f = "sample_fs sample_full"
  have ok: "fs_ok 0 (fs_memdb ?f)" using fs_ok_less [OF sample_fs_ok(1)] by simp
  have w: "walk (db_tree (fs_memdb ?f)) [''priv''] ROOT_INODE = Some 2" unfolding sample_memdb by code_simp
  have p: "(2 :: u64) < PLUGIN_INODE_OFFSET - 1" by (simp add: PLUGIN_INODE_OFFSET_def)
  have id: "inode_to_fuse 2 = 3" by (simp add: inode_to_fuse_def PLUGIN_INODE_OFFSET_def)
  have name: "from_utf8_lossy [102] = ''f''" by code_simp
  have np: "''f'' \<notin> set (registry_list (fs_plugins ?f))" by code_simp
  have "(case lookup_path sample_full ''/priv/f'' of Some e \<Rightarrow> te_inode e = 3 | None \<Rightarrow> False)" by code_simp
  then obtain e where e: "lookup_path sample_full ''/priv/f'' = Some e" "te_inode e = 3" by (auto split: option.splits)
  have path: "get_path_for_inode (fs_memdb ?f) 2 = Some ''/priv''"
    using get_path_walk [OF fs_okD(1) [OF ok] w] by simp
  have ent: "(case get_entry_by_inode sample_full 2 of Some pe \<Rightarrow> te_inode pe = 2 | None \<Rightarrow> False)" by code_simp
  have join: "join_path ''/priv'' ''f'' = ''/priv/f''" by code_simp
  have res: "fuse_lookup sample_fuse (inode_to_fuse 2) [102] ?f = Some (Ok (entry_param ?f e ''/priv/f''), ?f)"
    using ent path e(1)
    by (auto simp: fuse_lookup_def fuse_to_inode_to_fuse(1) [OF p] name join ROOT_INODE_def split: option.splits)
  have small: "ep_inode (entry_param ?f e ''/priv/f'') < PLUGIN_INODE_OFFSET"
    by (simp add: entry_param_def e inode_to_fuse_def PLUGIN_INODE_OFFSET_def)
  have rd: "read sample_full ''/priv/f'' 1 5 = Ok [2, 3]" by code_simp
  show ?thesis
    using lookup_identifies_entry [OF ok w p _ _ _ res small, of 1 5] res np rd
    by (auto simp: name id)
qed

text \<open>
  Inodes are numbers of changes, so after enough changes new entries have inodes from 999999 on,
  which are the identifiers of the plugins or above them. Such an entry can be found, but never be
  written: a write does not change the database and sends no message, and it fails unless the identifier
  is that of a plugin, which then gets the data.
\<close>

theorem large_inodes_are_unwritable:
  assumes "memdb_inv m" and "no_wrap m" and "db_version m \<ge> PLUGIN_INODE_OFFSET - 2"
    and "create sq sha now path mode writer mtime m = (Ok (), fs_memdb f)"
  shows "\<exists>e. lookup_path (fs_memdb f) path = Some e \<and>
    (\<forall>offset data. \<exists>r f'. fuse_write fe (inode_to_fuse (te_inode e)) offset data f = Some (r, f') \<and>
       fs_memdb f' = fs_memdb f \<and> fs_dfsm f' = fs_dfsm f \<and>
       (plugin_at f (inode_to_fuse (te_inode e)) = None \<longrightarrow> r = Err ENOENT))"
proof -
  obtain e where e: "lookup_path (fs_memdb f) path = Some e" "te_inode e = db_version m + 1"
    by (rule created_inode [OF assms(1,2,4)])
  have "unat (db_version m + 1) = unat (db_version m) + 1"
    using assms(2) unatSuc [of "db_version m"] by (simp add: no_wrap_def add.commute)
  then have "inode_to_fuse (te_inode e) \<ge> PLUGIN_INODE_OFFSET"
    using assms(3) e(2) small_inode [of "te_inode e"]
    by (auto simp: PLUGIN_INODE_OFFSET_def word_le_nat_alt word_less_nat_alt not_le [symmetric] simp del: not_le)
  then have "\<exists>r f'. fuse_write fe (inode_to_fuse (te_inode e)) offset data f = Some (r, f') \<and>
      fs_memdb f' = fs_memdb f \<and> fs_dfsm f' = fs_dfsm f \<and>
      (plugin_at f (inode_to_fuse (te_inode e)) = None \<longrightarrow> r = Err ENOENT)" for offset data
    by (auto simp: fuse_write_def split: option.split prod.split res.split)
  then show ?thesis using e(1) by blast
qed

theorem large_inodes_are_unwritable_witness:
  "\<exists>f e. lookup_path (fs_memdb f) ''/a'' = Some e \<and> te_inode e = 1000010 \<and>
     fuse_write sample_fuse (inode_to_fuse (te_inode e)) 0 [1] f = Some (Err ENOENT, f)"
proof -
  let ?m = "sample_db\<lparr>db_version := 1000009\<rparr>"
  let ?c = "create list_sqlite sample_sha 0 ''/a'' 0x8000 1 2 ?m"
  have inv: "memdb_inv ?m"
    using sample_inv(1) index_inv_mono [of "db_version sample_db"] by (auto simp: memdb_inv_def sample_versions)
  have nw: "no_wrap ?m" by (simp add: no_wrap_def)
  have v: "db_version ?m \<ge> PLUGIN_INODE_OFFSET - 2" by (simp add: PLUGIN_INODE_OFFSET_def)
  have "fst ?c = Ok ()" by code_simp
  then have op: "?c = (Ok (), fs_memdb (sample_fs (snd ?c)))" by (simp add: prod_eq_iff)
  have "map_option te_inode (lookup_path (snd ?c) ''/a'') = Some 1000010" by code_simp
  then have i: "lookup_path (snd ?c) ''/a'' = Some e \<Longrightarrow> te_inode e = 1000010" for e by simp
  have id: "inode_to_fuse 1000010 = 1000010" by (simp add: inode_to_fuse_def PLUGIN_INODE_OFFSET_def)
  have pl: "plugin_at (sample_fs (snd ?c)) 1000010 = None" by code_simp
  obtain e where e: "lookup_path (snd ?c) ''/a'' = Some e"
      "\<exists>r f'. fuse_write sample_fuse 1000010 0 [1] (sample_fs (snd ?c)) = Some (r, f') \<and> r = Err ENOENT"
    using large_inodes_are_unwritable [OF inv nw v op, of sample_fuse] i pl unfolding sample_memdb
    by (auto simp: id dest!: spec [of _ "0 :: u64"] spec [of _ "[1] :: byte list"])
  then obtain f' where f': "fuse_write sample_fuse 1000010 0 [1] (sample_fs (snd ?c)) = Some (Err ENOENT, f')" by auto
  have "f' = sample_fs (snd ?c)" using f' pl by (simp add: fuse_write_def PLUGIN_INODE_OFFSET_def)
  then show ?thesis
    using e(1) f' i [OF e(1)] by (intro exI [of _ "sample_fs (snd ?c)"] exI [of _ e]) (simp add: id)
qed

lemma root_path: "get_path_for_inode m (fuse_to_inode 1) = Some ''/''"
  by (simp add: fuse_to_inode_def PLUGIN_INODE_OFFSET_def get_path_for_inode_def ROOT_INODE_def word_le_nat_alt)

text \<open>
  An inode that is not in the database, such as that of a directory which was removed meanwhile, is
  taken for the root: creating, making a directory and removing below it act on the root directory.
\<close>

theorem stale_parent_is_root:
  assumes "hm_get (db_index (fs_memdb f)) (fuse_to_inode ino) = None"
  shows "fuse_create fe ino name mode f = fuse_create fe 1 name mode f \<and>
    fuse_mkdir fe ino name mode f = fuse_mkdir fe 1 name mode f \<and>
    fuse_rmdir fe ino name f = fuse_rmdir fe 1 name f"
proof -
  have "get_path_for_inode (fs_memdb f) (fuse_to_inode ino) = Some ''/''" 
    using get_path_missing [OF assms] .
  then show ?thesis by (simp add: root_path fuse_create_def fuse_mkdir_def fuse_rmdir_def)
qed

theorem stale_parent_is_root_witness:
  "\<exists>ep f'. fuse_mkdir sample_fuse 9 [120] 0 (sample_fs sample_full) = Some (Ok ep, f') \<and>
     path_exists (fs_memdb f') ''/x''"
proof -
  let ?f = "sample_fs sample_full"
  have "hm_get (db_index sample_full) 8 = None" by code_simp
  then have "hm_get (db_index (fs_memdb ?f)) (fuse_to_inode 9) = None"
    by (simp add: fuse_to_inode_def PLUGIN_INODE_OFFSET_def)
  from stale_parent_is_root [OF this]
  have stale: "fuse_mkdir sample_fuse 9 [120] 0 ?f = fuse_mkdir sample_fuse 1 [120] 0 ?f" by simp
  let ?c = "create list_sqlite sample_sha 100 ''/x'' 0x4000 0 100 sample_full"
  have c: "fst ?c = Ok ()" "path_exists (snd ?c) ''/x''" by code_simp+
  have name: "join_path ''/'' (from_utf8_lossy [120]) = ''/x''" by code_simp
  have env: "me_sq (fe_mem sample_fuse) = list_sqlite" "me_sha (fe_mem sample_fuse) = sample_sha"
      "fe_now sample_fuse = 100" "now32 (fe_mem sample_fuse) = 100"
    by (simp_all add: sample_fuse_def loopback_def sample_me_def)
  have "fs_dfsm ?f = None" by (simp add: sample_fs_def)
  then have "fuse_mkdir sample_fuse 1 [120] 0 ?f =
      Some (created_entry ''/x'' (local_result ?c ?f))"
    by (simp add: fuse_mkdir_def root_path name env S_IFDIR_def Let_def)
  moreover have "\<exists>ep f'. created_entry ''/x'' (local_result ?c ?f) = (Ok ep, f') \<and> path_exists (fs_memdb f') ''/x''"
    using c by (cases ?c) (auto simp: created_entry_def local_result_def path_exists_def split: option.splits)
  ultimately show ?thesis using stale by auto
qed

section \<open>Listing a directory\<close>

text \<open>A client that asks for further entries from the offset of the last one, until there are none.\<close>

fun read_pages :: "'db fuse_env \<Rightarrow> u64 \<Rightarrow> nat \<Rightarrow> nat \<Rightarrow> 'db Filesystem \<Rightarrow> string list" where
  "read_pages fe ino 0 offset f = []"
| "read_pages fe ino (Suc n) offset f =
    (case fuse_readdir fe ino offset f of
       Some (Ok es, f') \<Rightarrow> if es = [] then [] else map fst es @ read_pages fe ino n (snd (snd (last es))) f'
     | _ \<Rightarrow> [])"

lemma fill_reply_prefix:
  assumes add: "\<And>acc e. \<exists>b. add acc e = Ok b"
  shows "\<exists>es. fill_reply add next xs acc = Ok (acc @ es) \<and> length es \<le> length xs \<and>
    map fst es = map (snd \<circ> snd) (take (length es) xs) \<and>
    (es \<noteq> [] \<longrightarrow> snd (snd (last es)) = next + length es)"
proof (induction xs arbitrary: "next" acc)
  case (Cons x xs)
  obtain i st name where x: "x = (i, st, name)" by (cases x)
  obtain b where b: "add acc (name, st, next + 1) = Ok b" using add by blast
  show ?case
  proof (cases b)
    case True
    obtain es where es: "fill_reply add (next + 1) xs (acc @ [(name, st, next + 1)]) = Ok ((acc @ [(name, st, next + 1)]) @ es)"
        "length es \<le> length xs" "map fst es = map (snd \<circ> snd) (take (length es) xs)"
        "es \<noteq> [] \<longrightarrow> snd (snd (last es)) = next + 1 + length es"
      using Cons.IH by blast
    then show ?thesis using b True x by (intro exI [of _ "(name, st, next + 1) # es"]) auto
  next
    case False
    then show ?thesis using b x by (intro exI [of _ "[]"]) auto
  qed
qed simp

lemma fill_reply_progress:
  assumes "\<And>e. add [] e = Ok True" and "fill_reply add next xs [] = Ok es" and "xs \<noteq> []"
    and "\<And>acc e. \<exists>b. add acc e = Ok b"
  shows "es \<noteq> []"
proof -
  obtain i st name ys where x: "xs = (i, st, name) # ys" using assms(3) by (cases xs) auto
  then have "fill_reply add (next + 1) ys [(name, st, next + 1)] = Ok es" using assms(1,2) by simp
  then show ?thesis using fill_reply_prefix [where add = add, OF assms(4)] by (metis append_is_Nil_conv not_Cons_self2 res.inject(1))
qed

lemma plugin_to_stat_plugins [simp]: "fs_plugins (snd (plugin_to_stat fe ino p f)) = fs_plugins f"
  by (simp add: plugin_to_stat_def Let_def split: prod.splits)

lemma plugin_entries_names:
  assumes "\<And>i n. (i, n) \<in> set ps \<Longrightarrow> registry_get (fs_plugins f) n \<noteq> None"
  shows "map (snd \<circ> snd) (fst (plugin_entries fe ps f)) = map snd ps \<and>
    fs_plugins (snd (plugin_entries fe ps f)) = fs_plugins f"
  using assms
proof (induction ps arbitrary: f)
  case (Cons x ps)
  obtain idx name where x: "x = (idx, name)" by fastforce
  obtain p where p: "registry_get (fs_plugins f) name = Some p" using Cons.prems [of idx name] x by auto
  obtain st f1 where 1: "plugin_to_stat fe (PLUGIN_INODE_OFFSET + of_nat idx) p f = (st, f1)" by fastforce
  have same: "fs_plugins f1 = fs_plugins f" using plugin_to_stat_plugins 1 by (metis snd_conv)
  then have "registry_get (fs_plugins f1) n \<noteq> None" if "(i, n) \<in> set ps" for i n
    using Cons.prems [of i n] that by simp
  note IH = Cons.IH [OF this]
  obtain es f2 where 2: "plugin_entries fe ps f1 = (es, f2)" by fastforce
  have "plugin_entries fe (x # ps) f = ((PLUGIN_INODE_OFFSET + of_nat idx, st, name) # es, f2)"
    by (simp add: x p 1 2)
  then show ?case using IH same by (simp add: x 2)
qed simp

definition listed_names :: "'db Filesystem \<Rightarrow> u64 \<Rightarrow> TreeEntry list \<Rightarrow> string list" where
  "listed_names f ino entries =
     [''.'', ''..''] @ (if ino = ROOT_INODE then registry_list (fs_plugins f) else []) @ map te_name entries"

lemma dir_listing_names:
  assumes "get_entry_by_inode (fs_memdb f) (fuse_to_inode ino) \<noteq> None"
  shows "map (snd \<circ> snd) (fst (dir_listing fe ino path entries f)) = listed_names f (fuse_to_inode ino) entries"
    and "fs_plugins (snd (dir_listing fe ino path entries f)) = fs_plugins f"
proof -
  have "registry_get (fs_plugins f) n \<noteq> None" if "(i, n) \<in> set (enumerate 0 (registry_list (fs_plugins f)))" for i n
    using that registry_list_get [of i] by (auto simp: in_set_enumerate_eq)
  from plugin_entries_names [where ps = "enumerate 0 (registry_list (fs_plugins f))" and fe = fe, OF this] assms
  show "map (snd \<circ> snd) (fst (dir_listing fe ino path entries f)) = listed_names f (fuse_to_inode ino) entries"
    and "fs_plugins (snd (dir_listing fe ino path entries f)) = fs_plugins f"
    by (auto simp: dir_listing_def listed_names_def Let_def comp_def split: prod.split option.split)
qed

lemma read_pages_from:
  assumes add: "\<And>acc e. \<exists>b. fe_add_entry fe acc e = Ok b" "\<And>e. fe_add_entry fe [] e = Ok True"
    and path: "get_path_for_inode m (fuse_to_inode ino) = Some path" and es: "readdir m path = Ok entries"
    and dir: "get_entry_by_inode m (fuse_to_inode ino) \<noteq> None"
  shows "fs_memdb f = m \<Longrightarrow> n + offset > length (listed_names f (fuse_to_inode ino) entries) \<Longrightarrow>
    read_pages fe ino n offset f = drop offset (listed_names f (fuse_to_inode ino) entries)"
proof (induction n arbitrary: offset f)
  case (Suc n)
  let ?names = "listed_names f (fuse_to_inode ino) entries"
  obtain all f1 where l: "dir_listing fe ino path entries f = (all, f1)" by fastforce
  have names: "map (snd \<circ> snd) all = ?names" and pl: "fs_plugins f1 = fs_plugins f" and m: "fs_memdb f1 = m"
    using dir_listing_names [of f ino fe path entries] dir_listing_memdb [of fe ino path entries f] dir Suc.prems(1) l
    by auto
  obtain es where r: "fill_reply (fe_add_entry fe) offset (drop offset all) [] = Ok es"
      "map fst es = map (snd \<circ> snd) (take (length es) (drop offset all))"
      "es \<noteq> [] \<longrightarrow> snd (snd (last es)) = offset + length es"
    using fill_reply_prefix [where add = "fe_add_entry fe", OF add(1), of offset "drop offset all" "[]"] by auto
  have rd: "fuse_readdir fe ino offset f = Some (Ok es, f1)"
    using path \<open>readdir m path = Ok entries\<close> Suc.prems(1) l r(1) by (simp add: fuse_readdir_def)
  have fst_es: "map fst es = take (length es) (drop offset ?names)"
    using r(2) names by (metis drop_map take_map)
  show ?case
  proof (cases "es = []")
    case True
    then have "drop offset all = []" using fill_reply_progress [OF add(2) r(1) _ add(1)] by blast
    then have "drop offset ?names = []" using names by (metis drop_map map_is_Nil_conv)
    then show ?thesis using rd True by simp
  next
    case False
    have same: "listed_names f1 (fuse_to_inode ino) entries = ?names" by (simp add: listed_names_def pl)
    have "n + (offset + length es) > length ?names" using Suc.prems(2) False by (cases es) simp_all
    from Suc.IH [OF m, unfolded same, OF this]
    have "read_pages fe ino n (offset + length es) f1 = drop (length es) (drop offset ?names)"
      by (simp add: add.commute)
    then show ?thesis using rd False r(3) by (simp add: fst_es del: drop_drop)
  qed
qed simp

text \<open>
  C22. A client that reads a directory page by page, always asking from the offset of the last entry it
  got, sees every entry once, provided that each reply has room for one entry: the two dots, in the root
  the plugins, and then the names below the directory, none missing and none twice.
\<close>

theorem pages_list_directory:
  assumes ok: "fs_ok 0 (fs_memdb f)"
    and w: "walk (db_tree (fs_memdb f)) ps ROOT_INODE = Some (fuse_to_inode ino)"
    and dir: "hm_get (db_index (fs_memdb f)) (fuse_to_inode ino) = Some e" "is_dir e"
    and add: "\<forall>acc x. \<exists>b. fe_add_entry fe acc x = Ok b" "\<forall>x. fe_add_entry fe [] x = Ok True"
  shows "\<exists>names. distinct names \<and> set names = {n. abs_fs (fs_memdb f) (ps @ [n]) \<noteq> None} \<and>
    (\<forall>k > 2 + length (registry_list (fs_plugins f)) + length names.
       read_pages fe ino k 0 f =
         [''.'', ''..''] @ (if ps = [] then registry_list (fs_plugins f) else []) @ names)"
proof -
  let ?m = "fs_memdb f" and ?path = "''/'' @ join_with ''/'' ps"
  note inv = fs_okD(1) [OF ok]
  have names_ps: "names_ok ps" by (rule walk_names_ok [OF inv w])
  have look: "lookup_path ?m ?path = Some e" and vp: "view_path ?path = ps"
    using w dir(1) inv names_ps by (simp_all add: lookup_path_view fs_view_def path_parts_join view_path_def)
  obtain es where es: "readdir ?m ?path = Ok es" "distinct (map te_inode es)"
      "set es = {c. \<exists>n. fs_view ?m (ps @ [n]) = Some c}"
    using readdir_entries [OF inv look dir(2)] vp by auto
  have name: "te_name c = n" if "fs_view ?m (ps @ [n]) = Some c" for n c
    using that tree_invD(2) [OF inv_parts(2) [OF inv]] inv
    by (fastforce simp: fs_view_def walk_snoc bind_eq_Some_conv)
  have "inj_on te_name (set es)" using es(3) name by (intro inj_onI) fastforce
  moreover have "distinct es" using es(2) by (metis distinct_map)
  ultimately have d: "distinct (map te_name es)" by (simp add: distinct_map)
  have s: "set (map te_name es) = {n. abs_fs ?m (ps @ [n]) \<noteq> None}"
    using es(3) name by (fastforce simp: abs_fs_def)
  have root: "ps = [] \<longleftrightarrow> fuse_to_inode ino = ROOT_INODE"
    using w walk_to_root [OF inv_parts(2) [OF inv], of ps] by auto
  have "read_pages fe ino k 0 f = drop 0 (listed_names f (fuse_to_inode ino) es)"
    if "k > 2 + length (registry_list (fs_plugins f)) + length (map te_name es)" for k
    by (rule read_pages_from [OF _ _ get_path_walk [OF inv w] es(1) _ refl])
      (use add dir that in \<open>auto simp: listed_names_def get_entry_by_inode_def\<close>)
  then show ?thesis using d s by (intro exI [of _ "map te_name es"]) (simp add: listed_names_def root)
qed

theorem pages_list_directory_witness:
  "read_pages sample_fuse 3 20 0 (sample_fs sample_full) = [''.'', ''..'', ''f'']"
proof -
  let ?f = "sample_fs sample_full"
  have ok: "fs_ok 0 (fs_memdb ?f)" using fs_ok_less [OF sample_fs_ok(1)] by simp
  have id: "fuse_to_inode 3 = 2" by (simp add: fuse_to_inode_def PLUGIN_INODE_OFFSET_def)
  have w: "walk (db_tree (fs_memdb ?f)) [''priv''] ROOT_INODE = Some (fuse_to_inode 3)"
    unfolding sample_memdb id by code_simp
  have "map_option is_dir (hm_get (db_index sample_full) 2) = Some True" by code_simp
  then obtain e where e: "hm_get (db_index (fs_memdb ?f)) (fuse_to_inode 3) = Some e" "is_dir e" by (auto simp: id)
  have add: "\<forall>acc x. \<exists>b. fe_add_entry sample_fuse acc x = Ok b" "\<forall>x. fe_add_entry sample_fuse [] x = Ok True"
    by (auto simp: sample_fuse_def loopback_def)
  have regs: "length (registry_list (fs_plugins ?f)) = 10" by code_simp
  obtain names where names: "distinct names" "set names = {n. abs_fs sample_full ([''priv''] @ [n]) \<noteq> None}"
      "\<forall>k > 12 + length names. read_pages sample_fuse 3 k 0 ?f = [''.'', ''..''] @ names"
    using pages_list_directory [OF ok w e add] unfolding regs by auto
  have t: "map_option (map fst) (hm_get (db_tree sample_full) 2) = Some [''f'']"
      "abs_fs sample_full [''priv'', ''f''] \<noteq> None" "walk (db_tree sample_full) [''priv''] ROOT_INODE = Some 2"
    by code_simp+
  have "walk (db_tree sample_full) [''priv'', n] ROOT_INODE = child (db_tree sample_full) 2 n" for n
    using walk_snoc [of "db_tree sample_full" "[''priv'']" n ROOT_INODE] t(3) by simp
  moreover have "child (db_tree sample_full) 2 n \<noteq> None \<Longrightarrow> n = ''f''" for n
    using t(1) by (auto simp: child_def hm_get_def split: if_splits)
  ultimately have "abs_fs sample_full [''priv'', n] \<noteq> None \<longleftrightarrow> n = ''f''" for n
    using t(2) sample_inv(4) unfolding memdb_inv_def abs_fs_walk by (metis bind.bind_lunit bind_eq_None_conv)
  then have "set names = {''f''}" using names(2) by simp
  then have "names = [''f'']" using names(1) by (cases names; cases "tl names") auto
  then show ?thesis using names(3) by simp
qed

section \<open>Truncation\<close>

text \<open>
  Changing the size of a file overwrites its whole content with zeros, also the part that should be
  kept, and does so on the local node only: no message is sent, although the node is in a cluster. A
  replica that had the same data has different data afterwards, unless the content was zeros already.
\<close>

theorem truncation_is_local:
  assumes ok: "fs_ok 1 (fs_memdb f)"
    and w: "walk (db_tree (fs_memdb f)) ps ROOT_INODE = Some (fuse_to_inode ino)"
    and op: "fuse_setattr fe ino (Some n) None None None None f = Some (Ok st, f')"
  shows "fs_dfsm f' = fs_dfsm f \<and> abs_fs (fs_memdb f') ps = Some (File (replicate (unat n) 0)) \<and>
    (\<forall>m. same_data (fs_memdb f) m \<longrightarrow> abs_fs m ps \<noteq> Some (File (replicate (unat n) 0)) \<longrightarrow>
       \<not> same_data (fs_memdb f') m)"
proof -
  let ?path = "''/'' @ join_with ''/'' ps" and ?me = "fe_mem fe"
  let ?w = "write_op (me_sq ?me) ?path 0 0 (now32 ?me) (replicate (unat n) 0) True (fs_memdb f)"
  note inv = fs_okD(1) [OF ok]
  have parts: "path_parts ?path = ps" using walk_names_ok [OF inv w] by (simp add: path_parts_join)
  obtain k m' where wr: "?w = (Ok k, m')" and f': "f' = set_memdb m' f"
    using op get_path_walk [OF inv w]
    by (cases ?w) (auto simp: fuse_setattr_def chmod_allowed_def chown_allowed_def truncate_file_def
        local_result_def update_mtime_def Let_def split: res.splits option.splits if_splits)
  have "abs_fs m' = spec_write ps 0 (replicate (unat n) 0) True (abs_fs (fs_memdb f))"
    using write_refines [OF inv wr] parts by simp
  moreover have "\<exists>old. abs_fs (fs_memdb f) ps = Some (File old)"
    using wr
  proof (cases rule: write_cases)
    case (2 e d v db')
    then show ?thesis
      using lookup_abs [of "fs_memdb f" ?path] parts by (auto simp: view_path_def node_of_def)
  qed simp
  ultimately have c: "abs_fs m' ps = Some (File (replicate (unat n) 0))"
    by (auto simp: spec_write_def write_data_def)
  have "abs_fs (fs_memdb f') = abs_fs m" if "same_data (fs_memdb f') m" for m
    using abs_same [OF that] ..
  then show ?thesis using c f' by auto
qed

theorem truncation_is_local_witness:
  "\<exists>st f'. fuse_setattr sample_fuse 4 (Some 2) None None None None (sample_cluster sample_full) = Some (Ok st, f') \<and>
     abs_fs sample_full [''priv'', ''f''] = Some (File [1, 2, 3]) \<and>
     abs_fs (fs_memdb f') [''priv'', ''f''] = Some (File [0, 0]) \<and> \<not> same_data (fs_memdb f') sample_full"
proof -
  let ?f = "sample_cluster sample_full" and ?w = "write_op list_sqlite ''/priv/f'' 0 0 100 [0, 0] True sample_full"
  have ok: "fs_ok 1 (fs_memdb ?f)" using fs_ok_less [OF sample_fs_ok(1)] by simp
  have id: "fuse_to_inode 4 = 3" by (simp add: fuse_to_inode_def PLUGIN_INODE_OFFSET_def)
  have w: "walk (db_tree (fs_memdb ?f)) [''priv'', ''f''] ROOT_INODE = Some (fuse_to_inode 4)"
    unfolding sample_memdb id by code_simp
  have env: "me_sq (fe_mem sample_fuse) = list_sqlite" "now32 (fe_mem sample_fuse) = 100"
    by (simp_all add: sample_fuse_def loopback_def sample_me_def)
  have "is_ok (fst ?w)" by code_simp
  then obtain k m where c: "?w = (Ok k, m)" by (cases ?w) (auto simp: is_ok_iff)
  have "hm_get (db_index (snd ?w)) 3 \<noteq> None" by code_simp
  then obtain e where e: "hm_get (db_index m) 3 = Some e" using c by auto
  have path: "get_path_for_inode sample_full 3 = Some ''/priv/f''"
    using get_path_walk [OF fs_okD(1) [OF ok] w] id by simp
  have two: "replicate (unat (2 :: u64)) 0 = [0, 0 :: byte]" "replicate 2 0 = [0, 0 :: byte]" by code_simp+
  have op: "fuse_setattr sample_fuse 4 (Some 2) None None None None ?f =
      Some (Ok (entry_to_stat (set_memdb m ?f) e ''/priv/f''), set_memdb m ?f)"
    using path c e by (simp add: fuse_setattr_def id chmod_allowed_def chown_allowed_def truncate_file_def
        local_result_def update_mtime_def env Let_def two get_entry_by_inode_def)
  have old: "abs_fs sample_full [''priv'', ''f''] = Some (File [1, 2, 3])" by code_simp
  have "abs_fs m [''priv'', ''f''] = Some (File [0, 0]) \<and> \<not> same_data m sample_full"
    using truncation_is_local [OF ok w op] old unfolding two by simp
  then show ?thesis using op old by auto
qed

section \<open>Changes in a cluster\<close>

lemma mem_deliver_some:
  assumes "mem_deliver_message me nodeid pid msg t da = (x, da')"
  shows "\<exists>r. x = Some (r, 0 \<le> r)"
  using assms by (cases msg) (auto simp: mem_deliver_message_def Let_def split: prod.splits)

text \<open>A change is acknowledged when the node has delivered its own message and accepted it.\<close>

lemma loopback_acknowledges:
  assumes d: "d_mode d = Synced" and op: "send_and_wait (loopback me js add) msg d f = (Ok (), f')"
  obtains r d1 d2 where "0 \<le> r"
    and "mem_deliver_message me (d_nodeid d) (d_pid d) msg (ucast (now32 me)) (d1, fs_app f) = (Some (r, True), d2, fs_app f')"
proof -
  let ?n = "d_msg_counter d + 1"
  let ?d0 = "d\<lparr>d_msg_counter := ?n, d_waiting := hm_insert ?n () (d_waiting d)\<rparr>"
  obtain d1 where d1: "send_dfsm_message (me_env me) (now32 me)
      (from_message (now32 me) ?n msg (d_protocol_version d)) ?d0 = (Done, d1)"
    using op by (auto simp: send_and_wait_def send_message_sync_begin_def Let_def loopback_def
        split: prod.splits dfsm_result.splits)
  obtain x d2 a where m: "mem_deliver_message me (d_nodeid d) (d_pid d) msg (ucast (now32 me)) (d1, fs_app f) = (x, d2, a)"
    by (metis prod.exhaust)
  obtain r where x: "x = Some (r, 0 \<le> r)" using mem_deliver_some [OF m] by blast
  note c = same_coreD [OF send_dfsm_message_core [OF d1]] and c' = same_coreD [OF mem_deliver_core [OF m]]
  have d1f: "d_mode d1 = Synced" "d_nodeid d1 = d_nodeid d" "d_pid d1 = d_pid d"
    using c d by simp_all
  have "hm_get (d_waiting d2) ?n = Some ()" using c c' by simp
  then have w: "loopback_wait me msg ?n (d1, fs_app f) = (Some r, record_message_result ?n r (0 \<le> r) d2, a)"
    using m x d1f by (simp add: loopback_wait_def Let_def handle_dfsm_message_def from_message_def
        handle_normal_message_def deliver_one_def mem_callbacks_def record_message_result_def)
  have "0 \<le> r \<and> fs_app f' = a"
    using op d1 w by (auto simp: send_and_wait_def send_message_sync_begin_def Let_def loopback_def split: if_splits)
  then show thesis using that m x by auto
qed



end
