(* ===== verification/Ipc_Ring.thy ===== *)
theory Ipc_Ring
  imports Pmxcfs_Prelude
begin

text \<open>
  The ring buffer in shared memory through which clients and the server exchange messages
  (\<open>pmxcfs-ipc/src/ringbuffer.rs\<close>), in the layout of libqb.

  \<^item> The data file is a list of bytes, mapped twice in a row, so that an index past its end is one at its
    start. Words are little-endian. A message is a chunk: a word with its size, a word with a magic
    number, the bytes, padded to words.
  \<^item> The two pointers are word indices. The semaphore is its value; it counts chunks, of which the ring
    holds fewer than its maximum. The flow control word is \<open>None\<close> where it is disabled.
  \<^item> The single accesses of \<open>write_chunk\<close> and \<open>read_chunk\<close> are definitions of their own: the functions
    are their composition, and the interleavings of a writer and a reader are built from them.
\<close>

section \<open>Memory\<close>

text \<open>\<open>copy_nonoverlapping\<close> into the file, and into the ring with at most one wrap.\<close>

definition overlay :: "nat \<Rightarrow> byte list \<Rightarrow> byte list \<Rightarrow> byte list" where
  "overlay offset bytes data = take offset data @ bytes @ drop (offset + length bytes) data"

definition copy_in :: "nat \<Rightarrow> byte list \<Rightarrow> byte list \<Rightarrow> byte list" where
  "copy_in offset bytes data =
     (let remaining = length data - offset in
      if length bytes \<le> remaining then overlay offset bytes data
      else overlay 0 (drop remaining bytes) (overlay offset (take remaining bytes) data))"

definition copy_out :: "nat \<Rightarrow> nat \<Rightarrow> byte list \<Rightarrow> byte list" where
  "copy_out offset n data =
     (let remaining = length data - offset in
      if n \<le> remaining then slice offset (offset + n) data
      else slice offset (length data) data @ take (n - remaining) data)"

record RingShared =
  rg_write_pt :: nat
  rg_read_pt :: nat
  rg_word_size :: nat
  rg_ref_count :: nat
  rg_sem :: nat
  rg_fc :: "int option"
  rg_data :: "byte list"

definition put_word :: "nat \<Rightarrow> u32 \<Rightarrow> RingShared \<Rightarrow> RingShared" where
  "put_word i w r = r\<lparr>rg_data := copy_in (4 * i) (u32_to_le w) (rg_data r)\<rparr>"

definition get_word :: "nat \<Rightarrow> RingShared \<Rightarrow> u32" where
  "get_word i r = u32_of_le (copy_out (4 * i) 4 (rg_data r))"

section \<open>Creation and space\<close>

definition CHUNK_HEADER_WORDS :: nat where "CHUNK_HEADER_WORDS = 2"
definition CHUNK_MAGIC :: u32 where "CHUNK_MAGIC = 0xA1A1A1A1"
definition CHUNK_MAGIC_DEAD :: u32 where "CHUNK_MAGIC_DEAD = 0xD0D0D0D0"
definition CHUNK_MAGIC_ALLOC :: u32 where "CHUNK_MAGIC_ALLOC = 0xA110CED0"
definition CHUNK_MARGIN :: nat where "CHUNK_MARGIN = 4 * (CHUNK_HEADER_WORDS + 1)"

datatype ring_error = SizeOverflow | InsufficientSpace | InvalidChunkSize | InvalidChunkMagic

definition div_ceil :: "nat \<Rightarrow> nat \<Rightarrow> nat" where
  "div_ceil a b = (a + (b - 1)) div b"

text \<open>
  \<open>RingBuffer::new\<close>, without the files and mappings. The word just past the end of the file gets a
  mark, which is the first word of the file.
\<close>

definition ring_new :: "nat \<Rightarrow> nat \<Rightarrow> (ring_error, RingShared) res" where
  "ring_new size_bytes shared_user_data_size =
     (case usize_checked_add size_bytes (CHUNK_MARGIN + 1) of
        None \<Rightarrow> Err SizeOverflow
      | Some size0 \<Rightarrow>
          let real_size = div_ceil size0 4096 * 4096; word_size = real_size div 4 in
          if real_size \<ge> 2 ^ 64 then Err SizeOverflow
          else Ok (put_word 0 5
            \<lparr>rg_write_pt = 0, rg_read_pt = 0, rg_word_size = word_size mod 2 ^ 32, rg_ref_count = 1, rg_sem = 0,
             rg_fc = (if shared_user_data_size \<ge> 4 then Some 0 else None), rg_data = replicate real_size 0\<rparr>))"

definition chunk_step :: "nat \<Rightarrow> nat \<Rightarrow> RingShared \<Rightarrow> nat" where
  "chunk_step current_pt data_size_bytes r =
     (let data_words = div_ceil data_size_bytes 4
      in (current_pt + CHUNK_HEADER_WORDS + data_words) mod rg_word_size r)"

definition space_free_words :: "RingShared \<Rightarrow> nat" where
  "space_free_words r =
     (let write_pt = rg_write_pt r; read_pt = rg_read_pt r; word_size = rg_word_size r in
      if write_pt \<ge> read_pt then
        (if write_pt = read_pt then word_size else (read_pt + word_size - write_pt) - 1)
      else (read_pt - write_pt) - 1)"

definition space_free_bytes :: "RingShared \<Rightarrow> nat" where
  "space_free_bytes r = space_free_words r * 4"

definition chunk_fits :: "nat \<Rightarrow> nat \<Rightarrow> RingShared \<Rightarrow> bool" where
  "chunk_fits message_size chunk_margin r \<longleftrightarrow> space_free_bytes r \<ge> message_size + chunk_margin"

section \<open>Writing\<close>

definition w_alloc_size :: "nat \<Rightarrow> RingShared \<Rightarrow> RingShared" where
  "w_alloc_size write_pt r = put_word write_pt 0 r"

definition w_alloc_magic :: "nat \<Rightarrow> RingShared \<Rightarrow> RingShared" where
  "w_alloc_magic write_pt r = put_word ((write_pt + 1) mod rg_word_size r) CHUNK_MAGIC_ALLOC r"

definition w_data :: "nat \<Rightarrow> byte list \<Rightarrow> RingShared \<Rightarrow> RingShared" where
  "w_data write_pt message r =
     r\<lparr>rg_data := copy_in (4 * ((write_pt + CHUNK_HEADER_WORDS) mod rg_word_size r)) message (rg_data r)\<rparr>"

definition w_size :: "nat \<Rightarrow> byte list \<Rightarrow> RingShared \<Rightarrow> RingShared" where
  "w_size write_pt message r = put_word write_pt (of_nat (length message)) r"

definition w_pointer :: "nat \<Rightarrow> byte list \<Rightarrow> RingShared \<Rightarrow> RingShared" where
  "w_pointer write_pt message r = r\<lparr>rg_write_pt := chunk_step write_pt (length message) r\<rparr>"

definition w_magic :: "nat \<Rightarrow> RingShared \<Rightarrow> RingShared" where
  "w_magic write_pt r = put_word ((write_pt + 1) mod rg_word_size r) CHUNK_MAGIC r"

definition w_post :: "RingShared \<Rightarrow> RingShared" where
  "w_post r = r\<lparr>rg_sem := rg_sem r + 1\<rparr>"

definition write_chunk :: "byte list \<Rightarrow> RingShared \<Rightarrow> RingShared" where
  "write_chunk message r =
     (let write_pt = rg_write_pt r in
      w_post (w_magic write_pt (w_pointer write_pt message (w_size write_pt message
        (w_data write_pt message (w_alloc_magic write_pt (w_alloc_size write_pt r)))))))"

definition try_send :: "byte list \<Rightarrow> RingShared \<Rightarrow> (ring_error, unit) res \<times> RingShared" where
  "try_send message r =
     (if \<not> chunk_fits (length message) CHUNK_MARGIN r then (Err InsufficientSpace, r)
      else (Ok (), write_chunk message r))"

section \<open>Reading\<close>

definition max_chunk_size :: "RingShared \<Rightarrow> nat" where
  "max_chunk_size r = rg_word_size r * 4 - (CHUNK_HEADER_WORDS * 4 + 64)"

definition r_message :: "RingShared \<Rightarrow> (ring_error, byte list option) res" where
  "r_message r =
     (let read_pt = rg_read_pt r; word_size = rg_word_size r in
      if read_pt = rg_write_pt r then Ok None
      else
        let chunk_magic = get_word ((read_pt + 1) mod word_size) r;
            chunk_size = unat (get_word read_pt r) in
        if chunk_size = 0 \<or> chunk_size > max_chunk_size r then Err InvalidChunkSize
        else if chunk_magic \<noteq> CHUNK_MAGIC then Err InvalidChunkMagic
        else Ok (Some (copy_out (4 * ((read_pt + CHUNK_HEADER_WORDS) mod word_size)) chunk_size (rg_data r))))"

definition r_clear_size :: "nat \<Rightarrow> RingShared \<Rightarrow> RingShared" where
  "r_clear_size read_pt r = put_word read_pt 0 r"

definition r_dead :: "nat \<Rightarrow> RingShared \<Rightarrow> RingShared" where
  "r_dead read_pt r = put_word ((read_pt + 1) mod rg_word_size r) CHUNK_MAGIC_DEAD r"

definition r_pointer :: "nat \<Rightarrow> byte list \<Rightarrow> RingShared \<Rightarrow> RingShared" where
  "r_pointer read_pt message r = r\<lparr>rg_read_pt := chunk_step read_pt (length message) r\<rparr>"

definition r_flow :: "RingShared \<Rightarrow> RingShared" where
  "r_flow r = (if rg_fc r \<noteq> None \<and> rg_ref_count r = 2 then r\<lparr>rg_fc := Some 0\<rparr> else r)"

definition read_chunk :: "RingShared \<Rightarrow> (ring_error, byte list option) res \<times> RingShared" where
  "read_chunk r =
     (let read_pt = rg_read_pt r in
      case r_message r of
        Ok (Some message) \<Rightarrow>
          (Ok (Some message), r_flow (r_pointer read_pt message (r_dead read_pt (r_clear_size read_pt r))))
      | result \<Rightarrow> (result, r))"

text \<open>One turn of \<open>recv\<close>: it waits for the semaphore, which blocks at 0.\<close>

definition sem_wait :: "RingShared \<Rightarrow> RingShared option" where
  "sem_wait r = (if rg_sem r = 0 then None else Some (r\<lparr>rg_sem := rg_sem r - 1\<rparr>))"

definition recv_turn :: "RingShared \<Rightarrow> ((ring_error, byte list option) res \<times> RingShared) option" where
  "recv_turn r = map_option read_chunk (sem_wait r)"

section \<open>Flow control\<close>

definition fc_get :: "RingShared \<Rightarrow> int" where
  "fc_get r = (case rg_fc r of None \<Rightarrow> 0 | Some v \<Rightarrow> if rg_ref_count r \<noteq> 2 then - 107 else v)" \<comment> \<open>ENOTCONN\<close>

definition fc_set :: "int \<Rightarrow> RingShared \<Rightarrow> RingShared" where
  "fc_set fc_enable r = (case rg_fc r of None \<Rightarrow> r | Some _ \<Rightarrow> r\<lparr>rg_fc := Some fc_enable\<rparr>)"

section \<open>The ring as a circle\<close>

definition cell :: "byte list \<Rightarrow> nat \<Rightarrow> byte" where
  "cell D x = D ! (x mod length D)"

lemma cell_lap [simp]: "cell D (x + length D) = cell D x"
  by (simp add: cell_def)

lemma length_overlay [simp]: "off + length bs \<le> length D \<Longrightarrow> length (overlay off bs D) = length D"
  by (simp add: overlay_def)

lemma nth_overlay:
  assumes "off + length bs \<le> length D" and "i < length D"
  shows "overlay off bs D ! i = (if off \<le> i \<and> i < off + length bs then bs ! (i - off) else D ! i)"
  using assms by (auto simp: overlay_def nth_append)

lemma length_copy_in [simp]: "off < length D \<Longrightarrow> length bs \<le> length D \<Longrightarrow> length (copy_in off bs D) = length D"
  by (auto simp: copy_in_def Let_def)

text \<open>The bytes after a copy, once around the ring from where it starts.\<close>

lemma cell_copy_in:
  assumes "off < length D" and "length bs \<le> length D" and "off \<le> x" and "x < off + length D"
  shows "cell (copy_in off bs D) x = (if x - off < length bs then bs ! (x - off) else cell D x)"
proof -
  let ?n = "length D" and ?rem = "length D - off"
  have len: "length (copy_in off bs D) = ?n" using assms by simp
  have mod: "x mod ?n = (if x < ?n then x else x - ?n)"
    using assms by (auto simp: mod_if)
  show ?thesis
  proof (cases "length bs \<le> ?rem")
    case True
    then have "copy_in off bs D = overlay off bs D" by (simp add: copy_in_def Let_def)
    then show ?thesis
      using assms True mod len by (auto simp: cell_def nth_overlay)
  next
    case False
    let ?D1 = "overlay off (take ?rem bs) D"
    have D1: "length ?D1 = ?n" using assms False by simp
    have "copy_in off bs D = overlay 0 (drop ?rem bs) ?D1" using False by (simp add: copy_in_def Let_def)
    then show ?thesis
      using assms False mod len D1
      by (auto simp: cell_def nth_overlay)
  qed
qed

lemma copy_out_cells:
  assumes "off < length D" and "n \<le> length D"
  shows "copy_out off n D = map (\<lambda>j. cell D (off + j)) [0..<n]"
proof (rule nth_equalityI)
  show "length (copy_out off n D) = length (map (\<lambda>j. cell D (off + j)) [0..<n])"
    using assms by (auto simp: copy_out_def Let_def)
  fix i assume "i < length (copy_out off n D)"
  then have i: "i < n" using assms by (auto simp: copy_out_def Let_def split: if_splits)
  have mod: "(off + i) mod length D = (if off + i < length D then off + i else off + i - length D)"
    using assms i by (auto simp: mod_if)
  show "copy_out off n D ! i = map (\<lambda>j. cell D (off + j)) [0..<n] ! i"
    using assms i mod by (auto simp: copy_out_def Let_def slice_def cell_def nth_append add.commute)
qed

text \<open>Positions are word numbers that are not reduced; the circle has \<open>ws\<close> words.\<close>

lemma cell_word_mod: "length D = 4 * ws \<Longrightarrow> 0 < ws \<Longrightarrow> cell D (4 * (v mod ws) + j) = cell D (4 * v + j)"
  unfolding cell_def by (metis mod_add_left_eq mult_mod_right)

lemma cell_write:
  assumes D: "length D = 4 * ws" "0 < ws" and "length bs \<le> 4 * ws" and "4 * v \<le> x" and "x < 4 * v + 4 * ws"
  shows "cell (copy_in (4 * (v mod ws)) bs D) x = (if x - 4 * v < length bs then bs ! (x - 4 * v) else cell D x)"
proof -
  let ?o = "4 * (v mod ws)" and ?j = "x - 4 * v"
  have o: "?o < length D" using D by simp
  have len: "length (copy_in ?o bs D) = 4 * ws" using assms o by simp
  have "cell (copy_in ?o bs D) x = cell (copy_in ?o bs D) (?o + ?j)"
    using cell_word_mod [OF len D(2), of v ?j] assms by simp
  also have "\<dots> = (if ?j < length bs then bs ! ?j else cell D (?o + ?j))"
    using cell_copy_in [OF o, of bs "?o + ?j"] assms by simp
  also have "cell D (?o + ?j) = cell D x" using cell_word_mod [OF D, of v ?j] assms by simp
  finally show ?thesis .
qed

text \<open>A position up to a lap before the written range, and after it, keeps its byte.\<close>

lemma cell_keep:
  assumes "length D = 4 * ws" "0 < ws" and "length bs \<le> 4 * ws"
    and "4 * v + length bs \<le> x \<and> x < 4 * v + 4 * ws \<or> x < 4 * v \<and> 4 * v + length bs \<le> x + 4 * ws"
  shows "cell (copy_in (4 * (v mod ws)) bs D) x = cell D x"
  using assms(4)
proof
  assume x: "4 * v + length bs \<le> x \<and> x < 4 * v + 4 * ws"
  then have "\<not> x - 4 * v < length bs" by linarith
  then show ?thesis using cell_write [OF assms(1-3), of v x] x by simp
next
  assume x: "x < 4 * v \<and> 4 * v + length bs \<le> x + 4 * ws"
  have len: "length (copy_in (4 * (v mod ws)) bs D) = length D" using assms by simp
  have "\<not> x + 4 * ws - 4 * v < length bs" using x by linarith
  then show ?thesis
    using cell_write [OF assms(1-3), of v "x + 4 * ws"] x cell_lap [of D x] cell_lap [of "copy_in (4 * (v mod ws)) bs D" x]
    by (simp add: len assms(1))
qed

section \<open>Chunks\<close>

definition chunk_words :: "byte list \<Rightarrow> nat" where
  "chunk_words m = 2 + div_ceil (length m) 4"

fun words_of :: "byte list list \<Rightarrow> nat" where
  "words_of [] = 0"
| "words_of (m # ms) = chunk_words m + words_of ms"

definition holds_word :: "byte list \<Rightarrow> nat \<Rightarrow> u32 \<Rightarrow> bool" where
  "holds_word D v w \<longleftrightarrow> (\<forall>j < 4. cell D (4 * v + j) = u32_to_le w ! j)"

definition holds_data :: "byte list \<Rightarrow> nat \<Rightarrow> byte list \<Rightarrow> bool" where
  "holds_data D v m \<longleftrightarrow> (\<forall>j < length m. cell D (4 * (v + 2) + j) = m ! j)"

definition chunk_at :: "byte list \<Rightarrow> nat \<Rightarrow> byte list \<Rightarrow> bool" where
  "chunk_at D v m \<longleftrightarrow>
     holds_word D v (of_nat (length m)) \<and> holds_word D (v + 1) CHUNK_MAGIC \<and> holds_data D v m"

fun chunks :: "byte list \<Rightarrow> nat \<Rightarrow> byte list list \<Rightarrow> bool" where
  "chunks D v [] \<longleftrightarrow> True"
| "chunks D v (m # ms) \<longleftrightarrow> chunk_at D v m \<and> chunks D (v + chunk_words m) ms"

lemma words_of_append [simp]: "words_of (ms @ ns) = words_of ms + words_of ns"
  by (induction ms) simp_all

lemma chunks_append [simp]: "chunks D v (ms @ ns) \<longleftrightarrow> chunks D v ms \<and> chunks D (v + words_of ms) ns"
  by (induction ms arbitrary: v) (simp_all add: add.assoc)

lemma chunk_words_ge: "2 \<le> chunk_words m" "length m \<le> 4 * (chunk_words m - 2)" "8 + length m \<le> 4 * chunk_words m"
  by (auto simp: chunk_words_def div_ceil_def)

definition same_cells :: "byte list \<Rightarrow> byte list \<Rightarrow> nat \<Rightarrow> nat \<Rightarrow> bool" where
  "same_cells D D' a b \<longleftrightarrow> (\<forall>x. 4 * a \<le> x \<longrightarrow> x < 4 * b \<longrightarrow> cell D' x = cell D x)"

lemma same_cells_part: "same_cells D D' a b \<Longrightarrow> a \<le> a' \<Longrightarrow> b' \<le> b \<Longrightarrow> same_cells D D' a' b'"
  by (auto simp: same_cells_def)

lemma holds_word_same: "same_cells D D' v (v + 1) \<Longrightarrow> holds_word D v w \<Longrightarrow> holds_word D' v w"
  by (simp add: same_cells_def holds_word_def)

lemma holds_data_same: "same_cells D D' (v + 2) (v + chunk_words m) \<Longrightarrow> holds_data D v m \<Longrightarrow> holds_data D' v m"
  using chunk_words_ge(2) [of m] by (auto simp: same_cells_def holds_data_def)

lemma chunk_at_same:
  assumes "same_cells D D' v (v + chunk_words m)" and "chunk_at D v m"
  shows "chunk_at D' v m"
proof -
  have "same_cells D D' v (v + 1)" "same_cells D D' (v + 1) (v + 1 + 1)" "same_cells D D' (v + 2) (v + chunk_words m)"
    using chunk_words_ge(1) [of m] by (auto intro: same_cells_part [OF assms(1)])
  then show ?thesis using assms(2) holds_word_same holds_data_same unfolding chunk_at_def by blast
qed

lemma chunks_same: "same_cells D D' v (v + words_of ms) \<Longrightarrow> chunks D v ms \<Longrightarrow> chunks D' v ms"
proof (induction ms arbitrary: v)
  case (Cons m ms)
  have "chunk_at D' v m"
    using chunk_at_same same_cells_part [OF Cons.prems(1), of v "v + chunk_words m"] Cons.prems(2) by simp
  moreover have "chunks D' (v + chunk_words m) ms"
    using Cons.IH same_cells_part [OF Cons.prems(1), of "v + chunk_words m" "v + chunk_words m + words_of ms"] Cons.prems(2)
    by (simp add: add.assoc)
  ultimately show ?case by simp
qed simp

section \<open>Accesses as changes of the circle\<close>

definition ring_ok :: "nat \<Rightarrow> RingShared \<Rightarrow> bool" where
  "ring_ok ws r \<longleftrightarrow> rg_word_size r = ws \<and> length (rg_data r) = 4 * ws \<and> 0 < ws \<and> 4 * ws \<le> 2 ^ 32"

lemma ring_okD:
  assumes "ring_ok ws r"
  shows "rg_word_size r = ws" "length (rg_data r) = 4 * ws" "0 < ws" "4 * ws \<le> 2 ^ 32"
  using assms by (simp_all add: ring_ok_def)

lemma ring_ok_put_word [simp]: "ring_ok ws r \<Longrightarrow> i < ws \<Longrightarrow> ring_ok ws (put_word i w r)"
  by (auto simp: ring_ok_def put_word_def)

lemma put_word_fields [simp]:
  "rg_word_size (put_word i w r) = rg_word_size r" "rg_write_pt (put_word i w r) = rg_write_pt r"
  "rg_read_pt (put_word i w r) = rg_read_pt r" "rg_sem (put_word i w r) = rg_sem r"
  "rg_fc (put_word i w r) = rg_fc r" "rg_ref_count (put_word i w r) = rg_ref_count r"
  by (simp_all add: put_word_def)

text \<open>A word is written at its position and nothing else changes on the lap around it.\<close>

lemma put_word_holds:
  assumes "ring_ok ws r"
  shows "holds_word (rg_data (put_word (v mod ws) w r)) v w"
proof -
  note ok = ring_okD [OF assms]
  have "cell (rg_data (put_word (v mod ws) w r)) (4 * v + j) = u32_to_le w ! j" if "j < 4" for j
    using cell_write [OF ok(2,3), of "u32_to_le w" v "4 * v + j"] that ok(3) by (simp add: put_word_def)
  then show ?thesis by (simp add: holds_word_def)
qed

lemma put_word_keeps:
  assumes "ring_ok ws r" and "v + 1 \<le> a \<and> b \<le> v + ws \<or> b \<le> v \<and> v + 1 \<le> a + ws"
  shows "same_cells (rg_data r) (rg_data (put_word (v mod ws) w r)) a b"
proof -
  note ok = ring_okD [OF assms(1)]
  have "cell (copy_in (4 * (v mod ws)) (u32_to_le w) (rg_data r)) x = cell (rg_data r) x" if "4 * a \<le> x" "x < 4 * b" for x
    by (rule cell_keep [OF ok(2,3)]) (use assms(2) that ok(3) in auto)
  then show ?thesis by (simp add: same_cells_def put_word_def)
qed

lemma w_data_holds:
  assumes "ring_ok ws r" and "length m \<le> 4 * ws"
  shows "holds_data (rg_data (w_data (v mod ws) m r)) v m"
proof -
  note ok = ring_okD [OF assms(1)]
  have "(v mod ws + 2) mod ws = (v + 2) mod ws" by (rule mod_add_left_eq)
  then have "cell (rg_data (w_data (v mod ws) m r)) (4 * (v + 2) + j) = m ! j" if "j < length m" for j
    using cell_write [OF ok(2,3) assms(2), of "v + 2" "4 * (v + 2) + j"] that assms(2) ok(1)
    by (simp add: w_data_def CHUNK_HEADER_WORDS_def)
  then show ?thesis by (simp add: holds_data_def)
qed

lemma w_data_keeps:
  assumes "ring_ok ws r" and "length m \<le> 4 * ws"
    and "v + chunk_words m \<le> a \<and> b \<le> v + 2 + ws \<or> b \<le> v + 2 \<and> v + chunk_words m \<le> a + ws"
  shows "same_cells (rg_data r) (rg_data (w_data (v mod ws) m r)) a b"
proof -
  note ok = ring_okD [OF assms(1)]
  have "(v mod ws + 2) mod ws = (v + 2) mod ws" by (rule mod_add_left_eq)
  moreover have "cell (copy_in (4 * ((v + 2) mod ws)) m (rg_data r)) x = cell (rg_data r) x" if "4 * a \<le> x" "x < 4 * b" for x
    by (rule cell_keep [OF ok(2,3) assms(2)]) (use assms(3) that chunk_words_ge(3) [of m] in auto)
  ultimately show ?thesis using ok(1) by (simp add: same_cells_def w_data_def CHUNK_HEADER_WORDS_def)
qed

lemma get_word_holds:
  assumes "ring_ok ws r" and "holds_word (rg_data r) v w"
  shows "get_word (v mod ws) r = w"
proof -
  note ok = ring_okD [OF assms(1)]
  have "copy_out (4 * (v mod ws)) 4 (rg_data r) = map (\<lambda>j. cell (rg_data r) (4 * (v mod ws) + j)) [0..<4]"
    using ok by (intro copy_out_cells) auto
  also have "\<dots> = map (\<lambda>j. u32_to_le w ! j) [0..<4]"
    using assms(2) cell_word_mod [OF ok(2,3), of v] by (auto simp: holds_word_def)
  also have "\<dots> = u32_to_le w" by (simp add: list_eq_iff_nth_eq)
  finally show ?thesis by (simp add: get_word_def)
qed

lemma copy_out_holds:
  assumes "ring_ok ws r" and "holds_data (rg_data r) v m" and "length m \<le> 4 * ws"
  shows "copy_out (4 * ((v mod ws + CHUNK_HEADER_WORDS) mod ws)) (length m) (rg_data r) = m"
proof -
  note ok = ring_okD [OF assms(1)]
  have "(v mod ws + 2) mod ws = (v + 2) mod ws" by (rule mod_add_left_eq)
  moreover have "copy_out (4 * ((v + 2) mod ws)) (length m) (rg_data r) =
      map (\<lambda>j. cell (rg_data r) (4 * ((v + 2) mod ws) + j)) [0..<length m]"
    using ok assms(3) by (intro copy_out_cells) auto
  moreover have "map (\<lambda>j. cell (rg_data r) (4 * ((v + 2) mod ws) + j)) [0..<length m] = m"
    unfolding cell_word_mod [OF ok(2,3)] by (rule nth_equalityI) (use assms(2) in \<open>simp_all add: holds_data_def\<close>)
  ultimately show ?thesis unfolding CHUNK_HEADER_WORDS_def by simp
qed

text \<open>The pointer after a chunk.\<close>

lemma chunk_step_words:
  assumes "rg_word_size r = ws"
  shows "chunk_step (v mod ws) (length m) r = (v + chunk_words m) mod ws"
proof -
  have "v mod ws + CHUNK_HEADER_WORDS + div_ceil (length m) 4 = v mod ws + chunk_words m"
    by (simp add: chunk_words_def CHUNK_HEADER_WORDS_def)
  then show ?thesis unfolding chunk_step_def Let_def assms by (metis mod_add_left_eq)
qed

lemma wrap_once: "k < ws \<Longrightarrow> (v + k) mod ws = (if v mod ws + k < ws then v mod ws + k else v mod ws + k - ws)" for ws :: nat
proof -
  assume k: "k < ws"
  have "(v + k) mod ws = (v mod ws + k) mod ws" by (rule mod_add_left_eq [symmetric])
  moreover have "v mod ws < ws" using k by simp
  then have "v mod ws + k - ws < ws" using k by linarith
  ultimately show ?thesis using k by (simp add: mod_if [of "v mod ws + k" ws])
qed

text \<open>A message for which there is room leaves at least one word free.\<close>

lemma chunk_fits_room:
  assumes "ring_ok ws r" and "rg_read_pt r = v mod ws" and "rg_write_pt r = (v + k) mod ws" and "k < ws"
    and "chunk_fits (length m) CHUNK_MARGIN r"
  shows "k + chunk_words m < ws"
proof -
  note ok = ring_okD [OF assms(1)]
  have free: "space_free_words r = (if k = 0 then ws else ws - k - 1)"
  proof -
    have "(v + k) mod ws = (if v mod ws + k < ws then v mod ws + k else v mod ws + k - ws)"
      by (rule wrap_once [OF assms(4)])
    moreover have "v mod ws < ws" using ok(3) by simp
    ultimately show ?thesis
      using assms(2-4) ok(1) by (auto simp: space_free_words_def Let_def)
  qed
  have "length m + 12 \<le> 4 * space_free_words r"
    using assms(5) by (simp add: chunk_fits_def space_free_bytes_def CHUNK_MARGIN_def CHUNK_HEADER_WORDS_def)
  then have "div_ceil (length m) 4 + 3 \<le> space_free_words r" by (auto simp: div_ceil_def)
  then show ?thesis using free assms(4) by (auto simp: chunk_words_def split: if_splits)
qed

end
