(* ===== verification/Ipc_Channel.thy ===== *)
theory Ipc_Channel
  imports Ipc_Ring
begin

text \<open>
  A writer and a reader of one ring in different processes: every access to the shared memory is a
  step, and the steps of the two interleave in any order (memory accesses are sequentially
  consistent; what the reader reads of a chunk it reads in one step, since no step of the writer
  changes a chunk that the semaphore has announced). The invariant says what the memory holds at every
  moment; its consequence is that messages arrive unchanged and in order.
\<close>

section \<open>Steps\<close>

datatype writer =
    WIdle | WReady "byte list" nat | WSize0 "byte list" nat | WAlloc "byte list" nat | WData "byte list" nat
  | WSized "byte list" nat | WMoved "byte list" nat | WDone

datatype reader =
    RIdle | RWoken | RGot "byte list" nat | RCleared "byte list" nat | RDead "byte list" nat | RFailed ring_error

record channel =
  ch_ring :: RingShared
  ch_writer :: writer
  ch_reader :: reader
  ch_sent :: "byte list list"
  ch_received :: "byte list list"

definition channel_start :: "RingShared \<Rightarrow> channel" where
  "channel_start r = \<lparr>ch_ring = r, ch_writer = WIdle, ch_reader = RIdle, ch_sent = [], ch_received = []\<rparr>"

inductive channel_step :: "(byte list \<Rightarrow> bool) \<Rightarrow> channel \<Rightarrow> channel \<Rightarrow> bool" for ok where
  start: "channel_step ok c (c\<lparr>ch_writer := WReady m (rg_write_pt (ch_ring c))\<rparr>)"
    if "ch_writer c = WIdle" and "ok m" and "chunk_fits (length m) CHUNK_MARGIN (ch_ring c)"
| alloc_size: "channel_step ok c (c\<lparr>ch_ring := w_alloc_size wp (ch_ring c), ch_writer := WSize0 m wp\<rparr>)"
    if "ch_writer c = WReady m wp"
| alloc_magic: "channel_step ok c (c\<lparr>ch_ring := w_alloc_magic wp (ch_ring c), ch_writer := WAlloc m wp\<rparr>)"
    if "ch_writer c = WSize0 m wp"
| data: "channel_step ok c (c\<lparr>ch_ring := w_data wp m (ch_ring c), ch_writer := WData m wp\<rparr>)"
    if "ch_writer c = WAlloc m wp"
| size: "channel_step ok c (c\<lparr>ch_ring := w_size wp m (ch_ring c), ch_writer := WSized m wp\<rparr>)"
    if "ch_writer c = WData m wp"
| pointer: "channel_step ok c (c\<lparr>ch_ring := w_pointer wp m (ch_ring c), ch_writer := WMoved m wp\<rparr>)"
    if "ch_writer c = WSized m wp"
| magic: "channel_step ok c (c\<lparr>ch_ring := w_magic wp (ch_ring c), ch_writer := WDone, ch_sent := ch_sent c @ [m]\<rparr>)"
    if "ch_writer c = WMoved m wp"
| post: "channel_step ok c (c\<lparr>ch_ring := w_post (ch_ring c), ch_writer := WIdle\<rparr>)"
    if "ch_writer c = WDone"
| wake: "channel_step ok c (c\<lparr>ch_ring := r, ch_reader := RWoken\<rparr>)"
    if "ch_reader c = RIdle" and "sem_wait (ch_ring c) = Some r"
| got: "channel_step ok c (c\<lparr>ch_reader := RGot m (rg_read_pt (ch_ring c)), ch_received := ch_received c @ [m]\<rparr>)"
    if "ch_reader c = RWoken" and "r_message (ch_ring c) = Ok (Some m)"
| spurious: "channel_step ok c (c\<lparr>ch_reader := RIdle\<rparr>)"
    if "ch_reader c = RWoken" and "r_message (ch_ring c) = Ok None"
| failed: "channel_step ok c (c\<lparr>ch_reader := RFailed e\<rparr>)"
    if "ch_reader c = RWoken" and "r_message (ch_ring c) = Err e"
| clear: "channel_step ok c (c\<lparr>ch_ring := r_clear_size rp (ch_ring c), ch_reader := RCleared m rp\<rparr>)"
    if "ch_reader c = RGot m rp"
| dead: "channel_step ok c (c\<lparr>ch_ring := r_dead rp (ch_ring c), ch_reader := RDead m rp\<rparr>)"
    if "ch_reader c = RCleared m rp"
| reclaim: "channel_step ok c (c\<lparr>ch_ring := r_flow (r_pointer rp m (ch_ring c)), ch_reader := RIdle\<rparr>)"
    if "ch_reader c = RDead m rp"

inductive reachable_channel :: "(byte list \<Rightarrow> bool) \<Rightarrow> RingShared \<Rightarrow> channel \<Rightarrow> bool" for ok r where
  init: "reachable_channel ok r (channel_start r)"
| step: "reachable_channel ok r c'" if "reachable_channel ok r c" and "channel_step ok c c'"

section \<open>Invariant\<close>

definition msg_ok :: "nat \<Rightarrow> byte list \<Rightarrow> bool" where
  "msg_ok ws m \<longleftrightarrow> 0 < length m \<and> length m + 72 \<le> 4 * ws"

text \<open>The messages whose chunk is complete: all up to the write pointer, except the last before it is marked.\<close>

fun committed :: "writer \<Rightarrow> byte list list \<Rightarrow> byte list list" where
  "committed (WMoved _ _) L = butlast L"
| "committed _ L = L"

definition room :: "nat \<Rightarrow> nat \<Rightarrow> byte list list \<Rightarrow> byte list \<Rightarrow> nat \<Rightarrow> bool" where
  "room ws v L m wp \<longleftrightarrow> msg_ok ws m \<and> wp = (v + words_of L) mod ws \<and> words_of L + chunk_words m < ws"

fun writer_part :: "nat \<Rightarrow> byte list \<Rightarrow> nat \<Rightarrow> byte list list \<Rightarrow> writer \<Rightarrow> bool" where
  "writer_part ws D v L WIdle \<longleftrightarrow> True"
| "writer_part ws D v L (WReady m wp) \<longleftrightarrow> room ws v L m wp"
| "writer_part ws D v L (WSize0 m wp) \<longleftrightarrow> room ws v L m wp"
| "writer_part ws D v L (WAlloc m wp) \<longleftrightarrow> room ws v L m wp"
| "writer_part ws D v L (WData m wp) \<longleftrightarrow> room ws v L m wp \<and> holds_data D (v + words_of L) m"
| "writer_part ws D v L (WSized m wp) \<longleftrightarrow>
     room ws v L m wp \<and> holds_data D (v + words_of L) m \<and> holds_word D (v + words_of L) (of_nat (length m))"
| "writer_part ws D v L (WMoved m wp) \<longleftrightarrow>
     L \<noteq> [] \<and> last L = m \<and> wp = (v + words_of (butlast L)) mod ws \<and>
     holds_data D (v + words_of (butlast L)) m \<and> holds_word D (v + words_of (butlast L)) (of_nat (length m))"
| "writer_part ws D v L WDone \<longleftrightarrow> True"

fun reader_part :: "nat \<Rightarrow> byte list \<Rightarrow> nat \<Rightarrow> byte list list \<Rightarrow> reader \<Rightarrow> bool" where
  "reader_part ws D v K RIdle \<longleftrightarrow> chunks D v K"
| "reader_part ws D v K RWoken \<longleftrightarrow> chunks D v K"
| "reader_part ws D v K (RGot m rp) \<longleftrightarrow> chunks D v K \<and> K \<noteq> [] \<and> hd K = m \<and> rp = v mod ws"
| "reader_part ws D v K (RCleared m rp) \<longleftrightarrow>
     K \<noteq> [] \<and> hd K = m \<and> rp = v mod ws \<and> chunks D (v + chunk_words m) (tl K)"
| "reader_part ws D v K (RDead m rp) \<longleftrightarrow>
     K \<noteq> [] \<and> hd K = m \<and> rp = v mod ws \<and> chunks D (v + chunk_words m) (tl K)"
| "reader_part ws D v K (RFailed e) \<longleftrightarrow> False"

fun holds_chunk :: "reader \<Rightarrow> bool" where
  "holds_chunk (RGot _ _) = True" | "holds_chunk (RCleared _ _) = True" | "holds_chunk (RDead _ _) = True"
| "holds_chunk _ = False"

fun awake :: "reader \<Rightarrow> bool" where
  "awake RIdle = False" | "awake _ = True"

definition channel_inv :: "nat \<Rightarrow> nat \<Rightarrow> byte list list \<Rightarrow> channel \<Rightarrow> bool" where
  "channel_inv ws v L c \<longleftrightarrow>
     (let r = ch_ring c; K = committed (ch_writer c) L in
      ring_ok ws r \<and> rg_read_pt r = v mod ws \<and> rg_write_pt r = (v + words_of L) mod ws \<and> words_of L < ws \<and>
      (\<forall>m \<in> set L. msg_ok ws m) \<and>
      writer_part ws (rg_data r) v L (ch_writer c) \<and> reader_part ws (rg_data r) v K (ch_reader c) \<and>
      rg_sem r + of_bool (awake (ch_reader c)) + of_bool (ch_writer c = WDone) = length K \<and>
      ch_sent c = ch_received c @ (if holds_chunk (ch_reader c) then tl K else K))"

lemma channel_invD:
  assumes "channel_inv ws v L c"
  shows "ring_ok ws (ch_ring c)" "rg_read_pt (ch_ring c) = v mod ws" "rg_write_pt (ch_ring c) = (v + words_of L) mod ws"
    "words_of L < ws" "m \<in> set L \<Longrightarrow> msg_ok ws m" "writer_part ws (rg_data (ch_ring c)) v L (ch_writer c)"
    "reader_part ws (rg_data (ch_ring c)) v (committed (ch_writer c) L) (ch_reader c)"
    "rg_sem (ch_ring c) + of_bool (awake (ch_reader c)) + of_bool (ch_writer c = WDone) = length (committed (ch_writer c) L)"
    "ch_sent c = ch_received c @ (if holds_chunk (ch_reader c) then tl (committed (ch_writer c) L) else committed (ch_writer c) L)"
  using assms by (simp_all add: channel_inv_def Let_def)

lemma words_committed: "words_of (committed w L) \<le> words_of L"
  by (cases w; cases L rule: rev_cases) auto

lemma reader_part_same:
  assumes "same_cells D D' v (v + words_of K)" and "reader_part ws D v K rd"
  shows "reader_part ws D' v K rd"
proof -
  have all: "chunks D v K \<Longrightarrow> chunks D' v K" using chunks_same [OF assms(1)] .
  have "chunks D' (v + chunk_words m) (tl K)" if "chunks D (v + chunk_words m) (tl K)" "K \<noteq> []" "hd K = m" for m
  proof (rule chunks_same [OF _ that(1)])
    have "words_of K = chunk_words m + words_of (tl K)" using that(2,3) by (cases K) auto
    then show "same_cells D D' (v + chunk_words m) (v + chunk_words m + words_of (tl K))"
      using same_cells_part [OF assms(1)] by simp
  qed
  then show ?thesis using assms(2) all by (cases rd) auto
qed

lemma writer_part_same:
  assumes "same_cells D D' (v + words_of (committed w L)) (v + ws)" and "writer_part ws D v L w" and "words_of L < ws"
  shows "writer_part ws D' v L w"
proof -
  have data: "holds_data D' e m" if "holds_data D e m" "v + words_of (committed w L) \<le> e" "e + chunk_words m \<le> v + ws" for e m
    by (rule holds_data_same [OF same_cells_part [OF assms(1)] that(1)]) (use that in auto)
  have word: "holds_word D' e x" if "holds_word D e x" "v + words_of (committed w L) \<le> e" "e + 1 \<le> v + ws" for e x
    by (rule holds_word_same [OF same_cells_part [OF assms(1)] that(1)]) (use that in auto)
  show ?thesis
  proof (cases w)
    case (WMoved m wp)
    then have "words_of L = words_of (butlast L) + chunk_words m"
      using assms(2) by (cases L rule: rev_cases) auto
    then show ?thesis
      using assms(2,3) WMoved data [of "v + words_of (butlast L)" m] word [of "v + words_of (butlast L)"] chunk_words_ge(1) [of m]
      by auto
  qed (use assms(2) data word chunk_words_ge(1) in \<open>auto simp: room_def\<close>)
qed

section \<open>Steps of the writer\<close>

lemma writer_write:
  assumes inv: "channel_inv ws v L c" and ok: "ring_ok ws r'"
    and fields: "rg_read_pt r' = rg_read_pt (ch_ring c)" "rg_write_pt r' = rg_write_pt (ch_ring c)"
      "rg_sem r' = rg_sem (ch_ring c)"
    and same: "same_cells (rg_data (ch_ring c)) (rg_data r') v (v + words_of L)"
    and w': "committed w' L = committed (ch_writer c) L" "w' \<noteq> WDone" "ch_writer c \<noteq> WDone"
      "writer_part ws (rg_data r') v L w'"
  shows "channel_inv ws v L (c\<lparr>ch_ring := r', ch_writer := w'\<rparr>)"
proof -
  note i = channel_invD [OF inv]
  have "reader_part ws (rg_data r') v (committed (ch_writer c) L) (ch_reader c)"
    by (rule reader_part_same [OF same_cells_part [OF same] i(7)]) (simp_all add: words_committed)
  then show ?thesis
    using i ok fields w' by (simp add: channel_inv_def Let_def)
qed

text \<open>The words of the chunk that is being written.\<close>

lemma chunk_write:
  assumes inv: "channel_inv ws v L c" and room: "room ws v L m wp"
  shows "ring_ok ws (put_word wp w (ch_ring c))" "ring_ok ws (put_word ((wp + 1) mod ws) w (ch_ring c))"
    "ring_ok ws (w_data wp m (ch_ring c))"
    "same_cells (rg_data (ch_ring c)) (rg_data (put_word wp w (ch_ring c))) v (v + words_of L)"
    "same_cells (rg_data (ch_ring c)) (rg_data (put_word ((wp + 1) mod ws) w (ch_ring c))) v (v + words_of L)"
    "same_cells (rg_data (ch_ring c)) (rg_data (w_data wp m (ch_ring c))) v (v + words_of L)"
    "holds_data (rg_data (w_data wp m (ch_ring c))) (v + words_of L) m"
    "holds_word (rg_data (put_word wp w (ch_ring c))) (v + words_of L) w"
    "holds_data (rg_data (ch_ring c)) (v + words_of L) m \<Longrightarrow>
       holds_data (rg_data (put_word wp w (ch_ring c))) (v + words_of L) m"
proof -
  let ?e = "v + words_of L"
  note i = channel_invD [OF inv]
  note ok = ring_okD [OF i(1)]
  have r: "msg_ok ws m" "wp = ?e mod ws" "words_of L + chunk_words m < ws" using room by (simp_all add: room_def)
  have len: "length m \<le> 4 * ws" using r(1) by (simp add: msg_ok_def)
  have next_word: "(wp + 1) mod ws = (?e + 1) mod ws" unfolding r(2) by (rule mod_add_left_eq)
  have ge: "2 \<le> chunk_words m" by (rule chunk_words_ge)
  show "ring_ok ws (put_word wp w (ch_ring c))" "ring_ok ws (put_word ((wp + 1) mod ws) w (ch_ring c))"
    using i(1) ok(3) r(2) by simp_all
  show "ring_ok ws (w_data wp m (ch_ring c))"
    using ok len by (simp add: w_data_def ring_ok_def)
  show "same_cells (rg_data (ch_ring c)) (rg_data (put_word wp w (ch_ring c))) v ?e"
    unfolding r(2) by (rule put_word_keeps [OF i(1)]) (use r(3) ge in auto)
  show "same_cells (rg_data (ch_ring c)) (rg_data (put_word ((wp + 1) mod ws) w (ch_ring c))) v ?e"
    unfolding next_word by (rule put_word_keeps [OF i(1)]) (use r(3) ge in auto)
  show "same_cells (rg_data (ch_ring c)) (rg_data (w_data wp m (ch_ring c))) v ?e"
    unfolding r(2) by (rule w_data_keeps [OF i(1) len]) (use r(3) ge in auto)
  show "holds_data (rg_data (w_data wp m (ch_ring c))) ?e m"
    unfolding r(2) by (rule w_data_holds [OF i(1) len])
  show "holds_word (rg_data (put_word wp w (ch_ring c))) ?e w"
    unfolding r(2) by (rule put_word_holds [OF i(1)])
  have "same_cells (rg_data (ch_ring c)) (rg_data (put_word wp w (ch_ring c))) (?e + 2) (?e + chunk_words m)"
    unfolding r(2) by (rule put_word_keeps [OF i(1)]) (use r(3) in auto)
  then show "holds_data (rg_data (ch_ring c)) ?e m \<Longrightarrow> holds_data (rg_data (put_word wp w (ch_ring c))) ?e m"
    by (rule holds_data_same)
qed

lemma w_data_fields [simp]:
  "rg_word_size (w_data wp m r) = rg_word_size r" "rg_write_pt (w_data wp m r) = rg_write_pt r"
  "rg_read_pt (w_data wp m r) = rg_read_pt r" "rg_sem (w_data wp m r) = rg_sem r"
  by (simp_all add: w_data_def)

lemma start_inv:
  assumes inv: "channel_inv ws v L c" and w: "ch_writer c = WIdle" and m: "msg_ok ws m"
    and fits: "chunk_fits (length m) CHUNK_MARGIN (ch_ring c)"
  shows "channel_inv ws v L (c\<lparr>ch_writer := WReady m (rg_write_pt (ch_ring c))\<rparr>)"
proof -
  note i = channel_invD [OF inv]
  have "room ws v L m (rg_write_pt (ch_ring c))"
    using chunk_fits_room [OF i(1-4) fits] m i(3) by (simp add: room_def)
  then show ?thesis using i w by (simp add: channel_inv_def Let_def)
qed

lemma header_inv:
  assumes inv: "channel_inv ws v L c"
  shows "ch_writer c = WReady m wp \<Longrightarrow> channel_inv ws v L (c\<lparr>ch_ring := w_alloc_size wp (ch_ring c), ch_writer := WSize0 m wp\<rparr>)"
    and "ch_writer c = WSize0 m wp \<Longrightarrow> channel_inv ws v L (c\<lparr>ch_ring := w_alloc_magic wp (ch_ring c), ch_writer := WAlloc m wp\<rparr>)"
    and "ch_writer c = WAlloc m wp \<Longrightarrow> channel_inv ws v L (c\<lparr>ch_ring := w_data wp m (ch_ring c), ch_writer := WData m wp\<rparr>)"
    and "ch_writer c = WData m wp \<Longrightarrow> channel_inv ws v L (c\<lparr>ch_ring := w_size wp m (ch_ring c), ch_writer := WSized m wp\<rparr>)"
proof -
  note i = channel_invD [OF inv]
  note ws = ring_okD(1) [OF i(1)]
  { assume w: "ch_writer c = WReady m wp"
    then have "room ws v L m wp" using i(6) by simp
    note cw = chunk_write [OF inv this]
    show "channel_inv ws v L (c\<lparr>ch_ring := w_alloc_size wp (ch_ring c), ch_writer := WSize0 m wp\<rparr>)"
      unfolding w_alloc_size_def by (rule writer_write [OF inv cw(1) _ _ _ cw(4)]) (use w i(6) in simp_all) }
  { assume w: "ch_writer c = WSize0 m wp"
    then have "room ws v L m wp" using i(6) by simp
    note cw = chunk_write [OF inv this]
    show "channel_inv ws v L (c\<lparr>ch_ring := w_alloc_magic wp (ch_ring c), ch_writer := WAlloc m wp\<rparr>)"
      unfolding w_alloc_magic_def ws by (rule writer_write [OF inv cw(2) _ _ _ cw(5)]) (use w i(6) in simp_all) }
  { assume w: "ch_writer c = WAlloc m wp"
    then have "room ws v L m wp" using i(6) by simp
    note cw = chunk_write [OF inv this]
    show "channel_inv ws v L (c\<lparr>ch_ring := w_data wp m (ch_ring c), ch_writer := WData m wp\<rparr>)"
      by (rule writer_write [OF inv cw(3) _ _ _ cw(6)]) (use w i(6) cw(7) in simp_all) }
  { assume w: "ch_writer c = WData m wp"
    then have "room ws v L m wp" using i(6) by simp
    note cw = chunk_write [OF inv this]
    show "channel_inv ws v L (c\<lparr>ch_ring := w_size wp m (ch_ring c), ch_writer := WSized m wp\<rparr>)"
      unfolding w_size_def by (rule writer_write [OF inv cw(1) _ _ _ cw(4)]) (use w i(6) cw(8,9) in simp_all) }
qed

lemma pointer_inv:
  assumes inv: "channel_inv ws v L c" and w: "ch_writer c = WSized m wp"
  shows "channel_inv ws v (L @ [m]) (c\<lparr>ch_ring := w_pointer wp m (ch_ring c), ch_writer := WMoved m wp\<rparr>)"
proof -
  note i = channel_invD [OF inv]
  note ws = ring_okD(1) [OF i(1)]
  have r: "room ws v L m wp" using i(6) w by simp
  then have "chunk_step wp (length m) (ch_ring c) = (v + words_of (L @ [m])) mod ws"
    using chunk_step_words [OF ws, of "v + words_of L" m] by (simp add: room_def add.assoc)
  then show ?thesis
    using i w r by (simp add: channel_inv_def Let_def w_pointer_def ring_ok_def room_def)
qed

lemma magic_inv:
  assumes inv: "channel_inv ws v L c" and w: "ch_writer c = WMoved m wp"
  shows "channel_inv ws v L (c\<lparr>ch_ring := w_magic wp (ch_ring c), ch_writer := WDone, ch_sent := ch_sent c @ [m]\<rparr>)"
proof -
  note i = channel_invD [OF inv]
  note ok = ring_okD [OF i(1)]
  let ?D = "rg_data (ch_ring c)" and ?r' = "w_magic wp (ch_ring c)"
  obtain K where L: "L = K @ [m]" using i(6) w by (cases L rule: rev_cases) auto
  let ?e = "v + words_of K"
  have e: "wp = ?e mod ws" "holds_data ?D ?e m" "holds_word ?D ?e (of_nat (length m))" using i(6) w L by simp_all
  have fits: "words_of K + chunk_words m < ws" using i(4) L by simp
  have ge: "2 \<le> chunk_words m" by (rule chunk_words_ge)
  have pos: "(wp + 1) mod ws = (?e + 1) mod ws" unfolding e(1) by (rule mod_add_left_eq)
  have r': "?r' = put_word ((?e + 1) mod ws) CHUNK_MAGIC (ch_ring c)" unfolding w_magic_def ok(1) pos ..
  have keep: "same_cells ?D (rg_data ?r') a b" if "b \<le> ?e + 1 \<and> ?e + 2 \<le> a + ws \<or> ?e + 2 \<le> a \<and> b \<le> ?e + 1 + ws" for a b
    unfolding r' by (rule put_word_keeps [OF i(1)]) (use that in auto)
  have "holds_word (rg_data ?r') (?e + 1) CHUNK_MAGIC" unfolding r' by (rule put_word_holds [OF i(1)])
  moreover have "holds_word (rg_data ?r') ?e (of_nat (length m))"
    by (rule holds_word_same [OF keep e(3)]) (use fits ge in auto)
  moreover have "holds_data (rg_data ?r') ?e m"
    by (rule holds_data_same [OF keep e(2)]) (use fits ge in auto)
  ultimately have new: "chunk_at (rg_data ?r') ?e m" by (simp add: chunk_at_def)
  have old: "reader_part ws (rg_data ?r') v K (ch_reader c)"
    by (rule reader_part_same [OF keep]) (use i(7) w L fits ge in auto)
  have "reader_part ws (rg_data ?r') v L (ch_reader c)"
    using old new L by (cases "ch_reader c"; cases K) (auto simp: add.assoc)
  moreover have "ring_ok ws ?r'" unfolding r' using i(1) ok(3) by simp
  ultimately show ?thesis
    using i w L r' by (cases "ch_reader c"; cases K) (simp_all add: channel_inv_def Let_def)
qed

lemma post_inv:
  assumes "channel_inv ws v L c" and "ch_writer c = WDone"
  shows "channel_inv ws v L (c\<lparr>ch_ring := w_post (ch_ring c), ch_writer := WIdle\<rparr>)"
  using channel_invD [OF assms(1)] assms(2) by (simp add: channel_inv_def Let_def w_post_def ring_ok_def)

section \<open>Steps of the reader\<close>

lemma lap_differs: "0 < k \<Longrightarrow> k < ws \<Longrightarrow> (v + k) mod ws \<noteq> v mod ws" for ws :: nat
  using wrap_once [of k ws v] by auto

lemma message_size: "msg_ok ws m \<Longrightarrow> 4 * ws \<le> 2 ^ 32 \<Longrightarrow> unat (of_nat (length m) :: u32) = length m"
  by (simp add: msg_ok_def unat_of_nat)

text \<open>The reader gets the first message.\<close>

lemma r_message_first:
  assumes ok: "ring_ok ws r" and pts: "rg_read_pt r = v mod ws" "rg_write_pt r \<noteq> v mod ws"
    and m: "chunk_at (rg_data r) v m" "msg_ok ws m"
  shows "r_message r = Ok (Some m)"
proof -
  note o = ring_okD [OF ok]
  have w: "get_word (v mod ws) r = of_nat (length m)" "get_word ((v + 1) mod ws) r = CHUNK_MAGIC"
    using get_word_holds [OF ok] m(1) by (simp_all add: chunk_at_def)
  have pos: "(v mod ws + 1) mod ws = (v + 1) mod ws" by (rule mod_add_left_eq)
  have len: "length m \<le> 4 * ws" "0 < length m" "length m \<le> max_chunk_size r"
    using m(2) o(1) by (auto simp: msg_ok_def max_chunk_size_def CHUNK_HEADER_WORDS_def)
  have "copy_out (4 * ((v mod ws + CHUNK_HEADER_WORDS) mod ws)) (length m) (rg_data r) = m"
    using copy_out_holds [OF ok _ len(1)] m(1) by (simp add: chunk_at_def)
  then show ?thesis
    using pts o(1) w pos len message_size [OF m(2) o(4)]
    by (simp add: r_message_def Let_def)
qed

lemma reader_message:
  assumes inv: "channel_inv ws v L c" and rd: "ch_reader c = RWoken"
  obtains m K where "committed (ch_writer c) L = m # K" and "r_message (ch_ring c) = Ok (Some m)"
proof -
  note i = channel_invD [OF inv]
  obtain m K where K: "committed (ch_writer c) L = m # K"
    using i(8) rd by (cases "committed (ch_writer c) L") auto
  have "m \<in> set (committed (ch_writer c) L)" using K by simp
  then have "m \<in> set L" by (cases "ch_writer c") (auto dest: in_set_butlastD)
  then have m: "msg_ok ws m" by (rule i(5))
  have "0 < words_of L" using words_committed [of "ch_writer c" L] K chunk_words_ge(1) [of m] by simp
  then have "rg_write_pt (ch_ring c) \<noteq> v mod ws" using lap_differs i(3,4) by simp
  moreover have "chunk_at (rg_data (ch_ring c)) v m" using i(7) rd K by simp
  ultimately show thesis using that K r_message_first [OF i(1,2) _ _ m] by blast
qed

lemma wake_inv:
  assumes "channel_inv ws v L c" and "ch_reader c = RIdle" and "sem_wait (ch_ring c) = Some r"
  shows "channel_inv ws v L (c\<lparr>ch_ring := r, ch_reader := RWoken\<rparr>)"
  using channel_invD [OF assms(1)] assms(2,3)
  by (auto simp: channel_inv_def Let_def sem_wait_def ring_ok_def split: if_splits)

lemma got_inv:
  assumes inv: "channel_inv ws v L c" and rd: "ch_reader c = RWoken" and m: "r_message (ch_ring c) = Ok (Some m)"
  shows "channel_inv ws v L (c\<lparr>ch_reader := RGot m (rg_read_pt (ch_ring c)), ch_received := ch_received c @ [m]\<rparr>)"
proof -
  note i = channel_invD [OF inv]
  obtain K where "committed (ch_writer c) L = m # K"
    using reader_message [OF inv rd] m by (metis option.inject res.inject(1))
  then show ?thesis using i rd by (simp add: channel_inv_def Let_def)
qed

lemma header_dead:
  assumes inv: "channel_inv ws v L c" and busy: "holds_chunk (ch_reader c)" and k: "k < 2"
    and r': "r' = put_word ((v + k) mod ws) w (ch_ring c)"
    and K: "committed (ch_writer c) L = m # K" and chunks: "chunks (rg_data (ch_ring c)) (v + chunk_words m) K"
    and rd': "rd' = RCleared m (v mod ws) \<or> rd' = RDead m (v mod ws)"
  shows "channel_inv ws v L (c\<lparr>ch_ring := r', ch_reader := rd'\<rparr>)"
proof -
  note i = channel_invD [OF inv]
  note o = ring_okD [OF i(1)]
  have ge: "2 \<le> chunk_words m" by (rule chunk_words_ge)
  have le: "words_of (m # K) \<le> words_of L" using words_committed [of "ch_writer c" L] K by simp
  have keep: "same_cells (rg_data (ch_ring c)) (rg_data r') a b" if "v + chunk_words m \<le> a" "b \<le> v + ws" for a b
    unfolding r' by (rule put_word_keeps [OF i(1)]) (use that ge k in auto)
  have "chunks (rg_data r') (v + chunk_words m) K"
    by (rule chunks_same [OF keep chunks]) (use le i(4) in auto)
  moreover have "writer_part ws (rg_data r') v L (ch_writer c)"
    by (rule writer_part_same [OF keep i(6,4)]) (use K in auto)
  moreover have "ring_ok ws r'" unfolding r' using i(1) o(3) by simp
  moreover have "awake (ch_reader c)" using busy by (cases "ch_reader c") auto
  ultimately show ?thesis
    using i K rd' busy r' by (auto simp: channel_inv_def Let_def)
qed

lemma clear_inv:
  assumes inv: "channel_inv ws v L c"
  shows "ch_reader c = RGot m rp \<Longrightarrow> channel_inv ws v L (c\<lparr>ch_ring := r_clear_size rp (ch_ring c), ch_reader := RCleared m rp\<rparr>)"
    and "ch_reader c = RCleared m rp \<Longrightarrow> channel_inv ws v L (c\<lparr>ch_ring := r_dead rp (ch_ring c), ch_reader := RDead m rp\<rparr>)"
proof -
  note i = channel_invD [OF inv]
  note ws = ring_okD(1) [OF i(1)]
  have pos: "(v mod ws + 1) mod ws = (v + 1) mod ws" by (rule mod_add_left_eq)
  { assume rd: "ch_reader c = RGot m rp"
    then obtain K where "committed (ch_writer c) L = m # K" "rp = v mod ws" "chunks (rg_data (ch_ring c)) (v + chunk_words m) K"
      using i(7) by (cases "committed (ch_writer c) L") auto
    then show "channel_inv ws v L (c\<lparr>ch_ring := r_clear_size rp (ch_ring c), ch_reader := RCleared m rp\<rparr>)"
      using header_dead [OF inv, where k = 0 and w = 0] rd by (simp add: r_clear_size_def) }
  { assume rd: "ch_reader c = RCleared m rp"
    then obtain K where "committed (ch_writer c) L = m # K" "rp = v mod ws" "chunks (rg_data (ch_ring c)) (v + chunk_words m) K"
      using i(7) by (cases "committed (ch_writer c) L") auto
    then show "channel_inv ws v L (c\<lparr>ch_ring := r_dead rp (ch_ring c), ch_reader := RDead m rp\<rparr>)"
      using header_dead [OF inv, where k = 1 and w = CHUNK_MAGIC_DEAD] rd pos by (simp add: r_dead_def ws) }
qed

lemma committed_tl:
  assumes "committed w L = m # K"
  obtains L' where "L = m # L'" and "committed w L' = K" and "writer_part ws D v L w \<Longrightarrow> writer_part ws D (v + chunk_words m) L' w"
proof (cases w)
  case (WMoved x wp)
  then obtain y where L: "L = m # K @ [y]" using assms by (cases L rule: rev_cases) auto
  then show thesis using that [of "K @ [y]"] WMoved by (simp add: add.assoc)
qed (use assms that in \<open>auto simp: room_def add.assoc\<close>)

lemma reclaim_inv:
  assumes inv: "channel_inv ws v L c" and rd: "ch_reader c = RDead m rp"
  shows "channel_inv ws (v + chunk_words m) (tl L) (c\<lparr>ch_ring := r_flow (r_pointer rp m (ch_ring c)), ch_reader := RIdle\<rparr>)"
proof -
  note i = channel_invD [OF inv]
  note o = ring_okD [OF i(1)]
  obtain K where K: "committed (ch_writer c) L = m # K" "rp = v mod ws" "chunks (rg_data (ch_ring c)) (v + chunk_words m) K"
    using i(7) rd by (cases "committed (ch_writer c) L") auto
  obtain L' where L': "L = m # L'" "committed (ch_writer c) L' = K"
      "writer_part ws (rg_data (ch_ring c)) (v + chunk_words m) L' (ch_writer c)"
    using committed_tl [OF K(1)] i(6) by metis
  have "chunk_step rp (length m) (ch_ring c) = (v + chunk_words m) mod ws"
    unfolding K(2) by (rule chunk_step_words [OF o(1)])
  then show ?thesis
    using i K L' rd by (auto simp: channel_inv_def Let_def r_flow_def r_pointer_def ring_ok_def add.assoc)
qed

section \<open>All steps\<close>

lemma step_inv:
  assumes inv: "channel_inv ws v L c" and step: "channel_step ok c c'" and ok: "\<And>m. ok m \<Longrightarrow> msg_ok ws m"
  shows "\<exists>v' L'. channel_inv ws v' L' c'"
  using step
proof cases
  case (start m)
  then show ?thesis using start_inv [OF inv _ ok] by blast
next
  case (spurious)
  then show ?thesis using reader_message [OF inv] by (metis option.distinct(1) res.inject(1))
next
  case (failed e)
  then show ?thesis using reader_message [OF inv] by (metis res.distinct(1))
next
  case alloc_size
  then show ?thesis using header_inv(1) [OF inv] by blast
next
  case alloc_magic
  then show ?thesis using header_inv(2) [OF inv] by blast
next
  case data
  then show ?thesis using header_inv(3) [OF inv] by blast
next
  case size
  then show ?thesis using header_inv(4) [OF inv] by blast
next
  case pointer
  then show ?thesis using pointer_inv [OF inv] by blast
next
  case magic
  then show ?thesis using magic_inv [OF inv] by blast
next
  case post
  then show ?thesis using post_inv [OF inv] by blast
next
  case wake
  then show ?thesis using wake_inv [OF inv] by blast
next
  case got
  then show ?thesis using got_inv [OF inv] by blast
next
  case clear
  then show ?thesis using clear_inv(1) [OF inv] by blast
next
  case dead
  then show ?thesis using clear_inv(2) [OF inv] by blast
next
  case reclaim
  then show ?thesis using reclaim_inv [OF inv] by blast
qed

lemma start_channel_inv:
  assumes "ring_ok ws r" and "rg_read_pt r = rg_write_pt r" and "rg_write_pt r < ws" and "rg_sem r = 0"
  shows "channel_inv ws (rg_write_pt r) [] (channel_start r)"
  using assms by (simp add: channel_inv_def Let_def channel_start_def ring_ok_def)

lemma reachable_inv:
  assumes "reachable_channel ok r c" and "ring_ok ws r" and "rg_read_pt r = rg_write_pt r" and "rg_write_pt r < ws"
    and "rg_sem r = 0" and "\<And>m. ok m \<Longrightarrow> msg_ok ws m"
  shows "\<exists>v L. channel_inv ws v L c"
  using assms(1)
proof induction
  case init
  then show ?case using start_channel_inv [OF assms(2-5)] by blast
next
  case (step c c')
  then show ?case using step_inv assms(6) by blast
qed

text \<open>A ring as \<open>new\<close> creates it.\<close>

lemma ring_new_ok:
  assumes "ring_new n u = Ok r" and "n \<le> 16 * 1024 * 1024"
  shows "ring_ok (rg_word_size r) r" "rg_read_pt r = 0" "rg_write_pt r = 0" "rg_sem r = 0"
    "4 * rg_word_size r = div_ceil (n + 13) 4096 * 4096" "n + 13 \<le> 4 * rg_word_size r"
proof -
  let ?real = "div_ceil (n + 13) 4096 * 4096"
  have real: "n + 13 \<le> ?real" "?real < 2 ^ 32" "4 * (?real div 4) = ?real"
    using assms(2) by (auto simp: div_ceil_def)
  then have "(?real div 4) mod 2 ^ 32 = ?real div 4" by simp
  moreover have "usize_checked_add n (CHUNK_MARGIN + 1) = Some (n + 13)"
    using assms(2) by (simp add: usize_checked_add_def CHUNK_MARGIN_def CHUNK_HEADER_WORDS_def)
  ultimately have r: "r = put_word 0 5
      \<lparr>rg_write_pt = 0, rg_read_pt = 0, rg_word_size = ?real div 4, rg_ref_count = 1, rg_sem = 0,
       rg_fc = (if u \<ge> 4 then Some 0 else None), rg_data = replicate ?real 0\<rparr>"
    using assms(1) real by (simp add: ring_new_def Let_def split: if_splits)
  have "0 < ?real div 4" using real(1) by auto
  then show "ring_ok (rg_word_size r) r"
    unfolding r using real by (simp add: put_word_def ring_ok_def)
  show "rg_read_pt r = 0" "rg_write_pt r = 0" "rg_sem r = 0" "4 * rg_word_size r = ?real" "n + 13 \<le> 4 * rg_word_size r"
    unfolding r using real by simp_all
qed

section \<open>Whole operations\<close>

definition ring_holds :: "nat \<Rightarrow> RingShared \<Rightarrow> byte list list \<Rightarrow> bool" where
  "ring_holds ws r q \<longleftrightarrow> (\<exists>v s d. channel_inv ws v q
     \<lparr>ch_ring = r, ch_writer = WIdle, ch_reader = RIdle, ch_sent = s, ch_received = d\<rparr>)"

lemma try_send_holds:
  assumes "ring_holds ws r q" and m: "msg_ok ws m" and op: "try_send m r = (Ok (), r')"
  shows "ring_holds ws r' (q @ [m])"
proof -
  obtain v s d where inv: "channel_inv ws v q
      \<lparr>ch_ring = r, ch_writer = WIdle, ch_reader = RIdle, ch_sent = s, ch_received = d\<rparr>" (is "channel_inv _ _ _ ?c")
    using assms(1) by (auto simp: ring_holds_def)
  have fits: "chunk_fits (length m) CHUNK_MARGIN r" and r': "r' = write_chunk m r"
    using op by (simp_all add: try_send_def split: if_splits)
  have "channel_inv ws v q (?c\<lparr>ch_writer := WReady m (rg_write_pt r)\<rparr>)"
    using start_inv [OF inv _ m] fits by simp
  note 1 = header_inv(1) [OF this, of m "rg_write_pt r", simplified]
  note 2 = header_inv(2) [OF 1, of m "rg_write_pt r", simplified]
  note 3 = header_inv(3) [OF 2, of m "rg_write_pt r", simplified]
  note 4 = header_inv(4) [OF 3, of m "rg_write_pt r", simplified]
  note 5 = pointer_inv [OF 4, of m "rg_write_pt r", simplified]
  note 6 = magic_inv [OF 5, of m "rg_write_pt r", simplified]
  note 7 = post_inv [OF 6, simplified]
  then show ?thesis unfolding ring_holds_def r' write_chunk_def Let_def by blast
qed

lemma recv_turn_holds:
  assumes "ring_holds ws r (m # q)"
  shows "\<exists>r'. recv_turn r = Some (Ok (Some m), r') \<and> ring_holds ws r' q"
proof -
  obtain v s d where inv: "channel_inv ws v (m # q)
      \<lparr>ch_ring = r, ch_writer = WIdle, ch_reader = RIdle, ch_sent = s, ch_received = d\<rparr>" (is "channel_inv _ _ _ ?c")
    using assms(1) by (auto simp: ring_holds_def)
  let ?r0 = "r\<lparr>rg_sem := rg_sem r - Suc 0\<rparr>"
  have sem: "sem_wait r = Some ?r0"
    using channel_invD(8) [OF inv] by (simp add: sem_wait_def)
  have 1: "channel_inv ws v (m # q) (?c\<lparr>ch_ring := ?r0, ch_reader := RWoken\<rparr>)"
    by (rule wake_inv [OF inv]) (simp_all add: sem)
  have msg: "r_message ?r0 = Ok (Some m)"
    using reader_message [OF 1] by auto
  note 2 = got_inv [OF 1, simplified, OF msg]
  note 3 = clear_inv(1) [OF 2, simplified]
  note 4 = clear_inv(2) [OF 3, simplified]
  note 5 = reclaim_inv [OF 4, simplified]
  have "recv_turn r = Some (read_chunk ?r0)" using sem by (simp add: recv_turn_def)
  moreover have "fst (read_chunk ?r0) = Ok (Some m)" using msg by (simp add: read_chunk_def Let_def)
  moreover have "snd (read_chunk ?r0) = r_flow (r_pointer (rg_read_pt r) m (r_dead (rg_read_pt r) (r_clear_size (rg_read_pt r) ?r0)))"
    using msg by (simp add: read_chunk_def Let_def)
  then have "ring_holds ws (snd (read_chunk ?r0)) q"
    unfolding ring_holds_def using 5 by metis
  ultimately show ?thesis by (metis prod.collapse)
qed

lemma recv_turn_empty: "ring_holds ws r [] \<Longrightarrow> recv_turn r = None"
  by (auto simp: ring_holds_def recv_turn_def sem_wait_def channel_inv_def Let_def)

end
