(* ===== verification/Ipc_Fifo.thy ===== *)
theory Ipc_Fifo
  imports Ipc_Channel "HOL-Library.Sublist"
begin

text \<open>
  The ring buffer as a queue: the contract of a bounded queue, that the ring keeps it, and the properties
  of the exchange between a writer and a reader.
\<close>

section \<open>Contract of a queue\<close>

datatype 'a queue_op = Send 'a | Recv

text \<open>A sequence of operations, with the messages it puts in and those it takes out.\<close>

fun queue_run :: "('a \<Rightarrow> 's \<Rightarrow> 's option) \<Rightarrow> ('s \<Rightarrow> ('a \<times> 's) option) \<Rightarrow> 'a queue_op list \<Rightarrow> 's \<Rightarrow>
    'a list \<times> 'a list \<times> 's" where
  "queue_run snd_op rcv_op [] s = ([], [], s)"
| "queue_run snd_op rcv_op (Send m # ops) s =
     (case snd_op m s of
        None \<Rightarrow> queue_run snd_op rcv_op ops s
      | Some s' \<Rightarrow> let (ins, outs, t) = queue_run snd_op rcv_op ops s' in (m # ins, outs, t))"
| "queue_run snd_op rcv_op (Recv # ops) s =
     (case rcv_op s of
        None \<Rightarrow> queue_run snd_op rcv_op ops s
      | Some (m, s') \<Rightarrow> let (ins, outs, t) = queue_run snd_op rcv_op ops s' in (ins, m # outs, t))"

locale fifo_queue =
  fixes holds :: "'s \<Rightarrow> 'a list \<Rightarrow> bool" and good :: "'a \<Rightarrow> bool"
    and snd_op :: "'a \<Rightarrow> 's \<Rightarrow> 's option" and rcv_op :: "'s \<Rightarrow> ('a \<times> 's) option"
  assumes send_holds: "holds s q \<Longrightarrow> good m \<Longrightarrow> snd_op m s = Some s' \<Longrightarrow> holds s' (q @ [m])"
    and send_empty: "holds s [] \<Longrightarrow> good m \<Longrightarrow> snd_op m s \<noteq> None"
    and recv_first: "holds s (m # q) \<Longrightarrow> \<exists>s'. rcv_op s = Some (m, s') \<and> holds s' q"
    and recv_empty: "holds s [] \<Longrightarrow> rcv_op s = None"
begin

text \<open>What was in the queue and what came in is what came out and what is left, in order.\<close>

lemma run_conserves:
  assumes "holds s q" and "queue_run snd_op rcv_op ops s = (ins, outs, t)" and "\<And>m. Send m \<in> set ops \<Longrightarrow> good m"
  shows "\<exists>q'. holds t q' \<and> q @ ins = outs @ q'"
  using assms
proof (induction ops arbitrary: s q ins outs)
  case (Cons x ops)
  have good: "Send m \<in> set ops \<Longrightarrow> good m" for m using Cons.prems(3) by simp
  show ?case
  proof (cases x)
    case (Send m)
    show ?thesis
    proof (cases "snd_op m s")
      case None
      then show ?thesis using Cons.IH [OF Cons.prems(1) _ good] Cons.prems(2) Send by simp
    next
      case (Some s')
      then have "holds s' (q @ [m])" using send_holds Cons.prems(1,3) Send by simp
      moreover obtain ins' where "queue_run snd_op rcv_op ops s' = (ins', outs, t)" "ins = m # ins'"
        using Cons.prems(2) Send Some by (auto simp: Let_def split: prod.splits)
      ultimately show ?thesis using Cons.IH [OF _ _ good] by fastforce
    qed
  next
    case Recv
    show ?thesis
    proof (cases q)
      case Nil
      then show ?thesis using Cons.IH [OF Cons.prems(1) _ good] Cons.prems(1,2) Recv recv_empty by simp
    next
      case (Cons m q')
      obtain s' where "rcv_op s = Some (m, s')" "holds s' q'" using recv_first Cons.prems(1) Cons by blast
      moreover from this obtain outs' where "queue_run snd_op rcv_op ops s' = (ins, outs', t)" "outs = m # outs'"
        using Cons.prems(2) Recv by (auto simp: Let_def split: prod.splits)
      ultimately show ?thesis using Cons.IH [OF _ _ good] Cons by fastforce
    qed
  qed
qed simp

corollary run_prefix:
  "holds s [] \<Longrightarrow> queue_run snd_op rcv_op ops s = (ins, outs, t) \<Longrightarrow> (\<And>m. Send m \<in> set ops \<Longrightarrow> good m) \<Longrightarrow>
   prefix outs ins"
  using run_conserves [of s "[]" ops ins outs t] by (auto simp: prefix_def)

text \<open>A message put into an empty queue is accepted, and the queue is empty again after it is taken.\<close>

lemma send_recv:
  assumes "holds s []" and "good m"
  obtains s' s'' where "snd_op m s = Some s'" and "rcv_op s' = Some (m, s'')" and "holds s'' []"
  using send_empty [OF assms] send_holds [OF assms] recv_first [of _ m "[]"] by fastforce

end

section \<open>The ring is a queue\<close>

definition ring_send :: "byte list \<Rightarrow> RingShared \<Rightarrow> RingShared option" where
  "ring_send m r = (case try_send m r of (Ok _, r') \<Rightarrow> Some r' | _ \<Rightarrow> None)"

definition ring_recv :: "RingShared \<Rightarrow> (byte list \<times> RingShared) option" where
  "ring_recv r = (case recv_turn r of Some (Ok (Some m), r') \<Rightarrow> Some (m, r') | _ \<Rightarrow> None)"

lemma ring_send_Some: "ring_send m r = Some r' \<Longrightarrow> try_send m r = (Ok (), r')"
  by (auto simp: ring_send_def split: prod.splits res.splits)

lemma ring_holdsD:
  assumes "ring_holds ws r q"
  shows "ring_ok ws r" "q = [] \<Longrightarrow> rg_read_pt r = rg_write_pt r"
  using assms by (auto simp: ring_holds_def channel_inv_def Let_def)

lemma empty_ring_fits:
  assumes "ring_ok ws r" and "rg_read_pt r = rg_write_pt r"
  shows "chunk_fits n CHUNK_MARGIN r \<longleftrightarrow> n + 12 \<le> 4 * ws"
  using assms by (auto simp: chunk_fits_def space_free_bytes_def space_free_words_def Let_def ring_ok_def
      CHUNK_MARGIN_def CHUNK_HEADER_WORDS_def)

interpretation ring_queue: fifo_queue "ring_holds ws" "msg_ok ws" ring_send ring_recv for ws
proof unfold_locales
  fix r q m r'
  assume "ring_holds ws r q" "msg_ok ws m" "ring_send m r = Some r'"
  then show "ring_holds ws r' (q @ [m])" using try_send_holds ring_send_Some by blast
next
  fix r m
  assume "ring_holds ws r []" "msg_ok ws m"
  then show "ring_send m r \<noteq> None"
    using empty_ring_fits ring_holdsD by (fastforce simp: ring_send_def try_send_def msg_ok_def)
next
  fix r m q
  assume "ring_holds ws r (m # q)"
  then show "\<exists>r'. ring_recv r = Some (m, r') \<and> ring_holds ws r' q"
    using recv_turn_holds by (fastforce simp: ring_recv_def)
next
  fix r
  assume "ring_holds ws r []"
  then show "ring_recv r = None" using recv_turn_empty by (simp add: ring_recv_def)
qed

text \<open>A ring that was just created.\<close>

lemma ring_new_holds:
  assumes "ring_new n u = Ok r" and "n \<le> 16 * 1024 * 1024"
  shows "ring_holds (rg_word_size r) r []"
proof -
  note new = ring_new_ok [OF assms]
  have "0 < rg_word_size r" using new(1) by (simp add: ring_ok_def)
  then show ?thesis
    using start_channel_inv [OF new(1)] new(2-4) unfolding ring_holds_def channel_start_def by metis
qed

lemma page_margin:
  fixes a k n w :: nat
  assumes "w = (a + (if k \<le> 4083 then 1 else 2)) * 4096" and "n = 4096 * a + k" and "k < 4096"
  shows "n + 72 \<le> w \<longleftrightarrow> \<not> (4024 < k \<and> k \<le> 4083)"
  using assms by (auto split: if_splits)

lemma ring_new_size:
  assumes "ring_new n u = Ok r" and "n \<le> 16 * 1024 * 1024"
  shows "n + 72 \<le> 4 * rg_word_size r \<longleftrightarrow> \<not> (4024 < n mod 4096 \<and> n mod 4096 \<le> 4083)"
    and "n + 12 \<le> 4 * rg_word_size r"
proof -
  note new = ring_new_ok(5,6) [OF assms]
  show "n + 12 \<le> 4 * rg_word_size r" using new(2) by simp
  let ?k = "n mod 4096"
  have n: "n = 4096 * (n div 4096) + ?k" by simp
  have "n + 13 + (4096 - 1) = ?k + 4108 + (n div 4096) * 4096" using n by linarith
  then have "(n + 13 + (4096 - 1)) div 4096 = n div 4096 + (?k + 4108) div 4096" by (metis div_mult_self1 zero_neq_numeral)
  also have "(?k + 4108) div 4096 = (if ?k \<le> 4083 then 1 else 2)"
    by (rule div_nat_eqI; use mod_less_divisor [of 4096 n] in \<open>auto split: if_splits\<close>)
  finally have "4 * rg_word_size r = (n div 4096 + (if ?k \<le> 4083 then 1 else 2)) * 4096"
    using new(1) by (simp add: div_ceil_def)
  then show "n + 72 \<le> 4 * rg_word_size r \<longleftrightarrow> \<not> (4024 < ?k \<and> ?k \<le> 4083)"
    by (rule page_margin [OF _ n]) simp
qed

section \<open>Steps of two processes\<close>

text \<open>
  With \<open>\<lambda>_. False\<close> for the messages that may be sent, the steps are those that finish what was begun:
  each makes this number smaller.
\<close>

fun writer_rest :: "writer \<Rightarrow> nat" where
  "writer_rest WIdle = 0" | "writer_rest WDone = 6" | "writer_rest (WMoved _ _) = 7" | "writer_rest (WSized _ _) = 8"
| "writer_rest (WData _ _) = 9" | "writer_rest (WAlloc _ _) = 10" | "writer_rest (WSize0 _ _) = 11"
| "writer_rest (WReady _ _) = 12"

fun reader_rest :: "reader \<Rightarrow> nat" where
  "reader_rest RIdle = 0" | "reader_rest (RDead _ _) = 1" | "reader_rest (RCleared _ _) = 2"
| "reader_rest (RGot _ _) = 3" | "reader_rest RWoken = 4" | "reader_rest (RFailed _) = 0"

definition channel_rest :: "channel \<Rightarrow> nat" where
  "channel_rest c = 5 * rg_sem (ch_ring c) + writer_rest (ch_writer c) + reader_rest (ch_reader c)"

lemma ring_access_sem [simp]:
  "rg_sem (w_alloc_size wp r) = rg_sem r" "rg_sem (w_alloc_magic wp r) = rg_sem r" "rg_sem (w_data wp m r) = rg_sem r"
  "rg_sem (w_size wp m r) = rg_sem r" "rg_sem (w_pointer wp m r) = rg_sem r" "rg_sem (w_magic wp r) = rg_sem r"
  "rg_sem (w_post r) = rg_sem r + 1" "rg_sem (r_clear_size rp r) = rg_sem r" "rg_sem (r_dead rp r) = rg_sem r"
  "rg_sem (r_pointer rp m r) = rg_sem r" "rg_sem (r_flow r) = rg_sem r"
  by (simp_all add: w_alloc_size_def w_alloc_magic_def w_data_def w_size_def w_pointer_def w_magic_def w_post_def
      r_clear_size_def r_dead_def r_pointer_def r_flow_def)

lemma finishing_step_decreases: "channel_step (\<lambda>_. False) c c' \<Longrightarrow> channel_rest c' < channel_rest c"
  by (induction rule: channel_step.induct) (auto simp: channel_rest_def sem_wait_def split: if_splits)

lemma finishing_step_any: "channel_step (\<lambda>_. False) c c' \<Longrightarrow> channel_step ok c c'"
  by (induction rule: channel_step.induct) (auto intro: channel_step.intros)

lemma reachable_finishing:
  assumes "(channel_step (\<lambda>_. False))\<^sup>*\<^sup>* c c'" and "reachable_channel ok r c"
  shows "reachable_channel ok r c'"
  using assms by induction (auto intro: reachable_channel.step finishing_step_any)

lemma finishing_run: "\<exists>c'. (channel_step (\<lambda>_. False))\<^sup>*\<^sup>* c c' \<and> (\<nexists>c''. channel_step (\<lambda>_. False) c' c'')"
proof (induction "channel_rest c" arbitrary: c rule: less_induct)
  case less
  then show ?case
    by (metis converse_rtranclp_into_rtranclp finishing_step_decreases rtranclp.rtrancl_refl)
qed

text \<open>A state in which nothing is left to do holds no message.\<close>

lemma finished_channel:
  assumes inv: "channel_inv ws v L c" and stop: "\<And>c'. \<not> channel_step (\<lambda>_. False) c c'"
  shows "ch_writer c = WIdle" "ch_reader c = RIdle" "ch_received c = ch_sent c"
proof -
  note i = channel_invD [OF inv]
  show w: "ch_writer c = WIdle"
    using stop channel_step.intros(2-8) [of c] by (cases "ch_writer c") blast+
  have "r_message (ch_ring c) \<noteq> Ok (Some m)" if "ch_reader c = RWoken" for m
    using stop channel_step.got [of c] that by blast
  then have "ch_reader c \<noteq> RWoken" using reader_message [OF inv] by metis
  moreover have "ch_reader c \<noteq> RFailed e" for e using i(7) by auto
  ultimately show r: "ch_reader c = RIdle"
    using stop channel_step.intros(13-15) [of c] by (cases "ch_reader c") blast+
  have "sem_wait (ch_ring c) = None"
    using stop channel_step.wake [of c] r by (cases "sem_wait (ch_ring c)") blast+
  then have "rg_sem (ch_ring c) = 0" by (simp add: sem_wait_def split: if_splits)
  then show "ch_received c = ch_sent c" using i(8,9) w r by simp
qed

text \<open>What the invariant gives for a ring that \<open>new\<close> created.\<close>

lemma new_ring_reachable:
  assumes "ring_new n u = Ok r" and "n \<le> 16 * 1024 * 1024" and "\<And>m. ok m \<Longrightarrow> msg_ok (rg_word_size r) m"
    and "reachable_channel ok r c"
  obtains v L where "channel_inv (rg_word_size r) v L c"
proof -
  note new = ring_new_ok [OF assms(1,2)]
  have "0 < rg_word_size r" using new(1) by (simp add: ring_ok_def)
  then show thesis using reachable_inv [OF assms(4) new(1)] new(2-4) assms(3) that by metis
qed

section \<open>Properties\<close>

text \<open>
  C4. A client and the server that share a ring never see a torn, lost, repeated or reordered message:
  however the memory accesses of the two processes interleave, what the reader has taken out is a prefix of
  what the writer has put in, and the reader never finds a chunk that it rejects. The messages are those up
  to the size that the reader accepts, in a ring of a size that a connection may ask for.
\<close>

theorem messages_arrive_in_order:
  assumes "ring_new n u = Ok r" and "n \<le> 16 * 1024 * 1024" and "\<And>m. ok m \<Longrightarrow> msg_ok (rg_word_size r) m"
    and "reachable_channel ok r c"
  shows "prefix (ch_received c) (ch_sent c) \<and> (\<forall>e. ch_reader c \<noteq> RFailed e)"
proof -
  obtain v L where inv: "channel_inv (rg_word_size r) v L c" by (rule new_ring_reachable [OF assms])
  then show ?thesis using channel_invD(7,9) [OF inv] by auto
qed

definition sample_ring :: RingShared where
  "sample_ring = (case ring_new 100 4 of Ok r \<Rightarrow> r)"

lemma sample_ring_new: "ring_new 100 4 = Ok sample_ring" "rg_word_size sample_ring = 1024"
  by (simp_all add: sample_ring_def ring_new_def usize_checked_add_def CHUNK_MARGIN_def CHUNK_HEADER_WORDS_def
      div_ceil_def Let_def)

definition short_msg :: "byte list \<Rightarrow> bool" where
  "short_msg m \<longleftrightarrow> 0 < length m \<and> length m \<le> 4024"

lemma short_msg_ok: "short_msg m \<Longrightarrow> msg_ok (rg_word_size sample_ring) m"
  by (simp add: short_msg_def msg_ok_def sample_ring_new)

theorem messages_arrive_in_order_witness:
  "prefix (ch_received (channel_start sample_ring)) (ch_sent (channel_start sample_ring))"
  using messages_arrive_in_order [OF sample_ring_new(1) _ short_msg_ok reachable_channel.init] by simp

text \<open>
  C19. No wake-up is lost: from every state that the two processes can reach, the steps that finish what was
  begun come to an end, and wherever they end the writer and the reader are idle and the reader has every
  message that was sent.
\<close>

theorem sent_messages_are_received:
  assumes "ring_new n u = Ok r" and "n \<le> 16 * 1024 * 1024" and "\<And>m. ok m \<Longrightarrow> msg_ok (rg_word_size r) m"
    and "reachable_channel ok r c"
  shows "(\<nexists>f. f 0 = c \<and> (\<forall>i. channel_step (\<lambda>_. False) (f i) (f (Suc i)))) \<and>
    (\<forall>c'. (channel_step (\<lambda>_. False))\<^sup>*\<^sup>* c c' \<and> (\<nexists>c''. channel_step (\<lambda>_. False) c' c'') \<longrightarrow>
       ch_received c' = ch_sent c' \<and> ch_writer c' = WIdle \<and> ch_reader c' = RIdle)"
proof (intro conjI allI impI)
  have "wf {(x, y). channel_step (\<lambda>_. False) y x}"
    by (rule wf_subset [OF wf_measure [of channel_rest]]) (auto dest: finishing_step_decreases)
  then show "\<nexists>f. f 0 = c \<and> (\<forall>i. channel_step (\<lambda>_. False) (f i) (f (Suc i)))"
    unfolding wf_iff_no_infinite_down_chain by blast
  fix c'
  assume c': "(channel_step (\<lambda>_. False))\<^sup>*\<^sup>* c c' \<and> (\<nexists>c''. channel_step (\<lambda>_. False) c' c'')"
  then have "reachable_channel ok r c'" using reachable_finishing assms(4) by blast
  then obtain v L where "channel_inv (rg_word_size r) v L c'" using new_ring_reachable [OF assms(1-3)] by blast
  then show "ch_received c' = ch_sent c'" "ch_writer c' = WIdle" "ch_reader c' = RIdle"
    using finished_channel c' by blast+
qed

lemma writer_started:
  "reachable_channel short_msg sample_ring (channel_start sample_ring\<lparr>ch_writer := WReady [7] 0\<rparr>)"
proof -
  have "rg_write_pt sample_ring = 0" "ring_ok 1024 sample_ring" "rg_read_pt sample_ring = 0"
    using ring_new_ok [OF sample_ring_new(1)] sample_ring_new(2) by simp_all
  then show ?thesis
    using channel_step.start [of "channel_start sample_ring" short_msg "[7]"] empty_ring_fits [of 1024 sample_ring]
    by (intro reachable_channel.step [OF reachable_channel.init]) (simp add: channel_start_def short_msg_def)
qed

theorem sent_messages_are_received_witness:
  "\<exists>c c'. reachable_channel short_msg sample_ring c \<and> ch_writer c = WReady [7] 0 \<and>
     (channel_step (\<lambda>_. False))\<^sup>*\<^sup>* c c' \<and> ch_received c' = ch_sent c' \<and> ch_writer c' = WIdle"
proof -
  let ?c = "channel_start sample_ring\<lparr>ch_writer := WReady [7] 0\<rparr>"
  obtain c' where c': "(channel_step (\<lambda>_. False))\<^sup>*\<^sup>* ?c c'" "\<nexists>c''. channel_step (\<lambda>_. False) c' c''"
    using finishing_run by blast
  have "ch_received c' = ch_sent c' \<and> ch_writer c' = WIdle"
    using sent_messages_are_received [OF sample_ring_new(1) _ short_msg_ok writer_started] c' by simp
  then show ?thesis using writer_started c'(1) by (intro exI [of _ ?c] exI [of _ c']) simp
qed

text \<open>
  Whole operations of the ring behave as a queue: after any sequence of \<open>try_send\<close> and \<open>recv\<close> on a new
  ring, the messages received are, in order, the first of those that \<open>try_send\<close> accepted.
\<close>

theorem ring_is_fifo:
  assumes "ring_new n u = Ok r" and "n \<le> 16 * 1024 * 1024"
    and "\<forall>m. Send m \<in> set ops \<longrightarrow> msg_ok (rg_word_size r) m"
    and "queue_run ring_send ring_recv ops r = (accepted, received, r')"
  shows "\<exists>waiting. accepted = received @ waiting \<and> ring_holds (rg_word_size r) r' waiting"
  using ring_queue.run_conserves [OF ring_new_holds [OF assms(1,2)] assms(4)] assms(3) by auto

theorem ring_is_fifo_witness:
  "\<exists>received waiting r'. queue_run ring_send ring_recv [Send [7, 8], Recv, Recv, Send [9]] sample_ring =
     (received @ waiting, received, r') \<and> ring_holds 1024 r' waiting"
proof -
  let ?ops = "[Send [7, 8], Recv, Recv, Send [9]]"
  obtain ins outs r' where run: "queue_run ring_send ring_recv ?ops sample_ring = (ins, outs, r')" by (metis prod_cases3)
  have "\<forall>m. Send m \<in> set ?ops \<longrightarrow> msg_ok (rg_word_size sample_ring) m"
    by (auto simp: msg_ok_def sample_ring_new)
  from ring_is_fifo [OF sample_ring_new(1) _ this run] show ?thesis
    using run sample_ring_new(2) by auto
qed

text \<open>The size word of a chunk in a ring that was empty before it.\<close>

lemma written_chunk_size:
  assumes ok: "ring_ok ws r" and wp: "rg_write_pt r = 0" and m: "length m \<le> 4 * ws"
    and two: "2 \<le> ws"
  shows "get_word 0 (write_chunk m r) = of_nat (length m)"
proof -
  define r1 where "r1 = w_data 0 m (w_alloc_magic 0 (w_alloc_size 0 r))"
  note o = ring_okD [OF ok]
  have ok1: "ring_ok ws r1"
    using ok two m o by (simp add: r1_def w_data_def w_alloc_magic_def w_alloc_size_def ring_ok_def put_word_def CHUNK_HEADER_WORDS_def)
  let ?r2 = "w_size 0 m r1"
  have ok2: "ring_ok ws ?r2" using ok1 o(3) by (simp add: w_size_def)
  have "holds_word (rg_data ?r2) 0 (of_nat (length m))"
    using put_word_holds [OF ok1, of 0] by (simp add: w_size_def)
  moreover have "same_cells (rg_data ?r2) (rg_data (put_word (1 mod ws) CHUNK_MAGIC ?r2)) 0 1"
    by (rule put_word_keeps [OF ok2]) (use two in auto)
  ultimately have "holds_word (rg_data (put_word (1 mod ws) CHUNK_MAGIC ?r2)) 0 (of_nat (length m))"
    using holds_word_same [of _ _ 0] by simp
  moreover have "rg_data (write_chunk m r) = rg_data (put_word (1 mod ws) CHUNK_MAGIC ?r2)"
    using ring_okD(1) [OF ok2] wp
    by (simp add: write_chunk_def w_post_def w_magic_def w_pointer_def r1_def put_word_def)
  ultimately have "holds_word (rg_data (write_chunk m r)) 0 (of_nat (length m))" by simp
  moreover have "ring_ok ws (put_word (1 mod ws) CHUNK_MAGIC ?r2)" using ok2 o(3) by simp
  ultimately show ?thesis
    using get_word_holds [of ws "put_word (1 mod ws) CHUNK_MAGIC ?r2" 0]
      \<open>rg_data (write_chunk m r) = _\<close> by (simp add: get_word_def)
qed

lemma write_chunk_fields:
  "rg_read_pt (write_chunk m r) = rg_read_pt r" "rg_word_size (write_chunk m r) = rg_word_size r"
  "rg_sem (write_chunk m r) = rg_sem r + 1" "rg_write_pt (write_chunk m r) = chunk_step (rg_write_pt r) (length m) r"
  by (simp_all add: write_chunk_def Let_def w_post_def w_magic_def w_pointer_def w_size_def w_data_def
      w_alloc_magic_def w_alloc_size_def chunk_step_def)

lemma oversized_chunk_stuck:
  assumes ok: "ring_ok ws r" and start: "rg_write_pt r = 0" "rg_read_pt r = 0" "rg_sem r = 0" and two: "2 \<le> ws"
    and m: "length m + 12 \<le> 4 * ws" "4 * ws < length m + 72" "0 < length m"
  shows "recv_turn (write_chunk m r) = Some (Err InvalidChunkSize, (write_chunk m r)\<lparr>rg_sem := 0\<rparr>)"
proof -
  let ?r = "write_chunk m r" and ?woken = "(write_chunk m r)\<lparr>rg_sem := 0\<rparr>"
  note o = ring_okD [OF ok]
  have f: "rg_read_pt ?r = 0" "rg_word_size ?r = ws" "rg_sem ?r = 1" "rg_write_pt ?r = chunk_step 0 (length m) r"
    using start o(1) by (simp_all add: write_chunk_fields)
  have "div_ceil (length m) 4 + 2 < ws" using m(1) by (auto simp: div_ceil_def)
  then have "chunk_step 0 (length m) r \<noteq> 0" using o(1) by (simp add: chunk_step_def CHUNK_HEADER_WORDS_def)
  moreover have "get_word 0 ?woken = of_nat (length m)"
    using written_chunk_size [OF ok start(1) _ two] m(1) by (simp add: get_word_def)
  moreover have "length m < 2 ^ 32" using m(1) o(4) by simp
  then have "unat (of_nat (length m) :: u32) = length m" by (simp add: unat_of_nat take_bit_eq_mod)
  moreover have "max_chunk_size ?woken < length m"
  proof -
    have "ws * 4 - 72 < length m" using m(2,3) by linarith
    then show ?thesis using f(2) by (simp add: max_chunk_size_def CHUNK_HEADER_WORDS_def)
  qed
  ultimately have "r_message ?woken = Err InvalidChunkSize"
    using f by (simp add: r_message_def Let_def)
  then show ?thesis using f(3) by (simp add: recv_turn_def sem_wait_def read_chunk_def Let_def)
qed

text \<open>
  C34. A message of the full size that a connection negotiated always fits into an empty ring, but the
  reader accepts it only when that size is not 13 to 71 bytes below a multiple of the page size: else the
  reader fails on the chunk and leaves it where it is, in front of everything that follows.
\<close>

theorem full_size_message:
  assumes "ring_new n u = Ok r" and "0 < n" and "n \<le> 16 * 1024 * 1024" and "length m = n"
  shows "\<exists>r1 r2. try_send m r = (Ok (), r1) \<and>
    (if 4024 < n mod 4096 \<and> n mod 4096 \<le> 4083
     then recv_turn r1 = Some (Err InvalidChunkSize, r2) \<and> rg_read_pt r2 = rg_read_pt r1 \<and> rg_data r2 = rg_data r1
     else recv_turn r1 = Some (Ok (Some m), r2) \<and> ring_holds (rg_word_size r2) r2 [])"
proof -
  note new = ring_new_ok [OF assms(1,3)] and fit = ring_new_size [OF assms(1,3)]
  have send: "try_send m r = (Ok (), write_chunk m r)"
    using empty_ring_fits [OF new(1)] new(2,3) fit(2) assms(4) by (simp add: try_send_def)
  have two: "2 \<le> rg_word_size r" using new(6) by simp
  show ?thesis
  proof (cases "4024 < n mod 4096 \<and> n mod 4096 \<le> 4083")
    case True
    then have "recv_turn (write_chunk m r) = Some (Err InvalidChunkSize, (write_chunk m r)\<lparr>rg_sem := 0\<rparr>)"
      using oversized_chunk_stuck [OF new(1,3,2,4) two] fit assms(2,4) by auto
    then show ?thesis using send True by auto
  next
    case False
    then have m: "msg_ok (rg_word_size r) m" using fit(1) assms(2,4) by (auto simp: msg_ok_def)
    have "ring_holds (rg_word_size r) (write_chunk m r) ([] @ [m])"
      by (rule try_send_holds [OF ring_new_holds [OF assms(1,3)] m send])
    then obtain r2 where r2: "recv_turn (write_chunk m r) = Some (Ok (Some m), r2)" "ring_holds (rg_word_size r) r2 []"
      using recv_turn_holds by (metis append_Nil)
    moreover have "rg_word_size r2 = rg_word_size r" using ring_holdsD(1) [OF r2(2)] by (rule ring_okD(1))
    ultimately show ?thesis using send False by auto
  qed
qed

theorem full_size_message_witness:
  "(\<exists>r r1 r2. ring_new 4083 4 = Ok r \<and> try_send (replicate 4083 7) r = (Ok (), r1) \<and>
      recv_turn r1 = Some (Err InvalidChunkSize, r2)) \<and>
   (\<exists>r r1 r2. ring_new 4084 4 = Ok r \<and> try_send (replicate 4084 7) r = (Ok (), r1) \<and>
      recv_turn r1 = Some (Ok (Some (replicate 4084 7)), r2))"
proof -
  have ok: "\<exists>r. ring_new n 4 = Ok r" if "n \<le> 10000" for n
  proof -
    have "div_ceil (n + 13) 4096 * 4096 < 2 ^ 64" using that by (auto simp: div_ceil_def)
    then show ?thesis using that
      by (auto simp: ring_new_def usize_checked_add_def CHUNK_MARGIN_def CHUNK_HEADER_WORDS_def Let_def)
  qed
  obtain r s where r: "ring_new 4083 4 = Ok r" and s: "ring_new 4084 4 = Ok s"
    using ok [of 4083] ok [of 4084] by auto
  show ?thesis
    using full_size_message [OF r, of "replicate 4083 7"] full_size_message [OF s, of "replicate 4084 7"] r s by auto
qed

end
