(* ===== verification/Ipc_Request.thy ===== *)
theory Ipc_Request
  imports Rust_Text
begin

text \<open>
  The requests of local clients and their decoding (\<open>pmxcfs/src/ipc/request.rs\<close>). Clients send C
  structs: fixed fields, then strings with a terminating NUL. Slicing and indexing out of range panic;
  that they never do is a theorem.
\<close>

section \<open>Requests\<close>

datatype CfsIpcOp =
    OpGetFsVersion | OpGetClusterInfo | OpGetGuestList | OpSetStatus | OpGetStatus | OpGetConfig
  | OpLogClusterMsg | OpGetClusterLog | OpGetRrdDump | OpGetGuestConfigProperty | OpVerifyToken
  | OpGetGuestConfigProperties

fun op_code :: "CfsIpcOp \<Rightarrow> int" where
  "op_code OpGetFsVersion = 1"
| "op_code OpGetClusterInfo = 2"
| "op_code OpGetGuestList = 3"
| "op_code OpSetStatus = 4"
| "op_code OpGetStatus = 5"
| "op_code OpGetConfig = 6"
| "op_code OpLogClusterMsg = 7"
| "op_code OpGetClusterLog = 8"
| "op_code OpGetRrdDump = 10"
| "op_code OpGetGuestConfigProperty = 11"
| "op_code OpVerifyToken = 12"
| "op_code OpGetGuestConfigProperties = 13"

definition op_of_code :: "int \<Rightarrow> CfsIpcOp option" where
  "op_of_code c =
     find (\<lambda>op. op_code op = c)
       [OpGetFsVersion, OpGetClusterInfo, OpGetGuestList, OpSetStatus, OpGetStatus, OpGetConfig,
        OpLogClusterMsg, OpGetClusterLog, OpGetRrdDump, OpGetGuestConfigProperty, OpVerifyToken,
        OpGetGuestConfigProperties]"

datatype IpcRequest =
    GetFsVersion
  | GetClusterInfo
  | GetGuestList
  | SetStatus string "byte list"
  | GetStatus string string
  | GetConfig string
  | LogClusterMsg u8 string string string
  | GetClusterLog nat string
  | GetRrdDump
  | GetGuestConfigProperty u32 string
  | VerifyToken string
  | GetGuestConfigProperties u32 "string list"

datatype ipc_error =
    UnknownOp | RequestTooShort | BadString | ZeroLength | NotTerminated | PropertyMissing | BadProperty
  | LeftoverData

section \<open>Decoding\<close>

definition and_then :: "('e, 'a) res \<Rightarrow> ('a \<Rightarrow> ('e, 'b) res) \<Rightarrow> ('e, 'b) res" where
  "and_then r k = (case r of Ok x \<Rightarrow> k x | Err e \<Rightarrow> Err e | Panic \<Rightarrow> Panic)"

text \<open>\<open>&data[a..b]\<close> and \<open>data[i]\<close>.\<close>

definition sub_slice :: "nat \<Rightarrow> nat \<Rightarrow> byte list \<Rightarrow> ('e, byte list) res" where
  "sub_slice a b data = (if a \<le> b \<and> b \<le> length data then Ok (slice a b data) else Panic)"

definition byte_at :: "nat \<Rightarrow> byte list \<Rightarrow> ('e, byte) res" where
  "byte_at i data = (if i < length data then Ok (data ! i) else Panic)"

definition c_string :: "string option \<Rightarrow> (ipc_error, string) res" where
  "c_string s = (case s of None \<Rightarrow> Err BadString | Some x \<Rightarrow> Ok x)"

text \<open>A string of a log message: its length includes the NUL.\<close>

definition log_string :: "nat \<Rightarrow> nat \<Rightarrow> byte list \<Rightarrow> (ipc_error, string) res" where
  "log_string start len data =
     and_then (sub_slice start (start + len) data) (\<lambda>field.
     and_then (byte_at (len - 1) field) (\<lambda>last_byte.
       if last_byte \<noteq> 0 then Err NotTerminated else c_string (cstr_with_nul field)))"

definition is_ascii_lowercase :: "char \<Rightarrow> bool" where
  "is_ascii_lowercase c \<longleftrightarrow> 97 \<le> (of_char c :: nat) \<and> (of_char c :: nat) \<le> 122"

fun parse_properties :: "nat \<Rightarrow> byte list \<Rightarrow> string list \<Rightarrow> (ipc_error, string list) res" where
  "parse_properties 0 remaining properties =
     (if remaining \<noteq> [] then Err LeftoverData else Ok properties)"
| "parse_properties (Suc n) remaining properties =
     (if remaining = [] then Err PropertyMissing
      else and_then (c_string (cstr_until_nul remaining)) (\<lambda>property.
        if property = [] \<or> \<not> is_ascii_lowercase (hd property) then Err BadProperty
        else and_then (sub_slice (length property + 1) (length remaining) remaining) (\<lambda>rest.
          parse_properties n rest (properties @ [property]))))"

definition deserialize_set_status :: "byte list \<Rightarrow> (ipc_error, IpcRequest) res" where
  "deserialize_set_status data =
     (if length data < 256 then Err RequestTooShort
      else and_then (sub_slice 0 256 data) (\<lambda>field.
        and_then (c_string (cstr_until_nul field)) (\<lambda>name.
        and_then (sub_slice 256 (length data) data) (\<lambda>status_data. Ok (SetStatus name status_data)))))"

definition deserialize_get_status :: "byte list \<Rightarrow> (ipc_error, IpcRequest) res" where
  "deserialize_get_status data =
     (if length data < 512 then Err RequestTooShort
      else and_then (sub_slice 0 256 data) (\<lambda>field.
        and_then (c_string (cstr_until_nul field)) (\<lambda>name.
        and_then (sub_slice 256 512 data) (\<lambda>field2.
        and_then (c_string (cstr_until_nul field2)) (\<lambda>node_name. Ok (GetStatus name node_name))))))"

definition deserialize_log_msg :: "byte list \<Rightarrow> (ipc_error, IpcRequest) res" where
  "deserialize_log_msg data =
     (if length data < 3 then Err RequestTooShort
      else and_then (byte_at 0 data) (\<lambda>priority.
        and_then (byte_at 1 data) (\<lambda>b1.
        and_then (byte_at 2 data) (\<lambda>b2.
          let ident_len = unat b1; tag_len = unat b2; msg_start = 3 + ident_len + tag_len in
          if ident_len < 1 \<or> tag_len < 1 then Err ZeroLength
          else if length data < msg_start + 1 then Err RequestTooShort
          else and_then (log_string 3 ident_len data) (\<lambda>ident.
            and_then (log_string (3 + ident_len) tag_len data) (\<lambda>tag.
            and_then (sub_slice msg_start (length data) data) (\<lambda>msg_data.
            and_then (c_string (cstr_until_nul msg_data)) (\<lambda>message.
              Ok (LogClusterMsg priority ident tag message)))))))))"

definition deserialize_get_log :: "byte list \<Rightarrow> (ipc_error, IpcRequest) res" where
  "deserialize_get_log data =
     (if length data \<le> 16 then Err RequestTooShort
      else and_then (sub_slice 0 4 data) (\<lambda>bs.
        let n = unat (u32_of_le bs); max_entries = (if n = 0 then 50 else n) in
        and_then (sub_slice 16 (length data) data) (\<lambda>field.
        and_then (c_string (cstr_until_nul field)) (\<lambda>user. Ok (GetClusterLog max_entries user)))))"

definition deserialize_property :: "byte list \<Rightarrow> (ipc_error, IpcRequest) res" where
  "deserialize_property data =
     (if length data < 4 then Err RequestTooShort
      else and_then (sub_slice 0 4 data) (\<lambda>bs.
        and_then (sub_slice 4 (length data) data) (\<lambda>field.
        and_then (c_string (cstr_until_nul field)) (\<lambda>property.
          Ok (GetGuestConfigProperty (u32_of_le bs) property)))))"

definition deserialize_properties :: "byte list \<Rightarrow> (ipc_error, IpcRequest) res" where
  "deserialize_properties data =
     (if length data < 5 then Err RequestTooShort
      else and_then (sub_slice 0 4 data) (\<lambda>bs.
        and_then (byte_at 4 data) (\<lambda>b.
          let num_props = unat b in
          if num_props = 0 then Err PropertyMissing
          else and_then (sub_slice 5 (length data) data) (\<lambda>remaining.
            and_then (parse_properties num_props remaining []) (\<lambda>properties.
              Ok (GetGuestConfigProperties (u32_of_le bs) properties))))))"

definition ipc_deserialize :: "int \<Rightarrow> byte list \<Rightarrow> (ipc_error, IpcRequest) res" where
  "ipc_deserialize msg_id data =
     (case op_of_code msg_id of
        None \<Rightarrow> Err UnknownOp
      | Some OpGetFsVersion \<Rightarrow> Ok GetFsVersion
      | Some OpGetClusterInfo \<Rightarrow> Ok GetClusterInfo
      | Some OpGetGuestList \<Rightarrow> Ok GetGuestList
      | Some OpSetStatus \<Rightarrow> deserialize_set_status data
      | Some OpGetStatus \<Rightarrow> deserialize_get_status data
      | Some OpGetConfig \<Rightarrow> and_then (c_string (cstr_until_nul data)) (\<lambda>path. Ok (GetConfig path))
      | Some OpLogClusterMsg \<Rightarrow> deserialize_log_msg data
      | Some OpGetClusterLog \<Rightarrow> deserialize_get_log data
      | Some OpGetRrdDump \<Rightarrow> Ok GetRrdDump
      | Some OpGetGuestConfigProperty \<Rightarrow> deserialize_property data
      | Some OpVerifyToken \<Rightarrow> and_then (c_string (cstr_until_nul data)) (\<lambda>token. Ok (VerifyToken token))
      | Some OpGetGuestConfigProperties \<Rightarrow> deserialize_properties data)"

section \<open>Decoding is total\<close>

lemma and_then_Ok [simp]: "and_then (Ok x) k = k x" and and_then_Err [simp]: "and_then (Err e) k = Err e"
  by (simp_all add: and_then_def)

lemma and_then_Panic: "and_then r k = Panic \<longleftrightarrow> r = Panic \<or> (\<exists>x. r = Ok x \<and> k x = Panic)"
  by (cases r) (simp_all add: and_then_def)

lemma c_string_no_panic [simp]: "c_string s \<noteq> Panic"
  by (simp add: c_string_def split: option.split)

lemma c_string_Ok [simp]: "c_string s = Ok x \<longleftrightarrow> s = Some x"
  by (simp add: c_string_def split: option.split)

lemma sub_slice_ok: "a \<le> b \<Longrightarrow> b \<le> length data \<Longrightarrow> sub_slice a b data = Ok (slice a b data)"
  by (simp add: sub_slice_def)

lemma byte_at_ok: "i < length data \<Longrightarrow> byte_at i data = Ok (data ! i)"
  by (simp add: byte_at_def)

lemma log_string_no_panic: "0 < len \<Longrightarrow> start + len \<le> length data \<Longrightarrow> log_string start len data \<noteq> Panic"
  by (simp add: log_string_def sub_slice_ok byte_at_ok)

lemma parse_properties_no_panic: "parse_properties n remaining acc \<noteq> Panic"
proof (induction n remaining acc rule: parse_properties.induct)
  case (2 n remaining acc)
  have "length property + 1 \<le> length remaining" if "cstr_until_nul remaining = Some property" for property
    using cstr_until_nulD(3) [OF that] by auto
  then show ?case
    using 2 by (cases "cstr_until_nul remaining") (auto simp: c_string_def sub_slice_ok)
qed simp

lemmas slice_rules = sub_slice_ok byte_at_ok

text \<open>The decoders never panic.\<close>

lemma deserialize_no_panic:
  "deserialize_set_status data \<noteq> Panic" "deserialize_get_status data \<noteq> Panic"
  "deserialize_log_msg data \<noteq> Panic" "deserialize_get_log data \<noteq> Panic"
  "deserialize_property data \<noteq> Panic" "deserialize_properties data \<noteq> Panic"
proof -
  show "deserialize_set_status data \<noteq> Panic" "deserialize_get_status data \<noteq> Panic"
    "deserialize_get_log data \<noteq> Panic" "deserialize_property data \<noteq> Panic"
    by (auto simp: deserialize_set_status_def deserialize_get_status_def deserialize_get_log_def
        deserialize_property_def slice_rules Let_def and_then_Panic)
  show "deserialize_properties data \<noteq> Panic"
    by (auto simp: deserialize_properties_def slice_rules Let_def parse_properties_no_panic and_then_Panic)
  show "deserialize_log_msg data \<noteq> Panic"
  proof (cases "length data < 3")
    case False
    then have "byte_at 0 data = (Ok (data ! 0) :: (ipc_error, byte) res)"
        "byte_at 1 data = (Ok (data ! 1) :: (ipc_error, byte) res)" "byte_at 2 data = (Ok (data ! 2) :: (ipc_error, byte) res)"
      by (auto intro!: byte_at_ok)
    then show ?thesis
      by (auto simp: deserialize_log_msg_def sub_slice_ok Let_def log_string_no_panic and_then_Panic)
  qed (simp add: deserialize_log_msg_def)
qed

lemma ipc_deserialize_no_panic: "ipc_deserialize msg_id data \<noteq> Panic"
  by (auto simp: ipc_deserialize_def deserialize_no_panic and_then_Panic split: option.split CfsIpcOp.split)

section \<open>The layout of the client\<close>

text \<open>
  The structs that clients send, as the comments of the decoder describe them: names in fields of 256
  bytes, lengths that include the NUL, a number of entries followed by three unused words.
\<close>

definition nul_bytes :: "string \<Rightarrow> byte list" where
  "nul_bytes s = as_bytes s @ [0]"

definition name_field :: "string \<Rightarrow> byte list" where
  "name_field s = as_bytes s @ replicate (256 - length s) 0"

fun request_op :: "IpcRequest \<Rightarrow> CfsIpcOp" where
  "request_op GetFsVersion = OpGetFsVersion"
| "request_op GetClusterInfo = OpGetClusterInfo"
| "request_op GetGuestList = OpGetGuestList"
| "request_op (SetStatus _ _) = OpSetStatus"
| "request_op (GetStatus _ _) = OpGetStatus"
| "request_op (GetConfig _) = OpGetConfig"
| "request_op (LogClusterMsg _ _ _ _) = OpLogClusterMsg"
| "request_op (GetClusterLog _ _) = OpGetClusterLog"
| "request_op GetRrdDump = OpGetRrdDump"
| "request_op (GetGuestConfigProperty _ _) = OpGetGuestConfigProperty"
| "request_op (VerifyToken _) = OpVerifyToken"
| "request_op (GetGuestConfigProperties _ _) = OpGetGuestConfigProperties"

fun request_bytes :: "IpcRequest \<Rightarrow> byte list" where
  "request_bytes (SetStatus name data) = name_field name @ data"
| "request_bytes (GetStatus name node_name) = name_field name @ name_field node_name"
| "request_bytes (GetConfig path) = nul_bytes path"
| "request_bytes (LogClusterMsg priority ident tag message) =
     [priority, of_nat (length ident + 1), of_nat (length tag + 1)] @ nul_bytes ident @ nul_bytes tag @ nul_bytes message"
| "request_bytes (GetClusterLog max_entries user) =
     u32_to_le (of_nat max_entries) @ replicate 12 0 @ nul_bytes user"
| "request_bytes (GetGuestConfigProperty vmid property) = u32_to_le vmid @ nul_bytes property"
| "request_bytes (VerifyToken token) = nul_bytes token"
| "request_bytes (GetGuestConfigProperties vmid properties) =
     u32_to_le vmid @ of_nat (length properties) # concat (map nul_bytes properties)"
| "request_bytes _ = []"

definition c_str_ok :: "string \<Rightarrow> bool" where
  "c_str_ok s \<longleftrightarrow> valid_str s \<and> 0 \<notin> set (as_bytes s)"

definition property_ok :: "string \<Rightarrow> bool" where
  "property_ok s \<longleftrightarrow> c_str_ok s \<and> s \<noteq> [] \<and> is_ascii_lowercase (hd s)"

fun request_ok :: "IpcRequest \<Rightarrow> bool" where
  "request_ok (SetStatus name data) \<longleftrightarrow> c_str_ok name \<and> length name < 256"
| "request_ok (GetStatus name node_name) \<longleftrightarrow>
     c_str_ok name \<and> length name < 256 \<and> c_str_ok node_name \<and> length node_name < 256"
| "request_ok (GetConfig path) \<longleftrightarrow> c_str_ok path"
| "request_ok (LogClusterMsg priority ident tag message) \<longleftrightarrow>
     c_str_ok ident \<and> length ident < 255 \<and> c_str_ok tag \<and> length tag < 255 \<and> c_str_ok message"
| "request_ok (GetClusterLog max_entries user) \<longleftrightarrow> 0 < max_entries \<and> max_entries < 2 ^ 32 \<and> c_str_ok user"
| "request_ok (GetGuestConfigProperty vmid property) \<longleftrightarrow> c_str_ok property"
| "request_ok (VerifyToken token) \<longleftrightarrow> c_str_ok token"
| "request_ok (GetGuestConfigProperties vmid properties) \<longleftrightarrow>
     properties \<noteq> [] \<and> length properties < 256 \<and> (\<forall>p \<in> set properties. property_ok p)"
| "request_ok _ \<longleftrightarrow> True"

lemma op_of_code_op [simp]: "op_of_code (op_code op) = Some op"
  by (cases op) (simp_all add: op_of_code_def)

lemma cstr_nul_bytes [simp]: "c_str_ok s \<Longrightarrow> cstr_until_nul (nul_bytes s @ rest) = Some s"
  using cstr_until_nul_append [of s rest] by (simp add: nul_bytes_def c_str_ok_def)

lemma cstr_nul_bytes_nil [simp]: "c_str_ok s \<Longrightarrow> cstr_until_nul (nul_bytes s) = Some s"
  using cstr_nul_bytes [of s "[]"] by simp

lemma cstr_name_field [simp]: "c_str_ok s \<Longrightarrow> length s < 256 \<Longrightarrow> cstr_until_nul (name_field s) = Some s"
  using cstr_until_nul_append [of s "replicate (255 - length s) 0"] Suc_diff_le [of "length s" 255]
  by (simp add: name_field_def c_str_ok_def flip: replicate_Suc)

lemma length_fields [simp]: "length (nul_bytes s) = length s + 1" "length s < 256 \<Longrightarrow> length (name_field s) = 256"
  by (simp_all add: nul_bytes_def name_field_def)

lemma nul_bytes_nonempty [simp]: "nul_bytes s \<noteq> []"
  by (simp add: nul_bytes_def)

lemma log_string_at:
  assumes "c_str_ok s" and "n = length s + 1"
  shows "log_string (length pre) n (pre @ nul_bytes s @ post) = Ok s"
proof -
  have "slice (length pre) (length pre + (length s + 1)) (pre @ nul_bytes s @ post) = nul_bytes s"
    by (simp add: slice_def)
  then show ?thesis
    using assms by (simp add: log_string_def slice_rules nul_bytes_def c_str_ok_def nth_append c_string_def)
qed

lemma parse_properties_bytes:
  "\<forall>p \<in> set ps. property_ok p \<Longrightarrow> parse_properties (length ps) (concat (map nul_bytes ps)) acc = Ok (acc @ ps)"
proof (induction ps arbitrary: acc)
  case (Cons p ps)
  have p: "c_str_ok p" "p \<noteq> []" "is_ascii_lowercase (hd p)" using Cons.prems by (auto simp: property_ok_def)
  have "slice (length p + 1) (length p + 1 + length (concat (map nul_bytes ps))) (nul_bytes p @ concat (map nul_bytes ps)) =
      concat (map nul_bytes ps)"
    by (simp add: slice_def)
  then show ?case
    using Cons p cstr_nul_bytes [OF p(1), of "concat (map nul_bytes ps)"] by (simp add: c_string_def sub_slice_ok)
qed simp

lemma request_roundtrip:
  assumes "request_ok r"
  shows "ipc_deserialize (op_code (request_op r)) (request_bytes r) = Ok r"
proof (cases r)
  case (SetStatus name data)
  then show ?thesis
    using assms by (simp add: ipc_deserialize_def op_of_code_def deserialize_set_status_def slice_rules slice_def c_string_def)
next
  case (GetStatus name node_name)
  then show ?thesis
    using assms by (simp add: ipc_deserialize_def op_of_code_def deserialize_get_status_def slice_rules slice_def c_string_def)
next
  case (LogClusterMsg priority ident tag message)
  let ?hdr = "[priority, of_nat (length ident + 1), of_nat (length tag + 1)] :: byte list"
  have len: "unat (of_nat (length ident + 1) :: byte) = length ident + 1" "unat (of_nat (length tag + 1) :: byte) = length tag + 1"
    using assms LogClusterMsg by (simp_all add: unat_of_nat_byte del: of_nat_add of_nat_Suc)
  have ident: "log_string 3 (length ident + 1) (request_bytes r) = Ok ident"
    using log_string_at [of ident _ ?hdr "nul_bytes tag @ nul_bytes message"] assms LogClusterMsg by (simp add: numeral_3_eq_3)
  have tag: "log_string (3 + (length ident + 1)) (length tag + 1) (request_bytes r) = Ok tag"
    using log_string_at [of tag _ "?hdr @ nul_bytes ident" "nul_bytes message"] assms LogClusterMsg by (simp add: numeral_3_eq_3)
  have "request_bytes r = (?hdr @ nul_bytes ident @ nul_bytes tag) @ nul_bytes message"
      "length (?hdr @ nul_bytes ident @ nul_bytes tag) = 5 + length ident + length tag"
    by (simp_all add: LogClusterMsg)
  then have "drop (5 + length ident + length tag) (request_bytes r) = nul_bytes message"
    by (metis append_eq_conv_conj)
  then have "slice (5 + (length ident + length tag)) (length (request_bytes r)) (request_bytes r) = nul_bytes message"
    by (simp add: slice_def add.assoc LogClusterMsg)
  then show ?thesis
    using assms ident tag len
    by (simp add: LogClusterMsg ipc_deserialize_def op_of_code_def deserialize_log_msg_def slice_rules Let_def c_string_def)
next
  case (GetClusterLog max_entries user)
  then show ?thesis
    using assms by (simp add: ipc_deserialize_def op_of_code_def deserialize_get_log_def slice_rules slice_def c_string_def
        unat_of_nat Let_def)
next
  case (GetGuestConfigProperties vmid properties)
  then show ?thesis
    using assms parse_properties_bytes [of properties "[]"]
    by (simp add: ipc_deserialize_def op_of_code_def deserialize_properties_def slice_rules slice_def nth_append Let_def unat_of_nat)
qed (use assms in \<open>simp_all add: ipc_deserialize_def op_of_code_def deserialize_property_def slice_rules slice_def c_string_def\<close>)

end
