(* ===== verification/Ipc_Service.thy ===== *)
theory Ipc_Service
  imports Ipc_Request Plugins Mem_Spec
begin

text \<open>
  The service for local clients: requests and responses (\<open>pmxcfs-ipc/src/protocol.rs\<close>), permissions
  (\<open>handler.rs\<close>) and the handlers of the requests (\<open>pmxcfs/src/ipc/service.rs\<close>). The handler holds the
  database, the status and the configuration; each operation returns the bytes of the answer or an
  error number, and the handler afterwards. The clock is after the epoch. The texts that \<open>serde_json\<close>
  prints are parameters, as for the plugins.
\<close>

section \<open>Types\<close>

datatype Permissions = ReadOnly | ReadWrite

record Request =
  rq_msg_id :: int
  rq_data :: "byte list"
  rq_is_read_only :: bool
  rq_conn_id :: u64
  rq_uid :: u32
  rq_gid :: u32
  rq_pid :: u32

record Response =
  rs_error_code :: int
  rs_data :: "byte list"

definition response_err :: "int \<Rightarrow> Response" where
  "response_err error_code = \<lparr>rs_error_code = error_code, rs_data = []\<rparr>"

record 'db IpcHandler =
  ih_memdb :: "'db MemDb"
  ih_status :: Status
  ih_config :: Config
  ih_www_data_gid :: u32

record ipc_env =
  ie_js :: json_env
  ie_now :: u64
  ie_pid :: u32

type_synonym ipc_result = "(int, byte list) res"

definition errno_EPERM :: int where "errno_EPERM = 1"
definition errno_ENOENT :: int where "errno_ENOENT = 2"
definition errno_EIO :: int where "errno_EIO = 5"
definition errno_EINVAL :: int where "errno_EINVAL = 22"

section \<open>Reading the state\<close>

definition json_bytes :: "ipc_env \<Rightarrow> json \<Rightarrow> ipc_result" where
  "json_bytes ie v = Ok (as_bytes (js_string (ie_js ie) v))"

definition handle_get_fs_version :: "ipc_env \<Rightarrow> 'db IpcHandler \<Rightarrow> ipc_result" where
  "handle_get_fs_version ie h =
     json_bytes ie (json_object [(''version'', JNum 1), (''protocol'', JNum 1),
                                 (''cluster'', JBool (st_quorate (ih_status h)))])"

definition handle_get_cluster_info :: "ipc_env \<Rightarrow> 'db IpcHandler \<Rightarrow> ipc_result" where
  "handle_get_cluster_info ie h =
     (let member_list = map (\<lambda>m. json_object
            [(''nodeid'', jnum (mi_node_id m)), (''name'', JStr (''node'' @ decimal (unat (mi_node_id m)))),
             (''ip'', JStr ''127.0.0.1''), (''online'', JBool True)]) (st_members (ih_status h))
      in json_bytes ie (json_object [(''nodelist'', JArr member_list), (''quorate'', JBool (st_quorate (ih_status h)))]))"

definition handle_get_guest_list :: "ipc_env \<Rightarrow> 'db IpcHandler \<Rightarrow> ipc_result" where
  "handle_get_guest_list ie h =
     json_bytes ie (json_object [(''version'', JNum 1), (''ids'', vm_ids (ih_status h))])"

definition handle_get_config :: "string \<Rightarrow> bool \<Rightarrow> 'db IpcHandler \<Rightarrow> ipc_result" where
  "handle_get_config path is_read_only h =
     (if is_read_only \<and> starts_with path ''priv/'' then Err errno_EPERM
      else case read (ih_memdb h) path 0 (1024 * 1024) of
        Ok data \<Rightarrow> Ok data
      | Err _ \<Rightarrow> Err errno_ENOENT
      | Panic \<Rightarrow> Panic)"

definition handle_get_status :: "string \<Rightarrow> string \<Rightarrow> 'db IpcHandler \<Rightarrow> ipc_result" where
  "handle_get_status name nodename h =
     (let s = ih_status h;
          found = (if nodename = [] \<or> nodename = cf_nodename (ih_config h)
                   then map_option ns_data (get_node_status name s)
                   else case st_cluster_info s of
                     None \<Rightarrow> None
                   | Some info \<Rightarrow>
                       (case hm_get (ci_nodes_by_name info) nodename of
                          None \<Rightarrow> None
                        | Some nodeid \<Rightarrow> get_node_kv nodeid name s))
      in if name = [] then Err errno_ENOENT
         else case found of None \<Rightarrow> Err errno_ENOENT | Some data \<Rightarrow> Ok data)"

definition handle_get_cluster_log :: "ipc_env \<Rightarrow> nat \<Rightarrow> string \<Rightarrow> 'db IpcHandler \<Rightarrow> ipc_result" where
  "handle_get_cluster_log ie max_entries user h =
     json_bytes ie (json_object [(''data'', JArr (map (\<lambda>entry. json_object
       [(''uid'', jnum (ce_uid entry)), (''time'', jnum (ce_timestamp entry)), (''pri'', jnum (ce_priority entry)),
        (''tag'', JStr (ce_tag entry)), (''pid'', jnum (ce_pid entry)), (''node'', JStr (ce_node entry)),
        (''user'', JStr (ce_ident entry)), (''msg'', JStr (ce_message entry))])
       (get_log_entries_filtered max_entries user (ih_status h))))])"

text \<open>The cache of the dump may be refreshed.\<close>

definition handle_get_rrd_dump :: "ipc_env \<Rightarrow> 'db IpcHandler \<Rightarrow> ipc_result \<times> 'db IpcHandler" where
  "handle_get_rrd_dump ie h =
     (case get_rrd_dump (ie_now ie) (ih_status h) of (dump, s) \<Rightarrow> (Ok (as_bytes dump), h\<lparr>ih_status := s\<rparr>))"

definition handle_verify_token :: "string \<Rightarrow> 'db IpcHandler \<Rightarrow> ipc_result" where
  "handle_verify_token token h =
     (if token = [] then Err errno_EINVAL
      else if LF \<in> set token then Err errno_EINVAL
      else case read (ih_memdb h) ''priv/token.cfg'' 0 (1024 * 1024) of
        Ok token_data \<Rightarrow>
          if token \<in> set (split_on LF (from_utf8_lossy token_data)) then Ok [] else Err errno_ENOENT
      | Err _ \<Rightarrow> Err errno_ENOENT
      | Panic \<Rightarrow> Panic)"

section \<open>Properties of guests\<close>

definition property_line :: "string \<Rightarrow> (string \<times> string) option" where
  "property_line line =
     (if line = [] then None
      else case str_find (CHR '':'') line of
        None \<Rightarrow> None
      | Some colon_pos \<Rightarrow>
          let key = take colon_pos line; value = str_trim (drop (colon_pos + 1) line) in
          if key = [] \<or> \<not> is_ascii_lowercase (hd key) then None
          else if value = [] then None
          else Some (key, value))"

fun extract_lines :: "string list \<Rightarrow> string list \<Rightarrow> (string, string) hmap \<Rightarrow> (string, string) hmap" where
  "extract_lines [] properties values = values"
| "extract_lines (line # lines) properties values =
     (if starts_with line ''['' then values
      else extract_lines lines properties
        (case property_line line of
           None \<Rightarrow> values
         | Some (key, value) \<Rightarrow> if key \<in> set properties then hm_insert key value values else values))"

definition extract_properties :: "string \<Rightarrow> string list \<Rightarrow> (string, string) hmap" where
  "extract_properties config properties = extract_lines (str_lines config) properties []"

definition config_path :: "u32 \<Rightarrow> VmEntry \<Rightarrow> string" where
  "config_path vmid entry =
     ''nodes/'' @ vm_node entry @ ''/'' @ config_dir (vm_vmtype entry) @ ''/'' @ decimal (unat vmid) @ ''.conf''"

definition guest_values :: "'db IpcHandler \<Rightarrow> string list \<Rightarrow> u32 \<Rightarrow> VmEntry \<Rightarrow> (unit, (string, string) hmap) res" where
  "guest_values h properties vmid entry =
     (case read (ih_memdb h) (config_path vmid entry) 0 (1024 * 1024) of
        Ok config_data \<Rightarrow> Ok (extract_properties (from_utf8_lossy config_data) properties)
      | Err _ \<Rightarrow> Err ()
      | Panic \<Rightarrow> Panic)"

definition add_guest :: "u32 \<Rightarrow> (string, string) hmap \<Rightarrow> (string \<times> json) list \<Rightarrow> (string \<times> json) list" where
  "add_guest vmid values response =
     (if values = [] then response
      else bt_insert (decimal (unat vmid)) (json_object (map (\<lambda>(k, v). (k, JStr v)) values)) response)"

fun all_guests ::
  "'db IpcHandler \<Rightarrow> string list \<Rightarrow> (u32 \<times> VmEntry) list \<Rightarrow> (string \<times> json) list \<Rightarrow> (unit, (string \<times> json) list) res" where
  "all_guests h properties [] response = Ok response"
| "all_guests h properties ((vmid, entry) # rest) response =
     (case guest_values h properties vmid entry of
        Ok values \<Rightarrow> all_guests h properties rest (add_guest vmid values response)
      | Err _ \<Rightarrow> all_guests h properties rest response
      | Panic \<Rightarrow> Panic)"

definition guest_config_properties :: "ipc_env \<Rightarrow> string list \<Rightarrow> u32 \<Rightarrow> 'db IpcHandler \<Rightarrow> ipc_result" where
  "guest_config_properties ie properties vmid h =
     (if 0 < vmid \<and> vmid < 100 then Err errno_EINVAL
      else
        let vmlist = st_vmlist (ih_status h);
            response = (if vmid \<ge> 100 then
                case hm_get vmlist vmid of
                  None \<Rightarrow> Err errno_ENOENT
                | Some entry \<Rightarrow>
                    (case guest_values h properties vmid entry of
                       Ok values \<Rightarrow> Ok (add_guest vmid values [])
                     | Err _ \<Rightarrow> Err errno_EIO
                     | Panic \<Rightarrow> Panic)
              else case all_guests h properties vmlist [] of
                Ok r \<Rightarrow> Ok r | Err _ \<Rightarrow> Err errno_EIO | Panic \<Rightarrow> Panic)
        in and_then response (\<lambda>members.
             case js_pretty (ie_js ie) (JObj members) of
               Some text \<Rightarrow> Ok (as_bytes text)
             | None \<Rightarrow> Err errno_EIO))"

section \<open>Changing the state\<close>

definition handle_set_status :: "ipc_env \<Rightarrow> string \<Rightarrow> byte list \<Rightarrow> 'db IpcHandler \<Rightarrow> ipc_result \<times> 'db IpcHandler" where
  "handle_set_status ie name status_data h =
     (case set_node_status (ie_now ie) name status_data (ih_status h) of
        (r, s) \<Rightarrow> (case r of Ok _ \<Rightarrow> Ok [32] | Err _ \<Rightarrow> Err errno_EIO | Panic \<Rightarrow> Panic, h\<lparr>ih_status := s\<rparr>))"

definition handle_log_cluster_msg ::
  "ipc_env \<Rightarrow> u8 \<Rightarrow> string \<Rightarrow> string \<Rightarrow> string \<Rightarrow> 'db IpcHandler \<Rightarrow> ipc_result \<times> 'db IpcHandler" where
  "handle_log_cluster_msg ie priority ident tag msg h =
     (let entry = \<lparr>ce_uid = 0, ce_timestamp = ie_now ie, ce_priority = priority, ce_tag = tag, ce_pid = ie_pid ie,
                   ce_node = cf_nodename (ih_config h), ce_ident = ident, ce_message = msg\<rparr>
      in (Ok [32], h\<lparr>ih_status := add_log_entry entry (ih_status h)\<rparr>))"

section \<open>Requests\<close>

fun handle_ipc_request :: "ipc_env \<Rightarrow> IpcRequest \<Rightarrow> bool \<Rightarrow> 'db IpcHandler \<Rightarrow> ipc_result \<times> 'db IpcHandler" where
  "handle_ipc_request ie GetFsVersion ro h = (handle_get_fs_version ie h, h)"
| "handle_ipc_request ie GetClusterInfo ro h = (handle_get_cluster_info ie h, h)"
| "handle_ipc_request ie GetGuestList ro h = (handle_get_guest_list ie h, h)"
| "handle_ipc_request ie (GetConfig path) ro h = (handle_get_config path ro h, h)"
| "handle_ipc_request ie (GetStatus name node_name) ro h = (handle_get_status name node_name h, h)"
| "handle_ipc_request ie (SetStatus name data) ro h =
     (if ro then (Err errno_EPERM, h) else handle_set_status ie name data h)"
| "handle_ipc_request ie (LogClusterMsg priority ident tag msg) ro h =
     (if ro then (Err errno_EPERM, h) else handle_log_cluster_msg ie priority ident tag msg h)"
| "handle_ipc_request ie (GetClusterLog max_entries user) ro h = (handle_get_cluster_log ie max_entries user h, h)"
| "handle_ipc_request ie GetRrdDump ro h = handle_get_rrd_dump ie h"
| "handle_ipc_request ie (GetGuestConfigProperty vmid property) ro h = (guest_config_properties ie [property] vmid h, h)"
| "handle_ipc_request ie (VerifyToken token) ro h = (handle_verify_token token h, h)"
| "handle_ipc_request ie (GetGuestConfigProperties vmid properties) ro h = (guest_config_properties ie properties vmid h, h)"

definition ipc_handle :: "ipc_env \<Rightarrow> Request \<Rightarrow> 'db IpcHandler \<Rightarrow> (unit, Response) res \<times> 'db IpcHandler" where
  "ipc_handle ie request h =
     (case ipc_deserialize (rq_msg_id request) (rq_data request) of
        Err _ \<Rightarrow> (Ok (response_err (- errno_EINVAL)), h)
      | Panic \<Rightarrow> (Panic, h)
      | Ok req \<Rightarrow>
          (case handle_ipc_request ie req (rq_is_read_only request) h of
             (r, h') \<Rightarrow>
               (case r of
                  Ok data \<Rightarrow> Ok \<lparr>rs_error_code = 0, rs_data = data\<rparr>
                | Err errno \<Rightarrow> Ok (response_err (- errno))
                | Panic \<Rightarrow> Panic, h')))"

definition authenticate :: "u32 \<Rightarrow> u32 \<Rightarrow> 'db IpcHandler \<Rightarrow> Permissions option" where
  "authenticate uid gid h =
     (if uid = 0 \<and> gid = 0 then Some ReadWrite
      else if gid = ih_www_data_gid h then Some ReadOnly
      else None)"

end
