(* ===== verification/Ipc_Conn.thy ===== *)
theory Ipc_Conn
  imports Ipc_Fifo Ipc_Service
begin

text \<open>
  Connections of local clients (\<open>pmxcfs-ipc/src/connection.rs\<close>), the wire structures of libqb
  (\<open>protocol.rs\<close>) and the list of connections of the server (\<open>server.rs\<close>).

  \<^item> The handshake is a function of the bytes that the client sent, its credentials, and whether the
    system calls succeed.
  \<^item> An established connection has three tasks, which share two queues and the two rings with the client.
    Each turn of a task, and each message of the client, is a step. The application is the argument
    \<open>handle\<close>, the method of the trait \<open>Handler\<close>.
  \<^item> The layout is that of a little-endian machine.
\<close>

section \<open>Wire structures\<close>

record Align8 =
  al_value :: int
  al_pad :: u32

definition align8_new :: "int \<Rightarrow> Align8" where
  "align8_new v = \<lparr>al_value = v, al_pad = 0\<rparr>"

definition align8_of :: "byte list \<Rightarrow> Align8" where
  "align8_of bytes = \<lparr>al_value = sint (u32_of_le (slice 0 4 bytes)), al_pad = u32_of_le (slice 4 8 bytes)\<rparr>"

definition align8_bytes :: "Align8 \<Rightarrow> byte list" where
  "align8_bytes a = u32_to_le (word_of_int (al_value a)) @ u32_to_le (al_pad a)"

record RequestHeader =
  rh_id :: Align8
  rh_size :: Align8

definition request_header_size :: nat where "request_header_size = 16"

definition request_header_of :: "byte list \<Rightarrow> RequestHeader" where
  "request_header_of bytes = \<lparr>rh_id = align8_of (slice 0 8 bytes), rh_size = align8_of (slice 8 16 bytes)\<rparr>"

definition request_header_bytes :: "RequestHeader \<Rightarrow> byte list" where
  "request_header_bytes h = align8_bytes (rh_id h) @ align8_bytes (rh_size h)"

record ResponseHeader =
  ph_id :: Align8
  ph_size :: Align8
  ph_error :: Align8

definition response_header_size :: nat where "response_header_size = 24"

definition response_header_bytes :: "ResponseHeader \<Rightarrow> byte list" where
  "response_header_bytes h = align8_bytes (ph_id h) @ align8_bytes (ph_size h) @ align8_bytes (ph_error h)"

record ConnectionRequest =
  cr_hdr :: RequestHeader
  cr_max_msg_size :: u32

definition connection_request_size :: nat where "connection_request_size = 24"

definition connection_request_of :: "byte list \<Rightarrow> ConnectionRequest" where
  "connection_request_of bytes = \<lparr>cr_hdr = request_header_of (slice 0 16 bytes), cr_max_msg_size = u32_of_le (slice 16 20 bytes)\<rparr>"

definition MSG_AUTHENTICATE :: int where "MSG_AUTHENTICATE = - 1"
definition CONNECTION_TYPE_SHM :: u32 where "CONNECTION_TYPE_SHM = 1"
definition PATH_MAX :: nat where "PATH_MAX = 4096"

definition path_buffer :: "string \<Rightarrow> byte list" where
  "path_buffer src = (let len = min (length src) (PATH_MAX - 1) in take len (as_bytes src) @ replicate (PATH_MAX - len) 0)"

text \<open>\<open>send_connection_response\<close>: the bytes that it writes.\<close>

definition connection_response :: "int \<Rightarrow> u64 \<Rightarrow> u32 \<Rightarrow> string \<Rightarrow> string \<Rightarrow> string \<Rightarrow> byte list" where
  "connection_response err conn_id max_msg_size request_path response_path event_path =
     response_header_bytes \<lparr>ph_id = align8_new MSG_AUTHENTICATE, ph_size = align8_new 12328, ph_error = align8_new err\<rparr> @
     u32_to_le CONNECTION_TYPE_SHM @ u32_to_le max_msg_size @ u64_to_le conn_id @
     path_buffer request_path @ path_buffer response_path @ path_buffer event_path"

section \<open>Handshake\<close>

record accept_env =
  ae_peer :: "(u32 \<times> u32 \<times> u32) option"  \<comment> \<open>user, group, process\<close>
  ae_process_id :: u32
  ae_shm :: "string \<Rightarrow> bool"  \<comment> \<open>the files of a ring can be created\<close>
  ae_write :: bool  \<comment> \<open>the answer can be written to the socket\<close>

datatype accept_error = ReadFailed | WriteFailed | InvalidHeaderSize | InvalidMaxMsgSize | NoCredentials | AuthFailed | RingFailed

record QbConnection =
  qc_conn_id :: u64
  qc_pid :: u32
  qc_uid :: u32
  qc_gid :: u32
  qc_read_only :: bool
  qc_ring_buffer_paths :: "string list"
  qc_request_rb :: RingShared
  qc_response_rb :: RingShared
  qc_event_rb :: RingShared

definition MAX_REASONABLE_MSG_SIZE :: u32 where "MAX_REASONABLE_MSG_SIZE = 16 * 1024 * 1024"
definition MIN_MSG_SIZE :: u32 where "MIN_MSG_SIZE = 128"
definition errno_EAGAIN :: int where "errno_EAGAIN = 11"

definition reject :: "accept_env \<Rightarrow> u64 \<Rightarrow> int \<Rightarrow> accept_error \<Rightarrow> byte list option \<times> (accept_error, QbConnection) res" where
  "reject ae conn_id errno e =
     (if ae_write ae then (Some (connection_response (- errno) conn_id 0 '''' '''' ''''), Err e) else (None, Err WriteFailed))"

definition ring_named :: "accept_env \<Rightarrow> string \<Rightarrow> nat \<Rightarrow> nat \<Rightarrow> RingShared option" where
  "ring_named ae name ring_size user_data =
     (if ae_shm ae name then (case ring_new ring_size user_data of Ok r \<Rightarrow> Some r | _ \<Rightarrow> None) else None)"

definition establish ::
    "accept_env \<Rightarrow> u64 \<Rightarrow> string \<Rightarrow> u32 \<Rightarrow> u32 \<times> u32 \<times> u32 \<Rightarrow> bool \<Rightarrow> byte list option \<times> (accept_error, QbConnection) res" where
  "establish ae conn_id service_name max_msg_size0 peer read_only =
     (let (uid, gid, pid) = peer;
          conn_desc = decimal (unat (ae_process_id ae)) @ ''-'' @ decimal (unat pid) @ ''-'' @ decimal (unat conn_id);
          max_msg_size = max max_msg_size0 8192;
          ring_size = unat max_msg_size;
          name = (\<lambda>kind. conn_desc @ ''-'' @ service_name @ ''-'' @ kind) in
      case ring_named ae (name ''request'') ring_size 4 of
        None \<Rightarrow> (None, Err RingFailed)
      | Some request_rb \<Rightarrow>
          (case ring_named ae (name ''response'') ring_size 0 of
             None \<Rightarrow> (None, Err RingFailed)
           | Some response_rb \<Rightarrow>
               (case ring_named ae (name ''event'') ring_size 0 of
                  None \<Rightarrow> (None, Err RingFailed)
                | Some event_rb \<Rightarrow>
                    if \<not> ae_write ae then (None, Err WriteFailed)
                    else
                      (Some (connection_response 0 conn_id max_msg_size (name ''request'') (name ''response'') (name ''event'')),
                       Ok \<lparr>qc_conn_id = conn_id, qc_pid = pid, qc_uid = uid, qc_gid = gid, qc_read_only = read_only,
                           qc_ring_buffer_paths = map (\<lambda>kind. ''/dev/shm/qb-'' @ name kind @ ''-data'') [''request'', ''response'', ''event''],
                           qc_request_rb = request_rb, qc_response_rb = response_rb, qc_event_rb = event_rb\<rparr>))))"

definition qb_accept ::
    "(u32 \<Rightarrow> u32 \<Rightarrow> Permissions option) \<Rightarrow> accept_env \<Rightarrow> byte list \<Rightarrow> u64 \<Rightarrow> string \<Rightarrow> byte list option \<times> (accept_error, QbConnection) res" where
  "qb_accept auth ae bytes conn_id service_name =
     (if length bytes < connection_request_size then (None, Err ReadFailed)
      else
        let req = connection_request_of (take connection_request_size bytes) in
        if al_value (rh_size (cr_hdr req)) \<noteq> int connection_request_size then reject ae conn_id errno_EINVAL InvalidHeaderSize
        else if cr_max_msg_size req < MIN_MSG_SIZE \<or> cr_max_msg_size req > MAX_REASONABLE_MSG_SIZE then
          reject ae conn_id errno_EINVAL InvalidMaxMsgSize
        else
          (case ae_peer ae of
             None \<Rightarrow> (None, Err NoCredentials)
           | Some (uid, gid, pid) \<Rightarrow>
               (case auth uid gid of
                  None \<Rightarrow> reject ae conn_id errno_EPERM AuthFailed
                | Some p \<Rightarrow> establish ae conn_id service_name (cr_max_msg_size req) (uid, gid, pid) (p = ReadOnly))))"

section \<open>Tasks of a connection\<close>

definition MAX_PENDING_REQUESTS :: nat where "MAX_PENDING_REQUESTS = 8"
definition FC_WARNING_THRESHOLD :: nat where "FC_WARNING_THRESHOLD = 6"
definition FC_OK :: int where "FC_OK = 0"
definition FC_SLOW_DOWN :: int where "FC_SLOW_DOWN = 1"
definition FC_STOP :: int where "FC_STOP = 2"

definition fc_value :: "nat \<Rightarrow> int" where
  "fc_value queue_len =
     (if queue_len \<ge> MAX_PENDING_REQUESTS then FC_STOP
      else if queue_len \<ge> FC_WARNING_THRESHOLD then FC_SLOW_DOWN
      else FC_OK)"

text \<open>
  The receiver, between queueing a request and setting the flow control; the worker; the sender, which
  blocks when the response ring is full: it waits for a notification that only \<open>recv\<close> of the same object
  sends, and the server never receives from the response ring.
\<close>

datatype receiver = Receiving | Queued | Stopped
datatype worker = WorkerIdle | Handling RequestHeader Request | WorkerDead
datatype sender = SenderIdle | Sending RequestHeader Response | Blocked RequestHeader Response

record 'h session =
  ss_conn :: QbConnection
  ss_request_rb :: RingShared
  ss_response_rb :: RingShared
  ss_receiver :: receiver
  ss_work :: "(RequestHeader \<times> Request) list"
  ss_worker :: worker
  ss_responses :: "(RequestHeader \<times> Response) list"
  ss_sender :: sender
  ss_handler :: 'h

definition session_start :: "QbConnection \<Rightarrow> 'h \<Rightarrow> 'h session" where
  "session_start c h =
     \<lparr>ss_conn = c, ss_request_rb = qc_request_rb c, ss_response_rb = qc_response_rb c, ss_receiver = Receiving, ss_work = [],
      ss_worker = WorkerIdle, ss_responses = [], ss_sender = SenderIdle, ss_handler = h\<rparr>"

definition request_from :: "QbConnection \<Rightarrow> byte list \<Rightarrow> Request" where
  "request_from c request_data =
     \<lparr>rq_msg_id = al_value (rh_id (request_header_of request_data)), rq_data = drop request_header_size request_data,
      rq_is_read_only = qc_read_only c, rq_conn_id = qc_conn_id c, rq_uid = qc_uid c, rq_gid = qc_gid c, rq_pid = qc_pid c\<rparr>"

definition receive_data :: "byte list \<Rightarrow> 'h session \<Rightarrow> 'h session" where
  "receive_data request_data s =
     (if length request_data < request_header_size then s
      else
        let header = request_header_of request_data; request = request_from (ss_conn s) request_data in
        if ss_worker s = WorkerDead then s\<lparr>ss_receiver := Stopped\<rparr>
        else if length (ss_work s) < MAX_PENDING_REQUESTS then
          s\<lparr>ss_work := ss_work s @ [(header, request)], ss_receiver := Queued\<rparr>
        else
          s\<lparr>ss_request_rb := fc_set FC_STOP (ss_request_rb s),
            ss_responses := ss_responses s @ [(header, response_err (- errno_EAGAIN))]\<rparr>)"

definition response_bytes :: "RequestHeader \<Rightarrow> Response \<Rightarrow> byte list" where
  "response_bytes header handler_response =
     (let response_size = response_header_size + length (rs_data handler_response) in
      response_header_bytes
        \<lparr>ph_id = rh_id header, ph_size = align8_new (sint (of_nat response_size :: u32)),
         ph_error = align8_new (rs_error_code handler_response)\<rparr> @ rs_data handler_response)"

datatype event =
    EClientSend "byte list" | EClientRecv "byte list" | EStop  \<comment> \<open>of the client and the server around the connection\<close>
  | EInternal | ERequest RequestHeader | EAnswer RequestHeader

inductive session_step :: "(Request \<Rightarrow> 'h \<Rightarrow> (unit, Response) res \<times> 'h) \<Rightarrow> 'h session \<Rightarrow> event \<Rightarrow> 'h session \<Rightarrow> bool" for handle where
  client_send: "session_step handle s (EClientSend m) (s\<lparr>ss_request_rb := r\<rparr>)"
    if "try_send m (ss_request_rb s) = (Ok (), r)"
| client_recv: "session_step handle s (EClientRecv m) (s\<lparr>ss_response_rb := r\<rparr>)"
    if "recv_turn (ss_response_rb s) = Some (Ok (Some m), r)"
| stop: "session_step handle s EStop (s\<lparr>ss_receiver := Stopped\<rparr>)"
    if "ss_receiver s = Receiving"
| receive: "session_step handle s
      (if length m < request_header_size then EInternal else ERequest (request_header_of m)) (receive_data m (s\<lparr>ss_request_rb := r\<rparr>))"
    if "ss_receiver s = Receiving" and "recv_turn (ss_request_rb s) = Some (Ok (Some m), r)"
| spurious: "session_step handle s EInternal (s\<lparr>ss_request_rb := r\<rparr>)"
    if "ss_receiver s = Receiving" and "recv_turn (ss_request_rb s) = Some (Ok None, r)"
| receive_failed: "session_step handle s EInternal (s\<lparr>ss_request_rb := r, ss_receiver := Stopped\<rparr>)"
    if "ss_receiver s = Receiving" and "recv_turn (ss_request_rb s) = Some (Err e, r)"
| set_flow: "session_step handle s EInternal
      (s\<lparr>ss_request_rb := fc_set (fc_value (length (ss_work s))) (ss_request_rb s), ss_receiver := Receiving\<rparr>)"
    if "ss_receiver s = Queued"
| take_work: "session_step handle s EInternal (s\<lparr>ss_work := rest, ss_worker := Handling header request\<rparr>)"
    if "ss_worker s = WorkerIdle" and "ss_work s = (header, request) # rest"
| handled: "session_step handle s EInternal
      (s\<lparr>ss_worker := WorkerIdle, ss_handler := h, ss_responses := ss_responses s @ [(header, resp)]\<rparr>)"
    if "ss_worker s = Handling header request" and "handle request (ss_handler s) = (Ok resp, h)"
| worker_panic: "session_step handle s EInternal (s\<lparr>ss_worker := WorkerDead, ss_handler := h\<rparr>)"
    if "ss_worker s = Handling header request" and "handle request (ss_handler s) = (p, h)" and "\<not> is_ok p"
| take_response: "session_step handle s EInternal (s\<lparr>ss_responses := rest, ss_sender := Sending header resp\<rparr>)"
    if "ss_sender s = SenderIdle" and "ss_responses s = (header, resp) # rest"
| sent: "session_step handle s (EAnswer header) (s\<lparr>ss_response_rb := r, ss_sender := SenderIdle\<rparr>)"
    if "ss_sender s = Sending header resp" and "try_send (response_bytes header resp) (ss_response_rb s) = (Ok (), r)"
| no_space: "session_step handle s EInternal (s\<lparr>ss_sender := Blocked header resp\<rparr>)"
    if "ss_sender s = Sending header resp" and "try_send (response_bytes header resp) (ss_response_rb s) = (Err InsufficientSpace, r)"

inductive session_run :: "(Request \<Rightarrow> 'h \<Rightarrow> (unit, Response) res \<times> 'h) \<Rightarrow> 'h session \<Rightarrow> event list \<Rightarrow> 'h session \<Rightarrow> bool" for handle where
  run_nil: "session_run handle s [] s"
| run_cons: "session_run handle s (e # es) s''" if "session_step handle s e s'" and "session_run handle s' es s''"

fun internal :: "event \<Rightarrow> bool" where
  "internal (EClientSend _) = False" | "internal (EClientRecv _) = False" | "internal EStop = False" | "internal _ = True"

section \<open>Connections of the server\<close>

record Server =
  sv_connections :: "(u64, QbConnection) hmap"
  sv_next_conn_id :: u64
  sv_active_connections :: nat
  sv_closed_connections :: nat

definition server_new :: Server where
  "server_new = \<lparr>sv_connections = [], sv_next_conn_id = 1, sv_active_connections = 0, sv_closed_connections = 0\<rparr>"

definition connection_created :: "Server \<Rightarrow> Server" where
  "connection_created sv = sv\<lparr>sv_active_connections := (sv_active_connections sv + 1) mod 2 ^ 64\<rparr>"

definition connection_closed :: "Server \<Rightarrow> Server" where
  "connection_closed sv =
     sv\<lparr>sv_active_connections := (sv_active_connections sv + 2 ^ 64 - 1) mod 2 ^ 64,
        sv_closed_connections := (sv_closed_connections sv + 1) mod 2 ^ 64\<rparr>"

text \<open>One turn of the loop of \<open>AcceptorContext::run\<close>, for a client that connects.\<close>

definition acceptor_turn :: "(u32 \<Rightarrow> u32 \<Rightarrow> Permissions option) \<Rightarrow> accept_env \<Rightarrow> string \<Rightarrow> byte list \<Rightarrow> Server \<Rightarrow> byte list option \<times> Server" where
  "acceptor_turn auth ae service_name bytes sv =
     (let conn_id = sv_next_conn_id sv; sv = sv\<lparr>sv_next_conn_id := conn_id + 1\<rparr> in
      case qb_accept auth ae bytes conn_id service_name of
        (answer, Ok conn) \<Rightarrow> (answer, connection_created (sv\<lparr>sv_connections := hm_insert conn_id conn (sv_connections sv)\<rparr>))
      | (answer, _) \<Rightarrow> (answer, sv))"

definition server_stop :: "Server \<Rightarrow> Server" where
  "server_stop sv = foldl (\<lambda>sv _. connection_closed sv) (sv\<lparr>sv_connections := []\<rparr>) (sv_connections sv)"

end
