(* ===== verification/Ipc_Props.thy ===== *)
theory Ipc_Props
  imports Ipc_Service Fuse_Path Mem_Sample
begin

text \<open>
  The properties of the service for local clients: every request is answered, clients without write
  access change nothing, and what the handlers return.
\<close>

section \<open>Answers\<close>

lemma read_config_no_panic [simp]: "read m path 0 1048576 \<noteq> Panic"
  by (auto simp: read_def split: option.split)

lemma guest_values_no_panic [simp]: "guest_values h properties vmid entry \<noteq> Panic"
  by (auto simp: guest_values_def split: res.split)

lemma all_guests_no_panic [simp]: "all_guests h properties guests response \<noteq> Panic"
  by (induction h properties guests response rule: all_guests.induct) (auto split: res.split)

lemma guest_config_no_panic: "guest_config_properties ie properties vmid h \<noteq> Panic"
  by (auto simp: guest_config_properties_def Let_def and_then_def split: res.split option.split)

lemma set_node_status_no_panic: "set_node_status now name data s \<noteq> (Panic, s')"
  by (auto simp: set_node_status_def Let_def split: option.split)

lemmas ipc_handlers = handle_get_fs_version_def handle_get_cluster_info_def handle_get_guest_list_def json_bytes_def
  handle_get_config_def handle_get_status_def handle_get_cluster_log_def handle_get_rrd_dump_def
  handle_verify_token_def handle_set_status_def handle_log_cluster_msg_def

lemma handle_request_no_panic: "handle_ipc_request ie req ro h \<noteq> (Panic, h')"
  by (cases req)
    (auto simp: ipc_handlers guest_config_no_panic set_node_status_no_panic Let_def
      split: res.splits option.splits prod.splits if_splits)

lemma errno_pos [simp]: "0 < errno_EPERM" "0 < errno_ENOENT" "0 < errno_EIO" "0 < errno_EINVAL"
  by (simp_all add: errno_EPERM_def errno_ENOENT_def errno_EIO_def errno_EINVAL_def)

lemma guest_config_errno: "guest_config_properties ie properties vmid h = Err e \<Longrightarrow> 0 < e"
  by (auto simp: guest_config_properties_def Let_def and_then_def split: res.splits option.splits if_splits)

lemma handle_request_errno: "handle_ipc_request ie req ro h = (Err e, h') \<Longrightarrow> 0 < e"
  by (cases req)
    (auto simp: ipc_handlers guest_config_errno Let_def split: res.splits option.splits prod.splits if_splits)

lemma handle_request_keeps:
  "ih_memdb (snd (handle_ipc_request ie req ro h)) = ih_memdb h"
  "ih_config (snd (handle_ipc_request ie req ro h)) = ih_config h"
  by (cases req; auto simp: handle_get_rrd_dump_def handle_set_status_def handle_log_cluster_msg_def Let_def
      split: prod.split)+


text \<open>
  C26. The decoder reads the layout of the clients: the bytes that a client sends for a request are
  decoded to that request, if its strings have no NUL and fit into their fields.
\<close>

theorem requests_roundtrip:
  assumes "request_ok r"
  shows "ipc_deserialize (op_code (request_op r)) (request_bytes r) = Ok r"
  using assms by (rule request_roundtrip)

theorem requests_roundtrip_witness:
  "ipc_deserialize 7 ([6, 3, 2] @ as_bytes ''ab'' @ [0] @ as_bytes ''t'' @ [0] @ as_bytes ''hi'' @ [0]) =
     Ok (LogClusterMsg 6 ''ab'' ''t'' ''hi'')"
proof -
  have "request_ok (LogClusterMsg 6 ''ab'' ''t'' ''hi'')" by code_simp
  from requests_roundtrip [OF this] show ?thesis by (simp add: nul_bytes_def)
qed

section \<open>Access\<close>

lemma op_of_code_Some: "op_of_code c = Some op \<Longrightarrow> c = op_code op"
  unfolding op_of_code_def find_Some_iff by blast

lemma and_then_eq_Ok: "and_then r k = Ok y \<longleftrightarrow> (\<exists>x. r = Ok x \<and> k x = Ok y)"
  by (cases r) (simp_all add: and_then_def)

lemma rrd_dump_op:
  assumes "ipc_deserialize msg_id data = Ok GetRrdDump"
  shows "msg_id = op_code OpGetRrdDump"
proof -
  obtain op where op: "op_of_code msg_id = Some op"
    using assms by (cases "op_of_code msg_id") (simp_all add: ipc_deserialize_def)
  then have "op = OpGetRrdDump"
    using assms
    by (cases op) (auto simp: ipc_deserialize_def deserialize_set_status_def deserialize_get_status_def
        deserialize_log_msg_def deserialize_get_log_def deserialize_property_def deserialize_properties_def
        and_then_eq_Ok Let_def split: if_splits)
  then show ?thesis using op_of_code_Some [OF op] by simp
qed

text \<open>
  C23. Clients without write access change nothing: only root with group 0 gets write access, and for all
  others the handler is the same after a request, apart from the cache of the RRD dump, which a dump
  refreshes after dropping old entries.
\<close>

theorem unprivileged_clients_change_nothing:
  assumes "authenticate uid gid h0 = Some p" and "uid \<noteq> 0 \<or> gid \<noteq> 0"
    and "rq_is_read_only request \<longleftrightarrow> p = ReadOnly"
    and "ipc_handle ie request h = (r, h')"
  shows "p = ReadOnly \<and> gid = ih_www_data_gid h0 \<and>
    (h' = h \<or> (rq_msg_id request = op_code OpGetRrdDump \<and> h' = h\<lparr>ih_status := snd (get_rrd_dump (ie_now ie) (ih_status h))\<rparr>))"
proof -
  have p: "p = ReadOnly" "gid = ih_www_data_gid h0"
    using assms(1,2) by (auto simp: authenticate_def split: if_splits)
  have "h' = h \<or> req = GetRrdDump \<and> h' = h\<lparr>ih_status := snd (get_rrd_dump (ie_now ie) (ih_status h))\<rparr>"
    if "handle_ipc_request ie req True h = (r, h')" for req r h'
    using that by (cases req) (auto simp: handle_get_rrd_dump_def split: prod.splits)
  moreover have "rq_msg_id request = op_code OpGetRrdDump"
    if "ipc_deserialize (rq_msg_id request) (rq_data request) = Ok GetRrdDump"
    by (rule rrd_dump_op [OF that])
  ultimately show ?thesis
    using assms(3,4) p by (fastforce simp: ipc_handle_def split: res.splits prod.splits)
qed

definition sample_ipc_env :: ipc_env where
  "sample_ipc_env = \<lparr>ie_js = \<lparr>js_string = (\<lambda>_. ''{}''), js_pretty = (\<lambda>_. Some ''{}'')\<rparr>, ie_now = 100, ie_pid = 7\<rparr>"

definition sample_handler :: "row list MemDb \<Rightarrow> row list IpcHandler" where
  "sample_handler m = \<lparr>ih_memdb = m, ih_status = status_new ''n'' 0, ih_config = config_new ''n'' ''10.0.0.1'' 33 False False ''c'',
                       ih_www_data_gid = 33\<rparr>"

definition sample_request :: "bool \<Rightarrow> IpcRequest \<Rightarrow> Request" where
  "sample_request ro r = \<lparr>rq_msg_id = op_code (request_op r), rq_data = request_bytes r, rq_is_read_only = ro,
                          rq_conn_id = 1, rq_uid = 33, rq_gid = 33, rq_pid = 9\<rparr>"

theorem unprivileged_clients_change_nothing_witness:
  "authenticate 33 33 (sample_handler sample_full) = Some ReadOnly \<and>
   snd (ipc_handle sample_ipc_env (sample_request True (SetStatus ''k'' [1])) (sample_handler sample_full)) =
     sample_handler sample_full"
proof -
  let ?h = "sample_handler sample_full" and ?rq = "sample_request True (SetStatus ''k'' [1])"
  have a: "authenticate 33 33 ?h = Some ReadOnly" by (simp add: authenticate_def sample_handler_def)
  have ro: "rq_is_read_only ?rq \<longleftrightarrow> ReadOnly = ReadOnly" by (simp add: sample_request_def)
  obtain r h' where r: "ipc_handle sample_ipc_env ?rq ?h = (r, h')" by fastforce
  have "rq_msg_id ?rq \<noteq> op_code OpGetRrdDump" by (simp add: sample_request_def)
  then have "h' = ?h" using unprivileged_clients_change_nothing [OF a _ ro r] by simp
  then show ?thesis using a r by simp
qed

lemma read_file:
  assumes "names_ok ps" and "abs_fs m ps = Some (File d)" and "length d \<le> 1024 * 1024"
    and "path = join_with ''/'' ps \<or> path = ''/'' @ join_with ''/'' ps" and "path \<noteq> ''.''"
  shows "read m path 0 1048576 = Ok d"
proof -
  have parts: "path_parts path = ps"
    using assms(4) path_parts_join [OF assms(1)] by (auto simp: path_parts_def)
  have "read m path 0 1048576 = spec_read (view_path path) 0 1048576 (abs_fs m)"
    using read_refines [of 0 1048576 m path] by simp
  also have "\<dots> = Ok d" using assms(2,3,5) parts by (simp add: spec_read_def view_path_def)
  finally show ?thesis .
qed

text \<open>
  C36. A client without write access is refused a file only when its path starts with \<open>priv/\<close>. The
  database ignores slashes at the start of a path, so with one it reads every private file, up to a
  mebibyte of it; and the private files of the nodes it reads without one.
\<close>

theorem private_files_are_exposed:
  assumes "names_ok ps" and "private_parts ps" and "abs_fs (ih_memdb h) ps = Some (File d)"
    and "length d \<le> 1024 * 1024"
  shows "handle_get_config (''/'' @ join_with ''/'' ps) True h = Ok d \<and>
    handle_get_config (join_with ''/'' ps) True h =
      (if hd ps = ''priv'' \<and> tl ps \<noteq> [] then Err errno_EPERM else Ok d)"
proof -
  have shape: "(\<exists>qs. ps = ''priv'' # qs) \<or> (\<exists>node qs. ps = ''nodes'' # node # ''priv'' # qs)"
    using assms(2) by (simp add: private_parts_def)
  then have ne: "join_with ''/'' ps \<noteq> ''.''" by (auto simp: join_with_Cons below_simps)
  have r: "read (ih_memdb h) (''/'' @ join_with ''/'' ps) 0 1048576 = Ok d"
      "read (ih_memdb h) (join_with ''/'' ps) 0 1048576 = Ok d"
    using read_file [OF assms(1,3,4)] ne by simp_all
  have "starts_with (join_with ''/'' ps) ''priv/'' \<longleftrightarrow> hd ps = ''priv'' \<and> tl ps \<noteq> []"
    using shape by (auto simp: join_with_Cons below_simps starts_with_def below_def)
  then show ?thesis using r by (simp add: handle_get_config_def starts_with_def)
qed

theorem private_files_are_exposed_witness:
  "handle_get_config ''priv/f'' True (sample_handler sample_full) = Err errno_EPERM \<and>
   handle_get_config ''/priv/f'' True (sample_handler sample_full) = Ok [1, 2, 3]"
proof -
  have "abs_fs sample_full [''priv'', ''f''] = Some (File [1, 2, 3])" by code_simp
  then have f: "abs_fs (ih_memdb (sample_handler sample_full)) [''priv'', ''f''] = Some (File [1, 2, 3])"
    by (simp add: sample_handler_def)
  show ?thesis using private_files_are_exposed [OF _ _ f] by (simp add: private_parts_def)
qed

section \<open>Results\<close>

lemma first_sep:
  "x @ c # y = u @ c # w \<Longrightarrow> c \<notin> set x \<Longrightarrow> c \<notin> set u \<Longrightarrow> x = u \<and> y = w"
proof (induction x arbitrary: u)
  case Nil
  then show ?case by (cases u) auto
next
  case (Cons z x)
  then show ?case by (cases u) auto
qed

lemma split_on_mem:
  assumes "c \<notin> set t"
  shows "t \<in> set (split_on c s) \<longleftrightarrow>
    (\<exists>a b. s = a @ t @ b \<and> (a = [] \<or> last a = c) \<and> (b = [] \<or> hd b = c))"
proof (induction s rule: length_induct)
  case (1 s)
  show ?case
  proof (cases "c \<in> set s")
    case False
    have "t = s" if "s = a @ t @ b" "a = [] \<or> last a = c" "b = [] \<or> hd b = c" for a b
    proof -
      have "a = []" using that False last_in_set [of a] by (cases "a = []") auto
      moreover have "b = []" using that False hd_in_set [of b] by (cases "b = []") auto
      ultimately show ?thesis using that(1) by simp
    qed
    moreover have "\<exists>a b. s = a @ s @ b \<and> (a = [] \<or> last a = c) \<and> (b = [] \<or> hd b = c)"
      by (intro exI [of _ "[]"]) simp
    ultimately have "(\<exists>a b. s = a @ t @ b \<and> (a = [] \<or> last a = c) \<and> (b = [] \<or> hd b = c)) \<longleftrightarrow> t = s"
      by blast
    then show ?thesis using False by (simp add: split_on_no_sep)
  next
    case True
    then obtain x y where xy: "s = x @ c # y" "c \<notin> set x" by (meson split_list_first)
    have split: "set (split_on c s) = insert x (set (split_on c y))"
      using xy by (simp add: split_on_append split_on_no_sep)
    have IH: "t \<in> set (split_on c y) \<longleftrightarrow> (\<exists>a b. y = a @ t @ b \<and> (a = [] \<or> last a = c) \<and> (b = [] \<or> hd b = c))"
      using 1 xy(1) by simp
    have "(\<exists>a b. s = a @ t @ b \<and> (a = [] \<or> last a = c) \<and> (b = [] \<or> hd b = c)) \<longleftrightarrow>
        t = x \<or> (\<exists>a b. y = a @ t @ b \<and> (a = [] \<or> last a = c) \<and> (b = [] \<or> hd b = c))"
      (is "?L \<longleftrightarrow> ?R")
    proof
      assume ?L
      then obtain a b where ab: "s = a @ t @ b" "a = [] \<or> last a = c" "b = [] \<or> hd b = c" by blast
      show ?R
      proof (cases "c \<in> set a")
        case True
        then obtain u v where u: "a = u @ c # v" "c \<notin> set u" by (meson split_list_first)
        have "x @ c # y = u @ c # (v @ t @ b)" using ab(1) xy(1) u(1) by simp
        then have "y = v @ t @ b" using first_sep xy(2) u(2) by metis
        moreover have "v = [] \<or> last v = c" using ab(2) u(1) by (auto split: if_splits)
        ultimately show ?thesis using ab(3) by blast
      next
        case False
        then have a: "a = []" using ab(2) by (metis last_in_set)
        then have "b \<noteq> []" using ab(1) xy(1) assms by auto
        then obtain b' where "b = c # b'" using ab(3) by (cases b) auto
        then have "t = x" using first_sep [of t c b' x y] ab(1) a xy assms by simp
        then show ?thesis ..
      qed
    next
      assume ?R
      then show ?L
      proof
        assume "t = x"
        then show ?L using xy(1) by (intro exI [of _ "[]"] exI [of _ "c # y"]) simp
      next
        assume "\<exists>a b. y = a @ t @ b \<and> (a = [] \<or> last a = c) \<and> (b = [] \<or> hd b = c)"
        then obtain a b where "y = a @ t @ b" "a = [] \<or> last a = c" "b = [] \<or> hd b = c" by blast
        then show ?L using xy(1) by (intro exI [of _ "x @ c # a"] exI [of _ b]) auto
      qed
    qed
    then show ?thesis using split IH by auto
  qed
qed

text \<open>
  A token is accepted exactly if it is not empty, has no line feed and is a whole line of
  \<open>priv/token.cfg\<close>: it stands there between the start of the file or a line feed and the end or a line
  feed.
\<close>

theorem token_accepted_iff_line:
  assumes "abs_fs (ih_memdb h) [''priv'', ''token.cfg''] = Some (File d)" and "length d \<le> 1024 * 1024"
  shows "handle_verify_token token h = Ok [] \<longleftrightarrow>
    token \<noteq> [] \<and> LF \<notin> set token \<and>
    (\<exists>a b. from_utf8_lossy d = a @ token @ b \<and> (a = [] \<or> last a = LF) \<and> (b = [] \<or> hd b = LF))"
proof -
  have "read (ih_memdb h) (join_with ''/'' [''priv'', ''token.cfg'']) 0 1048576 = Ok d"
    by (rule read_file [OF _ assms]) simp_all
  then show ?thesis using split_on_mem [of LF token] by (auto simp: handle_verify_token_def)
qed

definition sample_tokens :: "row list MemDb" where
  "sample_tokens = snd (write_op list_sqlite ''/priv/token.cfg'' 0 1 4 (as_bytes ''a'' @ 10 # as_bytes ''tok'' @ [10]) False
     (snd (create list_sqlite sample_sha 0 ''/priv/token.cfg'' 0x8000 1 3 sample_dir)))"

theorem token_accepted_iff_line_witness:
  "handle_verify_token ''tok'' (sample_handler sample_tokens) = Ok [] \<and>
   handle_verify_token ''to'' (sample_handler sample_tokens) \<noteq> Ok []"
proof -
  let ?h = "sample_handler sample_tokens" and ?d = "as_bytes ''a'' @ 10 # as_bytes ''tok'' @ [10]"
  have "abs_fs sample_tokens [''priv'', ''token.cfg''] = Some (File ?d)" by code_simp
  then have f: "abs_fs (ih_memdb ?h) [''priv'', ''token.cfg''] = Some (File ?d)" by (simp add: sample_handler_def)
  have content: "from_utf8_lossy ?d = ''a'' @ LF # ''tok'' @ [LF]" by code_simp
  note token = token_accepted_iff_line [OF f, unfolded content]
  have lf: "LF \<notin> set ''tok''" "LF \<notin> set ''to''" by code_simp+
  have "\<exists>a b. ''a'' @ LF # ''tok'' @ [LF] = a @ ''tok'' @ b \<and> (a = [] \<or> last a = LF) \<and> (b = [] \<or> hd b = LF)"
    by (rule exI [of _ "''a'' @ [LF]"], rule exI [of _ "[LF]"]) simp
  then have "handle_verify_token ''tok'' ?h = Ok []" using token [of "''tok''"] lf by simp
  moreover have "''to'' \<notin> set (split_on LF (''a'' @ LF # ''tok'' @ [LF]))" by code_simp
  then have "handle_verify_token ''to'' ?h \<noteq> Ok []"
    using token [of "''to''"] split_on_mem [OF lf(2), of "''a'' @ LF # ''tok'' @ [LF]"] by simp
  ultimately show ?thesis ..
qed

definition main_section :: "string \<Rightarrow> (string \<times> string) list" where
  "main_section config =
     List.map_filter property_line (takeWhile (\<lambda>line. \<not> starts_with line ''['') (str_lines config))"

lemma extract_lines_get:
  "hm_get (extract_lines lines properties values) k =
     (case map_of (rev (List.map_filter property_line (takeWhile (\<lambda>line. \<not> starts_with line ''['') lines))) k of
        Some v \<Rightarrow> if k \<in> set properties then Some v else hm_get values k
      | None \<Rightarrow> hm_get values k)"
proof (induction lines arbitrary: "values")
  case (Cons line lines)
  show ?case
  proof (cases "starts_with line ''[''")
    case False
    then show ?thesis
      using Cons.IH
      by (cases "property_line line")
        (auto simp: map_filter_simps map_add_def split: option.splits)
  qed (simp add: map_filter_simps)
qed (simp add: map_filter_simps)

text \<open>
  The properties that are extracted from a configuration are the requested ones that occur before
  the first section, each with the value of its last line.
\<close>

theorem properties_of_main_section:
  "hm_get (extract_properties config properties) k =
     (if k \<in> set properties then map_of (rev (main_section config)) k else None)"
  by (auto simp: extract_properties_def extract_lines_get main_section_def split: option.split)

text \<open>
  A status that a client with write access sets is what a client then gets: the bytes of the two
  requests go through decoding, dispatch and the status, and the answer has the data.
\<close>

theorem status_set_then_get:
  assumes set: "rq_msg_id rq = op_code OpSetStatus" "rq_data rq = request_bytes (SetStatus name data)"
      "\<not> rq_is_read_only rq"
    and get: "rq_msg_id rq' = op_code OpGetStatus" "rq_data rq' = request_bytes (GetStatus name node)"
    and name: "c_str_ok name" "name \<noteq> []" "length name < 256" "regular_key name" "length data \<le> CFS_MAX_STATUS_SIZE"
    and node: "node = [] \<or> node = cf_nodename (ih_config h)" "c_str_ok node" "length node < 256"
  shows "\<exists>h'. ipc_handle ie rq h = (Ok \<lparr>rs_error_code = 0, rs_data = [32]\<rparr>, h') \<and>
    ipc_handle ie' rq' h' = (Ok \<lparr>rs_error_code = 0, rs_data = data\<rparr>, h')"
proof -
  have d: "ipc_deserialize (rq_msg_id rq) (rq_data rq) = Ok (SetStatus name data)"
      "ipc_deserialize (rq_msg_id rq') (rq_data rq') = Ok (GetStatus name node)"
    using request_roundtrip [of "SetStatus name data"] request_roundtrip [of "GetStatus name node"] set get name node
    by simp_all
  have "strip_prefix name ''rrd/'' = None" "name \<noteq> ''nodeip''"
    using name(4) by (auto simp: regular_key_def strip_prefix_def)
  then have "ipc_handle ie rq h = (Ok \<lparr>rs_error_code = 0, rs_data = [32]\<rparr>,
      h\<lparr>ih_status := (ih_status h)\<lparr>st_node_status := hm_insert name \<lparr>ns_name = name, ns_data = data, ns_timestamp = ie_now ie\<rparr>
                          (st_node_status (ih_status h))\<rparr>\<rparr>)"
    using d(1) set(3) name(5) by (simp add: ipc_handle_def handle_set_status_def set_node_status_def)
  moreover have "ipc_handle ie' rq' (h\<lparr>ih_status := s\<rparr>) = (Ok \<lparr>rs_error_code = 0, rs_data = data\<rparr>, h\<lparr>ih_status := s\<rparr>)"
    if "hm_get (st_node_status s) name = Some \<lparr>ns_name = name, ns_data = data, ns_timestamp = t\<rparr>" for s t
    using d(2) that name(2) node(1) by (simp add: ipc_handle_def handle_get_status_def get_node_status_def)
  ultimately show ?thesis by simp
qed

theorem status_set_then_get_witness:
  "\<exists>h'. ipc_handle sample_ipc_env (sample_request False (SetStatus ''k'' [1, 2])) (sample_handler sample_full) =
          (Ok \<lparr>rs_error_code = 0, rs_data = [32]\<rparr>, h') \<and>
     ipc_handle sample_ipc_env (sample_request True (GetStatus ''k'' ''n'')) h' = (Ok \<lparr>rs_error_code = 0, rs_data = [1, 2]\<rparr>, h')"
proof -
  have "c_str_ok ''k''" "c_str_ok ''n''" by code_simp+
  then show ?thesis
    by (intro status_set_then_get [where name = "''k''" and node = "''n''"])
      (simp_all add: sample_request_def sample_handler_def regular_key_def starts_with_def config_new_def CFS_MAX_STATUS_SIZE_def)
qed

end
