(* ===== verification/Ipc_Conn_Props.thy ===== *)
theory Ipc_Conn_Props
  imports Ipc_Conn Ipc_Props "HOL-Library.Multiset"
begin

text \<open>
  Properties of connections. What holds for every application is proved in a locale whose law is that the
  handler answers each request; the service of \<open>Ipc_Service\<close> is an instance.
\<close>

section \<open>Progress\<close>

text \<open>Steps inside the server make this number smaller.\<close>

fun receiver_rest :: "receiver \<Rightarrow> nat" where
  "receiver_rest Stopped = 0" | "receiver_rest Receiving = 1" | "receiver_rest Queued = 2"

fun worker_rest :: "worker \<Rightarrow> nat" where
  "worker_rest (Handling _ _) = 5" | "worker_rest _ = 0"

fun sender_rest :: "sender \<Rightarrow> nat" where
  "sender_rest (Sending _ _) = 2" | "sender_rest (Blocked _ _) = 1" | "sender_rest SenderIdle = 0"

definition session_rest :: "'h session \<Rightarrow> nat" where
  "session_rest s = 10 * rg_sem (ss_request_rb s) + receiver_rest (ss_receiver s) + 6 * length (ss_work s) +
     worker_rest (ss_worker s) + 3 * length (ss_responses s) + sender_rest (ss_sender s)"

lemma fc_set_fields [simp]:
  "rg_sem (fc_set v r) = rg_sem r" "rg_data (fc_set v r) = rg_data r" "rg_read_pt (fc_set v r) = rg_read_pt r"
  "rg_write_pt (fc_set v r) = rg_write_pt r" "rg_word_size (fc_set v r) = rg_word_size r"
  by (simp_all add: fc_set_def split: option.splits)

lemma read_chunk_sem [simp]: "rg_sem (snd (read_chunk r)) = rg_sem r"
  by (simp add: read_chunk_def Let_def split: res.splits option.splits)

lemma recv_turn_sem:
  assumes "recv_turn r = Some (res, r')"
  shows "rg_sem r = Suc (rg_sem r')"
proof -
  have r: "0 < rg_sem r" "read_chunk (r\<lparr>rg_sem := rg_sem r - 1\<rparr>) = (res, r')"
    using assms by (auto simp: recv_turn_def sem_wait_def split: if_splits)
  show ?thesis using arg_cong [OF r(2), of "\<lambda>p. rg_sem (snd p)"] r(1) by simp
qed

lemma internal_step_decreases: "session_step handle s e s' \<Longrightarrow> internal e \<Longrightarrow> session_rest s' < session_rest s"
proof (induction rule: session_step.induct)
  case (receive s m r)
  then show ?case
    using recv_turn_sem [OF receive(2)]
    by (auto simp: session_rest_def receive_data_def Let_def split: if_splits)
qed (auto simp: session_rest_def dest: recv_turn_sem)

text \<open>A receiver that can read a chunk makes a step.\<close>

lemma read_chunk_no_panic: "fst (read_chunk r) \<noteq> Panic"
  by (simp add: read_chunk_def r_message_def Let_def split: res.splits option.splits)

lemma stuck_receiver:
  assumes rc: "ss_receiver s = Receiving" and stuck: "\<And>e s'. session_step handle s e s' \<Longrightarrow> \<not> internal e"
  shows "rg_sem (ss_request_rb s) = 0"
proof (rule ccontr)
  assume sem: "rg_sem (ss_request_rb s) \<noteq> 0"
  obtain res r where t: "read_chunk (ss_request_rb s\<lparr>rg_sem := rg_sem (ss_request_rb s) - 1\<rparr>) = (res, r)" by fastforce
  then have rt: "recv_turn (ss_request_rb s) = Some (res, r)" using sem by (simp add: recv_turn_def sem_wait_def)
  have "res \<noteq> Panic" using t read_chunk_no_panic by (metis fst_conv)
  then consider m where "res = Ok (Some m)" | "res = Ok None" | e where "res = Err e"
    by (cases res) (metis option.exhaust)+
  then show False
  proof cases
    case 1
    show False using stuck [OF session_step.receive [OF rc rt [unfolded 1]]] by (auto split: if_splits)
  next
    case 2
    show False using stuck [OF session_step.spurious [OF rc rt [unfolded 2]]] by simp
  next
    case 3
    show False using stuck [OF session_step.receive_failed [OF rc rt [unfolded 3]]] by simp
  qed
qed

section \<open>Requests are conserved\<close>

fun worker_header :: "worker \<Rightarrow> RequestHeader multiset" where
  "worker_header (Handling h _) = {#h#}" | "worker_header _ = {#}"

fun sender_header :: "sender \<Rightarrow> RequestHeader multiset" where
  "sender_header (Sending h _) = {#h#}" | "sender_header (Blocked h _) = {#h#}" | "sender_header SenderIdle = {#}"

definition pending :: "'h session \<Rightarrow> RequestHeader multiset" where
  "pending s = mset (map fst (ss_work s)) + worker_header (ss_worker s) + mset (map fst (ss_responses s)) + sender_header (ss_sender s)"

fun requests :: "event list \<Rightarrow> RequestHeader list" where
  "requests [] = []" | "requests (ERequest h # es) = h # requests es" | "requests (_ # es) = requests es"

fun answers :: "event list \<Rightarrow> RequestHeader list" where
  "answers [] = []" | "answers (EAnswer h # es) = h # answers es" | "answers (_ # es) = answers es"

lemma requests_Cons: "mset (requests (e # es)) = mset (requests [e]) + mset (requests es)"
  by (cases e) auto

lemma answers_Cons: "mset (answers (e # es)) = mset (answers [e]) + mset (answers es)"
  by (cases e) auto

locale ipc_application =
  fixes handle :: "Request \<Rightarrow> 'h \<Rightarrow> (unit, Response) res \<times> 'h"
  assumes handle_answers: "\<exists>resp h'. handle request h = (Ok resp, h')"
begin

lemma never_dead: "session_step handle s e s' \<Longrightarrow> ss_worker s \<noteq> WorkerDead \<Longrightarrow> ss_worker s' \<noteq> WorkerDead"
proof (induction rule: session_step.induct)
  case (worker_panic s header request p h)
  then show ?case using handle_answers [of request "ss_handler s"] by auto
qed (auto simp: receive_data_def Let_def)

lemma step_conserves:
  "session_step handle s e s' \<Longrightarrow> ss_worker s \<noteq> WorkerDead \<Longrightarrow>
   pending s' + mset (answers [e]) = pending s + mset (requests [e])"
proof (induction rule: session_step.induct)
  case (worker_panic s header request p h)
  then show ?case using handle_answers [of request "ss_handler s"] by auto
qed (auto simp: pending_def receive_data_def Let_def)

lemma run_conserves:
  "session_run handle s es s' \<Longrightarrow> ss_worker s \<noteq> WorkerDead \<Longrightarrow>
   ss_worker s' \<noteq> WorkerDead \<and> pending s' + mset (answers es) = pending s + mset (requests es)"
proof (induction rule: session_run.induct)
  case (run_cons s e s' es s'')
  have "pending s' + mset (answers [e]) = pending s + mset (requests [e])"
    using step_conserves run_cons by blast
  moreover have "ss_worker s'' \<noteq> WorkerDead \<and> pending s'' + mset (answers es) = pending s' + mset (requests es)"
    using run_cons never_dead by blast
  ultimately show ?case
    unfolding requests_Cons [of e es] answers_Cons [of e es] by (auto simp: ac_simps) (metis add.assoc add.commute)
qed simp

text \<open>Where no task can go on, everything is done or the sender waits for ever.\<close>

lemma stuck_session:
  assumes stuck: "\<And>e s'. session_step handle s e s' \<Longrightarrow> \<not> internal e" and alive: "ss_worker s \<noteq> WorkerDead"
  shows "ss_work s = []" "ss_worker s = WorkerIdle" "ss_receiver s = Receiving \<Longrightarrow> rg_sem (ss_request_rb s) = 0"
    "ss_receiver s \<noteq> Queued" "ss_sender s = SenderIdle \<and> ss_responses s = [] \<or> (\<exists>h r. ss_sender s = Blocked h r)"
proof -
  show w: "ss_worker s = WorkerIdle"
  proof (cases "ss_worker s")
    case (Handling h q)
    then show ?thesis using stuck [OF session_step.handled] handle_answers [of q "ss_handler s"] by fastforce
  qed (use alive in auto)
  show "ss_work s = []"
    using stuck [OF session_step.take_work] w by (cases "ss_work s") fastforce+
  show "ss_receiver s \<noteq> Queued" using stuck [OF session_step.set_flow] by auto
  show "rg_sem (ss_request_rb s) = 0" if rc: "ss_receiver s = Receiving"
    using stuck_receiver [OF rc] stuck by blast
  show "ss_sender s = SenderIdle \<and> ss_responses s = [] \<or> (\<exists>h r. ss_sender s = Blocked h r)"
  proof (cases "ss_sender s")
    case SenderIdle
    then show ?thesis using stuck [OF session_step.take_response] by (cases "ss_responses s") fastforce+
  next
    case (Sending h r)
    then show ?thesis
      using stuck [OF session_step.sent] stuck [OF session_step.no_space]
      by (fastforce simp: try_send_def split: if_splits)
  qed simp
qed

end

text \<open>The service answers every request.\<close>

lemma ipc_handle_answers: "\<exists>resp h'. ipc_handle ie request h = (Ok resp, h')"
proof (cases "ipc_deserialize (rq_msg_id request) (rq_data request)")
  case (Ok req)
  obtain r h' where r: "handle_ipc_request ie req (rq_is_read_only request) h = (r, h')" by fastforce
  have "r \<noteq> Panic" using handle_request_no_panic r by metis
  then show ?thesis using Ok r by (cases r) (auto simp: ipc_handle_def)
qed (simp_all add: ipc_handle_def ipc_deserialize_no_panic)

interpretation service: ipc_application "ipc_handle ie" for ie
  by unfold_locales (rule ipc_handle_answers)

section \<open>Properties\<close>

text \<open>
  C12. The tasks of a connection work off what they have: without further events from outside they stop
  after finitely many steps, and where they stop the work queue is empty, the worker idle and the request
  ring read (unless the receiver was stopped). If the sender does not wait for space in the response ring,
  every request that was read, now or before, has been answered exactly once.
\<close>

theorem requests_are_processed:
  assumes "ss_worker s \<noteq> WorkerDead"
  shows "(\<nexists>f. f 0 = s \<and> (\<forall>i. \<exists>e. internal e \<and> session_step (ipc_handle ie) (f i) e (f (Suc i)))) \<and>
    (\<forall>es s'. session_run (ipc_handle ie) s es s' \<and> (\<forall>e t. session_step (ipc_handle ie) s' e t \<longrightarrow> \<not> internal e) \<longrightarrow>
       ss_work s' = [] \<and> ss_worker s' = WorkerIdle \<and> (ss_receiver s' = Stopped \<or> rg_sem (ss_request_rb s') = 0) \<and>
       ((\<exists>h r. ss_sender s' = Blocked h r) \<or> mset (answers es) = pending s + mset (requests es)))"
proof (intro conjI allI impI)
  have "wf {(x, y). \<exists>e. internal e \<and> session_step (ipc_handle ie) y e x}"
    by (rule wf_subset [OF wf_measure [of session_rest]]) (auto dest: internal_step_decreases)
  then show "\<nexists>f. f 0 = s \<and> (\<forall>i. \<exists>e. internal e \<and> session_step (ipc_handle ie) (f i) e (f (Suc i)))"
    unfolding wf_iff_no_infinite_down_chain by blast
  fix es s'
  assume a: "session_run (ipc_handle ie) s es s' \<and> (\<forall>e t. session_step (ipc_handle ie) s' e t \<longrightarrow> \<not> internal e)"
  have c: "ss_worker s' \<noteq> WorkerDead" "pending s' + mset (answers es) = pending s + mset (requests es)"
    using service.run_conserves a assms by blast+
  have stuck: "ss_work s' = []" "ss_worker s' = WorkerIdle" "ss_receiver s' = Receiving \<Longrightarrow> rg_sem (ss_request_rb s') = 0"
    "ss_receiver s' \<noteq> Queued" "ss_sender s' = SenderIdle \<and> ss_responses s' = [] \<or> (\<exists>h r. ss_sender s' = Blocked h r)"
    by (rule service.stuck_session [where ie = ie]; use a c(1) in blast)+
  show "ss_work s' = []" by (rule stuck(1))
  show "ss_worker s' = WorkerIdle" by (rule stuck(2))
  show "ss_receiver s' = Stopped \<or> rg_sem (ss_request_rb s') = 0"
    using stuck(3,4) by (cases "ss_receiver s'") auto
  show "(\<exists>h r. ss_sender s' = Blocked h r) \<or> mset (answers es) = pending s + mset (requests es)"
    using c(2) stuck(1,2,5) by (auto simp: pending_def)
qed

definition sample_qb :: QbConnection where
  "sample_qb = \<lparr>qc_conn_id = 1, qc_pid = 7, qc_uid = 0, qc_gid = 0, qc_read_only = False, qc_ring_buffer_paths = [],
                  qc_request_rb = sample_ring, qc_response_rb = sample_ring, qc_event_rb = sample_ring\<rparr>"

lemma maximal_run: "\<exists>es s'. session_run handle s es s' \<and> (\<forall>e t. session_step handle s' e t \<longrightarrow> \<not> internal e)"
proof (induction "session_rest s" arbitrary: s rule: less_induct)
  case less
  then show ?case by (metis internal_step_decreases session_run.intros)
qed

definition sample_header :: RequestHeader where
  "sample_header = \<lparr>rh_id = align8_new 1, rh_size = align8_new 16\<rparr>"

theorem requests_are_processed_witness:
  "\<exists>es (s' :: row list IpcHandler session). session_run (ipc_handle sample_ipc_env)
      (session_start sample_qb (sample_handler sample_full)\<lparr>ss_worker := Handling sample_header (request_from sample_qb [])\<rparr>) es s' \<and>
     ss_worker s' = WorkerIdle \<and> ((\<exists>h r. ss_sender s' = Blocked h r) \<or> mset (answers es) = add_mset sample_header (mset (requests es)))"
proof -
  let ?s = "session_start sample_qb (sample_handler sample_full)\<lparr>ss_worker := Handling sample_header (request_from sample_qb [])\<rparr>"
  obtain es s' where run: "session_run (ipc_handle sample_ipc_env) ?s es s'"
      "\<forall>e t. session_step (ipc_handle sample_ipc_env) s' e t \<longrightarrow> \<not> internal e"
    using maximal_run by blast
  have "ss_worker ?s \<noteq> WorkerDead" "pending ?s = {#sample_header#}" by (simp_all add: pending_def session_start_def)
  then have "ss_worker s' = WorkerIdle \<and> ((\<exists>h r. ss_sender s' = Blocked h r) \<or> mset (answers es) = add_mset sample_header (mset (requests es)))"
    using requests_are_processed [of ?s sample_ipc_env] run by auto
  then show ?thesis using run(1) by blast
qed

lemma blocked_for_ever:
  "session_run handle s es s' \<Longrightarrow> ss_sender s = Blocked header resp \<Longrightarrow> ss_sender s' = Blocked header resp \<and> answers es = []"
proof (induction rule: session_run.induct)
  case (run_cons s e s' es s'')
  have "ss_sender s' = Blocked header resp \<and> (\<forall>h. e \<noteq> EAnswer h)"
    using run_cons(1,4) by (cases rule: session_step.cases) (auto simp: receive_data_def Let_def)
  then show ?case using run_cons(3) by (cases e) auto
qed simp


definition sample_session :: "row list IpcHandler session" where
  "sample_session = session_start sample_qb (sample_handler sample_full)"

lemma sample_ring_empty: "ring_ok 1024 sample_ring" "rg_read_pt sample_ring = rg_write_pt sample_ring" "rg_sem sample_ring = 0"
  "rg_fc sample_ring = Some 0"
  using ring_new_ok [OF sample_ring_new(1)] sample_ring_new(2)
  by (simp_all add: sample_ring_def ring_new_def usize_checked_add_def CHUNK_MARGIN_def CHUNK_HEADER_WORDS_def
      div_ceil_def Let_def)

lemma length_align8_bytes [simp]: "length (align8_bytes a) = 8"
  by (simp add: align8_bytes_def)

lemma length_response_bytes: "length (response_bytes header resp) = 24 + length (rs_data resp)"
  by (simp add: response_bytes_def response_header_bytes_def Let_def)


lemma idle_ring_untouched:
  assumes "session_run handle s es s'" and "ss_receiver s \<noteq> Queued" and "rg_sem (ss_request_rb s) = 0"
    and "\<forall>m. EClientSend m \<notin> set es"
  shows "ss_request_rb s' = ss_request_rb s"
  using assms
proof (induction rule: session_run.induct)
  case (run_cons s e s' es s'')
  have "ss_request_rb s' = ss_request_rb s \<and> ss_receiver s' \<noteq> Queued"
    using run_cons(1,4-6) by (cases rule: session_step.cases) (auto simp: recv_turn_def sem_wait_def)
  then show ?case using run_cons by simp
qed simp

text \<open>
  Flow control is raised when requests pile up and lowered only when the next request is read: once it
  is set with six or more requests waiting and the ring empty, it stays set although the worker empties the
  queue, until the client sends another request, which a client that obeys it does not do.
\<close>

theorem flow_control_stays_raised:
  assumes "ss_receiver s = Queued" and "6 \<le> length (ss_work s)" and "rg_fc (ss_request_rb s) = Some v"
    and "rg_sem (ss_request_rb s) = 0" and "session_step handle s e s1" and "ss_receiver s1 \<noteq> Queued"
    and "session_run handle s1 es s2" and "\<forall>m. EClientSend m \<notin> set es"
  shows "rg_fc (ss_request_rb s2) = Some (if length (ss_work s) < 8 then FC_SLOW_DOWN else FC_STOP)"
proof -
  have "ss_request_rb s1 = fc_set (fc_value (length (ss_work s))) (ss_request_rb s)"
    using assms(5,1,6) by (cases rule: session_step.cases) (auto simp: receive_data_def Let_def)
  moreover from this have "ss_request_rb s2 = ss_request_rb s1"
    using idle_ring_untouched [OF assms(7,6) _ assms(8)] assms(4) by simp
  ultimately show ?thesis
    using assms(2,3) by (simp add: fc_set_def fc_value_def MAX_PENDING_REQUESTS_def FC_WARNING_THRESHOLD_def)
qed

theorem flow_control_stays_raised_witness:
  "\<exists>(s :: row list IpcHandler session) s1. length (ss_work s) = 6 \<and> session_step (ipc_handle sample_ipc_env) s EInternal s1 \<and>
     (\<forall>es s2. session_run (ipc_handle sample_ipc_env) s1 es s2 \<and> (\<forall>m. EClientSend m \<notin> set es) \<longrightarrow>
        rg_fc (ss_request_rb s2) = Some 1)"
proof -
  let ?item = "(sample_header, request_from sample_qb (request_header_bytes sample_header))"
  define s where "s = sample_session\<lparr>ss_receiver := Queued, ss_work := replicate 6 ?item\<rparr>"
  define t where "t = s\<lparr>ss_request_rb := fc_set (fc_value (length (ss_work s))) (ss_request_rb s), ss_receiver := Receiving\<rparr>"
  have step: "session_step (ipc_handle sample_ipc_env) s EInternal t" unfolding t_def by (rule session_step.set_flow) (simp add: s_def)
  have rb: "ss_request_rb s = sample_ring" by (simp add: s_def sample_session_def session_start_def sample_qb_def)
  have "rg_fc (ss_request_rb s2) = Some 1"
    if "session_run (ipc_handle sample_ipc_env) t es s2" "\<forall>m. EClientSend m \<notin> set es" for es s2
    using flow_control_stays_raised [OF _ _ _ _ step _ that] sample_ring_empty(3,4) rb by (simp add: FC_SLOW_DOWN_def s_def t_def)
  moreover have "length (ss_work s) = 6" by (simp add: s_def)
  ultimately show ?thesis using step by blast
qed

lemma ring_named_Some: "ring_named ae n k u = Some r \<Longrightarrow> ring_new k u = Ok r"
  by (simp add: ring_named_def split: if_splits res.splits)

lemma length_path_buffer: "length (path_buffer p) = 4096"
  by (simp add: path_buffer_def PATH_MAX_def as_bytes_def Let_def min_def)

lemma length_connection_response: "length (connection_response e i m a b c) = 12328"
  by (simp add: connection_response_def response_header_bytes_def length_path_buffer)

lemma established:
  assumes "establish ae conn_id name size0 (uid, gid, pid) ro = (answer, Ok conn)"
  shows "qc_uid conn = uid \<and> qc_gid conn = gid \<and> qc_pid conn = pid \<and> qc_read_only conn = ro \<and> qc_conn_id conn = conn_id \<and>
    ring_new (max (unat size0) 8192) 4 = Ok (qc_request_rb conn) \<and> ring_new (max (unat size0) 8192) 0 = Ok (qc_response_rb conn)"
proof -
  have "unat (max size0 8192) = max (unat size0) 8192"
    by (simp add: max_def word_le_nat_alt)
  then show ?thesis
    using assms by (auto simp: establish_def Let_def dest!: ring_named_Some split: option.splits if_splits)
qed

lemma establish_answer:
  "fst (establish ae conn_id name size0 peer ro) = Some answer \<Longrightarrow> length answer = 12328"
  by (auto simp: establish_def Let_def length_connection_response split: option.splits if_splits prod.splits)

lemma reject_answer: "fst (reject ae conn_id errno e) = Some answer \<Longrightarrow> length answer = 12328"
  by (auto simp: reject_def length_connection_response split: if_splits)

lemma accept_answer: "fst (qb_accept auth ae bytes conn_id name) = Some answer \<Longrightarrow> length answer = 12328"
  by (auto simp: qb_accept_def Let_def dest: establish_answer reject_answer split: if_splits option.splits)


definition sample_accept :: accept_env where
  "sample_accept = \<lparr>ae_peer = Some (33, 33, 7), ae_process_id = 5, ae_shm = (\<lambda>_. True), ae_write = True\<rparr>"

definition sample_hello :: "byte list" where
  "sample_hello = align8_bytes (align8_new (- 1)) @ align8_bytes (align8_new 24) @ u32_to_le 100000 @ [0, 0, 0, 0]"


lemma align8_roundtrip:
  assumes "- (2 ^ 31) \<le> al_value a" and "al_value a < 2 ^ 31"
  shows "align8_of (align8_bytes a) = a"
proof -
  have "sint (word_of_int (al_value a) :: u32) = al_value a"
    using assms by (simp add: sint_sbintrunc' signed_take_bit_int_eq_self)
  then show ?thesis by (cases a) (simp add: align8_of_def align8_bytes_def slice_def)
qed

lemma align8_of_id: "- (2 ^ 31) \<le> al_value (align8_of bs)" "al_value (align8_of bs) < 2 ^ 31"
  using sint_greater_eq [of "u32_of_le (slice 0 4 bs)"] sint_less [of "u32_of_le (slice 0 4 bs)"] by (simp_all add: align8_of_def)

lemma response_fields:
  assumes "- (2 ^ 31) \<le> rs_error_code resp" and "rs_error_code resp < 2 ^ 31"
  shows "align8_of (slice 0 8 (response_bytes (request_header_of m) resp)) = rh_id (request_header_of m)"
    and "align8_of (slice 16 24 (response_bytes (request_header_of m) resp)) = align8_new (rs_error_code resp)"
    and "drop 24 (response_bytes (request_header_of m) resp) = rs_data resp"
  using assms align8_of_id [of "slice 0 8 m"] align8_roundtrip [of "rh_id (request_header_of m)"]
    align8_roundtrip [of "align8_new (rs_error_code resp)"]
  by (simp_all add: response_bytes_def response_header_bytes_def Let_def slice_def request_header_of_def align8_new_def)

lemma exchange_run:
  assumes send: "try_send m (qc_request_rb conn) = (Ok (), r1)" and recv: "recv_turn r1 = Some (Ok (Some m), r2)"
    and m: "16 \<le> length m" and handle: "handle (request_from conn m) h = (Ok resp, h')"
    and answer: "try_send (response_bytes (request_header_of m) resp) (qc_response_rb conn) = (Ok (), r3)"
  shows "\<exists>es s. session_run handle (session_start conn h) (EClientSend m # es) s \<and> ss_handler s = h' \<and> ss_response_rb s = r3"
proof -
  let ?s = "session_start conn h" and ?hd = "request_header_of m" and ?rq = "request_from conn m"
  let ?a = "?s\<lparr>ss_request_rb := r1\<rparr>"
  let ?b = "receive_data m (?s\<lparr>ss_request_rb := r2\<rparr>)"
  have b: "?b = ?s\<lparr>ss_request_rb := r2, ss_work := [(?hd, ?rq)], ss_receiver := Queued\<rparr>"
    using m by (simp add: receive_data_def Let_def session_start_def request_header_size_def MAX_PENDING_REQUESTS_def)
  have f: "ss_receiver ?b = Queued" "ss_work ?b = [(?hd, ?rq)]" "ss_worker ?b = WorkerIdle" "ss_responses ?b = []"
    "ss_sender ?b = SenderIdle" "ss_handler ?b = h" "ss_response_rb ?b = qc_response_rb conn"
    unfolding b by (simp_all add: session_start_def)
  let ?c = "?b\<lparr>ss_request_rb := fc_set (fc_value (length (ss_work ?b))) (ss_request_rb ?b), ss_receiver := Receiving\<rparr>"
  let ?d = "?c\<lparr>ss_work := [], ss_worker := Handling ?hd ?rq\<rparr>"
  let ?e = "?d\<lparr>ss_worker := WorkerIdle, ss_handler := h', ss_responses := ss_responses ?d @ [(?hd, resp)]\<rparr>"
  let ?f = "?e\<lparr>ss_responses := [], ss_sender := Sending ?hd resp\<rparr>"
  let ?g = "?f\<lparr>ss_response_rb := r3, ss_sender := SenderIdle\<rparr>"
  have "session_step handle ?s (EClientSend m) ?a" using send by (intro session_step.client_send) (simp add: session_start_def)
  moreover have "session_step handle ?a (ERequest ?hd) ?b"
    using session_step.receive [of ?a m r2 handle] recv m by (simp add: session_start_def request_header_size_def)
  moreover have "session_step handle ?b EInternal ?c" by (rule session_step.set_flow) (simp add: f)
  moreover have "session_step handle ?c EInternal ?d"
    by (rule session_step.take_work) (simp_all add: f)
  moreover have "session_step handle ?d EInternal ?e"
    by (rule session_step.handled) (use handle in \<open>simp_all add: f\<close>)
  moreover have "session_step handle ?e EInternal ?f"
    by (rule session_step.take_response) (simp_all add: f)
  moreover have "session_step handle ?f (EAnswer ?hd) ?g"
    by (rule session_step.sent) (use answer in \<open>simp_all add: f\<close>)
  ultimately have "session_run handle ?s [EClientSend m, ERequest ?hd, EInternal, EInternal, EInternal, EInternal, EAnswer ?hd] ?g"
    by - ((rule session_run.run_cons, assumption)+, rule session_run.run_nil)
  moreover have "ss_handler ?g = h'" "ss_response_rb ?g = r3" by simp_all
  ultimately show ?thesis by blast
qed

text \<open>
  C20. One exchange, through all parts: a request that the client puts into the request ring of a new
  connection can be read, queued, handled and answered, and the client then finds in the response ring the
  answer of the service, under the number of its request.
\<close>

theorem request_is_answered:
  assumes "ring_holds w1 (qc_request_rb conn) []" and "ring_holds w2 (qc_response_rb conn) []"
    and "msg_ok w1 m" and "16 \<le> length m"
    and "ipc_handle ie (request_from conn m) h = (Ok resp, h')"
    and "length (rs_data resp) + 96 \<le> 4 * w2" and "- (2 ^ 31) \<le> rs_error_code resp" and "rs_error_code resp < 2 ^ 31"
  shows "\<exists>es s bytes r. session_run (ipc_handle ie) (session_start conn h) (EClientSend m # es) s \<and> ss_handler s = h' \<and>
    ring_recv (ss_response_rb s) = Some (bytes, r) \<and> ring_holds w2 r [] \<and>
    al_value (align8_of (slice 0 8 bytes)) = rq_msg_id (request_from conn m) \<and>
    al_value (align8_of (slice 16 24 bytes)) = rs_error_code resp \<and> drop 24 bytes = rs_data resp"
proof -
  let ?bytes = "response_bytes (request_header_of m) resp"
  have ok: "msg_ok w2 ?bytes" using assms(6) by (simp add: msg_ok_def length_response_bytes)
  obtain r1 r2 where 1: "ring_send m (qc_request_rb conn) = Some r1" "ring_recv r1 = Some (m, r2)"
    using ring_queue.send_recv [OF assms(1,3)] by metis
  obtain r3 r4 where 2: "ring_send ?bytes (qc_response_rb conn) = Some r3" "ring_recv r3 = Some (?bytes, r4)" "ring_holds w2 r4 []"
    using ring_queue.send_recv [OF assms(2) ok] by metis
  have "recv_turn r1 = Some (Ok (Some m), r2)"
    using 1(2) by (auto simp: ring_recv_def split: option.splits prod.splits res.splits)
  then obtain es s where "session_run (ipc_handle ie) (session_start conn h) (EClientSend m # es) s" "ss_handler s = h'"
      "ss_response_rb s = r3"
    using exchange_run [where handle = "ipc_handle ie", OF ring_send_Some [OF 1(1)] _ assms(4,5) ring_send_Some [OF 2(1)]] by blast
  then show ?thesis
    using 2(2,3) response_fields [OF assms(7,8), of m]
    by (intro exI [of _ es] exI [of _ s] exI [of _ ?bytes] exI [of _ r4]) (simp add: request_from_def align8_new_def)
qed

theorem request_is_answered_witness:
  "\<exists>es s bytes r. session_run (ipc_handle sample_ipc_env) (session_start sample_qb (sample_handler sample_full))
      (EClientSend (request_header_bytes \<lparr>rh_id = align8_new 99, rh_size = align8_new 16\<rparr>) # es) s \<and>
    ring_recv (ss_response_rb s) = Some (bytes, r) \<and> al_value (align8_of (slice 0 8 bytes)) = 99 \<and>
    al_value (align8_of (slice 16 24 bytes)) = - 22"
proof -
  let ?m = "request_header_bytes \<lparr>rh_id = align8_new 99, rh_size = align8_new 16\<rparr>"
  have ring: "ring_holds 1024 sample_ring []" using ring_new_holds [OF sample_ring_new(1)] sample_ring_new(2) by simp
  have len: "length ?m = 16" by (simp add: request_header_bytes_def)
  have rq: "rq_msg_id (request_from sample_qb ?m) = 99" "rq_data (request_from sample_qb ?m) = []"
    by (simp_all add: request_from_def len request_header_size_def) code_simp
  have "\<not> is_ok (ipc_deserialize 99 [])" by code_simp
  then have h: "ipc_handle sample_ipc_env (request_from sample_qb ?m) (sample_handler sample_full) =
      (Ok (response_err (- 22)), sample_handler sample_full)"
    using ipc_deserialize_no_panic [of 99 "[]"] rq
    by (cases "ipc_deserialize 99 []") (simp_all add: ipc_handle_def errno_EINVAL_def)
  have "msg_ok 1024 ?m" by (simp add: msg_ok_def len)
  from request_is_answered [of 1024 sample_qb 1024 ?m, OF _ _ this _ h] show ?thesis
    using ring len rq by (fastforce simp: sample_qb_def response_err_def)
qed

definition after_clients :: "(u32 \<Rightarrow> u32 \<Rightarrow> Permissions option) \<Rightarrow> string \<Rightarrow> (accept_env \<times> byte list) list \<Rightarrow> Server" where
  "after_clients auth name clients = foldl (\<lambda>sv (ae, bytes). snd (acceptor_turn auth ae name bytes sv)) server_new clients"

definition server_inv :: "nat \<Rightarrow> Server \<Rightarrow> bool" where
  "server_inv n sv \<longleftrightarrow> sv_next_conn_id sv = of_nat (n + 1) \<and> hm_ok (sv_connections sv) \<and> length (sv_connections sv) \<le> n \<and>
     (\<forall>k \<in> set (map fst (sv_connections sv)). 0 < unat k \<and> unat k \<le> n) \<and>
     sv_active_connections sv = length (sv_connections sv) \<and> sv_closed_connections sv = 0"

lemma length_hm_insert_new: "k \<notin> set (map fst m) \<Longrightarrow> hm_insert k v m = m @ [(k, v)]"
  unfolding hm_insert_def by (induction m) auto

lemma turn_inv:
  assumes inv: "server_inv n sv" and n: "n + 2 < 2 ^ 64"
  shows "server_inv (Suc n) (snd (acceptor_turn auth ae name bytes sv))"
proof -
  let ?id = "sv_next_conn_id sv"
  have "unat (of_nat (n + 1) :: u64) = n + 1" using n by (subst unat_of_nat) (simp add: take_bit_eq_mod)
  then have id: "unat ?id = n + 1" using inv by (simp only: server_inv_def)
  then have new: "?id \<notin> set (map fst (sv_connections sv))" using inv by (auto simp: server_inv_def)
  show ?thesis
  proof (cases "snd (qb_accept auth ae bytes ?id name)")
    case (Ok conn)
    then have "snd (acceptor_turn auth ae name bytes sv) =
        connection_created (sv\<lparr>sv_next_conn_id := ?id + 1, sv_connections := sv_connections sv @ [(?id, conn)]\<rparr>)"
      using length_hm_insert_new [OF new] by (cases "qb_accept auth ae bytes ?id name") (simp add: acceptor_turn_def Let_def)
    then show ?thesis using inv id new n by (auto simp: server_inv_def connection_created_def hm_ok_def)
  qed (use inv in \<open>cases "qb_accept auth ae bytes ?id name"; auto simp: acceptor_turn_def Let_def server_inv_def\<close>)+
qed

lemma clients_inv: "length clients + 1 < 2 ^ 64 \<Longrightarrow> server_inv (length clients) (after_clients auth name clients)"
proof (induction clients rule: rev_induct)
  case Nil
  then show ?case by (simp add: after_clients_def server_inv_def server_new_def)
next
  case (snoc c cs)
  then show ?case using turn_inv [of "length cs"] by (simp add: after_clients_def split: prod.splits)
qed

lemma close_all:
  "length conns \<le> sv_active_connections sv \<Longrightarrow> sv_active_connections sv < 2 ^ 64 \<Longrightarrow> sv_closed_connections sv + length conns < 2 ^ 64 \<Longrightarrow>
   foldl (\<lambda>sv _. connection_closed sv) sv conns =
     sv\<lparr>sv_active_connections := sv_active_connections sv - length conns, sv_closed_connections := sv_closed_connections sv + length conns\<rparr>"
proof (induction conns arbitrary: sv)
  case (Cons c conns)
  have "(sv_active_connections sv + 2 ^ 64 - 1) mod 2 ^ 64 = sv_active_connections sv - 1"
  proof -
    have "sv_active_connections sv + 2 ^ 64 - 1 = (sv_active_connections sv - 1) + 2 ^ 64" using Cons.prems(1) by simp
    moreover have "((sv_active_connections sv - 1) + 2 ^ 64) mod 2 ^ 64 = (sv_active_connections sv - 1) mod 2 ^ 64" by (rule mod_add_self2)
    moreover have "(sv_active_connections sv - 1) mod 2 ^ 64 = sv_active_connections sv - 1"
      by (rule mod_less) (use Cons.prems(2) in linarith)
    ultimately show ?thesis by (simp only:)
  qed
  then have "connection_closed sv = sv\<lparr>sv_active_connections := sv_active_connections sv - 1, sv_closed_connections := sv_closed_connections sv + 1\<rparr>"
    using Cons.prems(3) by (simp add: connection_closed_def)
  then show ?case using Cons by simp
qed simp

text \<open>
  The server numbers its connections without repetition and counts them: after any sequence of clients
  the active connections are those in the table, and stopping the server closes each of them. Between the
  two nothing takes a connection out of the table.
\<close>

theorem server_counts_connections:
  assumes "length clients + 1 < 2 ^ 64"
  shows "(let sv = after_clients auth name clients in
     distinct (map fst (sv_connections sv)) \<and> sv_active_connections sv = length (sv_connections sv) \<and>
     sv_connections (server_stop sv) = [] \<and> sv_active_connections (server_stop sv) = 0 \<and>
     sv_closed_connections (server_stop sv) = length (sv_connections sv))"
proof -
  let ?sv = "after_clients auth name clients"
  have inv: "server_inv (length clients) ?sv" by (rule clients_inv [OF assms])
  then have "server_stop ?sv = ?sv\<lparr>sv_connections := [], sv_active_connections := 0, sv_closed_connections := length (sv_connections ?sv)\<rparr>"
    unfolding server_stop_def using assms by (subst close_all) (auto simp: server_inv_def)
  then show ?thesis using inv by (simp add: server_inv_def hm_ok_def Let_def)
qed

theorem server_counts_connections_witness:
  "(let sv = after_clients (\<lambda>uid gid. authenticate uid gid (sample_handler sample_full)) ''pve2'' [(sample_accept, sample_hello), (sample_accept, [])] in
     sv_active_connections sv = length (sv_connections sv) \<and> sv_active_connections (server_stop sv) = 0)"
  using server_counts_connections [of "[(sample_accept, sample_hello), (sample_accept, [])]"] by (simp add: Let_def)

end
