(* ===== verification/Rrd_Key.thy ===== *)
theory Rrd_Key
  imports Vm_List Rust_Text "HOL-Library.Sublist"
begin

text \<open>
  Metrics: the keys under which they are announced and the files that they go to
  (\<open>pmxcfs-rrd/src/key_type.rs\<close>), the columns of the files (\<open>schema.rs\<close>) and the change of the data to
  these columns (\<open>transform_data\<close> of \<open>writer.rs\<close>).
\<close>

section \<open>Schemas\<close>

datatype RrdFormat = Pve2 | Pve9_0

record RrdDataSource =
  ds_name :: string
  ds_type :: string
  ds_heartbeat :: u32
  ds_min :: string
  ds_max :: string

definition gauge :: "string \<Rightarrow> RrdDataSource" where
  "gauge name = \<lparr>ds_name = name, ds_type = ''GAUGE'', ds_heartbeat = 120, ds_min = ''0'', ds_max = ''U''\<rparr>"

definition derive :: "string \<Rightarrow> RrdDataSource" where
  "derive name = \<lparr>ds_name = name, ds_type = ''DERIVE'', ds_heartbeat = 120, ds_min = ''0'', ds_max = ''U''\<rparr>"

definition to_arg :: "RrdDataSource \<Rightarrow> string" where
  "to_arg ds = ''DS:'' @ ds_name ds @ '':'' @ ds_type ds @ '':'' @ decimal (unat (ds_heartbeat ds)) @ '':'' @ ds_min ds @ '':'' @ ds_max ds"

record RrdSchema =
  sc_format :: RrdFormat
  sc_data_sources :: "RrdDataSource list"
  sc_archives :: "string list"

definition default_archives :: "string list" where
  "default_archives =
     [''RRA:AVERAGE:0.5:1:1440'', ''RRA:AVERAGE:0.5:30:1440'', ''RRA:AVERAGE:0.5:360:1440'', ''RRA:AVERAGE:0.5:10080:570'',
      ''RRA:MAX:0.5:1:1440'', ''RRA:MAX:0.5:30:1440'', ''RRA:MAX:0.5:360:1440'', ''RRA:MAX:0.5:10080:570'']"

definition node_schema :: "RrdFormat \<Rightarrow> RrdSchema" where
  "node_schema format =
     \<lparr>sc_format = format,
      sc_data_sources =
        (case format of
           Pve2 \<Rightarrow>
             [gauge ''loadavg'', gauge ''maxcpu'', gauge ''cpu'', gauge ''iowait'', gauge ''memtotal'', gauge ''memused'',
              gauge ''swaptotal'', gauge ''swapused'', gauge ''roottotal'', gauge ''rootused'', derive ''netin'', derive ''netout'']
         | Pve9_0 \<Rightarrow>
             [gauge ''loadavg'', gauge ''maxcpu'', gauge ''cpu'', gauge ''iowait'', gauge ''memtotal'', gauge ''memused'',
              gauge ''swaptotal'', gauge ''swapused'', gauge ''roottotal'', gauge ''rootused'', derive ''netin'', derive ''netout'',
              gauge ''memavailable'', gauge ''arcsize'', gauge ''pressurecpusome'', gauge ''pressureiosome'',
              gauge ''pressureiofull'', gauge ''pressurememorysome'', gauge ''pressurememoryfull'']),
      sc_archives = default_archives\<rparr>"

definition vm_schema :: "RrdFormat \<Rightarrow> RrdSchema" where
  "vm_schema format =
     \<lparr>sc_format = format,
      sc_data_sources =
        (case format of
           Pve2 \<Rightarrow>
             [gauge ''maxcpu'', gauge ''cpu'', gauge ''maxmem'', gauge ''mem'', gauge ''maxdisk'', gauge ''disk'',
              derive ''netin'', derive ''netout'', derive ''diskread'', derive ''diskwrite'']
         | Pve9_0 \<Rightarrow>
             [gauge ''maxcpu'', gauge ''cpu'', gauge ''maxmem'', gauge ''mem'', gauge ''maxdisk'', gauge ''disk'',
              derive ''netin'', derive ''netout'', derive ''diskread'', derive ''diskwrite'',
              gauge ''memhost'', gauge ''pressurecpusome'', gauge ''pressurecpufull'', gauge ''pressureiosome'',
              gauge ''pressureiofull'', gauge ''pressurememorysome'', gauge ''pressurememoryfull'']),
      sc_archives = default_archives\<rparr>"

definition storage_schema :: "RrdFormat \<Rightarrow> RrdSchema" where
  "storage_schema format =
     \<lparr>sc_format = format, sc_data_sources = [gauge ''total'', gauge ''used''], sc_archives = default_archives\<rparr>"

definition column_count :: "RrdSchema \<Rightarrow> nat" where
  "column_count s = length (sc_data_sources s)"

section \<open>Keys\<close>

datatype MetricType = MNode | MVm | MStorage

fun skip_columns :: "MetricType \<Rightarrow> nat" where
  "skip_columns MNode = 2" | "skip_columns MVm = 4" | "skip_columns MStorage = 0"

fun metric_column_count :: "MetricType \<Rightarrow> RrdFormat \<Rightarrow> nat" where
  "metric_column_count MNode Pve2 = 12" | "metric_column_count MNode Pve9_0 = 19"
| "metric_column_count MVm Pve2 = 10" | "metric_column_count MVm Pve9_0 = 17"
| "metric_column_count MStorage _ = 2"

datatype RrdKeyType =
    KNode (k_nodename: string) (k_format: RrdFormat)
  | KVm (k_vmid: string) (k_format: RrdFormat)
  | KStorage (k_nodename: string) (k_storage: string) (k_format: RrdFormat)

datatype rrd_error =
    EmptyComponent | PathTraversal | AbsolutePath | NulByte | InvalidCharacters | MissingPart | UnknownKey
  | NotEnoughFields | InvalidUpdate | InvalidTimestamp | InvalidValue | InvalidCreate | InvalidRra | BadName
  | CachedIo | CachedResponse | CachedParse | DirectFailed | DirFailed

definition validate_path_component :: "string \<Rightarrow> (rrd_error, unit) res" where
  "validate_path_component component =
     (if component = [] then Err EmptyComponent
      else if component = ''..'' then Err PathTraversal
      else if starts_with component ''/'' then Err AbsolutePath
      else if CHR 0x00 \<in> set component then Err NulByte
      else if CHR 0x5C \<in> set component \<or> LF \<in> set component \<or> CR \<in> set component then Err InvalidCharacters
      else Ok ())"

fun validate_all :: "string list \<Rightarrow> (rrd_error, unit) res" where
  "validate_all [] = Ok ()"
| "validate_all (p # ps) = (case validate_path_component p of Ok _ \<Rightarrow> validate_all ps | r \<Rightarrow> r)"

definition get_part :: "string list \<Rightarrow> nat \<Rightarrow> (rrd_error, string) res" where
  "get_part parts i = (if i < length parts then Ok (parts ! i) else Err MissingPart)"

definition key_with_one :: "string list \<Rightarrow> (string \<Rightarrow> RrdKeyType) \<Rightarrow> (rrd_error, RrdKeyType) res" where
  "key_with_one parts mk = (case get_part parts 1 of Ok x \<Rightarrow> Ok (mk x) | Err e \<Rightarrow> Err e | Panic \<Rightarrow> Panic)"

definition key_with_two :: "string list \<Rightarrow> (string \<Rightarrow> string \<Rightarrow> RrdKeyType) \<Rightarrow> (rrd_error, RrdKeyType) res" where
  "key_with_two parts mk =
     (case get_part parts 1 of
        Ok x \<Rightarrow> (case get_part parts 2 of Ok y \<Rightarrow> Ok (mk x y) | Err e \<Rightarrow> Err e | Panic \<Rightarrow> Panic)
      | Err e \<Rightarrow> Err e | Panic \<Rightarrow> Panic)"

definition rrd_parse :: "string \<Rightarrow> (rrd_error, RrdKeyType) res" where
  "rrd_parse key =
     (let parts = split_on (CHR ''/'') key in
      case validate_all (drop 1 parts) of
        Err e \<Rightarrow> Err e
      | Panic \<Rightarrow> Panic
      | Ok _ \<Rightarrow>
          let prefix = parts ! 0 in
          if prefix = ''pve2-node'' then key_with_one parts (\<lambda>n. KNode n Pve2)
          else if starts_with prefix ''pve-node-'' then key_with_one parts (\<lambda>n. KNode n Pve9_0)
          else if prefix = ''pve2.3-vm'' then key_with_one parts (\<lambda>v. KVm v Pve2)
          else if starts_with prefix ''pve-vm-'' then key_with_one parts (\<lambda>v. KVm v Pve9_0)
          else if prefix = ''pve2-storage'' then key_with_two parts (\<lambda>n s. KStorage n s Pve2)
          else if starts_with prefix ''pve-storage-'' then key_with_two parts (\<lambda>n s. KStorage n s Pve9_0)
          else Err UnknownKey)"

fun file_path :: "string \<Rightarrow> RrdKeyType \<Rightarrow> string" where
  "file_path base_dir (KNode nodename _) = path_push (path_push base_dir ''pve-node-9.0'') nodename"
| "file_path base_dir (KVm vmid _) = path_push (path_push base_dir ''pve-vm-9.0'') vmid"
| "file_path base_dir (KStorage nodename storage _) =
     path_push (path_push (path_push base_dir ''pve-storage-9.0'') nodename) storage"

fun key_schema :: "RrdKeyType \<Rightarrow> RrdSchema" where
  "key_schema (KNode _ _) = node_schema Pve9_0"
| "key_schema (KVm _ _) = vm_schema Pve9_0"
| "key_schema (KStorage _ _ _) = storage_schema Pve9_0"

fun metric_type :: "RrdKeyType \<Rightarrow> MetricType" where
  "metric_type (KNode _ _) = MNode" | "metric_type (KVm _ _) = MVm" | "metric_type (KStorage _ _ _) = MStorage"

section \<open>Data\<close>

definition transform_data :: "string \<Rightarrow> RrdSchema \<Rightarrow> MetricType \<Rightarrow> (rrd_error, string) res" where
  "transform_data data target_schema metric =
     (let total_needed = column_count target_schema + 1;
          fields = drop (skip_columns metric) (split_on (CHR '':'') data) in
      case take total_needed (fields @ replicate total_needed ''U'') of
        [] \<Rightarrow> Err NotEnoughFields
      | first # rest \<Rightarrow> Ok (foldl (\<lambda>acc v. acc @ '':'' @ v) first rest))"

text \<open>\<open>str::parse\<close> for \<open>i64\<close> and for unsigned numbers below a limit: an optional sign, then decimal digits without overflow.\<close>

fun parse_number :: "int \<Rightarrow> string \<Rightarrow> int option" where
  "parse_number acc [] = Some acc"
| "parse_number acc (c # cs) =
    (case digit_value c of None \<Rightarrow> None | Some d \<Rightarrow> parse_number (acc * 10 + int d) cs)"

definition parse_i64 :: "string \<Rightarrow> int option" where
  "parse_i64 s =
     (let (negative, digits) =
        (case s of [] \<Rightarrow> (False, [])
         | c # cs \<Rightarrow> if c = CHR ''-'' then (True, cs) else if c = CHR ''+'' then (False, cs) else (False, s)) in
      if digits = [] then None
      else case parse_number 0 digits of
             None \<Rightarrow> None
           | Some n \<Rightarrow> if negative then (if n \<le> 2 ^ 63 then Some (- n) else None)
                     else if n < 2 ^ 63 then Some n else None)"

definition parse_unsigned :: "int \<Rightarrow> string \<Rightarrow> nat option" where
  "parse_unsigned limit s =
     (let digits = (case s of [] \<Rightarrow> [] | c # cs \<Rightarrow> if c = CHR ''+'' then cs else s) in
      if digits = [] then None
      else case parse_number 0 digits of None \<Rightarrow> None | Some n \<Rightarrow> if n < limit then Some (nat n) else None)"

definition parse_usize :: "string \<Rightarrow> nat option" where "parse_usize = parse_unsigned (2 ^ 64)"

section \<open>Lemmas\<close>

lemma key_columns: "column_count (key_schema k) = metric_column_count (metric_type k) Pve9_0"
  by (cases k) (simp_all add: column_count_def node_schema_def vm_schema_def storage_schema_def)

text \<open>The old columns are the first of the new ones.\<close>

lemma pve2_columns_prefix:
  "prefix (sc_data_sources (node_schema Pve2)) (sc_data_sources (node_schema Pve9_0))"
  "prefix (sc_data_sources (vm_schema Pve2)) (sc_data_sources (vm_schema Pve9_0))"
  by (simp_all add: node_schema_def vm_schema_def)

lemma validate_all_Ok:
  "validate_all ps = Ok () \<longleftrightarrow> (\<forall>p \<in> set ps. validate_path_component p = Ok ())"
  by (induction ps) (auto split: res.splits)

lemma foldl_join: "foldl (\<lambda>acc v. acc @ s @ v) first rest = join_with s (first # rest)"
proof (induction rest arbitrary: first)
  case (Cons v rest)
  show ?case unfolding foldl.simps Cons.IH by (cases rest) simp_all
qed simp

lemma split_join:
  assumes "xs \<noteq> []" and "\<And>x. x \<in> set xs \<Longrightarrow> c \<notin> set x"
  shows "split_on c (join_with [c] xs) = xs"
  using assms
proof (induction xs rule: induct_list012)
  case (2 x)
  then show ?case by (simp add: split_on_no_sep)
next
  case (3 x y zs)
  then have "split_on c (x @ c # join_with [c] (y # zs)) = [x] @ (y # zs)"
    by (simp only: split_on_append) (simp add: split_on_no_sep)
  then show ?case by simp
qed simp

text \<open>The fields after the transformation.\<close>

lemma transform_fields:
  assumes "transform_data data sc metric = Ok d"
  shows "split_on (CHR '':'') d =
    take (column_count sc + 1) (drop (skip_columns metric) (split_on (CHR '':'') data) @ replicate (column_count sc + 1) ''U'')"
    (is "_ = ?fields")
proof -
  define fs where "fs = ?fields"
  have "(case fs of [] \<Rightarrow> Err NotEnoughFields | first # rest \<Rightarrow> Ok (join_with '':'' (first # rest))) = Ok d"
    using assms unfolding transform_data_def Let_def foldl_join fs_def .
  then have f: "fs \<noteq> []" and d: "d = join_with '':'' fs" by (auto split: list.splits)
  have "CHR '':'' \<notin> set x" if "x \<in> set ?fields" for x
  proof -
    have "x \<in> set (split_on (CHR '':'') data) \<or> x = ''U''"
      using that by (auto dest!: in_set_takeD in_set_dropD)
    then show ?thesis using split_on_parts by auto
  qed
  then show ?thesis unfolding d fs_def [symmetric] using f by (intro split_join) (auto simp: fs_def)
qed

lemma transform_total: "\<exists>d. transform_data data sc metric = Ok d"
  by (auto simp: transform_data_def Let_def split: list.splits)

end
