(* ===== verification/Rrd_Writer.thy ===== *)
theory Rrd_Writer
  imports Rrd_Key Cluster_Status
begin

text \<open>
  Writing metrics: parsing of updates (\<open>pmxcfs-rrd/src/parse.rs\<close>), the client of rrdcached
  (\<open>rrdcached/\<close>), the three back ends (\<open>backend/\<close>) and \<open>RrdWriter\<close> (\<open>writer.rs\<close>).

  The environment \<open>rrd_env\<close> holds what is not code of the repository: floating-point numbers, the
  property of being alphanumeric for characters outside ASCII, the clock and the local midnight, files,
  librrd, and the exchange with the daemon over its socket together with the parser of its answers. The
  state \<open>'w\<close> stands for the files and the daemon.
\<close>

section \<open>Environment\<close>

datatype 'f Datum = Unspecified | IntDatum u64 | FloatDatum 'f

datatype CreateDataSourceType = Gauge | Counter | Derive | Absolute
datatype ConsolidationFunction = Average | Min | Max | Last

text \<open>Data sources and archives in the types of the bindings of librrd; a limit is kept as its text.\<close>

record DirectSource =
  dd_kind :: CreateDataSourceType
  dd_name :: string
  dd_heartbeat :: u32
  dd_min :: "string option"
  dd_max :: "string option"

record 'f DirectArchive =
  da_cf :: ConsolidationFunction
  da_xff :: 'f
  da_steps :: nat
  da_rows :: nat

record 'f floats =
  fl_parse :: "string \<Rightarrow> 'f option"
  fl_show :: "'f \<Rightarrow> string"
  fl_nan :: 'f
  fl_is_nan :: "'f \<Rightarrow> bool"
  fl_is_finite :: "'f \<Rightarrow> bool"
  fl_as_u64 :: "'f \<Rightarrow> u64"
  fl_is_u64 :: "'f \<Rightarrow> u64 \<Rightarrow> bool"  \<comment> \<open>the difference is below the machine epsilon\<close>
  fl_le :: "'f \<Rightarrow> 'f \<Rightarrow> bool"
  fl_unit :: "'f \<Rightarrow> bool"  \<comment> \<open>neither below 0 nor above 1\<close>

record ('f, 'w) rrd_env =
  re_fl :: "'f floats"
  re_rest_alnum :: "string \<Rightarrow> bool"  \<comment> \<open>the characters outside ASCII are alphanumeric\<close>
  re_now :: nat
  re_midnight :: "int option"
  re_valid_time :: "int \<Rightarrow> bool"
  re_exists :: "string \<Rightarrow> 'w \<Rightarrow> bool"
  re_create_parent :: "string \<Rightarrow> 'w \<Rightarrow> bool \<times> 'w"
  re_lib_update :: "string \<Rightarrow> int \<Rightarrow> 'f Datum list \<Rightarrow> 'w \<Rightarrow> bool \<times> 'w"
  re_limit :: "CreateDataSourceType \<Rightarrow> string \<Rightarrow> bool"  \<comment> \<open>the text is a limit of such a data source\<close>
  re_archive :: "'f DirectArchive \<Rightarrow> bool"  \<comment> \<open>librrd accepts the archive\<close>
  re_lib_create :: "string \<Rightarrow> int \<Rightarrow> nat \<Rightarrow> DirectSource list \<Rightarrow> 'f DirectArchive list \<Rightarrow> 'w \<Rightarrow> bool \<times> 'w"
  re_exchange :: "string \<Rightarrow> 'w \<Rightarrow> string option \<times> 'w"
  re_read_lines :: "nat \<Rightarrow> 'w \<Rightarrow> bool \<times> 'w"
  re_response :: "string \<Rightarrow> (int \<times> string) option"

section \<open>Updates\<close>

record 'f UpdateData =
  ud_timestamp :: "int option"
  ud_values :: "'f list"

fun parse_values :: "'f floats \<Rightarrow> string list \<Rightarrow> (rrd_error, 'f list) res" where
  "parse_values fl [] = Ok []"
| "parse_values fl (v # vs) =
     (case (if v = ''U'' then Some (fl_nan fl) else fl_parse fl v) of
        None \<Rightarrow> Err InvalidValue
      | Some x \<Rightarrow> (case parse_values fl vs of Ok xs \<Rightarrow> Ok (x # xs) | r \<Rightarrow> r))"

definition update_parse :: "'f floats \<Rightarrow> string \<Rightarrow> (rrd_error, 'f UpdateData) res" where
  "update_parse fl data =
     (let parts = split_on (CHR '':'') data in
      if length parts < 2 then Err InvalidUpdate
      else case (if parts ! 0 = ''N'' then Some None else map_option Some (parse_i64 (parts ! 0))) of
             None \<Rightarrow> Err InvalidTimestamp
           | Some timestamp \<Rightarrow>
               (case parse_values fl (drop 1 parts) of
                  Ok values \<Rightarrow> Ok \<lparr>ud_timestamp = timestamp, ud_values = values\<rparr>
                | Err e \<Rightarrow> Err e
                | Panic \<Rightarrow> Panic))"

section \<open>Client of rrdcached\<close>

definition check_name :: "(string \<Rightarrow> bool) \<Rightarrow> string \<Rightarrow> (rrd_error, unit) res" where
  "check_name rest_alnum name =
     (if name = [] \<or> length name > 64 then Err BadName
      else if \<not> (\<forall>c \<in> set name. (of_char c :: nat) < 128 \<longrightarrow> is_ascii_alphanumeric c \<or> c = CHR ''_'' \<or> c = CHR ''-'') \<or>
              \<not> rest_alnum name then Err BadName
      else Ok ())"

definition send_command :: "('f, 'w) rrd_env \<Rightarrow> string \<Rightarrow> 'w \<Rightarrow> (rrd_error, string) res \<times> 'w" where
  "send_command re command w =
     (case re_exchange re command w of
        (None, w') \<Rightarrow> (Err CachedIo, w')
      | (Some first_line, w') \<Rightarrow>
          (case re_response re first_line of
             None \<Rightarrow> (Err CachedParse, w')
           | Some (code, msg) \<Rightarrow>
               if code < 0 then (Err CachedResponse, w')
               else
                 let nb_lines = (case parse_usize msg of Some n \<Rightarrow> n | None \<Rightarrow> 0) in
                 if nb_lines * 24 \<ge> 2 ^ 63 then (Panic, w')  \<comment> \<open>capacity of the list of lines\<close>
                 else (case re_read_lines re nb_lines w' of
                         (True, w'') \<Rightarrow> (Ok msg, w'')
                       | (False, w'') \<Rightarrow> (Err CachedIo, w''))))"

definition value_text :: "'f floats \<Rightarrow> 'f \<Rightarrow> string" where
  "value_text fl f = (if fl_is_nan fl f then ''U'' else fl_show fl f)"

definition client_update :: "('f, 'w) rrd_env \<Rightarrow> string \<Rightarrow> nat option \<Rightarrow> 'f list \<Rightarrow> 'w \<Rightarrow> (rrd_error, unit) res \<times> 'w" where
  "client_update re path timestamp data w =
     (if data = [] then (Err InvalidCreate, w)
      else case check_name (re_rest_alnum re) path of
        Ok _ \<Rightarrow>
          let timestamp_str = decimal (case timestamp of Some ts \<Rightarrow> ts | None \<Rightarrow> re_now re);
              command = ''UPDATE '' @ path @ ''.rrd '' @ timestamp_str @ '':'' @ join_with '':'' (map (value_text (re_fl re)) data) @ [LF] in
          (case send_command re command w of
             (Ok _, w') \<Rightarrow> (Ok (), w') | (Err e, w') \<Rightarrow> (Err e, w') | (Panic, w') \<Rightarrow> (Panic, w'))
      | r \<Rightarrow> (r, w))"

definition client_flush_all :: "('f, 'w) rrd_env \<Rightarrow> 'w \<Rightarrow> (rrd_error, unit) res \<times> 'w" where
  "client_flush_all re w =
     (case send_command re (''FLUSHALL'' @ [LF]) w of
        (Ok _, w') \<Rightarrow> (Ok (), w') | (Err e, w') \<Rightarrow> (Err e, w') | (Panic, w') \<Rightarrow> (Panic, w'))"

fun ds_type_str :: "CreateDataSourceType \<Rightarrow> string" where
  "ds_type_str Gauge = ''GAUGE''" | "ds_type_str Counter = ''COUNTER''" | "ds_type_str Derive = ''DERIVE''"
| "ds_type_str Absolute = ''ABSOLUTE''"

fun cf_str :: "ConsolidationFunction \<Rightarrow> string" where
  "cf_str Average = ''AVERAGE''" | "cf_str Min = ''MIN''" | "cf_str Max = ''MAX''" | "cf_str Last = ''LAST''"

record 'f CreateDataSource =
  cs_name :: string
  cs_minimum :: "'f option"
  cs_maximum :: "'f option"
  cs_heartbeat :: int
  cs_serie_type :: CreateDataSourceType

record 'f CreateRoundRobinArchive =
  ca_consolidation_function :: ConsolidationFunction
  ca_xfiles_factor :: 'f
  ca_steps :: int
  ca_rows :: int

record 'f CreateArguments =
  cg_path :: string
  cg_data_sources :: "'f CreateDataSource list"
  cg_round_robin_archives :: "'f CreateRoundRobinArchive list"
  cg_start_timestamp :: u64
  cg_step_seconds :: nat

definition ds_validate :: "('f, 'w) rrd_env \<Rightarrow> 'f CreateDataSource \<Rightarrow> (rrd_error, unit) res" where
  "ds_validate re ds =
     (if cs_heartbeat ds \<le> 0 then Err InvalidCreate
      else if (case (cs_minimum ds, cs_maximum ds) of (Some minimum, Some maximum) \<Rightarrow> fl_le (re_fl re) maximum minimum | _ \<Rightarrow> False)
        then Err InvalidCreate
      else check_name (re_rest_alnum re) (cs_name ds))"

definition rra_validate :: "('f, 'w) rrd_env \<Rightarrow> 'f CreateRoundRobinArchive \<Rightarrow> (rrd_error, unit) res" where
  "rra_validate re a =
     (if \<not> fl_unit (re_fl re) (ca_xfiles_factor a) then Err InvalidCreate
      else if ca_steps a \<le> 0 then Err InvalidCreate
      else if ca_rows a \<le> 0 then Err InvalidCreate
      else Ok ())"

fun first_error :: "('e, unit) res list \<Rightarrow> ('e, unit) res" where
  "first_error [] = Ok ()"
| "first_error (r # rs) = (case r of Ok _ \<Rightarrow> first_error rs | _ \<Rightarrow> r)"

definition args_validate :: "('f, 'w) rrd_env \<Rightarrow> 'f CreateArguments \<Rightarrow> (rrd_error, unit) res" where
  "args_validate re a =
     (if cg_data_sources a = [] then Err InvalidCreate
      else if cg_round_robin_archives a = [] then Err InvalidCreate
      else first_error (map (ds_validate re) (cg_data_sources a) @ map (rra_validate re) (cg_round_robin_archives a) @
                        [check_name (re_rest_alnum re) (cg_path a)]))"

definition signed_decimal :: "int \<Rightarrow> string" where
  "signed_decimal i = (if i < 0 then ''-'' else []) @ decimal (nat \<bar>i\<bar>)"

definition ds_to_str :: "'f floats \<Rightarrow> 'f CreateDataSource \<Rightarrow> string" where
  "ds_to_str fl ds =
     (let limit = (\<lambda>m. case m of Some f \<Rightarrow> fl_show fl f | None \<Rightarrow> ''U'') in
      ''DS:'' @ cs_name ds @ '':'' @ ds_type_str (cs_serie_type ds) @ '':'' @ signed_decimal (cs_heartbeat ds) @ '':'' @
      limit (cs_minimum ds) @ '':'' @ limit (cs_maximum ds))"

definition rra_to_str :: "'f floats \<Rightarrow> 'f CreateRoundRobinArchive \<Rightarrow> string" where
  "rra_to_str fl a =
     ''RRA:'' @ cf_str (ca_consolidation_function a) @ '':'' @ fl_show fl (ca_xfiles_factor a) @ '':'' @
     signed_decimal (ca_steps a) @ '':'' @ signed_decimal (ca_rows a)"

definition args_to_str :: "'f floats \<Rightarrow> 'f CreateArguments \<Rightarrow> string" where
  "args_to_str fl a =
     cg_path a @ ''.rrd -s '' @ decimal (cg_step_seconds a) @ '' -b '' @ decimal (unat (cg_start_timestamp a)) @
     concat (map (\<lambda>ds. '' '' @ ds_to_str fl ds) (cg_data_sources a)) @
     concat (map (\<lambda>r. '' '' @ rra_to_str fl r) (cg_round_robin_archives a))"

definition client_create :: "('f, 'w) rrd_env \<Rightarrow> 'f CreateArguments \<Rightarrow> 'w \<Rightarrow> (rrd_error, unit) res \<times> 'w" where
  "client_create re arguments w =
     (case args_validate re arguments of
        Ok _ \<Rightarrow>
          (case send_command re (''CREATE '' @ args_to_str (re_fl re) arguments @ [LF]) w of
             (Ok msg, w') \<Rightarrow> if starts_with msg ''-'' then (Ok (), w') else (Err CachedResponse, w')
           | (Err e, w') \<Rightarrow> (Err e, w') | (Panic, w') \<Rightarrow> (Panic, w'))
      | r \<Rightarrow> (r, w))"

section \<open>Back ends\<close>

definition RRD_STEP_SECONDS :: nat where "RRD_STEP_SECONDS = 60"

definition without_ext :: "string \<Rightarrow> string" where
  "without_ext path = (case strip_suffix path ''.rrd'' of Some p \<Rightarrow> p | None \<Rightarrow> path)"

definition cached_update :: "('f, 'w) rrd_env \<Rightarrow> string \<Rightarrow> string \<Rightarrow> 'w \<Rightarrow> (rrd_error, unit) res \<times> 'w" where
  "cached_update re path data w =
     (case update_parse (re_fl re) data of
        Ok parsed \<Rightarrow>
          client_update re (without_ext path) (map_option (\<lambda>t. nat (t mod 2 ^ 64)) (ud_timestamp parsed)) (ud_values parsed) w
      | Err e \<Rightarrow> (Err e, w)
      | Panic \<Rightarrow> (Panic, w))"

definition ds_kind :: "string \<Rightarrow> CreateDataSourceType option" where
  "ds_kind t =
     (if t = ''GAUGE'' then Some Gauge else if t = ''DERIVE'' then Some Derive
      else if t = ''COUNTER'' then Some Counter else if t = ''ABSOLUTE'' then Some Absolute else None)"

definition cf_of :: "string \<Rightarrow> ConsolidationFunction option" where
  "cf_of t =
     (if t = ''AVERAGE'' then Some Average else if t = ''MIN'' then Some Min
      else if t = ''MAX'' then Some Max else if t = ''LAST'' then Some Last else None)"

definition create_ds :: "'f floats \<Rightarrow> RrdDataSource \<Rightarrow> (rrd_error, 'f CreateDataSource) res" where
  "create_ds fl ds =
     (case ds_kind (ds_type ds) of
        None \<Rightarrow> Err InvalidCreate
      | Some serie_type \<Rightarrow>
          Ok \<lparr>cs_name = ds_name ds,
              cs_minimum = (if ds_min ds = ''U'' then None else fl_parse fl (ds_min ds)),
              cs_maximum = (if ds_max ds = ''U'' then None else fl_parse fl (ds_max ds)),
              cs_heartbeat = uint (ds_heartbeat ds), cs_serie_type = serie_type\<rparr>)"

definition create_rra :: "'f floats \<Rightarrow> string \<Rightarrow> (rrd_error, 'f CreateRoundRobinArchive) res" where
  "create_rra fl rra =
     (let parts = split_on (CHR '':'') rra in
      if length parts \<noteq> 5 \<or> parts ! 0 \<noteq> ''RRA'' then Err InvalidRra
      else case cf_of (parts ! 1) of
             None \<Rightarrow> Err InvalidRra
           | Some cf \<Rightarrow>
               (case (fl_parse fl (parts ! 2), parse_i64 (parts ! 3), parse_i64 (parts ! 4)) of
                  (Some xff, Some steps, Some rows) \<Rightarrow>
                    Ok \<lparr>ca_consolidation_function = cf, ca_xfiles_factor = xff, ca_steps = steps, ca_rows = rows\<rparr>
                | _ \<Rightarrow> Err InvalidRra))"

fun try_map :: "('a \<Rightarrow> ('e, 'b) res) \<Rightarrow> 'a list \<Rightarrow> ('e, 'b list) res" where
  "try_map f [] = Ok []"
| "try_map f (x # xs) =
     (case f x of
        Ok y \<Rightarrow> (case try_map f xs of Ok ys \<Rightarrow> Ok (y # ys) | r \<Rightarrow> r)
      | Err e \<Rightarrow> Err e
      | Panic \<Rightarrow> Panic)"

definition cached_create :: "('f, 'w) rrd_env \<Rightarrow> string \<Rightarrow> RrdSchema \<Rightarrow> int \<Rightarrow> 'w \<Rightarrow> (rrd_error, unit) res \<times> 'w" where
  "cached_create re path schema start_timestamp w =
     (case try_map (create_ds (re_fl re)) (sc_data_sources schema) of
        Err e \<Rightarrow> (Err e, w) | Panic \<Rightarrow> (Panic, w)
      | Ok data_sources \<Rightarrow>
          (case try_map (create_rra (re_fl re)) (sc_archives schema) of
             Err e \<Rightarrow> (Err e, w) | Panic \<Rightarrow> (Panic, w)
           | Ok archives \<Rightarrow>
               let args = \<lparr>cg_path = without_ext path, cg_data_sources = data_sources, cg_round_robin_archives = archives,
                           cg_start_timestamp = of_int start_timestamp, cg_step_seconds = RRD_STEP_SECONDS\<rparr> in
               (case args_validate re args of
                  Ok _ \<Rightarrow> client_create re args w
                | r \<Rightarrow> (r, w))))"

definition datum :: "'f floats \<Rightarrow> 'f \<Rightarrow> 'f Datum" where
  "datum fl v =
     (if fl_is_nan fl v then Unspecified
      else if fl_is_finite fl v then
        (if fl_is_u64 fl v (fl_as_u64 fl v) then IntDatum (fl_as_u64 fl v) else FloatDatum v)
      else FloatDatum v)"

definition direct_update :: "('f, 'w) rrd_env \<Rightarrow> string \<Rightarrow> string \<Rightarrow> 'w \<Rightarrow> (rrd_error, unit) res \<times> 'w" where
  "direct_update re path data w =
     (case update_parse (re_fl re) data of
        Ok parsed \<Rightarrow>
          let timestamp = (case ud_timestamp parsed of Some t \<Rightarrow> t | None \<Rightarrow> int (re_now re)) in
          if \<not> re_valid_time re timestamp then (Err InvalidTimestamp, w)
          else (case re_lib_update re path timestamp (map (datum (re_fl re)) (ud_values parsed)) w of
                  (True, w') \<Rightarrow> (Ok (), w') | (False, w') \<Rightarrow> (Err DirectFailed, w'))
      | Err e \<Rightarrow> (Err e, w)
      | Panic \<Rightarrow> (Panic, w))"

definition direct_limit :: "('f, 'w) rrd_env \<Rightarrow> CreateDataSourceType \<Rightarrow> string \<Rightarrow> (rrd_error, string option) res" where
  "direct_limit re kind t = (if t = ''U'' then Ok None else if re_limit re kind t then Ok (Some t) else Err InvalidCreate)"

definition direct_ds :: "('f, 'w) rrd_env \<Rightarrow> RrdDataSource \<Rightarrow> (rrd_error, DirectSource) res" where
  "direct_ds re ds =
     (case ds_kind (ds_type ds) of
        None \<Rightarrow> Err InvalidCreate
      | Some kind \<Rightarrow>
          (case direct_limit re kind (ds_min ds) of
             Ok mn \<Rightarrow>
               (case direct_limit re kind (ds_max ds) of
                  Ok mx \<Rightarrow> Ok \<lparr>dd_kind = kind, dd_name = ds_name ds, dd_heartbeat = ds_heartbeat ds, dd_min = mn, dd_max = mx\<rparr>
                | Err e \<Rightarrow> Err e | Panic \<Rightarrow> Panic)
           | Err e \<Rightarrow> Err e | Panic \<Rightarrow> Panic))"

definition direct_rra :: "('f, 'w) rrd_env \<Rightarrow> string \<Rightarrow> (rrd_error, 'f DirectArchive) res" where
  "direct_rra re rra =
     (let parts = split_on (CHR '':'') rra in
      if length parts \<noteq> 5 \<or> parts ! 0 \<noteq> ''RRA'' then Err InvalidRra
      else case cf_of (parts ! 1) of
             None \<Rightarrow> Err InvalidRra
           | Some cf \<Rightarrow>
               (case (fl_parse (re_fl re) (parts ! 2), parse_unsigned (2 ^ 32) (parts ! 3), parse_unsigned (2 ^ 32) (parts ! 4)) of
                  (Some xff, Some steps, Some rows) \<Rightarrow>
                    let a = \<lparr>da_cf = cf, da_xff = xff, da_steps = steps, da_rows = rows\<rparr> in
                    if re_archive re a then Ok a else Err InvalidRra
                | _ \<Rightarrow> Err InvalidRra))"

definition direct_create :: "('f, 'w) rrd_env \<Rightarrow> string \<Rightarrow> RrdSchema \<Rightarrow> int \<Rightarrow> 'w \<Rightarrow> (rrd_error, unit) res \<times> 'w" where
  "direct_create re path schema start_timestamp w =
     (case re_create_parent re path w of
        (False, w1) \<Rightarrow> (Err DirFailed, w1)
      | (True, w1) \<Rightarrow>
          if \<not> re_valid_time re start_timestamp then (Err InvalidTimestamp, w1)
          else case try_map (direct_ds re) (sc_data_sources schema) of
            Err e \<Rightarrow> (Err e, w1) | Panic \<Rightarrow> (Panic, w1)
          | Ok data_sources \<Rightarrow>
              (case try_map (direct_rra re) (sc_archives schema) of
                 Err e \<Rightarrow> (Err e, w1) | Panic \<Rightarrow> (Panic, w1)
               | Ok archives \<Rightarrow>
                   (case re_lib_create re path start_timestamp RRD_STEP_SECONDS data_sources archives w1 of
                      (True, w2) \<Rightarrow> (Ok (), w2) | (False, w2) \<Rightarrow> (Err DirectFailed, w2))))"

text \<open>The back end with fallback: the flag says whether the daemon is used.\<close>

definition fallback_update :: "('f, 'w) rrd_env \<Rightarrow> string \<Rightarrow> string \<Rightarrow> bool \<times> 'w \<Rightarrow> (rrd_error, unit) res \<times> bool \<times> 'w" where
  "fallback_update re path data s =
     (let (daemon, w) = s in
      if daemon then
        (case cached_update re path data w of
           (Ok _, w1) \<Rightarrow> (Ok (), True, w1)
         | (Err _, w1) \<Rightarrow> (case direct_update re path data w1 of (r, w2) \<Rightarrow> (r, False, w2))
         | (Panic, w1) \<Rightarrow> (Panic, True, w1))
      else (case direct_update re path data w of (r, w2) \<Rightarrow> (r, False, w2)))"

definition fallback_create :: "('f, 'w) rrd_env \<Rightarrow> string \<Rightarrow> RrdSchema \<Rightarrow> int \<Rightarrow> bool \<times> 'w \<Rightarrow> (rrd_error, unit) res \<times> bool \<times> 'w" where
  "fallback_create re path schema start s =
     (let (daemon, w) = s in
      if daemon then
        (case cached_create re path schema start w of
           (Ok _, w1) \<Rightarrow> (Ok (), True, w1)
         | (Err _, w1) \<Rightarrow> (case direct_create re path schema start w1 of (r, w2) \<Rightarrow> (r, False, w2))
         | (Panic, w1) \<Rightarrow> (Panic, True, w1))
      else (case direct_create re path schema start w of (r, w2) \<Rightarrow> (r, False, w2)))"

definition fallback_flush :: "('f, 'w) rrd_env \<Rightarrow> bool \<times> 'w \<Rightarrow> (rrd_error, unit) res \<times> bool \<times> 'w" where
  "fallback_flush re s =
     (let (daemon, w) = s in
      if daemon then
        (case client_flush_all re w of
           (Ok _, w1) \<Rightarrow> (Ok (), True, w1) | (Err _, w1) \<Rightarrow> (Ok (), False, w1) | (Panic, w1) \<Rightarrow> (Panic, True, w1))
      else (Ok (), False, w))"

section \<open>Writer\<close>

record RrdWriter =
  rw_base_dir :: string
  rw_daemon :: bool

definition create_rrd_file :: "('f, 'w) rrd_env \<Rightarrow> RrdKeyType \<Rightarrow> string \<Rightarrow> bool \<times> 'w \<Rightarrow> (rrd_error, unit) res \<times> bool \<times> 'w" where
  "create_rrd_file re key_type path s =
     (let (daemon, w) = s in
      case re_create_parent re path w of
        (False, w1) \<Rightarrow> (Err DirFailed, daemon, w1)
      | (True, w1) \<Rightarrow>
          (case re_midnight re of
             None \<Rightarrow> (Panic, daemon, w1)
           | Some start \<Rightarrow> fallback_create re path (key_schema key_type) start (daemon, w1)))"

definition rrd_update :: "('f, 'w) rrd_env \<Rightarrow> string \<Rightarrow> string \<Rightarrow> RrdWriter \<times> 'w \<Rightarrow> (rrd_error, unit) res \<times> RrdWriter \<times> 'w" where
  "rrd_update re key data s =
     (let (rw, w) = s; keep = (\<lambda>(r, daemon, w'). (r, rw\<lparr>rw_daemon := daemon\<rparr>, w')) in
      case rrd_parse key of
        Err e \<Rightarrow> (Err e, rw, w) | Panic \<Rightarrow> (Panic, rw, w)
      | Ok key_type \<Rightarrow>
          (case transform_data data (key_schema key_type) (metric_type key_type) of
             Err e \<Rightarrow> (Err e, rw, w) | Panic \<Rightarrow> (Panic, rw, w)
           | Ok transformed \<Rightarrow>
               let path = file_path (rw_base_dir rw) key_type in
               keep
                 (case (if re_exists re path w then (Ok (), rw_daemon rw, w) else create_rrd_file re key_type path (rw_daemon rw, w)) of
                    (Ok _, s1) \<Rightarrow> fallback_update re path transformed s1
                  | r \<Rightarrow> r)))"

definition rrd_flush :: "('f, 'w) rrd_env \<Rightarrow> RrdWriter \<times> 'w \<Rightarrow> (rrd_error, unit) res \<times> RrdWriter \<times> 'w" where
  "rrd_flush re s =
     (let (rw, w) = s in case fallback_flush re (rw_daemon rw, w) of (r, daemon, w') \<Rightarrow> (r, rw\<lparr>rw_daemon := daemon\<rparr>, w'))"

section \<open>Status data\<close>

text \<open>
  \<open>Status::set_rrd_data\<close> with a writer: the data is kept for the dump first; an error of the writer is
  returned.
\<close>

definition set_rrd_data_and_write ::
  "('f, 'w) rrd_env \<Rightarrow> u64 \<Rightarrow> string \<Rightarrow> string \<Rightarrow> Status \<times> RrdWriter option \<times> 'w
   \<Rightarrow> (rrd_error, unit) res \<times> Status \<times> RrdWriter option \<times> 'w" where
  "set_rrd_data_and_write re now key data s =
     (let (status, writer, w) = s; status1 = set_rrd_data now key data status in
      case writer of
        None \<Rightarrow> (Ok (), status1, None, w)
      | Some rw \<Rightarrow> (case rrd_update re key data (rw, w) of (r, rw1, w1) \<Rightarrow> (r, status1, Some rw1, w1)))"

end
