(* ===== verification/Rrd_Props.thy ===== *)
theory Rrd_Props
  imports Rrd_Writer
begin

text \<open>Properties of the metrics: where the files are, what is written, and through which back end.\<close>

section \<open>Files\<close>

lemma validated:
  assumes "validate_path_component p = Ok ()"
  shows "p \<noteq> []" "p \<noteq> ''..''" "CHR 0x00 \<notin> set p"
  using assms by (auto simp: validate_path_component_def split: if_splits)

definition good_part :: "string \<Rightarrow> bool" where
  "good_part p \<longleftrightarrow> p \<noteq> [] \<and> p \<noteq> ''..'' \<and> CHR ''/'' \<notin> set p \<and> CHR 0x00 \<notin> set p"

lemma key_part_good:
  assumes "validate_all (drop 1 (split_on (CHR ''/'') key)) = Ok u" and "get_part (split_on (CHR ''/'') key) (Suc i) = Ok x"
  shows "good_part x"
proof -
  have x: "x \<in> set (drop 1 (split_on (CHR ''/'') key))"
    using assms(2) by (auto simp: get_part_def in_set_conv_nth split: if_splits intro!: exI [of _ i])
  then have "validate_path_component x = Ok ()" using assms(1) validate_all_Ok by (metis old.unit.exhaust)
  moreover have "CHR ''/'' \<notin> set x" using x split_on_parts in_set_dropD by metis
  ultimately show ?thesis using validated by (simp add: good_part_def)
qed

fun key_parts :: "RrdKeyType \<Rightarrow> string list" where
  "key_parts (KNode n _) = [''pve-node-9.0'', n]"
| "key_parts (KVm v _) = [''pve-vm-9.0'', v]"
| "key_parts (KStorage n s _) = [''pve-storage-9.0'', n, s]"

lemma fixed_parts_good: "good_part ''pve-node-9.0''" "good_part ''pve-vm-9.0''" "good_part ''pve-storage-9.0''"
  by (simp_all add: good_part_def)

lemma parsed_parts:
  assumes "rrd_parse key = Ok k"
  shows "\<forall>p \<in> set (key_parts k). good_part p"
proof -
  let ?parts = "split_on (CHR ''/'') key"
  obtain u where v: "validate_all (drop 1 ?parts) = Ok u"
    using assms by (auto simp: rrd_parse_def Let_def split: res.splits)
  note g = key_part_good [OF v, of 0, simplified One_nat_def [symmetric]] key_part_good [OF v, of 1]
  have "(\<exists>mk. key_with_one ?parts mk = Ok k \<and> (\<exists>f. mk = (\<lambda>n. KNode n f) \<or> mk = (\<lambda>n. KVm n f))) \<or>
      (\<exists>f. key_with_two ?parts (\<lambda>n s. KStorage n s f) = Ok k)"
    using assms v unfolding rrd_parse_def Let_def by (simp split: if_splits) blast+
  then show ?thesis
  proof (elim disjE exE conjE)
    fix mk f assume k: "key_with_one ?parts mk = Ok k" "mk = (\<lambda>n. KNode n f)"
    then show ?thesis using g(1) by (auto simp: key_with_one_def fixed_parts_good split: res.splits)
  next
    fix mk f assume k: "key_with_one ?parts mk = Ok k" "mk = (\<lambda>n. KVm n f)"
    then show ?thesis using g(1) by (auto simp: key_with_one_def fixed_parts_good split: res.splits)
  next
    fix f assume k: "key_with_two ?parts (\<lambda>n s. KStorage n s f) = Ok k"
    then show ?thesis using g by (auto simp: key_with_two_def fixed_parts_good numeral_2_eq_2 split: res.splits)
  qed
qed

lemma path_push_good: "good_part p \<Longrightarrow> path_push b p = b @ (if b \<noteq> [] \<and> last b \<noteq> CHR ''/'' then ''/'' else []) @ p"
  by (cases p) (auto simp: path_push_def good_part_def starts_with_def)

lemma file_path_parts:
  assumes "\<forall>p \<in> set (key_parts k). good_part p"
  shows "file_path b k = b @ (if b \<noteq> [] \<and> last b \<noteq> CHR ''/'' then ''/'' else []) @ join_with ''/'' (key_parts k)"
proof -
  have "last (xs @ p) \<noteq> CHR ''/''" if "good_part p" for xs p :: string
    using that last_in_set [of p] last_appendR [of p xs] unfolding good_part_def by metis
  moreover have "p \<noteq> []" if "good_part p" for p using that by (simp add: good_part_def)
  ultimately show ?thesis
    using assms by (cases k) (auto simp: path_push_good)
qed

section \<open>The daemon\<close>

lemma file_path_slash: "CHR ''/'' \<in> set (file_path b k)" if "\<forall>p \<in> set (key_parts k). good_part p"
  using file_path_parts [OF that, of b] by (cases k) auto

lemma without_ext_slash: "CHR ''/'' \<in> set p \<Longrightarrow> CHR ''/'' \<in> set (without_ext p)"
proof -
  assume s: "CHR ''/'' \<in> set p"
  show ?thesis
  proof (cases "strip_suffix p ''.rrd''")
    case (Some q)
    then have "p = q @ ''.rrd''"
      by (auto simp: strip_suffix_def ends_with_def split: if_splits) (metis append_take_drop_id)
    then show ?thesis using s Some by (auto simp: without_ext_def)
  qed (use s in \<open>simp add: without_ext_def\<close>)
qed

lemma slash_rejected: "CHR ''/'' \<in> set p \<Longrightarrow> check_name rest p = Err BadName"
  by (auto simp: check_name_def is_ascii_alphanumeric_def intro!: bexI [of _ "CHR ''/''"])

lemma parse_values_no_panic: "parse_values fl vs \<noteq> Panic"
  by (induction vs) (auto split: option.splits res.splits)

lemma update_parse_no_panic: "update_parse fl data \<noteq> Panic"
  using parse_values_no_panic by (auto simp: update_parse_def Let_def split: option.splits res.splits)

lemma try_map_no_panic: "(\<And>x. f x \<noteq> Panic) \<Longrightarrow> try_map f xs \<noteq> Panic"
  by (induction xs) (auto split: res.splits)

lemma create_ds_no_panic: "create_ds fl ds \<noteq> Panic" and create_rra_no_panic: "create_rra fl r \<noteq> Panic"
  by (auto simp: create_ds_def create_rra_def Let_def split: option.splits)

lemma first_error_last: "r \<noteq> Ok () \<Longrightarrow> first_error (rs @ [r]) \<noteq> Ok ()"
  by (induction rs) (auto split: res.splits)

lemma first_error_no_panic: "(\<And>r. r \<in> set rs \<Longrightarrow> r \<noteq> Panic) \<Longrightarrow> first_error rs \<noteq> Panic"
  by (induction rs) (auto split: res.splits)

lemma args_rejected:
  assumes "CHR ''/'' \<in> set (cg_path a)"
  shows "\<exists>e. args_validate re a = Err e"
proof -
  have bad: "check_name (re_rest_alnum re) (cg_path a) = Err BadName" using slash_rejected [OF assms] .
  have "check_name rest n \<noteq> Panic" for rest n by (simp add: check_name_def)
  then have p: "ds_validate re d \<noteq> Panic" "rra_validate re r \<noteq> Panic" for d r
    by (auto simp: ds_validate_def rra_validate_def)
  have "args_validate re a \<noteq> Panic"
    using bad p p [THEN not_sym] by (auto simp: args_validate_def intro!: first_error_no_panic)
  moreover have "args_validate re a \<noteq> Ok ()"
    using bad first_error_last [of "Err BadName" "map (ds_validate re) (cg_data_sources a) @ map (rra_validate re) (cg_round_robin_archives a)"]
    by (simp add: args_validate_def)
  ultimately show ?thesis by (cases "args_validate re a") auto
qed

lemma cached_rejects:
  assumes "CHR ''/'' \<in> set path"
  shows "\<exists>e. cached_update re path data w = (Err e, w)" "\<exists>e. cached_create re path sc start w = (Err e, w)"
proof -
  have s: "CHR ''/'' \<in> set (without_ext path)" using without_ext_slash [OF assms] .
  show "\<exists>e. cached_update re path data w = (Err e, w)"
    using slash_rejected [OF s] update_parse_no_panic [of "re_fl re" data]
    by (auto simp: cached_update_def client_update_def split: res.splits)
  have "try_map (create_ds (re_fl re)) (sc_data_sources sc) \<noteq> Panic" "try_map (create_rra (re_fl re)) (sc_archives sc) \<noteq> Panic"
    by (rule try_map_no_panic, rule create_ds_no_panic create_rra_no_panic)+
  moreover have "\<exists>e. cached_create re path sc start w = (Err e, w)"
    if x: "try_map (create_ds (re_fl re)) (sc_data_sources sc) = Ok x" and y: "try_map (create_rra (re_fl re)) (sc_archives sc) = Ok y" for x y
  proof -
    let ?args = "\<lparr>cg_path = without_ext path, cg_data_sources = x, cg_round_robin_archives = y,
        cg_start_timestamp = of_int start, cg_step_seconds = RRD_STEP_SECONDS\<rparr>"
    obtain e where "args_validate re ?args = Err e" using args_rejected [of ?args re] s by auto
    then show ?thesis using x y by (simp add: cached_create_def Let_def)
  qed
  ultimately show "\<exists>e. cached_create re path sc start w = (Err e, w)"
    by (cases "try_map (create_ds (re_fl re)) (sc_data_sources sc)"; cases "try_map (create_rra (re_fl re)) (sc_archives sc)")
      (simp_all add: cached_create_def)
qed

lemma fallback_is_direct:
  assumes "CHR ''/'' \<in> set path"
  shows "fallback_update re path data (d, w) = (fst (direct_update re path data w), False, snd (direct_update re path data w))"
    and "fallback_create re path sc start (d, w) = (fst (direct_create re path sc start w), False, snd (direct_create re path sc start w))"
  using cached_rejects(1) [OF assms, of re data w] cached_rejects(2) [OF assms, of re sc start w]
  by (auto simp: fallback_update_def fallback_create_def split: prod.splits)

section \<open>Properties\<close>

text \<open>A small environment: numbers are their texts, and the state is the list of operations of librrd and the daemon.\<close>

definition sample_floats :: "string floats" where
  "sample_floats = \<lparr>fl_parse = (\<lambda>s. if s \<noteq> ''0.5'' \<and> parse_i64 s = None then None else Some s), fl_show = (\<lambda>s. s), fl_nan = ''NaN'',
     fl_is_nan = (\<lambda>s. s = ''NaN''), fl_is_finite = (\<lambda>_. True), fl_as_u64 = (\<lambda>_. 0), fl_is_u64 = (\<lambda>_ _. False),
     fl_le = (\<lambda>_ _. False), fl_unit = (\<lambda>_. True)\<rparr>"

definition sample_rrd :: "(string, string list) rrd_env" where
  "sample_rrd = \<lparr>re_fl = sample_floats, re_rest_alnum = (\<lambda>_. True), re_now = 100, re_midnight = Some 0, re_valid_time = (\<lambda>t. 0 \<le> t),
     re_exists = (\<lambda>p w. p \<in> set w), re_create_parent = (\<lambda>p w. (True, w)), re_lib_update = (\<lambda>p t vs w. (True, w @ [''update''])),
     re_limit = (\<lambda>_ _. True), re_archive = (\<lambda>_. True),
     re_lib_create = (\<lambda>p t step ds as w. (True, w @ [p])), re_exchange = (\<lambda>c w. (Some c, w @ [c])), re_read_lines = (\<lambda>n w. (True, w)),
     re_response = (\<lambda>_. Some (0, ''-1''))\<rparr>"

text \<open>
  C25. A key that is accepted, whoever sent it, names a file below the base directory: two or three names
  are appended to it, none of which is empty, the parent directory, or contains a slash or a NUL.
\<close>

theorem metrics_stay_below_base:
  assumes "rrd_parse key = Ok k"
  shows "\<exists>names. file_path base k = base @ (if base \<noteq> [] \<and> last base \<noteq> CHR ''/'' then ''/'' else []) @ join_with ''/'' names \<and>
    names \<noteq> [] \<and> hd names \<in> {''pve-node-9.0'', ''pve-vm-9.0'', ''pve-storage-9.0''} \<and>
    (\<forall>n \<in> set names. n \<noteq> [] \<and> n \<noteq> ''..'' \<and> CHR ''/'' \<notin> set n \<and> CHR 0x00 \<notin> set n)"
proof -
  have good: "\<forall>p \<in> set (key_parts k). good_part p" by (rule parsed_parts [OF assms])
  moreover have "key_parts k \<noteq> []" "hd (key_parts k) \<in> {''pve-node-9.0'', ''pve-vm-9.0'', ''pve-storage-9.0''}"
    by (cases k; simp)+
  ultimately show ?thesis
    using file_path_parts [OF good, of base] by (intro exI [of _ "key_parts k"]) (simp add: good_part_def)
qed

theorem metrics_stay_below_base_witness:
  "rrd_parse ''pve2-storage/n1/local'' = Ok (KStorage ''n1'' ''local'' Pve2) \<and>
   (\<exists>names. file_path ''/var/lib'' (KStorage ''n1'' ''local'' Pve2) = ''/var/lib/'' @ join_with ''/'' names \<and> ''..'' \<notin> set names)"
proof -
  have p: "rrd_parse ''pve2-storage/n1/local'' = Ok (KStorage ''n1'' ''local'' Pve2)" by code_simp
  from metrics_stay_below_base [OF p, of "''/var/lib''"] show ?thesis using p by auto
qed

text \<open>
  What is written fits the file: the values of an update are as many as the file has columns. After
  the fields that are not archived and the time, the fields of the data are taken in order; those that are
  missing or unknown are not a number, and surplus ones are dropped.
\<close>

lemma parse_values_nth:
  assumes "parse_values fl vs = Ok xs"
  shows "length xs = length vs \<and> (\<forall>i < length vs. Some (xs ! i) = (if vs ! i = ''U'' then Some (fl_nan fl) else fl_parse fl (vs ! i)))"
  using assms
proof (induction vs arbitrary: xs)
  case (Cons v vs)
  then obtain y ys where *: "xs = y # ys" "parse_values fl vs = Ok ys" "Some y = (if v = ''U'' then Some (fl_nan fl) else fl_parse fl v)"
    by (auto split: option.splits res.splits if_splits)
  then show ?case using Cons.IH [OF *(2)] by (auto simp: nth_Cons split: nat.splits)
qed simp

theorem metrics_match_schema:
  assumes "transform_data data (key_schema k) (metric_type k) = Ok d" and "update_parse fl d = Ok u"
  shows "length (ud_values u) = metric_column_count (metric_type k) Pve9_0 \<and>
    (\<forall>i < length (ud_values u).
       let fields = split_on (CHR '':'') data; j = skip_columns (metric_type k) + 1 + i in
       if j < length fields \<and> fields ! j \<noteq> ''U'' then fl_parse fl (fields ! j) = Some (ud_values u ! i)
       else ud_values u ! i = fl_nan fl)"
proof -
  let ?n = "column_count (key_schema k)" and ?skip = "skip_columns (metric_type k)" and ?f = "split_on (CHR '':'') data"
  let ?fields = "take (?n + 1) (drop ?skip ?f @ replicate (?n + 1) ''U'')"
  have fields: "split_on (CHR '':'') d = ?fields" by (rule transform_fields [OF assms(1)])
  have v: "parse_values fl (drop 1 ?fields) = Ok (ud_values u)"
    using assms(2) unfolding update_parse_def Let_def fields by (auto split: if_splits option.splits res.splits)
  note nth = parse_values_nth [OF v]
  have len: "length (drop 1 ?fields) = ?n" by simp
  have at: "drop 1 ?fields ! i = (if ?skip + 1 + i < length ?f then ?f ! (?skip + 1 + i) else ''U'')" if "i < ?n" for i
    using that by (auto simp: nth_append nth_Cons' add.assoc less_diff_conv algebra_simps)
  show ?thesis
    using nth len at by (auto simp: Let_def key_columns split: if_splits)
qed

theorem metrics_match_schema_witness:
  "\<exists>u. update_parse sample_floats ''10:1:U'' = Ok u \<and> length (ud_values u) = 2 \<and> ud_values u ! 0 = ''1'' \<and> ud_values u ! 1 = ''NaN''"
proof -
  have t: "transform_data ''10:1'' (key_schema (KStorage ''n'' ''s'' Pve2)) (metric_type (KStorage ''n'' ''s'' Pve2)) = Ok ''10:1:U''"
    by code_simp
  have u: "update_parse sample_floats ''10:1:U'' = Ok \<lparr>ud_timestamp = Some 10, ud_values = [''1'', ''NaN'']\<rparr>" by code_simp
  from metrics_match_schema [OF t u] u show ?thesis by auto
qed

text \<open>
  C40. The daemon is never used: its client rejects every path with a slash, and every file has one. A
  writer that is connected to the daemon does exactly what one without it does, and sends it nothing.
\<close>

theorem daemon_is_never_used:
  "rrd_update re key data (rw\<lparr>rw_daemon := True\<rparr>, w) = (r, rw1, w1) \<Longrightarrow>
   rrd_update re key data (rw\<lparr>rw_daemon := False\<rparr>, w) = (r, rw1\<lparr>rw_daemon := False\<rparr>, w1) \<and> (r = Ok () \<longrightarrow> \<not> rw_daemon rw1)"
proof (cases "rrd_parse key")
  case (Ok k)
  assume upd: "rrd_update re key data (rw\<lparr>rw_daemon := True\<rparr>, w) = (r, rw1, w1)"
  let ?path = "file_path (rw_base_dir rw) k"
  obtain d where d: "transform_data data (key_schema k) (metric_type k) = Ok d" using transform_total by blast
  note direct = fallback_is_direct [OF file_path_slash [OF parsed_parts [OF Ok], of "rw_base_dir rw"]]
  obtain made w2 where mk: "re_create_parent re ?path w = (made, w2)" by fastforce
  show ?thesis
  proof (cases "re_exists re ?path w")
    case True
    then show ?thesis using upd Ok d by (auto simp: rrd_update_def Let_def direct)
  next
    case new: False
    show ?thesis
    proof (cases "made \<and> re_midnight re \<noteq> None")
      case True
      then obtain start where start: "re_midnight re = Some start" by blast
      obtain rc w3 where "direct_create re ?path (key_schema k) start w2 = (rc, w3)" by fastforce
      then show ?thesis
        using upd Ok d mk new True start by (cases rc) (auto simp: rrd_update_def create_rrd_file_def Let_def direct)
    next
      case False
      then show ?thesis
        using upd Ok d mk new
        by (cases made; cases "re_midnight re") (auto simp: rrd_update_def create_rrd_file_def Let_def)
    qed
  qed
qed (auto simp: rrd_update_def)

theorem daemon_is_never_used_witness:
  "\<exists>w1. rrd_update sample_rrd ''pve2-storage/n1/local'' ''10:1:2'' (\<lparr>rw_base_dir = ''/db'', rw_daemon = True\<rparr>, []) =
     (Ok (), \<lparr>rw_base_dir = ''/db'', rw_daemon = False\<rparr>, w1) \<and>
     rrd_update sample_rrd ''pve2-storage/n1/local'' ''10:1:2'' (\<lparr>rw_base_dir = ''/db'', rw_daemon = False\<rparr>, []) =
     (Ok (), \<lparr>rw_base_dir = ''/db'', rw_daemon = False\<rparr>, w1)"
proof -
  let ?rw = "\<lparr>rw_base_dir = ''/db'', rw_daemon = True\<rparr>"
  have "rrd_update sample_rrd ''pve2-storage/n1/local'' ''10:1:2'' (?rw\<lparr>rw_daemon := True\<rparr>, []) =
      (Ok (), \<lparr>rw_base_dir = ''/db'', rw_daemon = False\<rparr>, [''/db/pve-storage-9.0/n1/local'', ''update''])"
    by code_simp
  from daemon_is_never_used [OF this] this show ?thesis by simp
qed

end
