(* ===== verification/Service_Manager.thy ===== *)
theory Service_Manager
  imports Pmxcfs_Prelude
begin

text \<open>
  The service manager (\<open>pmxcfs-services/src/manager.rs\<close>) and the trait of the services that it runs
  (\<open>service.rs\<close>). Each service has a task of its own; \<open>service_step\<close> is what can happen to it next. The
  operations of the services contain no \<open>await\<close>, so each of them is one step, and a shutdown falls
  between two of them.

  The registration of descriptors with the event loop of tokio is the record \<open>Poller\<close>: \<open>AsyncFd::new\<close>,
  dropping an \<open>AsyncFd\<close>, and the set of descriptors that are watched. Times are nanoseconds of the
  monotonic clock.
\<close>

section \<open>Services\<close>

datatype ServiceError = InitializationFailed | DispatchFailed

text \<open>
  A result \<open>Panic\<close> of an operation ends the task: the operation panicked, or it waits for a lock that it
  holds itself.
\<close>

record 's Service =
  sv_name :: string
  sv_initialize :: "'s \<Rightarrow> (ServiceError, int) res \<times> 's"
  sv_dispatch :: "'s \<Rightarrow> (ServiceError, bool) res \<times> 's"
  sv_finalize :: "'s \<Rightarrow> (ServiceError, unit) res \<times> 's"
  sv_timer_period :: "nat option"
  sv_timer_callback :: "'s \<Rightarrow> (ServiceError, unit) res \<times> 's"

type_synonym 's ServiceManager = "(string, 's Service) hmap"

definition add_service :: "'s Service \<Rightarrow> 's ServiceManager \<Rightarrow> (unit, 's ServiceManager) res" where
  "add_service service services =
     (if hm_get services (sv_name service) \<noteq> None then Panic
      else Ok (hm_insert (sv_name service) service services))"

record 'p Poller =
  po_register :: "int \<Rightarrow> 'p \<Rightarrow> bool \<times> 'p"
  po_deregister :: "int \<Rightarrow> 'p \<Rightarrow> 'p"
  po_watched :: "'p \<Rightarrow> int set"

text \<open>Dropping a registration removes the descriptor of that number from the interest list.\<close>

definition poller_laws :: "'p Poller \<Rightarrow> bool" where
  "poller_laws po \<longleftrightarrow>
     (\<forall>fd p p'. po_register po fd p = (True, p') \<longrightarrow> po_watched po p' = insert fd (po_watched po p)) \<and>
     (\<forall>fd p p'. po_register po fd p = (False, p') \<longrightarrow> po_watched po p' = po_watched po p) \<and>
     (\<forall>fd p. po_watched po (po_deregister po fd p) = po_watched po p - {fd})"

section \<open>The task of a service\<close>

datatype phase = Active | Stopped | Dead

record ('s, 'p) task =
  tk_phase :: phase
  tk_running :: bool
  tk_fd :: "int option" \<comment> \<open>\<open>async_fd\<close>\<close>
  tk_last_timer :: "nat option"
  tk_last_init :: "nat option"
  tk_now :: nat
  tk_service :: 's
  tk_poll :: 'p

definition task_start :: "nat \<Rightarrow> 's \<Rightarrow> 'p \<Rightarrow> ('s, 'p) task" where
  "task_start now s p =
     \<lparr>tk_phase = Active, tk_running = False, tk_fd = None, tk_last_timer = None, tk_last_init = None,
      tk_now = now, tk_service = s, tk_poll = p\<rparr>"

definition RETRY_INTERVAL :: nat where "RETRY_INTERVAL = 5 * 10 ^ 9"

definition retry_due :: "('s, 'p) task \<Rightarrow> bool" where
  "retry_due t = (case tk_last_init t of None \<Rightarrow> True | Some before \<Rightarrow> RETRY_INTERVAL \<le> tk_now t - before)"

definition timer_due :: "'s Service \<Rightarrow> ('s, 'p) task \<Rightarrow> bool" where
  "timer_due sv t =
     (case sv_timer_period sv of
        None \<Rightarrow> False
      | Some period \<Rightarrow> (case tk_last_timer t of None \<Rightarrow> True | Some before \<Rightarrow> period \<le> tk_now t - before))"

definition drop_fd :: "'p Poller \<Rightarrow> ('s, 'p) task \<Rightarrow> ('s, 'p) task" where
  "drop_fd po t =
     t\<lparr>tk_fd := None, tk_poll := (case tk_fd t of None \<Rightarrow> tk_poll t | Some fd \<Rightarrow> po_deregister po fd (tk_poll t))\<rparr>"

definition die :: "'p Poller \<Rightarrow> ('s, 'p) task \<Rightarrow> ('s, 'p) task" where
  "die po t = (drop_fd po t)\<lparr>tk_phase := Dead\<rparr>"

definition finalize_service :: "'s Service \<Rightarrow> 'p Poller \<Rightarrow> ('s, 'p) task \<Rightarrow> ('s, 'p) task" where
  "finalize_service sv po t =
     (case sv_finalize sv (tk_service t) of
        (Panic, s) \<Rightarrow> die po (t\<lparr>tk_service := s\<rparr>)
      | (_, s) \<Rightarrow> t\<lparr>tk_service := s\<rparr>)"

definition reinitialize :: "'s Service \<Rightarrow> 'p Poller \<Rightarrow> ('s, 'p) task \<Rightarrow> ('s, 'p) task" where
  "reinitialize sv po t = finalize_service sv po (t\<lparr>tk_running := False\<rparr>)"

text \<open>An attempt to initialize: a new registration replaces the old one, which is dropped after it was made.\<close>

definition initialize_service :: "'s Service \<Rightarrow> 'p Poller \<Rightarrow> nat \<Rightarrow> ('s, 'p) task \<Rightarrow> ('s, 'p) task" where
  "initialize_service sv po now t =
     (let t1 = t\<lparr>tk_now := now, tk_last_init := Some now\<rparr> in
      case sv_initialize sv (tk_service t) of
        (Ok fd, s) \<Rightarrow>
          (case po_register po fd (tk_poll t) of
             (True, p) \<Rightarrow> (drop_fd po (t1\<lparr>tk_service := s, tk_poll := p\<rparr>))\<lparr>tk_fd := Some fd, tk_running := True\<rparr>
           | (False, p) \<Rightarrow> finalize_service sv po (t1\<lparr>tk_service := s, tk_poll := p\<rparr>))
      | (Err _, s) \<Rightarrow> t1\<lparr>tk_service := s\<rparr>
      | (Panic, s) \<Rightarrow> die po (t1\<lparr>tk_service := s\<rparr>))"

definition run_timer :: "'s Service \<Rightarrow> 'p Poller \<Rightarrow> ('s, 'p) task \<Rightarrow> ('s, 'p) task" where
  "run_timer sv po t =
     (let t1 = t\<lparr>tk_last_timer := Some (tk_now t)\<rparr> in
      case sv_timer_callback sv (tk_service t) of
        (Panic, s) \<Rightarrow> die po (t1\<lparr>tk_service := s\<rparr>)
      | (_, s) \<Rightarrow> t1\<lparr>tk_service := s\<rparr>)"

definition run_dispatch :: "'s Service \<Rightarrow> 'p Poller \<Rightarrow> ('s, 'p) task \<Rightarrow> ('s, 'p) task" where
  "run_dispatch sv po t =
     (case sv_dispatch sv (tk_service t) of
        (Ok True, s) \<Rightarrow> t\<lparr>tk_service := s\<rparr>
      | (Ok False, s) \<Rightarrow> reinitialize sv po (t\<lparr>tk_service := s\<rparr>)
      | (Err _, s) \<Rightarrow> reinitialize sv po (t\<lparr>tk_service := s\<rparr>)
      | (Panic, s) \<Rightarrow> die po (t\<lparr>tk_service := s\<rparr>))"

definition shutdown_service :: "'s Service \<Rightarrow> 'p Poller \<Rightarrow> ('s, 'p) task \<Rightarrow> ('s, 'p) task" where
  "shutdown_service sv po t =
     (let t1 = finalize_service sv po (drop_fd po (t\<lparr>tk_running := False\<rparr>)) in
      if tk_phase t1 = Dead then t1 else t1\<lparr>tk_phase := Stopped\<rparr>)"

datatype task_event = Passing | Attempt nat | TimerRun | Readable | ReadFailed | Shutdown

inductive service_step :: "'s Service \<Rightarrow> 'p Poller \<Rightarrow> ('s, 'p) task \<Rightarrow> task_event \<Rightarrow> ('s, 'p) task \<Rightarrow> bool" for sv po where
  time: "tk_now t \<le> now \<Longrightarrow> service_step sv po t Passing (t\<lparr>tk_now := now\<rparr>)"
| closed: "po_watched po p \<subseteq> po_watched po (tk_poll t) \<Longrightarrow> service_step sv po t Passing (t\<lparr>tk_poll := p\<rparr>)"
    \<comment> \<open>closing a descriptor removes it from the interest list\<close>
| attempt: "tk_phase t = Active \<Longrightarrow> \<not> tk_running t \<Longrightarrow> retry_due t \<Longrightarrow> tk_now t \<le> now \<Longrightarrow>
    service_step sv po t (Attempt now) (initialize_service sv po now t)"
| timer: "tk_phase t = Active \<Longrightarrow> tk_running t \<Longrightarrow> tk_fd t = Some fd \<Longrightarrow> timer_due sv t \<Longrightarrow>
    service_step sv po t TimerRun (run_timer sv po t)"
| readable: "tk_phase t = Active \<Longrightarrow> tk_running t \<Longrightarrow> tk_fd t = Some fd \<Longrightarrow> \<not> timer_due sv t \<Longrightarrow>
    fd \<in> po_watched po (tk_poll t) \<Longrightarrow> service_step sv po t Readable (run_dispatch sv po t)"
| read_failed: "tk_phase t = Active \<Longrightarrow> tk_running t \<Longrightarrow> tk_fd t = Some fd \<Longrightarrow> \<not> timer_due sv t \<Longrightarrow>
    service_step sv po t ReadFailed (reinitialize sv po t)"
| stop: "tk_phase t = Active \<Longrightarrow> service_step sv po t Shutdown (shutdown_service sv po t)"

inductive service_run :: "'s Service \<Rightarrow> 'p Poller \<Rightarrow> ('s, 'p) task \<Rightarrow> task_event list \<Rightarrow> ('s, 'p) task \<Rightarrow> bool" for sv po where
  run_nil: "service_run sv po t [] t"
| run_snoc: "service_run sv po t es t' \<Longrightarrow> service_step sv po t' e t'' \<Longrightarrow> service_run sv po t (es @ [e]) t''"

inductive_cases service_step_attemptE: "service_step sv po t (Attempt now) t'"
inductive_cases service_run_nilE: "service_run sv po t [] t'"

fun attempts :: "task_event list \<Rightarrow> nat list" where
  "attempts [] = []"
| "attempts (Attempt t # es) = t # attempts es"
| "attempts (_ # es) = attempts es"

section \<open>Lemmas\<close>

lemma attempts_append [simp]: "attempts (es @ es') = attempts es @ attempts es'"
  by (induction es rule: attempts.induct) simp_all

lemma drop_fd_simps [simp]:
  "tk_phase (drop_fd po t) = tk_phase t" "tk_running (drop_fd po t) = tk_running t" "tk_fd (drop_fd po t) = None"
  "tk_last_init (drop_fd po t) = tk_last_init t" "tk_now (drop_fd po t) = tk_now t" "tk_service (drop_fd po t) = tk_service t"
  by (simp_all add: drop_fd_def)

lemma die_simps [simp]:
  "tk_phase (die po t) = Dead" "tk_last_init (die po t) = tk_last_init t" "tk_now (die po t) = tk_now t"
  by (simp_all add: die_def)

lemma finalize_service_simps [simp]:
  "tk_last_init (finalize_service sv po t) = tk_last_init t" "tk_now (finalize_service sv po t) = tk_now t"
  "tk_running (finalize_service sv po t) = tk_running t"
  by (auto simp: finalize_service_def die_def split: prod.splits res.splits)

lemma step_clock:
  assumes "service_step sv po t e t'"
  shows "tk_now t \<le> tk_now t' \<and>
    (case e of Attempt now \<Rightarrow> retry_due t \<and> tk_now t \<le> now \<and> tk_now t' = now \<and> tk_last_init t' = Some now
     | _ \<Rightarrow> tk_last_init t' = tk_last_init t)"
  using assms
  by cases (auto simp: initialize_service_def run_timer_def run_dispatch_def reinitialize_def shutdown_service_def Let_def
    split: prod.splits res.splits bool.splits)


text \<open>
  What a service owes to the manager. Two states matter, connected and disconnected; \<open>initialize\<close> is
  called on a disconnected service and \<open>finalize\<close> always leads back there. The manager then keeps the
  service connected exactly while it is running.
\<close>

locale managed_service =
  fixes sv :: "'s Service" and opened :: "'s \<Rightarrow> bool" and shut :: "'s \<Rightarrow> bool"
  assumes initialize_opens: "shut s \<Longrightarrow> sv_initialize sv s = (Ok fd, s') \<Longrightarrow> opened s'"
    and initialize_fails: "shut s \<Longrightarrow> sv_initialize sv s = (Err e, s') \<Longrightarrow> shut s'"
    and dispatch_keeps: "opened s \<Longrightarrow> sv_dispatch sv s = (r, s') \<Longrightarrow> r \<noteq> Panic \<Longrightarrow> opened s'"
    and timer_keeps: "opened s \<Longrightarrow> sv_timer_callback sv s = (r', s') \<Longrightarrow> r' \<noteq> Panic \<Longrightarrow> opened s'"
    and finalize_shuts: "opened s \<or> shut s \<Longrightarrow> sv_finalize sv s = (r', s') \<Longrightarrow> r' \<noteq> Panic \<Longrightarrow> shut s'"
begin

definition task_inv :: "('s, 'p) task \<Rightarrow> bool" where
  "task_inv t \<longleftrightarrow>
     (tk_phase t = Active \<longrightarrow> (if tk_running t then opened (tk_service t) else shut (tk_service t))) \<and>
     (tk_phase t = Stopped \<longrightarrow> shut (tk_service t))"

lemma finalize_inv:
  assumes "opened (tk_service t) \<or> shut (tk_service t)" and "\<not> tk_running t"
  shows "task_inv (finalize_service sv po t)"
    "tk_phase (finalize_service sv po t) = Dead \<or>
     tk_phase (finalize_service sv po t) = tk_phase t \<and> shut (tk_service (finalize_service sv po t))"
  using finalize_shuts [OF assms(1)] assms(2)
  by (auto simp: task_inv_def finalize_service_def split: prod.splits res.splits)

lemma task_step_inv: "service_step sv po t e t' \<Longrightarrow> task_inv t \<Longrightarrow> task_inv t'"
proof (induction rule: service_step.induct)
  case (attempt t now)
  then have s: "shut (tk_service t)" by (simp add: task_inv_def)
  show ?case
  proof (cases "sv_initialize sv (tk_service t)")
    case (Pair r s')
    then show ?thesis
    proof (cases r)
      case (Ok fd)
      then have "opened s'" using initialize_opens [OF s] Pair by simp
      moreover have "task_inv (finalize_service sv po (t\<lparr>tk_now := now, tk_last_init := Some now, tk_service := s', tk_poll := p\<rparr>))" for p
        using \<open>opened s'\<close> attempt by (auto intro!: finalize_inv(1))
      ultimately show ?thesis
        using Ok Pair attempt
        by (auto simp: initialize_service_def Let_def split: prod.splits bool.splits) (auto simp: task_inv_def)
    qed (use Pair attempt initialize_fails [OF s] in \<open>auto simp: initialize_service_def task_inv_def Let_def\<close>)
  qed
next
  case (timer t fd)
  then show ?case
    using timer_keeps [of "tk_service t"] by (auto simp: run_timer_def task_inv_def Let_def split: prod.splits res.splits)
next
  case (readable t fd)
  then have o: "opened (tk_service t)" by (simp add: task_inv_def)
  show ?case
    using dispatch_keeps [OF o] readable
    by (auto simp: run_dispatch_def reinitialize_def intro!: finalize_inv(1) split: prod.splits res.splits bool.splits)
      (auto simp: task_inv_def)
next
  case (read_failed t fd)
  then have "opened (tk_service t)" by (simp add: task_inv_def)
  then show ?case unfolding reinitialize_def by (intro finalize_inv(1)) simp_all
next
  case (stop t)
  then have "opened (tk_service t) \<or> shut (tk_service t)" by (auto simp: task_inv_def split: if_splits)
  then show ?case
    using finalize_inv [of "drop_fd po (t\<lparr>tk_running := False\<rparr>)"]
    by (auto simp: shutdown_service_def task_inv_def Let_def)
qed (auto simp: task_inv_def)

lemma task_run_inv: "service_run sv po t es t' \<Longrightarrow> task_inv t \<Longrightarrow> task_inv t'"
  by (induction rule: service_run.induct) (auto intro: task_step_inv)

lemma started_inv: "shut s \<Longrightarrow> task_inv (task_start now s p)"
  by (simp add: task_inv_def task_start_def)

lemma reachable_task:
  assumes "service_run sv po (task_start now s p) es t" and "shut s"
  shows "tk_phase t = Active \<Longrightarrow> tk_running t \<Longrightarrow> opened (tk_service t)"
    and "tk_phase t = Active \<Longrightarrow> \<not> tk_running t \<Longrightarrow> shut (tk_service t)"
    and "tk_phase t = Stopped \<Longrightarrow> shut (tk_service t)"
  using task_run_inv [OF assms(1) started_inv [OF assms(2)]] by (simp_all add: task_inv_def)

end

section \<open>Reconnection\<close>

text \<open>A task whose descriptor is registered under the number of another one that is watched.\<close>

definition deaf :: "'p Poller \<Rightarrow> int \<Rightarrow> ('s, 'p) task \<Rightarrow> bool" where
  "deaf po fd t \<longleftrightarrow>
     tk_phase t = Dead \<or> tk_phase t = Active \<and> tk_running t \<and> tk_fd t = Some fd \<and> fd \<notin> po_watched po (tk_poll t)"

lemma deaf_step:
  assumes "service_step sv po t e t'" "deaf po fd t" "e \<noteq> Shutdown" "e \<noteq> ReadFailed"
  shows "deaf po fd t' \<and> e \<noteq> Readable \<and> (sv_timer_period sv = None \<longrightarrow> tk_service t' = tk_service t)"
  using assms
  by cases (auto simp: deaf_def run_timer_def timer_due_def Let_def split: prod.splits res.splits option.splits)

lemma deaf_run:
  assumes "service_run sv po t es t'" "deaf po fd t" "Shutdown \<notin> set es" "ReadFailed \<notin> set es"
  shows "deaf po fd t' \<and> Readable \<notin> set es \<and> (sv_timer_period sv = None \<longrightarrow> tk_service t' = tk_service t)"
  using assms
proof (induction rule: service_run.induct)
  case (run_snoc t es t' e t'')
  then show ?case using deaf_step [of sv po t' e t'' fd] by auto
qed simp


text \<open>Once it is stopped, a task stays so.\<close>

lemma stopped_step:
  assumes "service_step sv po t e t'" "tk_phase t = Stopped \<longrightarrow> \<not> tk_running t"
  shows "(tk_phase t' = Stopped \<longrightarrow> \<not> tk_running t') \<and> (e = Shutdown \<or> tk_phase t \<noteq> Active \<longrightarrow> tk_phase t' \<noteq> Active)"
  using assms
  by cases (auto simp: initialize_service_def run_timer_def run_dispatch_def reinitialize_def shutdown_service_def
    finalize_service_def die_def Let_def split: prod.splits res.splits bool.splits)


lemma stopped_run:
  assumes "service_run sv po t es t'" "tk_phase t = Stopped \<longrightarrow> \<not> tk_running t"
  shows "(tk_phase t' = Stopped \<longrightarrow> \<not> tk_running t') \<and> (Shutdown \<in> set es \<longrightarrow> tk_phase t' \<noteq> Active)"
  using assms
proof (induction rule: service_run.induct)
  case (run_snoc t es t' e t'')
  then show ?case using stopped_step [OF run_snoc.hyps(2)] by auto
qed simp

end
