(* ===== verification/Corosync_Services.thy ===== *)
theory Corosync_Services
  imports Service_Manager Cluster_Status
begin

text \<open>
  The services that connect the daemon to Corosync: quorum (\<open>pmxcfs/src/quorum_service.rs\<close>), the
  configuration of the cluster (\<open>pmxcfs/src/cluster_config_service.rs\<close>), and the two process groups
  (\<open>cluster_database_service.rs\<close>, \<open>status_sync_service.rs\<close> and \<open>cpg_service.rs\<close> of \<open>pmxcfs-dfsm\<close>, with
  \<open>init_cpg\<close>, \<open>dispatch_events\<close>, \<open>fd_get\<close> and \<open>stop_services\<close> of \<open>state_machine.rs\<close>).

  The libraries of Corosync are the records \<open>quorum_api\<close>, \<open>cmap_api\<close> and \<open>cpg_api\<close>, whose functions act
  on a state \<open>'c\<close>. A dispatch returns the calls that the library makes to the callbacks; the context
  pointer that a callback would find is part of the call.
\<close>

type_synonym handle = u64

datatype CsError =
    CsErrLibrary | CsErrVersion | CsErrInit | CsErrTimeout | CsErrTryAgain | CsErrInvalidParam | CsErrNoMemory
  | CsErrBadHandle | CsErrBusy | CsErrAccess | CsErrNotExist | CsErrNameTooLong | CsErrExist | CsErrNoSpace
  | CsErrInterrupt | CsErrNameNotFound | CsErrNoResources | CsErrNotSupported | CsErrBadOperation
  | CsErrFailedOperation | CsErrMessageError | CsErrQueueFull | CsErrQueueNotAvailable | CsErrBadFlags | CsErrTooBig
  | CsErrNoSection | CsErrContextNotFound | CsErrTooManyGroups | CsErrSecurity | CsErrRustCompat | CsErrRustString

section \<open>Quorum\<close>

record 'c quorum_api =
  qa_initialize :: "'c \<Rightarrow> handle option \<times> 'c"
  qa_context_set :: "handle \<Rightarrow> u64 \<Rightarrow> 'c \<Rightarrow> bool \<times> 'c"
  qa_trackstart :: "handle \<Rightarrow> 'c \<Rightarrow> bool \<times> 'c"
  qa_fd_get :: "handle \<Rightarrow> 'c \<Rightarrow> int option"
  qa_dispatch_one :: "handle \<Rightarrow> 'c \<Rightarrow> CsError option \<times> (bool \<times> u64 option) list \<times> 'c"
  qa_dispatch_all :: "handle \<Rightarrow> 'c \<Rightarrow> CsError option \<times> (bool \<times> u64 option) list \<times> 'c"
  qa_finalize :: "handle \<Rightarrow> 'c \<Rightarrow> 'c"

record 'c QuorumService =
  qs_self :: u64 \<comment> \<open>the address of the service\<close>
  qs_quorum_handle :: "handle option"
  qs_status :: Status
  qs_context_ptr :: "u64 option"
  qs_corosync :: 'c

definition quorum_notification :: "bool \<times> u64 option \<Rightarrow> Status \<Rightarrow> Status" where
  "quorum_notification call status =
     (case call of (quorate, context) \<Rightarrow>
        (case context of
           None \<Rightarrow> status
         | Some ctx \<Rightarrow> if ctx = 0 then status else set_quorate quorate status))"

definition quorum_initialize :: "'c quorum_api \<Rightarrow> 'c QuorumService \<Rightarrow> (ServiceError, int) res \<times> 'c QuorumService" where
  "quorum_initialize qa s =
     (case qa_initialize qa (qs_corosync s) of
        (None, c1) \<Rightarrow> (Err InitializationFailed, s\<lparr>qs_corosync := c1\<rparr>)
      | (Some h, c1) \<Rightarrow>
          (case qa_context_set qa h (qs_self s) c1 of
             (False, c2) \<Rightarrow> (Err InitializationFailed, s\<lparr>qs_corosync := qa_finalize qa h c2\<rparr>)
           | (True, c2) \<Rightarrow>
               let s1 = s\<lparr>qs_context_ptr := Some (qs_self s)\<rparr> in
               (case qa_trackstart qa h c2 of
                  (False, c3) \<Rightarrow> (Err InitializationFailed, s1\<lparr>qs_corosync := qa_finalize qa h c3\<rparr>)
                | (True, c3) \<Rightarrow>
                    (case qa_fd_get qa h c3 of
                       None \<Rightarrow> (Err InitializationFailed, s1\<lparr>qs_corosync := qa_finalize qa h c3\<rparr>)
                     | Some fd \<Rightarrow>
                         (case qa_dispatch_one qa h c3 of
                            (_, calls, c4) \<Rightarrow>
                              (Ok fd, s1\<lparr>qs_status := fold quorum_notification calls (qs_status s1),
                                         qs_quorum_handle := Some h, qs_corosync := c4\<rparr>))))))"

definition quorum_dispatch :: "'c quorum_api \<Rightarrow> 'c QuorumService \<Rightarrow> (ServiceError, bool) res \<times> 'c QuorumService" where
  "quorum_dispatch qa s =
     (case qs_quorum_handle s of
        None \<Rightarrow> (Err DispatchFailed, s)
      | Some h \<Rightarrow>
          (case qa_dispatch_all qa h (qs_corosync s) of
             (e, calls, c1) \<Rightarrow>
               let s1 = s\<lparr>qs_status := fold quorum_notification calls (qs_status s), qs_corosync := c1\<rparr> in
               ((case e of
                   None \<Rightarrow> Ok True
                 | Some err \<Rightarrow>
                     if err = CsErrTryAgain then Ok True
                     else if err = CsErrLibrary \<or> err = CsErrBadHandle then Ok False
                     else Err DispatchFailed), s1)))"

definition quorum_finalize :: "'c quorum_api \<Rightarrow> 'c QuorumService \<Rightarrow> (ServiceError, unit) res \<times> 'c QuorumService" where
  "quorum_finalize qa s =
     (Ok (), s\<lparr>qs_status := set_quorate False (qs_status s), qs_quorum_handle := None,
               qs_corosync := (case qs_quorum_handle s of None \<Rightarrow> qs_corosync s | Some h \<Rightarrow> qa_finalize qa h (qs_corosync s)),
               qs_context_ptr := None\<rparr>)"

definition quorum_service :: "'c quorum_api \<Rightarrow> 'c QuorumService Service" where
  "quorum_service qa =
     \<lparr>sv_name = ''quorum'', sv_initialize = quorum_initialize qa, sv_dispatch = quorum_dispatch qa,
      sv_finalize = quorum_finalize qa, sv_timer_period = None, sv_timer_callback = (\<lambda>s. (Ok (), s))\<rparr>"

section \<open>Configuration of the cluster\<close>

datatype cmap_data = UInt8 u8 | UInt16 u16 | UInt32 u32 | UInt64 u64 | Text string | OtherData

record 'c cmap_api =
  ca_initialize :: "'c \<Rightarrow> handle option \<times> 'c"
  ca_track_add :: "handle \<Rightarrow> string \<Rightarrow> u64 \<Rightarrow> 'c \<Rightarrow> handle option \<times> 'c"
  ca_track_delete :: "handle \<Rightarrow> handle \<Rightarrow> 'c \<Rightarrow> 'c"
  ca_fd_get :: "handle \<Rightarrow> 'c \<Rightarrow> int option"
  ca_get :: "handle \<Rightarrow> string \<Rightarrow> 'c \<Rightarrow> CsError + cmap_data"
  ca_dispatch :: "handle \<Rightarrow> 'c \<Rightarrow> CsError option \<times> u64 list \<times> 'c"
  ca_finalize :: "handle \<Rightarrow> 'c \<Rightarrow> 'c"

record 'c ClusterConfigService =
  cc_self :: u64
  cc_cmap_handle :: "handle option"
  cc_nodelist_track_handle :: "handle option"
  cc_version_track_handle :: "handle option"
  cc_status :: Status
  cc_changes_detected :: bool
  cc_corosync :: 'c

definition nodelist_key :: "nat \<Rightarrow> string \<Rightarrow> string" where
  "nodelist_key node_idx field = ''nodelist.node.'' @ decimal node_idx @ ''.'' @ field"

text \<open>One turn of the loop over the nodes: the end of the list, nothing, or a node.\<close>

definition read_node :: "(string \<Rightarrow> CsError + cmap_data) \<Rightarrow> nat \<Rightarrow> (u32 \<times> string \<times> string) option option" where
  "read_node get node_idx =
     (let found = (\<lambda>nodeid.
            Some (Some (nodeid,
              (case get (nodelist_key node_idx ''name'') of Inr (Text s) \<Rightarrow> s | _ \<Rightarrow> ''node'' @ decimal (unat nodeid)),
              (case get (nodelist_key node_idx ''ring0_addr'') of Inr (Text s) \<Rightarrow> s | _ \<Rightarrow> [])))) in
      case get (nodelist_key node_idx ''nodeid'') of
        Inr (UInt32 i) \<Rightarrow> found i
      | Inr (UInt8 i) \<Rightarrow> found (ucast i)
      | Inr (UInt16 i) \<Rightarrow> found (ucast i)
      | Inl e \<Rightarrow> if e = CsErrNotExist then None else Some None
      | Inr _ \<Rightarrow> Some None)"

fun read_nodes :: "(string \<Rightarrow> CsError + cmap_data) \<Rightarrow> nat list \<Rightarrow> (u32 \<times> string \<times> string) list" where
  "read_nodes get [] = []"
| "read_nodes get (i # is) =
     (case read_node get i of
        None \<Rightarrow> []
      | Some None \<Rightarrow> read_nodes get is
      | Some (Some node) \<Rightarrow> node # read_nodes get is)"

definition read_cluster_nodes :: "(string \<Rightarrow> CsError + cmap_data) \<Rightarrow> string \<Rightarrow> u64 \<Rightarrow> Status \<Rightarrow> Status" where
  "read_cluster_nodes get cluster_name config_version status =
     update_cluster_info cluster_name config_version (read_nodes get [0..<256]) status"

definition read_cluster_config :: "(string \<Rightarrow> CsError + cmap_data) \<Rightarrow> Status \<Rightarrow> (unit, unit) res \<times> Status" where
  "read_cluster_config get status =
     (let config_version =
        (case get ''totem.config_version'' of
           Inr (UInt64 v) \<Rightarrow> v | Inr (UInt32 v) \<Rightarrow> ucast v | Inr (UInt16 v) \<Rightarrow> ucast v | Inr (UInt8 v) \<Rightarrow> ucast v | _ \<Rightarrow> 0) in
      case get ''totem.cluster_name'' of
        Inr (Text cluster_name) \<Rightarrow> (Ok (), read_cluster_nodes get cluster_name config_version status)
      | _ \<Rightarrow> (Err (), status))"

definition track_callback :: "u64 \<Rightarrow> bool \<Rightarrow> bool" where
  "track_callback user_data changes_detected = (if user_data = 0 then changes_detected else True)"

definition config_initialize :: "'c cmap_api \<Rightarrow> 'c ClusterConfigService \<Rightarrow> (ServiceError, int) res \<times> 'c ClusterConfigService" where
  "config_initialize ca s =
     (case ca_initialize ca (cc_corosync s) of
        (None, c1) \<Rightarrow> (Err InitializationFailed, s\<lparr>cc_corosync := c1\<rparr>)
      | (Some h, c1) \<Rightarrow>
          (case ca_track_add ca h ''nodelist.node.'' (cc_self s) c1 of
             (None, c2) \<Rightarrow> (Err InitializationFailed, s\<lparr>cc_corosync := ca_finalize ca h c2\<rparr>)
           | (Some nodelist_track, c2) \<Rightarrow>
               (case ca_track_add ca h ''totem.config_version'' (cc_self s) c2 of
                  (None, c3) \<Rightarrow>
                    (Err InitializationFailed, s\<lparr>cc_corosync := ca_finalize ca h (ca_track_delete ca h nodelist_track c3)\<rparr>)
                | (Some version_track, c3) \<Rightarrow>
                    (case ca_fd_get ca h c3 of
                       None \<Rightarrow>
                         (Err InitializationFailed,
                          s\<lparr>cc_corosync := ca_finalize ca h (ca_track_delete ca h nodelist_track (ca_track_delete ca h version_track c3))\<rparr>)
                     | Some fd \<Rightarrow>
                         (Ok fd, s\<lparr>cc_status := snd (read_cluster_config (\<lambda>k. ca_get ca h k c3) (cc_status s)),
                                   cc_cmap_handle := Some h, cc_nodelist_track_handle := Some nodelist_track,
                                   cc_version_track_handle := Some version_track, cc_corosync := c3\<rparr>)))))"

definition config_dispatch :: "'c cmap_api \<Rightarrow> 'c ClusterConfigService \<Rightarrow> (ServiceError, bool) res \<times> 'c ClusterConfigService" where
  "config_dispatch ca s =
     (case cc_cmap_handle s of
        None \<Rightarrow> (Err DispatchFailed, s)
      | Some h \<Rightarrow>
          (case ca_dispatch ca h (cc_corosync s) of
             (e, calls, c1) \<Rightarrow>
               let s1 = s\<lparr>cc_changes_detected := fold track_callback calls (cc_changes_detected s), cc_corosync := c1\<rparr> in
               (case e of
                  None \<Rightarrow>
                    if cc_changes_detected s1
                    then (Ok True, s1\<lparr>cc_changes_detected := False,
                                      cc_status := snd (read_cluster_config (\<lambda>k. ca_get ca h k c1) (cc_status s1))\<rparr>)
                    else (Ok True, s1)
                | Some err \<Rightarrow>
                    if err = CsErrTryAgain then (Ok True, s1)
                    else if err = CsErrLibrary \<or> err = CsErrBadHandle then (Ok False, s1)
                    else (Err DispatchFailed, s1))))"

definition config_finalize :: "'c cmap_api \<Rightarrow> 'c ClusterConfigService \<Rightarrow> (ServiceError, unit) res \<times> 'c ClusterConfigService" where
  "config_finalize ca s =
     (case cc_cmap_handle s of
        None \<Rightarrow> (Ok (), s)
      | Some h \<Rightarrow>
          let c1 = (case cc_version_track_handle s of None \<Rightarrow> cc_corosync s | Some t \<Rightarrow> ca_track_delete ca h t (cc_corosync s));
              c2 = (case cc_nodelist_track_handle s of None \<Rightarrow> c1 | Some t \<Rightarrow> ca_track_delete ca h t c1) in
          (Ok (), s\<lparr>cc_cmap_handle := None, cc_version_track_handle := None, cc_nodelist_track_handle := None,
                    cc_corosync := ca_finalize ca h c2\<rparr>))"

definition config_service :: "'c cmap_api \<Rightarrow> 'c ClusterConfigService Service" where
  "config_service ca =
     \<lparr>sv_name = ''cluster-config'', sv_initialize = config_initialize ca, sv_dispatch = config_dispatch ca,
      sv_finalize = config_finalize ca, sv_timer_period = None, sv_timer_callback = (\<lambda>s. (Ok (), s))\<rparr>"

section \<open>Process groups\<close>

datatype cpg_call =
    DeliverCall "u64 option" u32 u32 u32 "byte list" \<comment> \<open>context, time, node, process, message\<close>
  | ConfchgCall "u64 option" u32 u64 "(u32 \<times> u32) list" \<comment> \<open>context, times, members\<close>

record 'c cpg_api =
  cg_initialize :: "'c \<Rightarrow> handle option \<times> 'c"
  cg_context_set :: "handle \<Rightarrow> 'c \<Rightarrow> bool \<times> 'c"
  cg_local_get :: "handle \<Rightarrow> 'c \<Rightarrow> u32 option"
  cg_join :: "handle \<Rightarrow> string \<Rightarrow> 'c \<Rightarrow> bool \<times> 'c"
  cg_leave :: "handle \<Rightarrow> string \<Rightarrow> 'c \<Rightarrow> 'c"
  cg_dispatch :: "handle \<Rightarrow> 'c \<Rightarrow> CsError option \<times> cpg_call list \<times> 'c"
  cg_fd_get :: "handle \<Rightarrow> 'c \<Rightarrow> int option"
  cg_finalize :: "handle \<Rightarrow> 'c \<Rightarrow> 'c"
  cg_now :: "'c \<Rightarrow> u32"

text \<open>The service, the state machine that it drives and the application of that machine.\<close>

record ('m, 's, 'c) DfsmService =
  gs_group :: string \<comment> \<open>\<open>cluster_name\<close> of the state machine\<close>
  gs_dfsm :: "'m Dfsm"
  gs_app :: 's
  gs_cpg_service :: "handle option"
  gs_fd :: "int option"
  gs_corosync :: 'c

definition handler_found :: "u64 option \<Rightarrow> bool" where
  "handler_found context = (case context of None \<Rightarrow> False | Some p \<Rightarrow> p \<noteq> 0 \<and> p mod 8 = 0)"

text \<open>\<open>None\<close>: the callback does not return.\<close>

definition cpg_callback :: "'m env \<Rightarrow> ('m, 's) Callbacks \<Rightarrow> cpg_call \<Rightarrow> 'm Dfsm \<times> 's \<Rightarrow> ('m Dfsm \<times> 's) option" where
  "cpg_callback en cb call ds =
     (case call of
        DeliverCall context now nodeid pid msg \<Rightarrow>
          if handler_found context
          then (case on_deliver en cb now nodeid pid msg ds of Ok ds' \<Rightarrow> Some ds' | _ \<Rightarrow> None)
          else Some ds
      | ConfchgCall context now now_secs members \<Rightarrow>
          if handler_found context
          then (case on_confchg en cb now now_secs members ds of
                  (Deadlock, _) \<Rightarrow> None | (Panicked, _) \<Rightarrow> None | (_, ds') \<Rightarrow> Some ds')
          else Some ds)"

fun cpg_callbacks :: "'m env \<Rightarrow> ('m, 's) Callbacks \<Rightarrow> cpg_call list \<Rightarrow> 'm Dfsm \<times> 's \<Rightarrow> ('m Dfsm \<times> 's) option" where
  "cpg_callbacks en cb [] ds = Some ds"
| "cpg_callbacks en cb (call # calls) ds = Option.bind (cpg_callback en cb call ds) (cpg_callbacks en cb calls)"

definition cpg_dispatch ::
  "'c cpg_api \<Rightarrow> 'm env \<Rightarrow> ('m, 's) Callbacks \<Rightarrow> handle \<Rightarrow> ('m, 's, 'c) DfsmService
   \<Rightarrow> (CsError, unit) res \<times> ('m, 's, 'c) DfsmService" where
  "cpg_dispatch cg en cb h s =
     (case cg_dispatch cg h (gs_corosync s) of
        (e, calls, c1) \<Rightarrow>
          (case cpg_callbacks en cb calls (gs_dfsm s, gs_app s) of
             None \<Rightarrow> (Panic, s\<lparr>gs_corosync := c1\<rparr>)
           | Some (d, a) \<Rightarrow>
               ((case e of None \<Rightarrow> Ok () | Some err \<Rightarrow> Err err), s\<lparr>gs_dfsm := d, gs_app := a, gs_corosync := c1\<rparr>)))"

definition cpg_service_new :: "'c cpg_api \<Rightarrow> 'c \<Rightarrow> handle option \<times> 'c" where
  "cpg_service_new cg c =
     (case cg_initialize cg c of
        (None, c1) \<Rightarrow> (None, c1)
      | (Some h, c1) \<Rightarrow>
          (case cg_context_set cg h c1 of (False, c2) \<Rightarrow> (None, cg_finalize cg h c2) | (True, c2) \<Rightarrow> (Some h, c2)))"

definition group_string :: "string \<Rightarrow> string" where
  "group_string group_name = group_name @ [CHR 0x00]"

definition init_cpg ::
  "'c cpg_api \<Rightarrow> 'm env \<Rightarrow> ('m, 's) Callbacks \<Rightarrow> ('m, 's, 'c) DfsmService \<Rightarrow> (unit, unit) res \<times> ('m, 's, 'c) DfsmService" where
  "init_cpg cg en cb s =
     (case cpg_service_new cg (gs_corosync s) of
        (None, c1) \<Rightarrow> (Err (), s\<lparr>gs_corosync := c1\<rparr>)
      | (Some h, c1) \<Rightarrow>
          (case cg_local_get cg h c1 of
             None \<Rightarrow> (Err (), s\<lparr>gs_corosync := cg_finalize cg h c1\<rparr>)
           | Some nodeid \<Rightarrow>
               let d1 = (gs_dfsm s)\<lparr>d_nodeid := nodeid\<rparr> in
               (case cg_join cg h (group_string (gs_group s)) c1 of
                  (False, c2) \<Rightarrow> (Err (), s\<lparr>gs_dfsm := d1, gs_corosync := cg_finalize cg h c2\<rparr>)
                | (True, c2) \<Rightarrow>
                    let c3 = (case gs_cpg_service s of None \<Rightarrow> c2 | Some old \<Rightarrow> cg_finalize cg old c2) in
                    (case cpg_dispatch cg en cb h
                            (s\<lparr>gs_dfsm := d1\<lparr>d_joined := True\<rparr>, gs_cpg_service := Some h, gs_corosync := c3\<rparr>) of
                       (Panic, s1) \<Rightarrow> (Panic, s1)
                     | (_, s1) \<Rightarrow> (Ok (), s1)))))"

definition dispatch_events ::
  "'c cpg_api \<Rightarrow> 'm env \<Rightarrow> ('m, 's) Callbacks \<Rightarrow> ('m, 's, 'c) DfsmService \<Rightarrow> (CsError, unit) res \<times> ('m, 's, 'c) DfsmService" where
  "dispatch_events cg en cb s = (case gs_cpg_service s of None \<Rightarrow> (Ok (), s) | Some h \<Rightarrow> cpg_dispatch cg en cb h s)"

definition dfsm_fd_get :: "'c cpg_api \<Rightarrow> ('m, 's, 'c) DfsmService \<Rightarrow> int option" where
  "dfsm_fd_get cg s = Option.bind (gs_cpg_service s) (\<lambda>h. cg_fd_get cg h (gs_corosync s))"

definition stop_services :: "'c cpg_api \<Rightarrow> ('m, 's, 'c) DfsmService \<Rightarrow> ('m, 's, 'c) DfsmService" where
  "stop_services cg s =
     (case gs_cpg_service s of
        None \<Rightarrow> s
      | Some h \<Rightarrow>
          s\<lparr>gs_cpg_service := None, gs_dfsm := (gs_dfsm s)\<lparr>d_joined := False\<rparr>,
            gs_corosync := cg_finalize cg h (cg_leave cg h (group_string (gs_group s)) (gs_corosync s))\<rparr>)"

definition group_initialize ::
  "'c cpg_api \<Rightarrow> 'm env \<Rightarrow> ('m, 's) Callbacks \<Rightarrow> ('m, 's, 'c) DfsmService \<Rightarrow> (ServiceError, int) res \<times> ('m, 's, 'c) DfsmService" where
  "group_initialize cg en cb s =
     (case init_cpg cg en cb s of
        (Panic, s1) \<Rightarrow> (Panic, s1)
      | (Err _, s1) \<Rightarrow> (Err InitializationFailed, s1)
      | (Ok _, s1) \<Rightarrow>
          (case dfsm_fd_get cg s1 of
             None \<Rightarrow> (Err InitializationFailed, stop_services cg s1)
           | Some fd \<Rightarrow> (Ok fd, s1\<lparr>gs_fd := Some fd\<rparr>)))"

definition group_dispatch ::
  "'c cpg_api \<Rightarrow> 'm env \<Rightarrow> ('m, 's) Callbacks \<Rightarrow> ('m, 's, 'c) DfsmService \<Rightarrow> (ServiceError, bool) res \<times> ('m, 's, 'c) DfsmService" where
  "group_dispatch cg en cb s =
     (case dispatch_events cg en cb s of
        (Ok _, s1) \<Rightarrow> (Ok True, s1)
      | (Err err, s1) \<Rightarrow> (if err = CsErrLibrary \<or> err = CsErrBadHandle then Ok False else Err DispatchFailed, s1)
      | (Panic, s1) \<Rightarrow> (Panic, s1))"

definition group_finalize :: "'c cpg_api \<Rightarrow> ('m, 's, 'c) DfsmService \<Rightarrow> (ServiceError, unit) res \<times> ('m, 's, 'c) DfsmService" where
  "group_finalize cg s = (Ok (), stop_services cg (s\<lparr>gs_fd := None\<rparr>))"

definition database_timer ::
  "'c cpg_api \<Rightarrow> 'm env \<Rightarrow> ('m, 's, 'c) DfsmService \<Rightarrow> (ServiceError, unit) res \<times> ('m, 's, 'c) DfsmService" where
  "database_timer cg en s = (Ok (), s\<lparr>gs_dfsm := snd (verify_request en (cg_now cg (gs_corosync s)) (gs_dfsm s))\<rparr>)"

definition database_service :: "'c cpg_api \<Rightarrow> 'm env \<Rightarrow> ('m, 's) Callbacks \<Rightarrow> ('m, 's, 'c) DfsmService Service" where
  "database_service cg en cb =
     \<lparr>sv_name = ''cluster-database'', sv_initialize = group_initialize cg en cb, sv_dispatch = group_dispatch cg en cb,
      sv_finalize = group_finalize cg, sv_timer_period = Some (3600 * 10 ^ 9), sv_timer_callback = database_timer cg en\<rparr>"

definition status_sync_service :: "'c cpg_api \<Rightarrow> 'm env \<Rightarrow> ('m, 's) Callbacks \<Rightarrow> ('m, 's, 'c) DfsmService Service" where
  "status_sync_service cg en cb =
     \<lparr>sv_name = ''status-sync'', sv_initialize = group_initialize cg en cb, sv_dispatch = group_dispatch cg en cb,
      sv_finalize = group_finalize cg, sv_timer_period = None, sv_timer_callback = (\<lambda>s. (Ok (), s))\<rparr>"

end
