(* ===== verification/Service_Props.thy ===== *)
theory Service_Props
  imports Corosync_Services
begin

text \<open>
  The services of Corosync under the manager: each of them meets the contract \<open>managed_service\<close>, so a
  service holds exactly one connection while it runs and none otherwise. The attempts to connect, and what
  happens after a reconnection.

  The laws of the libraries say which handles are open: \<open>initialize\<close> opens one, \<open>finalize\<close> closes it, and
  nothing else changes them.
\<close>

section \<open>Laws\<close>

definition quorum_laws :: "'c quorum_api \<Rightarrow> ('c \<Rightarrow> handle set) \<Rightarrow> bool" where
  "quorum_laws qa handles \<longleftrightarrow>
     (\<forall>c h c'. qa_initialize qa c = (Some h, c') \<longrightarrow> handles c' = insert h (handles c)) \<and>
     (\<forall>c c'. qa_initialize qa c = (None, c') \<longrightarrow> handles c' = handles c) \<and>
     (\<forall>h p c. handles (snd (qa_context_set qa h p c)) = handles c) \<and>
     (\<forall>h c. handles (snd (qa_trackstart qa h c)) = handles c) \<and>
     (\<forall>h c. handles (snd (snd (qa_dispatch_one qa h c))) = handles c) \<and>
     (\<forall>h c. handles (snd (snd (qa_dispatch_all qa h c))) = handles c) \<and>
     (\<forall>h c. handles (qa_finalize qa h c) = handles c - {h})"

definition cmap_laws :: "'c cmap_api \<Rightarrow> ('c \<Rightarrow> handle set) \<Rightarrow> bool" where
  "cmap_laws ca handles \<longleftrightarrow>
     (\<forall>c h c'. ca_initialize ca c = (Some h, c') \<longrightarrow> handles c' = insert h (handles c)) \<and>
     (\<forall>c c'. ca_initialize ca c = (None, c') \<longrightarrow> handles c' = handles c) \<and>
     (\<forall>h k p c. handles (snd (ca_track_add ca h k p c)) = handles c) \<and>
     (\<forall>h t c. handles (ca_track_delete ca h t c) = handles c) \<and>
     (\<forall>h c. handles (snd (snd (ca_dispatch ca h c))) = handles c) \<and>
     (\<forall>h c. handles (ca_finalize ca h c) = handles c - {h})"

definition cpg_laws :: "'c cpg_api \<Rightarrow> ('c \<Rightarrow> handle set) \<Rightarrow> bool" where
  "cpg_laws cg handles \<longleftrightarrow>
     (\<forall>c h c'. cg_initialize cg c = (Some h, c') \<longrightarrow> handles c' = insert h (handles c)) \<and>
     (\<forall>c c'. cg_initialize cg c = (None, c') \<longrightarrow> handles c' = handles c) \<and>
     (\<forall>h c. handles (snd (cg_context_set cg h c)) = handles c) \<and>
     (\<forall>h g c. handles (snd (cg_join cg h g c)) = handles c) \<and>
     (\<forall>h g c. handles (cg_leave cg h g c) = handles c) \<and>
     (\<forall>h c. handles (snd (snd (cg_dispatch cg h c))) = handles c) \<and>
     (\<forall>h c. handles (cg_finalize cg h c) = handles c - {h})"


section \<open>Connected and disconnected services\<close>

definition quorum_open :: "('c \<Rightarrow> handle set) \<Rightarrow> 'c QuorumService \<Rightarrow> bool" where
  "quorum_open handles s \<longleftrightarrow> (\<exists>h. qs_quorum_handle s = Some h \<and> handles (qs_corosync s) = {h})"

definition quorum_shut :: "('c \<Rightarrow> handle set) \<Rightarrow> 'c QuorumService \<Rightarrow> bool" where
  "quorum_shut handles s \<longleftrightarrow>
     qs_quorum_handle s = None \<and> handles (qs_corosync s) = {} \<and> \<not> st_quorate (qs_status s)"

definition config_open :: "('c \<Rightarrow> handle set) \<Rightarrow> 'c ClusterConfigService \<Rightarrow> bool" where
  "config_open handles s \<longleftrightarrow> (\<exists>h. cc_cmap_handle s = Some h \<and> handles (cc_corosync s) = {h})"

definition config_shut :: "('c \<Rightarrow> handle set) \<Rightarrow> 'c ClusterConfigService \<Rightarrow> bool" where
  "config_shut handles s \<longleftrightarrow> cc_cmap_handle s = None \<and> handles (cc_corosync s) = {}"

definition group_open :: "('c \<Rightarrow> handle set) \<Rightarrow> ('m, 's, 'c) DfsmService \<Rightarrow> bool" where
  "group_open handles s \<longleftrightarrow> (\<exists>h. gs_cpg_service s = Some h \<and> handles (gs_corosync s) = {h})"

definition group_shut :: "('c \<Rightarrow> handle set) \<Rightarrow> ('m, 's, 'c) DfsmService \<Rightarrow> bool" where
  "group_shut handles s \<longleftrightarrow> gs_cpg_service s = None \<and> handles (gs_corosync s) = {} \<and> gs_fd s = None"

lemma quorum_law_simps:
  assumes "quorum_laws qa handles"
  shows "qa_initialize qa c = (Some h, c') \<Longrightarrow> handles c' = insert h (handles c)"
    "qa_initialize qa c = (None, c') \<Longrightarrow> handles c' = handles c"
    "qa_context_set qa h p c = (b, c') \<Longrightarrow> handles c' = handles c"
    "qa_trackstart qa h c = (b, c') \<Longrightarrow> handles c' = handles c"
    "qa_dispatch_one qa h c = (e, calls, c') \<Longrightarrow> handles c' = handles c"
    "qa_dispatch_all qa h c = (e, calls, c') \<Longrightarrow> handles c' = handles c"
    "handles (qa_finalize qa h c) = handles c - {h}"
  using assms unfolding quorum_laws_def by (metis sndI)+

lemma cmap_law_simps:
  assumes "cmap_laws ca handles"
  shows "ca_initialize ca c = (Some h, c') \<Longrightarrow> handles c' = insert h (handles c)"
    "ca_initialize ca c = (None, c') \<Longrightarrow> handles c' = handles c"
    "ca_track_add ca h k p c = (t, c') \<Longrightarrow> handles c' = handles c"
    "handles (ca_track_delete ca h tr c) = handles c"
    "ca_dispatch ca h c = (e, calls, c') \<Longrightarrow> handles c' = handles c"
    "handles (ca_finalize ca h c) = handles c - {h}"
  using assms unfolding cmap_laws_def by (metis sndI)+

lemma cpg_law_simps:
  assumes "cpg_laws cg handles"
  shows "cg_initialize cg c = (Some h, c') \<Longrightarrow> handles c' = insert h (handles c)"
    "cg_initialize cg c = (None, c') \<Longrightarrow> handles c' = handles c"
    "cg_context_set cg h c = (b, c') \<Longrightarrow> handles c' = handles c"
    "cg_join cg h g c = (b, c') \<Longrightarrow> handles c' = handles c"
    "handles (cg_leave cg h g c) = handles c"
    "cg_dispatch cg h c = (e, calls, c') \<Longrightarrow> handles c' = handles c"
    "handles (cg_finalize cg h c) = handles c - {h}"
  using assms unfolding cpg_laws_def by (metis sndI)+

section \<open>The contract of each service\<close>

interpretation quorum: managed_service "quorum_service qa"
  "\<lambda>s. quorum_laws qa handles \<longrightarrow> quorum_open handles s" "\<lambda>s. quorum_laws qa handles \<longrightarrow> quorum_shut handles s"
  for qa handles
proof (unfold_locales, goal_cases)
  case (1 s fd s')
  then show ?case
    using quorum_law_simps [of qa handles]
    by (force simp: quorum_service_def quorum_initialize_def quorum_shut_def quorum_open_def Let_def
        split: prod.splits option.splits bool.splits)
next
  case (2 s e s')
  then show ?case
    using quorum_law_simps [of qa handles]
    by (force simp: quorum_service_def quorum_initialize_def quorum_shut_def quorum_open_def Let_def
        split: prod.splits option.splits bool.splits)
next
  case (3 s r s')
  then show ?case
    using quorum_law_simps(6) [of qa handles]
    by (fastforce simp: quorum_service_def quorum_dispatch_def quorum_open_def Let_def split: prod.splits option.splits)
next
  case (4 s r s')
  then show ?case by (simp add: quorum_service_def)
next
  case (5 s r s')
  then show ?case
    using quorum_law_simps(7) [of qa handles]
    by (auto simp: quorum_service_def quorum_finalize_def quorum_shut_def quorum_open_def set_quorate_def split: option.splits)
qed

interpretation config: managed_service "config_service ca"
  "\<lambda>s. cmap_laws ca handles \<longrightarrow> config_open handles s" "\<lambda>s. cmap_laws ca handles \<longrightarrow> config_shut handles s"
  for ca handles
proof (unfold_locales, goal_cases)
  case (1 s fd s')
  then show ?case
    using cmap_law_simps [of ca handles]
    by (force simp: config_service_def config_initialize_def config_shut_def config_open_def Let_def
        split: prod.splits option.splits)
next
  case (2 s e s')
  then show ?case
    using cmap_law_simps [of ca handles]
    by (force simp: config_service_def config_initialize_def config_shut_def config_open_def Let_def
        split: prod.splits option.splits)
next
  case (3 s r s')
  then show ?case
    using cmap_law_simps(5) [of ca handles]
    by (fastforce simp: config_service_def config_dispatch_def config_open_def Let_def split: prod.splits option.splits if_splits)
next
  case (4 s r s')
  then show ?case by (simp add: config_service_def)
next
  case (5 s r s')
  then show ?case
    using cmap_law_simps(4,6) [of ca handles]
    by (auto simp: config_service_def config_finalize_def config_shut_def config_open_def Let_def split: option.splits)
qed

text \<open>The two groups share their operations.\<close>

lemma cpg_dispatch_keeps:
  assumes "cpg_laws cg handles" "cpg_dispatch cg en cb h s = (r, s')"
  shows "gs_cpg_service s' = gs_cpg_service s \<and> handles (gs_corosync s') = handles (gs_corosync s) \<and> gs_fd s' = gs_fd s"
  using assms(2) cpg_law_simps(6) [OF assms(1)]
  by (fastforce simp: cpg_dispatch_def split: prod.splits option.splits)

lemma init_cpg_opens:
  assumes laws: "cpg_laws cg handles" and s: "group_shut handles s" and i: "init_cpg cg en cb s = (Ok u, s')"
  shows "group_open handles s'"
proof -
  obtain h c1 where n: "cpg_service_new cg (gs_corosync s) = (Some h, c1)" and c1: "handles c1 = {h}"
    using i s cpg_law_simps [OF laws]
    by (force simp: init_cpg_def cpg_service_new_def group_shut_def split: prod.splits option.splits bool.splits)
  obtain nodeid c2 where j: "cg_local_get cg h c1 = Some nodeid" "cg_join cg h (group_string (gs_group s)) c1 = (True, c2)"
    using i n by (auto simp: init_cpg_def Let_def split: prod.splits option.splits bool.splits)
  then show ?thesis
    using i n s c1 cpg_law_simps(4) [OF laws j(2)] cpg_dispatch_keeps [OF laws]
    by (fastforce simp: init_cpg_def Let_def group_shut_def group_open_def split: prod.splits res.splits)
qed

lemma init_cpg_fails:
  assumes laws: "cpg_laws cg handles" and s: "group_shut handles s" and i: "init_cpg cg en cb s = (Err u, s')"
  shows "group_shut handles s'"
  using i s cpg_law_simps [OF laws]
  by (force simp: init_cpg_def cpg_service_new_def group_shut_def Let_def split: prod.splits option.splits bool.splits res.splits)

lemma stop_services_shuts:
  assumes "cpg_laws cg handles" "group_open handles s \<or> group_shut handles s" "gs_fd s = None"
  shows "group_shut handles (stop_services cg s)"
  using assms(2,3) cpg_law_simps(5,7) [OF assms(1)]
  by (auto simp: stop_services_def group_open_def group_shut_def split: option.splits)

lemma group_fd_None: "init_cpg cg en cb s = (r, s') \<Longrightarrow> cpg_laws cg handles \<Longrightarrow> gs_fd s' = gs_fd s"
  using cpg_dispatch_keeps [of cg handles]
  by (fastforce simp: init_cpg_def Let_def split: prod.splits option.splits bool.splits res.splits)

lemma group_initialize_contract:
  assumes laws: "cpg_laws cg handles" and s: "group_shut handles s" and i: "group_initialize cg en cb s = (r, s')"
  shows "(\<forall>fd. r = Ok fd \<longrightarrow> group_open handles s') \<and> (\<forall>e. r = Err e \<longrightarrow> group_shut handles s')"
proof -
  obtain r1 s1 where c: "init_cpg cg en cb s = (r1, s1)" by fastforce
  have fd: "gs_fd s1 = None" using group_fd_None [OF c laws] s by (simp add: group_shut_def)
  show ?thesis
  proof (cases r1)
    case (Ok u)
    have o: "group_open handles s1" using init_cpg_opens [OF laws s] c Ok by simp
    then have "group_shut handles (stop_services cg s1)" using stop_services_shuts [OF laws _ fd] by simp
    then show ?thesis
      using i c Ok o by (auto simp: group_initialize_def group_open_def split: option.splits)
  next
    case (Err e)
    then show ?thesis using i c init_cpg_fails [OF laws s] by (auto simp: group_initialize_def)
  next
    case Panic
    then show ?thesis using i c by (auto simp: group_initialize_def)
  qed
qed

lemma group_dispatch_contract:
  "cpg_laws cg handles \<Longrightarrow> group_open handles s \<Longrightarrow> group_dispatch cg en cb s = (r, s') \<Longrightarrow> group_open handles s'"
  using cpg_dispatch_keeps [of cg handles]
  by (fastforce simp: group_dispatch_def dispatch_events_def group_open_def split: prod.splits res.splits option.splits)

lemma group_finalize_contract:
  "cpg_laws cg handles \<Longrightarrow> group_open handles s \<or> group_shut handles s \<Longrightarrow> group_finalize cg s = (r, s') \<Longrightarrow> group_shut handles s'"
  using stop_services_shuts [of cg handles "s\<lparr>gs_fd := None\<rparr>"]
  by (auto simp: group_finalize_def group_open_def group_shut_def)

lemmas group_contract = group_initialize_contract group_dispatch_contract group_finalize_contract

interpretation database: managed_service "database_service cg en cb"
  "\<lambda>s. cpg_laws cg handles \<longrightarrow> group_open handles s" "\<lambda>s. cpg_laws cg handles \<longrightarrow> group_shut handles s"
  for cg en cb handles
  by unfold_locales (use group_contract [of cg handles] in
    \<open>fastforce simp: database_service_def database_timer_def group_open_def\<close>)+

interpretation status_sync: managed_service "status_sync_service cg en cb"
  "\<lambda>s. cpg_laws cg handles \<longrightarrow> group_open handles s" "\<lambda>s. cpg_laws cg handles \<longrightarrow> group_shut handles s"
  for cg en cb handles
  by unfold_locales (use group_contract [of cg handles] in \<open>fastforce simp: status_sync_service_def\<close>)+

section \<open>Properties\<close>

lemma sorted_wrt_last_ge:
  fixes xs :: "nat list"
  assumes "sorted_wrt P xs" "x \<in> set xs" "\<And>a b. P a b \<Longrightarrow> a \<le> b"
  shows "x \<le> last xs"
  using assms(1,2) by (induction xs) (use assms(3) in \<open>auto split: if_splits\<close>)

lemma quorum_no_panic:
  "fst (quorum_initialize qa s) \<noteq> Panic" "fst (quorum_dispatch qa s) \<noteq> Panic" "fst (quorum_finalize qa s) \<noteq> Panic"
  by (auto simp: quorum_initialize_def quorum_dispatch_def quorum_finalize_def Let_def split: prod.splits option.splits bool.splits)

lemma quorum_step_alive:
  assumes "service_step (quorum_service qa) po t e t'" "tk_phase t \<noteq> Dead"
  shows "tk_phase t' \<noteq> Dead"
proof -
  have f: "tk_phase (finalize_service (quorum_service qa) po x) = tk_phase x" for x
    using quorum_no_panic(3) [of qa "tk_service x"]
    by (auto simp: finalize_service_def quorum_service_def split: prod.splits res.splits)
  show ?thesis
    using assms
  proof cases
    case (attempt now)
    then show ?thesis
      using quorum_no_panic(1) [of qa "tk_service t"] f
      by (auto simp: initialize_service_def quorum_service_def Let_def split: prod.splits res.splits bool.splits)
  next
    case (timer fd)
    then show ?thesis by (simp add: timer_due_def quorum_service_def)
  next
    case (readable fd)
    then show ?thesis
      using quorum_no_panic(2) [of qa "tk_service t"] f
      by (auto simp: run_dispatch_def reinitialize_def quorum_service_def split: prod.splits res.splits bool.splits)
  qed (use assms f in \<open>auto simp: reinitialize_def shutdown_service_def Let_def\<close>)
qed

lemma quorum_run_alive:
  "service_run (quorum_service qa) po t es t' \<Longrightarrow> tk_phase t \<noteq> Dead \<Longrightarrow> tk_phase t' \<noteq> Dead"
  by (induction rule: service_run.induct) (auto dest: quorum_step_alive)

text \<open>
  A library whose connection breaks at every dispatch, and an event loop with a list of watched
  descriptors. Handle and descriptor have the same numbers in every connection.
\<close>

definition sample_quorum :: "handle list quorum_api" where
  "sample_quorum = \<lparr>qa_initialize = (\<lambda>c. (Some 1, 1 # c)), qa_context_set = (\<lambda>h p c. (True, c)), qa_trackstart = (\<lambda>h c. (True, c)),
     qa_fd_get = (\<lambda>h c. Some 7), qa_dispatch_one = (\<lambda>h c. (None, [(True, Some 4096)], c)),
     qa_dispatch_all = (\<lambda>h c. (Some CsErrLibrary, [], c)), qa_finalize = (\<lambda>h c. removeAll h c)\<rparr>"

definition sample_poller :: "int list Poller" where
  "sample_poller = \<lparr>po_register = (\<lambda>fd p. if fd \<in> set p then (False, p) else (True, fd # p)),
     po_deregister = (\<lambda>fd p. removeAll fd p), po_watched = set\<rparr>"

definition sample_service :: "handle list QuorumService" where
  "sample_service = \<lparr>qs_self = 4096, qs_quorum_handle = None, qs_status = status_new ''n'' 0, qs_context_ptr = None, qs_corosync = []\<rparr>"

lemma sample_quorum_laws: "quorum_laws sample_quorum set"
  by (auto simp: quorum_laws_def sample_quorum_def)

lemma sample_poller_laws: "poller_laws sample_poller"
  by (auto simp: poller_laws_def sample_poller_def split: if_splits)

lemma sample_shut: "quorum_shut set sample_service"
  by (simp add: quorum_shut_def sample_service_def status_new_def)

text \<open>After the first attempt the service is connected and quorate.\<close>

definition sample_connected :: "(handle list QuorumService, int list) task" where
  "sample_connected = initialize_service (quorum_service sample_quorum) sample_poller 0 (task_start 0 sample_service [])"

lemma sample_connected_eq:
  "sample_connected =
     \<lparr>tk_phase = Active, tk_running = True, tk_fd = Some 7, tk_last_timer = None, tk_last_init = Some 0, tk_now = 0,
      tk_service = sample_service\<lparr>qs_quorum_handle := Some 1, qs_status := set_quorate True (status_new ''n'' 0),
                                  qs_context_ptr := Some 4096, qs_corosync := [1]\<rparr>, tk_poll = [7]\<rparr>"
  by (simp add: sample_connected_def initialize_service_def quorum_service_def quorum_initialize_def sample_quorum_def
      sample_poller_def sample_service_def task_start_def drop_fd_def quorum_notification_def Let_def)

lemma sample_attempt:
  "service_run (quorum_service sample_quorum) sample_poller (task_start 0 sample_service []) [Attempt 0] sample_connected"
  unfolding sample_connected_def
  by (rule run_snoc [OF run_nil, simplified], rule attempt) (simp_all add: task_start_def retry_due_def)

text \<open>
  C24. Quorum needs a connection. Whatever Corosync answers and however connections break, the node is
  not quorate while its quorum service is not running, during reconnection and after the shutdown
  included; no connection is left open then, a running service has exactly one, and the task of the
  service does not die.
\<close>

theorem quorum_needs_connection:
  assumes "quorum_laws qa handles" and "quorum_shut handles s"
    and "service_run (quorum_service qa) po (task_start now s p) es t"
  shows "tk_phase t \<noteq> Dead \<and>
    (if tk_running t
     then \<exists>h. qs_quorum_handle (tk_service t) = Some h \<and> handles (qs_corosync (tk_service t)) = {h}
     else \<not> st_quorate (qs_status (tk_service t)) \<and> handles (qs_corosync (tk_service t)) = {}) \<and>
    (Shutdown \<in> set es \<longrightarrow> \<not> tk_running t)"
proof -
  have alive: "tk_phase t \<noteq> Dead"
    using quorum_run_alive [OF assms(3)] by (simp add: task_start_def)
  have stopped: "tk_phase t = Stopped \<longrightarrow> \<not> tk_running t" "Shutdown \<in> set es \<longrightarrow> tk_phase t \<noteq> Active"
    using stopped_run [OF assms(3)] by (simp_all add: task_start_def)
  note inv = quorum.reachable_task [OF assms(3), of handles]
  show ?thesis
    using inv assms(1,2) alive stopped
    by (cases "tk_phase t") (auto simp: quorum_open_def quorum_shut_def)
qed

theorem quorum_needs_connection_witness:
  "\<exists>t. service_run (quorum_service sample_quorum) sample_poller (task_start 0 sample_service []) [Attempt 0, Readable] t \<and>
     st_quorate (qs_status (tk_service sample_connected)) \<and> \<not> st_quorate (qs_status (tk_service t)) \<and>
     qs_corosync (tk_service t) = []"
proof -
  let ?sv = "quorum_service sample_quorum"
  let ?t = "run_dispatch ?sv sample_poller sample_connected"
  have "service_step ?sv sample_poller sample_connected Readable ?t"
    by (rule readable) (simp_all add: sample_connected_eq timer_due_def quorum_service_def sample_poller_def)
  from run_snoc [OF sample_attempt this]
  have run: "service_run ?sv sample_poller (task_start 0 sample_service []) [Attempt 0, Readable] ?t" by simp
  have "\<not> tk_running ?t"
    by (simp add: run_dispatch_def quorum_service_def quorum_dispatch_def sample_connected_eq sample_quorum_def
        reinitialize_def Let_def)
  moreover note quorum_needs_connection [OF sample_quorum_laws sample_shut run]
  moreover have "st_quorate (qs_status (tk_service sample_connected))" by (simp add: sample_connected_eq set_quorate_def)
  ultimately show ?thesis using run by auto
qed

text \<open>
  A service is initialized at most once in five seconds, however often its connection fails.
\<close>

theorem retries_are_spaced:
  assumes "service_run sv po (task_start now s p) es t"
  shows "sorted_wrt (\<lambda>t1 t2. t1 + 5 * 10 ^ 9 \<le> t2) (attempts es) \<and> (\<forall>t1 \<in> set (attempts es). now \<le> t1)"
proof -
  have "sorted_wrt (\<lambda>t1 t2. t1 + RETRY_INTERVAL \<le> t2) (attempts es) \<and> (\<forall>t1 \<in> set (attempts es). tk_now t0 \<le> t1) \<and>
      tk_now t0 \<le> tk_now t' \<and> (attempts es \<noteq> [] \<longrightarrow> tk_last_init t' = Some (last (attempts es)))"
    if "service_run sv po t0 es t'" for t0 t'
    using that
  proof (induction rule: service_run.induct)
    case (run_snoc t es t' e t'')
    note c = step_clock [OF run_snoc.hyps(2)]
    show ?case
    proof (cases "\<exists>now. e = Attempt now")
      case True
      then obtain now where e: "e = Attempt now" by blast
      have "x + RETRY_INTERVAL \<le> now" if "x \<in> set (attempts es)" for x
      proof -
        have "attempts es \<noteq> []" using that by auto
        then have l: "tk_last_init t' = Some (last (attempts es))" using run_snoc.IH by blast
        have "x \<le> last (attempts es)"
          using that run_snoc.IH by (intro sorted_wrt_last_ge [where P = "\<lambda>t1 t2. t1 + RETRY_INTERVAL \<le> t2"]) auto
        then show ?thesis using c l e by (auto simp: retry_due_def RETRY_INTERVAL_def)
      qed
      then show ?thesis using run_snoc.IH c e by (auto simp: sorted_wrt_append)
    next
      case False
      then have "attempts [e] = []" by (cases e) auto
      then show ?thesis using run_snoc.IH c False by (auto split: task_event.splits)
    qed
  qed simp
  from this [OF assms] show ?thesis by (simp add: RETRY_INTERVAL_def task_start_def)
qed

theorem retries_are_spaced_witness:
  "service_run (quorum_service sample_quorum) sample_poller (task_start 0 sample_service []) [Attempt 0] sample_connected \<and>
   sorted_wrt (\<lambda>t1 t2. t1 + 5 * 10 ^ 9 \<le> t2) (attempts [Attempt 0])"
  using retries_are_spaced [OF sample_attempt] sample_attempt by blast

text \<open>
  C38. A service that reconnects can become deaf. When its connection breaks the old registration of the
  descriptor is kept; it is dropped only after the new one was made. If the new connection has the
  descriptor number of the old one, this removes the new registration: the service counts as running, and
  however long the task goes on, no event of Corosync reaches it any more.
\<close>

theorem reconnected_service_is_deaf:
  fixes t :: "('s, 'p) task" and now :: nat
  assumes "poller_laws po" and "tk_phase t = Active" "tk_running t" "tk_fd t = Some fd"
    and "sv_dispatch sv (tk_service t) = (Ok False, s1)" "sv_finalize sv s1 = (Ok (), s2)"
    and "sv_initialize sv s2 = (Ok fd, s3)" "po_register po fd p = (True, p')"
  defines "t1 \<equiv> run_dispatch sv po t"
  defines "t2 \<equiv> initialize_service sv po now (t1\<lparr>tk_poll := p\<rparr>)"
  shows "\<not> tk_running t1 \<and> tk_running t2 \<and> tk_service t2 = s3 \<and> fd \<notin> po_watched po (tk_poll t2) \<and>
    (\<forall>es t3. service_run sv po t2 es t3 \<and> Shutdown \<notin> set es \<and> ReadFailed \<notin> set es \<longrightarrow>
       Readable \<notin> set es \<and> (sv_timer_period sv = None \<longrightarrow> tk_service t3 = s3))"
proof -
  have t1: "t1 = t\<lparr>tk_service := s2, tk_running := False\<rparr>"
    using assms(5,6) by (simp add: t1_def run_dispatch_def reinitialize_def finalize_service_def)
  have t2: "tk_phase t2 = Active" "tk_running t2" "tk_fd t2 = Some fd" "tk_service t2 = s3" "tk_poll t2 = po_deregister po fd p'"
    using assms(2,4,7,8) by (simp_all add: t2_def t1 initialize_service_def drop_fd_def Let_def)
  have w: "fd \<notin> po_watched po (tk_poll t2)" using assms(1) by (simp add: t2(5) poller_laws_def)
  then have "deaf po fd t2" using t2 by (simp add: deaf_def)
  then have "Readable \<notin> set es \<and> (sv_timer_period sv = None \<longrightarrow> tk_service t3 = s3)"
    if "service_run sv po t2 es t3" "Shutdown \<notin> set es" "ReadFailed \<notin> set es" for es t3
    using deaf_run [OF that(1) _ that(2,3)] t2(4) by simp
  then show ?thesis using t2 w by (auto simp: t1)
qed

theorem reconnected_service_is_deaf_witness:
  "let t1 = run_dispatch (quorum_service sample_quorum) sample_poller sample_connected;
       t2 = initialize_service (quorum_service sample_quorum) sample_poller (6 * 10 ^ 9) (t1\<lparr>tk_poll := []\<rparr>)
   in tk_running t2 \<and> tk_fd t2 = Some 7 \<and> 7 \<notin> po_watched sample_poller (tk_poll t2)"
proof -
  let ?sv = "quorum_service sample_quorum" and ?s = "tk_service sample_connected"
  have d: "sv_dispatch ?sv ?s = (Ok False, ?s)"
    by (simp add: quorum_service_def quorum_dispatch_def sample_quorum_def sample_connected_eq Let_def)
  have f: "sv_finalize ?sv ?s = (Ok (), sample_service)"
    by (simp add: quorum_service_def quorum_finalize_def sample_quorum_def sample_connected_eq sample_service_def set_quorate_def status_new_def)
  have i: "sv_initialize ?sv sample_service = (Ok 7, ?s)"
    by (simp add: quorum_service_def quorum_initialize_def sample_quorum_def sample_connected_eq sample_service_def
        quorum_notification_def Let_def)
  have c: "tk_phase sample_connected = Active" "tk_running sample_connected" "tk_fd sample_connected = Some 7"
    by (simp_all add: sample_connected_eq)
  have r: "po_register sample_poller 7 [] = (True, [7])" by (simp add: sample_poller_def)
  note deaf = reconnected_service_is_deaf [OF sample_poller_laws c d f i r, of "6 * 10 ^ 9"]
  have "tk_fd (initialize_service ?sv sample_poller (6 * 10 ^ 9) ((run_dispatch ?sv sample_poller sample_connected)\<lparr>tk_poll := []\<rparr>)) = Some 7"
    by (simp add: initialize_service_def run_dispatch_def reinitialize_def finalize_service_def d f i r Let_def)
  then show ?thesis using deaf by (simp add: Let_def)
qed

text \<open>The nodes of the configuration are read up to the first number without an entry, at most 256 of them.\<close>

lemma read_nodes_prefix:
  assumes "\<And>i. i < n \<Longrightarrow> get (nodelist_key (k + i) ''nodeid'') = Inr (UInt32 (ids i)) \<and>
      get (nodelist_key (k + i) ''name'') = Inr (Text (names i)) \<and> get (nodelist_key (k + i) ''ring0_addr'') = Inr (Text (ips i))"
    and "n < m \<Longrightarrow> get (nodelist_key (k + n) ''nodeid'') = Inl CsErrNotExist" and "n \<le> m"
  shows "read_nodes get [k..<k + m] = map (\<lambda>i. (ids i, names i, ips i)) [0..<n]"
  using assms
proof (induction n arbitrary: k m ids names ips)
  case 0
  then show ?case by (cases m) (simp_all add: upt_conv_Cons read_node_def del: upt_Suc)
next
  case (Suc n)
  then obtain m' where m: "m = Suc m'" by (cases m) auto
  have "read_nodes get [Suc k..<Suc k + m'] = map (\<lambda>i. (ids (Suc i), names (Suc i), ips (Suc i))) [0..<n]"
  proof (rule Suc.IH)
    show "get (nodelist_key (Suc k + i) ''nodeid'') = Inr (UInt32 (ids (Suc i))) \<and>
        get (nodelist_key (Suc k + i) ''name'') = Inr (Text (names (Suc i))) \<and>
        get (nodelist_key (Suc k + i) ''ring0_addr'') = Inr (Text (ips (Suc i)))" if "i < n" for i
      using Suc.prems(1) [of "Suc i"] that by simp
  qed (use Suc.prems(2,3) m in simp_all)
  moreover have "map (\<lambda>i. (ids i, names i, ips i)) [0..<Suc n] =
      (ids 0, names 0, ips 0) # map (\<lambda>i. (ids (Suc i), names (Suc i), ips (Suc i))) [0..<n]"
    by (simp only: upt_conv_Cons [of 0 "Suc n"] map_Suc_upt [symmetric] list.map list.map_comp comp_def zero_less_Suc One_nat_def)
  moreover have "read_node get k = Some (Some (ids 0, names 0, ips 0))"
    using Suc.prems(1) [of 0] by (simp add: read_node_def Let_def)
  ultimately show ?case by (simp add: m upt_conv_Cons del: upt_Suc)
qed

lemma cluster_nodes_are_read:
  assumes "\<And>i. i < n \<Longrightarrow> get (nodelist_key i ''nodeid'') = Inr (UInt32 (ids i)) \<and>
      get (nodelist_key i ''name'') = Inr (Text (names i)) \<and> get (nodelist_key i ''ring0_addr'') = Inr (Text (ips i))"
    and "get (nodelist_key n ''nodeid'') = Inl CsErrNotExist" and "n \<le> 256"
    and "get ''totem.cluster_name'' = Inr (Text name)" and "get ''totem.config_version'' = Inr (UInt64 v)"
  shows "read_cluster_config get st = (Ok (), update_cluster_info name v (map (\<lambda>i. (ids i, names i, ips i)) [0..<n]) st)"
  using read_nodes_prefix [of n get 0 ids names ips 256] assms
  by (simp add: read_cluster_config_def read_cluster_nodes_def Let_def)

end
