(* ===== verification/Node_Start.thy ===== *)
theory Node_Start
  imports Mem_Props Mem_Sync Service_Props
begin

text \<open>
  Start of a node (\<open>pmxcfs/src/main.rs\<close>), as far as it concerns the database and the status: the import
  of \<open>corosync.conf\<close>, the choice between local mode and cluster mode, and the services that are started;
  the lock file (\<open>file_lock.rs\<close>). The files on the disk are an argument: a path has no file, a file that
  cannot be read as text, or a text.
\<close>

section \<open>Lock file\<close>

definition MAX_RETRIES :: nat where "MAX_RETRIES = 10"

text \<open>The loop over the attempts that are left; \<open>try_lock\<close> says how an attempt ends (\<open>None\<close> an error).\<close>

fun acquire_file_lock :: "(nat \<Rightarrow> bool option) \<Rightarrow> nat list \<Rightarrow> (unit, nat) res" where
  "acquire_file_lock try_lock [] = Panic"
| "acquire_file_lock try_lock (attempt # later) =
     (case try_lock attempt of
        None \<Rightarrow> Err ()
      | Some True \<Rightarrow> Ok attempt
      | Some False \<Rightarrow> if attempt = MAX_RETRIES then Err () else acquire_file_lock try_lock later)"

definition file_lock_acquire :: "(nat \<Rightarrow> bool option) \<Rightarrow> (unit, nat) res" where
  "file_lock_acquire try_lock = acquire_file_lock try_lock [0..<MAX_RETRIES + 1]"

section \<open>Names\<close>

definition get_nodename :: "string \<Rightarrow> string" where
  "get_nodename nodename = takeWhile (\<lambda>c. c \<noteq> CHR ''.'') nodename"

definition resolve_node_ip :: "('ip \<Rightarrow> bool) \<Rightarrow> 'ip list option \<Rightarrow> 'ip option" where
  "resolve_node_ip is_loopback addrs = Option.bind addrs (List.find (\<lambda>ip. \<not> is_loopback ip))"

section \<open>Database and mode\<close>

definition HOST_CLUSTER_CONF_FN :: string where "HOST_CLUSTER_CONF_FN = ''/etc/corosync/corosync.conf''"

definition conf_path :: string where "conf_path = ''/corosync.conf''"

record start_env =
  sn_now :: u64
  sn_pid :: u32
  sn_disk :: "string \<Rightarrow> string option option"
  sn_write :: write_outcome \<comment> \<open>of the system file\<close>

definition import_corosync_conf ::
  "'db sqlite \<Rightarrow> (byte list \<Rightarrow> byte list) \<Rightarrow> u64 \<Rightarrow> string option \<Rightarrow> 'db MemDb \<Rightarrow> ('db, unit) memop" where
  "import_corosync_conf sq sha now file m =
     (case file of
        None \<Rightarrow> (Ok (), m)
      | Some content \<Rightarrow>
          (case create sq sha now conf_path 0 0 (ucast now) m of
             (Ok _, m1) \<Rightarrow>
               (case write_op sq conf_path 0 0 (ucast now) (as_bytes content) False m1 of
                  (Ok _, m2) \<Rightarrow> (Ok (), m2) | (Err e, m2) \<Rightarrow> (Err e, m2) | (Panic, m2) \<Rightarrow> (Panic, m2))
           | (Err e, m1) \<Rightarrow> (Err e, m1)
           | (Panic, m1) \<Rightarrow> (Panic, m1)))"

definition import_if_missing ::
  "'db sqlite \<Rightarrow> (byte list \<Rightarrow> byte list) \<Rightarrow> start_env \<Rightarrow> bool \<Rightarrow> string \<Rightarrow> 'db MemDb \<Rightarrow> ('db, unit) memop" where
  "import_if_missing sq sha se force_local corosync_conf_path m =
     (if \<not> path_exists m conf_path \<and> \<not> force_local then
        let import_path = (if sn_disk se corosync_conf_path \<noteq> None then corosync_conf_path else HOST_CLUSTER_CONF_FN) in
        (case sn_disk se import_path of
           None \<Rightarrow> (Ok (), m)
         | Some file \<Rightarrow> import_corosync_conf sq sha (sn_now se) file m)
      else (Ok (), m))"

text \<open>The two state machines; the database group has protocol version 1, the status group version 0.\<close>

record cluster_services =
  cv_database :: "FuseMessage Dfsm"
  cv_status :: "KvStoreMessage Dfsm"
  cv_written :: "byte list option" \<comment> \<open>what was written to the system file\<close>

definition setup_cluster_services :: "start_env \<Rightarrow> 'db MemDb \<Rightarrow> (mem_error, cluster_services) res" where
  "setup_cluster_services se m =
     (case sync_corosync_conf None True (sn_write se) m of
        Ok written \<Rightarrow>
          Ok \<lparr>cv_database = new_with_protocol_version (ucast (sn_now se)) (sn_pid se) 1,
              cv_status = new_with_protocol_version (ucast (sn_now se)) (sn_pid se) 0, cv_written = written\<rparr>
      | Err e \<Rightarrow> Err e
      | Panic \<Rightarrow> Panic)"

definition start_node ::
  "'db sqlite \<Rightarrow> (byte list \<Rightarrow> byte list) \<Rightarrow> start_env \<Rightarrow> bool \<Rightarrow> string \<Rightarrow> string \<Rightarrow> 'db MemDb \<Rightarrow> Status
   \<Rightarrow> (mem_error, cluster_services option) res \<times> 'db MemDb \<times> Status" where
  "start_node sq sha se force_local corosync_conf_path cluster_name m status =
     (case import_if_missing sq sha se force_local corosync_conf_path m of
        (Err e, m1) \<Rightarrow> (Err e, m1, status)
      | (Panic, m1) \<Rightarrow> (Panic, m1, status)
      | (Ok _, m1) \<Rightarrow>
          if path_exists m1 conf_path \<and> \<not> force_local then
            (case setup_cluster_services se m1 of
               Ok services \<Rightarrow> (Ok (Some services), m1, init_cluster cluster_name status)
             | Err e \<Rightarrow> (Err e, m1, status)
             | Panic \<Rightarrow> (Panic, m1, status))
          else (Ok None, m1, init_cluster cluster_name (set_quorate True status)))"

text \<open>The names of the services that are handed to the manager, in the order of registration.\<close>

definition setup_services :: "bool \<Rightarrow> bool \<Rightarrow> cluster_services option \<Rightarrow> string list option" where
  "setup_services has_corosync_conf force_local services =
     map_option (\<lambda>_. [''cluster-database'', ''status-sync''] @
       (if has_corosync_conf \<and> \<not> force_local then [''cluster-config''] else []) @ [''quorum'']) services"

section \<open>Lemmas\<close>

lemma conf_parts: "path_parts conf_path = [''corosync.conf'']" "view_path conf_path = [''corosync.conf'']"
proof -
  show "path_parts conf_path = [''corosync.conf'']" by code_simp
  then show "view_path conf_path = [''corosync.conf'']" by (simp add: view_path_def conf_path_def)
qed

lemma exists_abs: "path_exists m conf_path \<longleftrightarrow> abs_fs m [''corosync.conf''] \<noteq> None"
  using lookup_abs [of m conf_path] by (simp add: conf_parts path_exists_def)

text \<open>The lock is acquired by the first of eleven attempts that succeeds.\<close>

lemma file_lock_attempts:
  assumes "\<And>i. i < n \<Longrightarrow> try_lock i = Some False" and "n \<le> 10" and "try_lock n = Some True"
  shows "file_lock_acquire try_lock = Ok n"
proof -
  have "acquire_file_lock try_lock [k..<11] = Ok n" if "k \<le> n" for k
    using that
  proof (induction "n - k" arbitrary: k)
    case 0
    then show ?case using assms(2,3) by (simp add: upt_conv_Cons)
  next
    case (Suc d)
    then have "try_lock k = Some False" "k \<noteq> MAX_RETRIES" "d = n - Suc k" "Suc k \<le> n"
      using assms(1,2) by (auto simp: MAX_RETRIES_def)
    then show ?case using Suc.hyps(1) [of "Suc k"] assms(2) Suc.prems by (simp add: upt_conv_Cons)
  qed
  from this [of 0] show ?thesis by (simp add: file_lock_acquire_def MAX_RETRIES_def)
qed

lemma created_entry_at:
  assumes "create sq sha now path mode writer mtime m = (Ok (), m')"
  shows "\<exists>parent b. hm_get (db_index m') (db_version m + 1) = Some (new_entry (db_version m + 1) parent mode writer mtime b)"
    and "memdb_inv m \<Longrightarrow> no_wrap m \<Longrightarrow> \<exists>re. hm_get (db_index m') ROOT_INODE = Some re \<and> te_version re \<noteq> 0"
proof -
  from assms obtain b parent v db' where m': "hm_get (db_index m') i = (if i = v then Some (new_entry v parent mode writer mtime b)
      else hm_get (db_index (stamp_root v writer mtime db' m)) i)" and v: "v = db_version m + 1" for i
  proof (cases rule: create_cases)
    case (2 d b pe v db')
    show ?thesis by (rule that [of v "te_inode pe" b db']) (simp_all add: 2)
  qed simp
  show "\<exists>parent b. hm_get (db_index m') (db_version m + 1) = Some (new_entry (db_version m + 1) parent mode writer mtime b)"
    using m' v by auto
  assume inv: "memdb_inv m" and nw: "no_wrap m"
  obtain r where "hm_get (db_index m) ROOT_INODE = Some r" "db_root_inode m = ROOT_INODE"
    using inv_root [OF inv] inv_parts(1) [OF inv] by (auto simp: index_inv_def)
  from this show "\<exists>re. hm_get (db_index m') ROOT_INODE = Some re \<and> te_version re \<noteq> 0"
  proof -
    assume root: "hm_get (db_index m) ROOT_INODE = Some r" "db_root_inode m = ROOT_INODE"
    have "v \<noteq> 0" using v nw by (simp add: no_wrap_def)
    then show ?thesis using m' [of ROOT_INODE] root
      by (cases "v = ROOT_INODE") (simp_all add: stamp_root_get touched_entry_def new_entry_def)
  qed
qed

lemma new_file:
  assumes inv: "memdb_inv m" and nw: "no_wrap m" and op: "create sq sha now path 0 writer mtime m = (Ok (), m')"
  shows "\<exists>e. lookup_path m' path = Some e \<and> is_file e \<and> te_data e = []"
proof -
  obtain e where e: "lookup_path m' path = Some e" "te_inode e = db_version m + 1"
    using created_inode [OF inv nw op] .
  have "hm_get (db_index m') (te_inode e) = Some e" using lookup_index [OF create_inv [OF inv nw op] e(1)] .
  then show ?thesis using e created_entry_at(1) [OF op] by (auto simp: new_entry_def is_file_def)
qed

lemma bumped_lookup:
  assumes "bumped m m'"
  shows "lookup_path m' p = lookup_path m p" "db_index m' = db_index m"
proof -
  obtain b where "m' = m\<lparr>db_version := db_version m + 1, db_errors := b\<rparr>" using assms unfolding bumped_def by blast
  then show "lookup_path m' p = lookup_path m p" "db_index m' = db_index m"
    by (simp_all add: lookup_path_def cong: option.case_cong)
qed

lemma write_failed_lookup:
  assumes "write_op sq path offset writer mtime data trunc m = (Err e, m')"
  shows "lookup_path m' p = lookup_path m p" "db_index m' = db_index m"
proof -
  have "m' = m \<or> bumped m m'" using assms by (cases rule: write_cases) auto
  then show "lookup_path m' p = lookup_path m p" "db_index m' = db_index m"
    using bumped_lookup [of m m'] by auto
qed

text \<open>An import that fails after the file was created leaves it empty.\<close>

lemma failed_import:
  assumes inv: "memdb_inv m" and nw: "no_wrap m" and new: "\<not> path_exists m conf_path"
    and op: "import_corosync_conf sq sha now (Some content) m = (Err e, m')" and ex: "path_exists m' conf_path"
  obtains m1 where "create sq sha now conf_path 0 0 (ucast now) m = (Ok (), m1)"
    and "write_op sq conf_path 0 0 (ucast now) (as_bytes content) False m1 = (Err e, m')"
proof (cases "create sq sha now conf_path 0 0 (ucast now) m")
  case (Pair r m1)
  show ?thesis
  proof (cases r)
    case (Ok u)
    then show ?thesis
      using that Pair op by (auto simp: import_corosync_conf_def split: prod.splits res.splits)
  next
    case (Err e')
    then have "m1 = m' \<and> (m' = m \<or> bumped m m')"
      using Pair op by (auto simp: import_corosync_conf_def elim: create_cases)
    then show ?thesis using ex new bumped_lookup [of m m'] by (auto simp: path_exists_def)
  next
    case Panic
    then show ?thesis using Pair op by (auto simp: import_corosync_conf_def)
  qed
qed

section \<open>Properties\<close>

text \<open>
  The mode of a node follows its configuration: it is in local mode, without services and quorate, exactly
  if that was demanded or the database has no \<open>corosync.conf\<close> after the import; otherwise it is not quorate
  before the quorum service says so. A file that was imported is read back as it was on the disk.
\<close>

lemma mode_follows_configuration:
  assumes inv: "memdb_inv m" and room: "room_for 2 m" and "\<not> st_quorate status"
    and start: "start_node sq sha se force_local p name m status = (Ok services, m', status')"
  shows "memdb_inv m' \<and> (services = None \<longleftrightarrow> force_local \<or> \<not> path_exists m' conf_path) \<and>
    (st_quorate status' \<longleftrightarrow> services = None) \<and>
    (\<not> path_exists m conf_path \<and> path_exists m' conf_path \<longrightarrow>
       (\<exists>file content. sn_disk se file = Some (Some content) \<and>
          read m' conf_path 0 (length content) = Ok (as_bytes content)))"
proof -
  have im: "import_if_missing sq sha se force_local p m = (Ok (), m')"
    using start by (auto simp: start_node_def split: prod.splits res.splits if_splits)
  have mode: "services = None \<longleftrightarrow> force_local \<or> \<not> path_exists m' conf_path" "st_quorate status' \<longleftrightarrow> services = None"
    using start im assms(3)
    by (auto simp: start_node_def init_cluster_def increment_cluster_version_def set_quorate_def split: res.splits if_splits)
  have "m' = m \<or> (\<exists>file content m1 n. sn_disk se file = Some (Some content) \<and>
      create sq sha (sn_now se) conf_path 0 0 (ucast (sn_now se)) m = (Ok (), m1) \<and>
      write_op sq conf_path 0 0 (ucast (sn_now se)) (as_bytes content) False m1 = (Ok n, m'))"
    using im by (fastforce simp: import_if_missing_def import_corosync_conf_def Let_def split: if_splits option.splits prod.splits res.splits)
  then show ?thesis
  proof (elim disjE exE conjE)
    fix f content m1 n
    assume f: "sn_disk se f = Some (Some content)" and c: "create sq sha (sn_now se) conf_path 0 0 (ucast (sn_now se)) m = (Ok (), m1)"
      and w: "write_op sq conf_path 0 0 (ucast (sn_now se)) (as_bytes content) False m1 = (Ok n, m')"
    have nw: "no_wrap m" using room_no_wrap [OF room] by simp
    note inv1 = create_inv [OF inv nw c]
    have "no_wrap m1" using room_create [OF c, of 1] room room_no_wrap by (fastforce simp: numeral_2_eq_2)
    then show ?thesis
      using mode f written_data [OF inv1 w] write_inv [OF inv1 _ w] by auto
  qed (use inv mode in auto)
qed

text \<open>
  C39. A failing import destroys the configuration of the host. When the content cannot be written after
  the file was created, the start is aborted, and the database keeps an empty \<open>corosync.conf\<close>. The next
  start finds it, runs in cluster mode and overwrites the system file with it.
\<close>

theorem failed_import_empties_configuration:
  assumes laws: "sqlite_laws sq tbl" and inv: "memdb_inv m" and room: "room_for 2 m" and coh: "coherent tbl m"
    and new: "\<not> path_exists m conf_path"
    and op: "import_corosync_conf sq sha now (Some content) m = (Err e, m1)" "path_exists m1 conf_path"
    and reopen: "open_db sq sha now2 (Some (db_conn m1)) False = Ok m2" and w: "sn_write se = WriteOk"
  shows "\<exists>services status'. start_node sq sha se False p name m2 status = (Ok (Some services), m2, status') \<and>
    cv_written services = Some []"
proof -
  have nw: "no_wrap m" using room_no_wrap [OF room] by simp
  have utf8: "from_utf8 [] = Some []" by code_simp
  obtain m0 where c: "create sq sha now conf_path 0 0 (ucast now) m = (Ok (), m0)"
    and wr: "write_op sq conf_path 0 0 (ucast now) (as_bytes content) False m0 = (Err e, m1)"
    using failed_import [OF inv nw new op] .
  have nw0: "no_wrap m0" using room_create [OF c, of 1] room room_no_wrap by (fastforce simp: numeral_2_eq_2)
  note inv0 = create_inv [OF inv nw c] and coh0 = create_coherent [OF laws inv nw coh c]
  obtain f where f: "lookup_path m0 conf_path = Some f" "is_file f" "te_data f = []" using new_file [OF inv nw c] by blast
  obtain re where re: "hm_get (db_index m0) ROOT_INODE = Some re" "te_version re \<noteq> 0"
    using created_entry_at(2) [OF c inv nw] by blast
  have lk: "lookup_path m1 conf_path = Some f" "hm_get (db_index m1) ROOT_INODE = Some re"
    using write_failed_lookup [OF wr] f(1) re(1) by simp_all
  have "memdb_inv m1" "coherent tbl m1"
    using write_inv [OF inv0 nw0 wr] write_coherent [OF laws inv0 coh0 wr] by simp_all
  then have "same_files m1 m2" using reopen_restores(3) [OF laws _ _ lk(2) re(2) reopen] by simp
  then have "lookup_path m2 conf_path = Some f" using same_files_view lk(1) by (metis lookup_path_view)
  then show ?thesis
    using f w by (simp add: start_node_def import_if_missing_def path_exists_def setup_cluster_services_def
        sync_corosync_conf_def conf_path_def utf8)
qed


text \<open>A file that is one byte too large.\<close>

definition large_conf :: string where "large_conf = replicate (MEMDB_MAX_FILE_SIZE + 1) CHR ''x''"

definition sample_created :: "row list MemDb" where
  "sample_created = snd (create list_sqlite sample_sha 0 conf_path 0 0 0 sample_db)"

definition sample_start :: start_env where
  "sample_start = \<lparr>sn_now = 9, sn_pid = 1, sn_disk = (\<lambda>_. None), sn_write = WriteOk\<rparr>"

lemma sample_import:
  "import_corosync_conf list_sqlite sample_sha 0 (Some large_conf) sample_db = (Err FileTooLarge, sample_created)"
  "path_exists sample_created conf_path"
proof -
  have "fst (create list_sqlite sample_sha 0 conf_path 0 0 0 sample_db) = Ok ()" by code_simp
  then have c: "create list_sqlite sample_sha 0 conf_path 0 0 0 sample_db = (Ok (), sample_created)"
    by (simp add: sample_created_def prod_eq_iff)
  have e: "\<not> db_errors sample_created" "(case lookup_path sample_created conf_path of None \<Rightarrow> False | Some e \<Rightarrow> \<not> is_dir e)"
    by code_simp+
  have "length (as_bytes large_conf) = MEMDB_MAX_FILE_SIZE + 1" by (simp add: large_conf_def)
  moreover have "MEMDB_MAX_FILE_SIZE + 1 < 2 ^ 64" by (simp add: MEMDB_MAX_FILE_SIZE_def)
  ultimately have "write_op list_sqlite conf_path 0 0 0 (as_bytes large_conf) False sample_created = (Err FileTooLarge, sample_created)"
    using e by (auto simp: write_op_def usize_checked_add_def split: option.splits)
  then show "import_corosync_conf list_sqlite sample_sha 0 (Some large_conf) sample_db = (Err FileTooLarge, sample_created)"
    using c by (simp add: import_corosync_conf_def)
  show "path_exists sample_created conf_path" using e(2) by (auto simp: path_exists_def split: option.splits)
qed

theorem failed_import_empties_configuration_witness:
  "\<exists>m2 services status'.
     open_db list_sqlite sample_sha 9
       (Some (db_conn (snd (import_corosync_conf list_sqlite sample_sha 0 (Some large_conf) sample_db)))) False = Ok m2 \<and>
     start_node list_sqlite sample_sha sample_start False HOST_CLUSTER_CONF_FN ''c'' m2 (status_new ''n'' 0) =
       (Ok (Some services), m2, status') \<and> cv_written services = Some []"
proof -
  have "(case open_db list_sqlite sample_sha 9 (Some (db_conn sample_created)) False of Ok m \<Rightarrow> True | _ \<Rightarrow> False)" by code_simp
  then obtain m2 where m2: "open_db list_sqlite sample_sha 9 (Some (db_conn sample_created)) False = Ok m2"
    by (auto split: res.splits)
  have "\<not> path_exists sample_db conf_path" by code_simp
  moreover have "room_for 2 sample_db" by (simp add: room_for_def sample_versions)
  moreover have "sn_write sample_start = WriteOk" by (simp add: sample_start_def)
  ultimately show ?thesis
    using failed_import_empties_configuration [OF list_sqlite_laws sample_inv(1) _ sample_coherent(1) _ sample_import m2] m2 sample_import(1)
    by simp
qed

end
