(* ===== verification/Spec2Isabelle.thy ===== *)
theory Spec2Isabelle
  imports Mem_Index Mem_Props Dfsm_Claims Status_Props Log_Props Fuse_Props Ipc_Conn_Props Rrd_Props Node_Start
begin

text \<open>
  \<^bold>\<open>pmxcfs in Rust: the cluster file system of Proxmox VE\<close> (\<open>src/src/pmxcfs-rs\<close>).

  \<^bold>\<open>The program.\<close> Every node keeps the configuration of the cluster as a small file system in memory
  (\<open>pmxcfs-memdb\<close>), stored in SQLite. Changes are multicast with Corosync and delivered on all nodes in
  the same order by a replicated state machine (\<open>pmxcfs-dfsm\<close>), whose application is
  \<open>memdb_callbacks.rs\<close>. When the membership changes the nodes exchange indices of their databases,
  elect the node with the highest index and the others take its entries. A second instance of the
  state machine, with the application \<open>status_callbacks.rs\<close>, replicates the status of the nodes
  (\<open>pmxcfs-status\<close>): key-value data and the cluster log (\<open>pmxcfs-logger\<close>). Clients see the tree through
  FUSE (\<open>pmxcfs/src/fuse\<close>), where plugins add files with the status, and talk to an IPC service
  (\<open>pmxcfs/src/ipc\<close>) over ring buffers in shared memory in the format of libqb (\<open>pmxcfs-ipc\<close>). Metrics that
  nodes announce go to RRD files (\<open>pmxcfs-rrd\<close>). Services that are restarted when their connection breaks
  (\<open>pmxcfs-services\<close>) connect all this to Corosync.

  \<^bold>\<open>Theories and sources.\<close>
  \<^item> \<open>Pmxcfs_Prelude\<close>: machine integers, results with panics, slices, little-endian numbers, UTF-8, the
    string functions of Rust, the hash map and its contract, the locale \<open>hash_map\<close>. \<open>Ordered_Map\<close>:
    \<open>BTreeMap\<close>.
  \<^item> \<open>Tree_Entry\<close>: \<open>memdb/types.rs\<close>. \<open>Mem_Index\<close>: \<open>memdb/index.rs\<close>. \<open>Mem_Db\<close>: \<open>memdb/database.rs\<close> and the
    part of \<open>locks.rs\<close> that it calls. \<open>Mem_Locks\<close>: \<open>memdb/locks.rs\<close>. \<open>Mem_Sync\<close>: \<open>memdb/sync.rs\<close>. \<open>Vm_List\<close>:
    \<open>memdb/vmlist.rs\<close>.
  \<^item> \<open>Dfsm_Wire\<close>: \<open>types.rs\<close>, \<open>wire_format.rs\<close>, \<open>fuse_message.rs\<close>, \<open>kv_store_message.rs\<close> and
    \<open>dfsm_message.rs\<close> of \<open>pmxcfs-dfsm\<close>. \<open>Dfsm_Machine\<close>: \<open>state_machine.rs\<close> and \<open>callbacks.rs\<close>.
  \<^item> \<open>Log_Entry\<close>, \<open>Log_Buffer\<close>, \<open>Cluster_Log\<close>: \<open>hash.rs\<close> and \<open>entry.rs\<close>, \<open>ring_buffer.rs\<close>, \<open>cluster_log.rs\<close>
    of \<open>pmxcfs-logger\<close>. \<open>Cluster_Status\<close>: \<open>status.rs\<close> and \<open>types.rs\<close> of \<open>pmxcfs-status\<close>.
  \<^item> \<open>Mem_Callbacks\<close>: \<open>pmxcfs/src/memdb_callbacks.rs\<close>. \<open>Status_Callbacks\<close>:
    \<open>pmxcfs/src/status_callbacks.rs\<close>.
  \<^item> \<open>Fuse_Path\<close>, \<open>Fuse_Fs\<close>: \<open>fuse/filesystem.rs\<close>, from paths of inodes to the handlers of all requests.
    \<open>Plugins\<close>: \<open>plugins/\<close> and \<open>pmxcfs-config\<close>. \<open>Rust_Text\<close>: functions on text that they use.
  \<^item> \<open>Ipc_Request\<close>: \<open>ipc/request.rs\<close> and \<open>protocol.rs\<close>. \<open>Ipc_Service\<close>: \<open>ipc/service.rs\<close>. \<open>Ipc_Ring\<close>:
    \<open>ringbuffer.rs\<close> in whole operations, \<open>Ipc_Channel\<close> in single memory accesses of two processes.
    \<open>Ipc_Conn\<close>: \<open>connection.rs\<close> and \<open>server.rs\<close>, with the three tasks of a connection as a step relation.
  \<^item> \<open>Rrd_Key\<close>: \<open>key_type.rs\<close>, \<open>schema.rs\<close> and \<open>transform_data\<close> of \<open>pmxcfs-rrd\<close>. \<open>Rrd_Writer\<close>: \<open>parse.rs\<close>, \<open>rrdcached/\<close>,
    \<open>backend/\<close> and \<open>writer.rs\<close>, and how \<open>Status\<close> calls it.
  \<^item> \<open>Service_Manager\<close>: \<open>manager.rs\<close> and \<open>service.rs\<close> of \<open>pmxcfs-services\<close>, the task of a service as a step
    relation. \<open>Corosync_Services\<close>: \<open>quorum_service.rs\<close>, \<open>cluster_config_service.rs\<close>, \<open>cpg_service.rs\<close>,
    \<open>cluster_database_service.rs\<close>, \<open>status_sync_service.rs\<close> and the part of \<open>state_machine.rs\<close> that calls
    Corosync. \<open>Node_Start\<close>: from \<open>main.rs\<close> the import of \<open>corosync.conf\<close> and the choice of the mode, and
    \<open>file_lock.rs\<close>.

  \<^bold>\<open>How the code is rendered.\<close> A struct is a record, a method a function from the state to its result
  and the new state; \<open>Result\<close> is \<open>res\<close>, which has a third value for panics; \<open>u32\<close> and \<open>u64\<close> are words,
  \<open>usize\<close> is \<open>nat\<close> with the overflow checks of the code. A hash map is an association list: its order
  stands for the iteration order, and statements hold for every order. Locks of the code do not
  appear, except where a handler takes one that it already holds (\<open>Deadlock\<close> in \<open>Dfsm_Machine\<close>).

  \<^bold>\<open>Parameters.\<close> SQLite is the record \<open>sqlite\<close> with the law \<open>sqlite_laws\<close> (statements act on a table of
  rows, a transaction commits or not); \<open>Mem_Sample\<close> shows an instance. SHA-256 and \<open>bincode\<close> are
  functions; where a statement compares digests it assumes that SHA-256 has no collision on the
  entries in question. For the state machine Corosync is the record \<open>env\<close>, which decides whether a
  multicast succeeds; for the services its libraries are the records \<open>quorum_api\<close>, \<open>cmap_api\<close> and
  \<open>cpg_api\<close>, with laws about the handles that are open. Further parameters are the texts of \<open>serde_json\<close>,
  the size of the reply buffer of FUSE and the wait for the delivery of a message (\<open>fuse_env\<close>), the
  credentials and system calls of an IPC handshake, floating-point numbers, librrd and the exchange with
  rrdcached (\<open>rrd_env\<close>), and the event loop of tokio (\<open>Poller\<close>). The clock is an argument.

  \<^bold>\<open>What the lemmas show.\<close>
  \<^item> Database (\<open>Mem_Tree\<close>, \<open>Mem_Inv\<close>, \<open>Mem_Preserve\<close>, \<open>Mem_Capacity\<close>, \<open>Mem_Spec\<close>, \<open>Mem_Persist\<close>, \<open>Mem_Props\<close>):
    the index and the tree of names are well formed after every sequence of operations with every
    outcome; each operation refines an update of a map from paths to files and directories; memory
    and table agree and a database that is opened again is the same; the limits hold; locks exclude.
  \<^item> Replication (\<open>Mem_Replica\<close>, \<open>Replica_Props\<close>): replicas that deliver the same messages stay equal; a
    node that counts as synchronized has the entries of the leader; the election is the same on all
    nodes; a follower that applies the updates of the leader has its entries.
  \<^item> State machine (\<open>Dfsm_Props\<close>, \<open>Dfsm_Claims\<close>): what holds for every application is proved in the
    locale \<open>app\<close>, whose law is that callbacks leave the machine alone apart from multicasting; it is
    interpreted for both applications. Queues stay ordered and bounded, messages are delivered in
    order, the collection of states ends.
  \<^item> Wire formats: what is encoded is decoded to the same value, in \<open>Dfsm_Wire\<close> once for both groups by
    the locale \<open>message\<close>; decoders do not panic, or when they do.
  \<^item> Status and log (\<open>Status_Props\<close>, \<open>Log_Props\<close>): the registry of machines follows the tree, data of nodes
    is what they sent last; the log never holds duplicates, merging keeps the newest entries and does
    not depend on the order, its state survives the wire.
  \<^item> FUSE (\<open>Mem_Rooted\<close>, \<open>Fuse_Inv\<close>, \<open>Fuse_Props\<close>): every request is answered and keeps the database well
    formed, if waiting for the cluster does (locale \<open>safe_wait\<close>); an acknowledged write reaches the
    replicas; directories are listed completely; attributes respect the private directories.
  \<^item> IPC (\<open>Ipc_Props\<close>, \<open>Ipc_Fifo\<close>, \<open>Ipc_Conn_Props\<close>): requests are decoded to what was sent and answered;
    read-only clients change nothing; under every interleaving of writer and reader a ring delivers the
    messages in order and all of them, and as a whole it is a queue (locale \<open>fifo_queue\<close>); the tasks of a
    connection answer every request once for every application that answers (locale \<open>ipc_application\<close>).
  \<^item> Metrics (\<open>Rrd_Props\<close>): files stay below their directory, updates fit the columns, the back end used.
  \<^item> Services (\<open>Service_Manager\<close>, \<open>Service_Props\<close>): under the contract \<open>managed_service\<close>, which is proved for all
    four services, a service is connected exactly while it runs; no quorum without a connection; attempts
    to connect are five seconds apart. The mode of a node follows its configuration (\<open>Node_Start\<close>).
  \<^item> Where the code does not do what it means to do, a theorem says what it does.

  \<^bold>\<open>Bounds.\<close> No model uses fuel: every loop of the code is a terminating recursion, except the search for
  the path of an inode, which may not end and is a partial function (\<open>path_up\<close>, \<open>None\<close> if it does not
  return). Version counters are 64-bit words; statements about histories assume that they do not wrap
  around (\<open>no_wrap\<close>). Rings have at most 16 MiB, as the handshake ensures, and their memory accesses are
  sequentially consistent.

  \<^bold>\<open>Not modelled.\<close> Mounting, the files and mappings of the rings, and the rest of the start-up: command line,
  directories, forking, signals, PID files and logging (\<open>main.rs\<close>, \<open>daemon.rs\<close>). They are sequences of
  system calls without state of their own. The traits that forward to modelled operations, the mocks of
  \<open>pmxcfs-test-utils\<close>, the C implementation and the vendored bindings of Corosync.
\<close>

end
